(* ===== verification/Rust_Str.thy ===== *)
theory Rust_Str
  imports Prelude
begin

text \<open>
  The part of Rust's \<open>str\<close> the crates use, over UTF-8 byte sequences: characters and their code
  points, \<open>trim\<close>, \<open>trim_matches\<close>, \<open>split_once\<close>, \<open>splitn\<close>, \<open>split\<close>, ASCII case folding, integer
  parsing and printing, \<open>from_utf8\<close>; and on top of it the helpers of
  \<open>lakefs-auth-core/src/text.rs\<close> and the \<open>CommaList\<close> of \<open>lakefs-auth-core/src/config.rs\<close>.
\<close>

section \<open>Characters of a UTF-8 byte sequence\<close>

type_synonym u8 = "8 word"

definition byte_of :: "char \<Rightarrow> nat" where
  "byte_of b = of_char b"

definition utf8_cont :: "char \<Rightarrow> nat" where
  "utf8_cont b = (if byte_of b < 192 then 0 else if byte_of b < 224 then 1
                  else if byte_of b < 240 then 2 else 3)"

text \<open>The encodings of the characters, in order: a lead byte and the continuation bytes it announces.\<close>

fun char_slices :: "string \<Rightarrow> string list" where
  "char_slices [] = []"
| "char_slices (b # bs) = (b # take (utf8_cont b) bs) # char_slices (drop (utf8_cont b) bs)"

fun code_point :: "string \<Rightarrow> nat" where
  "code_point [] = 0"
| "code_point [b] = byte_of b"
| "code_point [b, c] = (byte_of b mod 32) * 64 + byte_of c mod 64"
| "code_point [b, c, d] = (byte_of b mod 16) * 4096 + (byte_of c mod 64) * 64 + byte_of d mod 64"
| "code_point (b # c # d # e # _) =
     (byte_of b mod 8) * 262144 + (byte_of c mod 64) * 4096 + (byte_of d mod 64) * 64 + byte_of e mod 64"

definition code_points :: "string \<Rightarrow> nat list" where
  "code_points s = map code_point (char_slices s)"

text \<open>\<open>char::is_control\<close> is the general category Cc, \<open>char::is_whitespace\<close> the property White_Space.\<close>

definition is_control :: "nat \<Rightarrow> bool" where
  "is_control c \<longleftrightarrow> c < 32 \<or> 127 \<le> c \<and> c < 160"

definition is_whitespace :: "nat \<Rightarrow> bool" where
  "is_whitespace c \<longleftrightarrow> 9 \<le> c \<and> c \<le> 13 \<or> c = 32 \<or> c = 133 \<or> c = 160 \<or> c = 5760
     \<or> 8192 \<le> c \<and> c \<le> 8202 \<or> c = 8232 \<or> c = 8233 \<or> c = 8239 \<or> c = 8287 \<or> c = 12288"

definition has_control :: "string \<Rightarrow> bool" where
  "has_control s = list_ex is_control (code_points s)"

definition has_whitespace :: "string \<Rightarrow> bool" where
  "has_whitespace s = list_ex is_whitespace (code_points s)"

lemma concat_char_slices [simp]: "concat (char_slices s) = s"
  by (induction s rule: char_slices.induct) auto

text \<open>
  A list of slices is the character list of its concatenation when every slice is a lead byte with
  the bytes it announces; only the last one may be cut short.
\<close>

fun slices_ok :: "string list \<Rightarrow> bool" where
  "slices_ok [] \<longleftrightarrow> True"
| "slices_ok (x # xs) \<longleftrightarrow> (case x of [] \<Rightarrow> False
     | b # bs \<Rightarrow> (if xs = [] then length bs \<le> utf8_cont b else length bs = utf8_cont b)) \<and> slices_ok xs"

lemma slices_ok_char_slices: "slices_ok (char_slices s)"
proof (induction s rule: char_slices.induct)
  case (2 b bs)
  show ?case
  proof (cases "drop (utf8_cont b) bs = []")
    case False
    then have "utf8_cont b < length bs" by simp
    moreover from False have "char_slices (drop (utf8_cont b) bs) \<noteq> []"
      by (cases "drop (utf8_cont b) bs") auto
    ultimately show ?thesis using "2.IH" by (simp add: min_def)
  qed auto
qed simp

lemma char_slices_concat: "slices_ok xs \<Longrightarrow> char_slices (concat xs) = xs"
proof (induction xs)
  case (Cons x xs)
  then obtain b bs where x: "x = b # bs" by (cases x) auto
  with Cons show ?case by (cases "xs = []") auto
qed simp

lemma slices_ok_dropWhile: "slices_ok xs \<Longrightarrow> slices_ok (dropWhile p xs)"
  by (induction xs) auto

lemma slices_ok_snocD: "slices_ok (xs @ ys) \<Longrightarrow> slices_ok xs"
proof (induction xs)
  case (Cons x xs)
  then show ?case by (cases x) (auto split: if_splits)
qed simp

lemma slices_ok_rev_dropWhile_rev: "slices_ok xs \<Longrightarrow> slices_ok (rev (dropWhile p (rev xs)))"
proof -
  assume ok: "slices_ok xs"
  have "xs = rev (dropWhile p (rev xs)) @ rev (takeWhile p (rev xs))"
    by (metis rev_append rev_rev_ident takeWhile_dropWhile_id)
  with ok show ?thesis by (metis slices_ok_snocD)
qed

section \<open>Trimming\<close>

definition trim_list :: "('a \<Rightarrow> bool) \<Rightarrow> 'a list \<Rightarrow> 'a list" where
  "trim_list p xs = rev (dropWhile p (rev (dropWhile p xs)))"

definition trim :: "string \<Rightarrow> string" where
  "trim s = concat (trim_list (\<lambda>x. is_whitespace (code_point x)) (char_slices s))"

definition trim_matches :: "char \<Rightarrow> string \<Rightarrow> string" where
  "trim_matches c s = trim_list (\<lambda>x. x = c) s"

definition trim_end_matches :: "char \<Rightarrow> string \<Rightarrow> string" where
  "trim_end_matches c s = rev (dropWhile (\<lambda>x. x = c) (rev s))"

lemma dropWhile_idI: "(xs \<noteq> [] \<Longrightarrow> \<not> p (hd xs)) \<Longrightarrow> dropWhile p xs = xs"
  by (cases xs) auto

lemma trim_list_ends:
  assumes "trim_list p xs \<noteq> []"
  shows "\<not> p (hd (trim_list p xs))" "\<not> p (last (trim_list p xs))"
proof -
  let ?ys = "dropWhile p xs" and ?zs = "trim_list p xs"
  have ne: "dropWhile p (rev ?ys) \<noteq> []" using assms by (simp add: trim_list_def)
  show "\<not> p (last ?zs)" using hd_dropWhile [OF ne] ne by (simp add: trim_list_def last_rev)
  have split: "?ys = ?zs @ rev (takeWhile p (rev ?ys))"
    by (metis trim_list_def rev_append rev_rev_ident takeWhile_dropWhile_id)
  then have "?ys \<noteq> []" using assms by (metis append_is_Nil_conv)
  then have "\<not> p (hd ?ys)" by (rule hd_dropWhile)
  moreover have "hd ?ys = hd ?zs" using split assms by (metis hd_append2)
  ultimately show "\<not> p (hd ?zs)" by simp
qed

lemma trim_list_idem [simp]: "trim_list p (trim_list p xs) = trim_list p xs"
proof (cases "trim_list p xs = []")
  case False
  let ?zs = "trim_list p xs"
  have "dropWhile p ?zs = ?zs" using trim_list_ends(1) [OF False] by (intro dropWhile_idI)
  moreover have "dropWhile p (rev ?zs) = rev ?zs"
    using trim_list_ends(2) [OF False] False by (intro dropWhile_idI) (simp add: hd_rev)
  ultimately show ?thesis by (simp add: trim_list_def [of p ?zs])
next
  case True
  show ?thesis unfolding True by (simp add: trim_list_def)
qed

lemma set_trim_list: "set (trim_list p xs) \<subseteq> set xs"
  unfolding trim_list_def by (metis set_dropWhileD set_rev subsetI)

lemma char_slices_trim:
  "char_slices (trim s) = trim_list (\<lambda>x. is_whitespace (code_point x)) (char_slices s)"
  unfolding trim_def trim_list_def
  by (intro char_slices_concat slices_ok_rev_dropWhile_rev slices_ok_dropWhile slices_ok_char_slices)

lemma trim_idem [simp]: "trim (trim s) = trim s"
  by (simp add: trim_def [of "trim s"] char_slices_trim) (simp add: trim_def)

lemma trim_matches_idem [simp]: "trim_matches c (trim_matches c s) = trim_matches c s"
  by (simp add: trim_matches_def)

lemma trim_Nil [simp]: "trim [] = []"
  by (simp add: trim_def trim_list_def)

lemma ascii_slices: "list_all (\<lambda>c. byte_of c < 128) s \<Longrightarrow> char_slices s = map (\<lambda>c. [c]) s"
  by (induction s rule: char_slices.induct) (auto simp: utf8_cont_def)

lemma dropWhile_none: "\<forall>x \<in> set xs. \<not> p x \<Longrightarrow> dropWhile p xs = xs"
  by (cases xs) auto

lemma trim_list_none: "\<forall>x \<in> set xs. \<not> p x \<Longrightarrow> trim_list p xs = xs"
  by (simp add: trim_list_def dropWhile_none)

text \<open>A text of printable ASCII characters other than the blank has nothing to trim.\<close>

lemma trim_graphic: "list_all (\<lambda>c. 33 \<le> byte_of c \<and> byte_of c < 127) s \<Longrightarrow> trim s = s"
proof -
  assume g: "list_all (\<lambda>c. 33 \<le> byte_of c \<and> byte_of c < 127) s"
  then have sl: "char_slices s = map (\<lambda>c. [c]) s" by (intro ascii_slices) (auto simp: list_all_iff)
  have w: "\<not> is_whitespace (code_point [c])" if "c \<in> set s" for c using g that by (auto simp: list_all_iff is_whitespace_def)
  have "trim_list (\<lambda>x. is_whitespace (code_point x)) (map (\<lambda>c. [c]) s) = map (\<lambda>c. [c]) s"
    using w by (intro trim_list_none) auto
  then show ?thesis unfolding trim_def sl by (simp add: concat_map_singleton)
qed

lemma trim_blank: "trim (CHR '' '' # s) = trim s"
  by (simp add: trim_def trim_list_def utf8_cont_def byte_of_def is_whitespace_def)

lemma set_trim: "set (trim s) \<subseteq> set s"
proof
  fix x assume "x \<in> set (trim s)"
  then obtain y where "y \<in> set (char_slices s)" "x \<in> set y"
    unfolding trim_def using set_trim_list by fastforce
  then show "x \<in> set s" by (metis concat_char_slices set_concat UN_I)
qed

section \<open>Searching and splitting\<close>

text \<open>The splitting functions also serve byte slices.\<close>

definition starts_with :: "string \<Rightarrow> string \<Rightarrow> bool" where
  "starts_with p s \<longleftrightarrow> take (length p) s = p"

definition ends_with :: "string \<Rightarrow> string \<Rightarrow> bool" where
  "ends_with p s \<longleftrightarrow> starts_with (rev p) (rev s)"

fun split_once :: "'a \<Rightarrow> 'a list \<Rightarrow> ('a list \<times> 'a list) option" where
  "split_once c [] = None"
| "split_once c (x # xs) = (if x = c then Some ([], xs)
     else map_option (\<lambda>(a, b). (x # a, b)) (split_once c xs))"

fun split_once_str :: "string \<Rightarrow> string \<Rightarrow> (string \<times> string) option" where
  "split_once_str p [] = (if p = [] then Some ([], []) else None)"
| "split_once_str p (x # xs) = (if starts_with p (x # xs) then Some ([], drop (length p) (x # xs))
     else map_option (\<lambda>(a, b). (x # a, b)) (split_once_str p xs))"

fun split_on :: "char \<Rightarrow> string \<Rightarrow> string list" where
  "split_on c [] = [[]]"
| "split_on c (x # xs) = (if x = c then [] # split_on c xs
     else (case split_on c xs of [] \<Rightarrow> [[x]] | p # ps \<Rightarrow> (x # p) # ps))"

fun splitn :: "nat \<Rightarrow> 'a \<Rightarrow> 'a list \<Rightarrow> 'a list list" where
  "splitn 0 c s = []"
| "splitn (Suc 0) c s = [s]"
| "splitn (Suc (Suc n)) c s = (case split_once c s of None \<Rightarrow> [s] | Some (a, b) \<Rightarrow> a # splitn (Suc n) c b)"

fun join :: "'a list \<Rightarrow> 'a list list \<Rightarrow> 'a list" where
  "join sep [] = []"
| "join sep [x] = x"
| "join sep (x # y # ys) = x @ sep @ join sep (y # ys)"

lemma starts_with_iff: "starts_with p s \<longleftrightarrow> (\<exists>r. s = p @ r)"
proof
  assume "starts_with p s"
  then have "s = p @ drop (length p) s" unfolding starts_with_def by (metis append_take_drop_id)
  then show "\<exists>r. s = p @ r" ..
qed (auto simp: starts_with_def)

lemma ends_with_iff: "ends_with p s \<longleftrightarrow> (\<exists>r. s = r @ p)"
  unfolding ends_with_def starts_with_iff by (metis rev_append rev_rev_ident)

lemma starts_with_Nil [simp]: "starts_with [] s"
  by (simp add: starts_with_def)

lemma split_once_None_iff: "split_once c s = None \<longleftrightarrow> c \<notin> set s"
  by (induction s) auto

lemma split_once_Some_iff: "split_once c s = Some (a, b) \<longleftrightarrow> s = a @ c # b \<and> c \<notin> set a"
proof (induction s arbitrary: a)
  case (Cons x xs)
  show ?case
  proof (cases "x = c")
    case True
    then show ?thesis by (cases a) auto
  next
    case False
    then show ?thesis using Cons.IH by (cases a) auto
  qed
qed simp

lemma split_once_append: "c \<notin> set a \<Longrightarrow> split_once c (a @ c # b) = Some (a, b)"
  by (simp add: split_once_Some_iff)

lemma split_on_not_Nil [simp]: "split_on c s \<noteq> []"
  by (induction s) (auto split: list.splits)

lemma join_split_on: "join [c] (split_on c s) = s"
proof (induction s)
  case (Cons x xs)
  then show ?case
    by (cases "split_on c xs" rule: list.exhaust; cases "tl (split_on c xs)")
      (auto split: list.splits)
qed simp

lemma split_on_no_sep: "p \<in> set (split_on c s) \<Longrightarrow> c \<notin> set p"
  by (induction s arbitrary: p) (auto split: list.splits if_splits)

lemma split_on_append: "c \<notin> set a \<Longrightarrow> split_on c (a @ c # b) = a # split_on c b"
  by (induction a) auto

lemma split_on_plain: "c \<notin> set a \<Longrightarrow> split_on c a = [a]"
  by (induction a) auto

section \<open>ASCII case folding\<close>

definition ascii_lower :: "char \<Rightarrow> char" where
  "ascii_lower c = (if 65 \<le> byte_of c \<and> byte_of c \<le> 90 then char_of (byte_of c + 32) else c)"

definition to_ascii_lowercase :: "string \<Rightarrow> string" where
  "to_ascii_lowercase s = map ascii_lower s"

definition eq_ignore_ascii_case :: "string \<Rightarrow> string \<Rightarrow> bool" where
  "eq_ignore_ascii_case a b \<longleftrightarrow> to_ascii_lowercase a = to_ascii_lowercase b"

section \<open>Integers as text\<close>

definition digit_value :: "char \<Rightarrow> nat option" where
  "digit_value c = (if 48 \<le> byte_of c \<and> byte_of c \<le> 57 then Some (byte_of c - 48) else None)"

fun parse_digits :: "nat \<Rightarrow> string \<Rightarrow> nat option" where
  "parse_digits acc [] = Some acc"
| "parse_digits acc (c # cs) = (case digit_value c of None \<Rightarrow> None
     | Some d \<Rightarrow> parse_digits (acc * 10 + d) cs)"

definition i64_min :: int where "i64_min = - (2 ^ 63)"
definition i64_max :: int where "i64_max = 2 ^ 63 - 1"

text \<open>\<open>str::parse::<i64>\<close>: an optional sign, at least one digit, and a value in range.\<close>

definition parse_i64 :: "string \<Rightarrow> int option" where
  "parse_i64 s = opt_filter (\<lambda>v. i64_min \<le> v \<and> v \<le> i64_max)
     (case s of [] \<Rightarrow> None
      | c # cs \<Rightarrow> (if c = CHR ''-'' \<and> cs \<noteq> [] then map_option (\<lambda>n. - int n) (parse_digits 0 cs)
                  else if c = CHR ''+'' \<and> cs \<noteq> [] then map_option int (parse_digits 0 cs)
                  else map_option int (parse_digits 0 (c # cs))))"

fun show_nat :: "nat \<Rightarrow> string" where
  "show_nat n = (if n < 10 then [char_of (48 + n)] else show_nat (n div 10) @ [char_of (48 + n mod 10)])"

declare show_nat.simps [simp del]

definition show_int :: "int \<Rightarrow> string" where
  "show_int i = (if i < 0 then CHR ''-'' # show_nat (nat (- i)) else show_nat (nat i))"

lemma byte_of_char_of [simp]: "n < 256 \<Longrightarrow> byte_of (char_of n) = n"
  by (simp add: byte_of_def)

lemma digit_value_digit [simp]: "n < 10 \<Longrightarrow> digit_value (char_of (48 + n)) = Some n"
  by (simp add: digit_value_def)

lemma parse_digits_append:
  "parse_digits acc (xs @ ys) = Option.bind (parse_digits acc xs) (\<lambda>a. parse_digits a ys)"
  by (induction xs arbitrary: acc) (auto split: option.splits)

lemma parse_digits_show_nat: "parse_digits 0 (show_nat n) = Some n"
proof (induction n rule: show_nat.induct)
  case (1 n)
  show ?case
  proof (cases "n < 10")
    case True
    then show ?thesis by (subst show_nat.simps) simp
  next
    case False
    with "1.IH" show ?thesis
      by (subst show_nat.simps) (simp add: parse_digits_append)
  qed
qed

lemma show_nat_not_Nil [simp]: "show_nat n \<noteq> []"
  by (subst show_nat.simps) simp

lemma show_nat_digits: "c \<in> set (show_nat n) \<Longrightarrow> 48 \<le> byte_of c \<and> byte_of c \<le> 57"
proof (induction n rule: show_nat.induct)
  case (1 n)
  show ?case
  proof (cases "n < 10")
    case True
    with "1.prems" show ?thesis by (subst (asm) show_nat.simps) auto
  next
    case False
    with "1.prems" have "c \<in> set (show_nat (n div 10)) \<or> c = char_of (48 + n mod 10)"
      by (subst (asm) show_nat.simps) auto
    moreover have "n mod 10 < 10" by simp
    ultimately show ?thesis using "1.IH" [OF False] by (auto simp: less_Suc_eq_le)
  qed
qed

lemma show_int_chars:
  "c \<in> set (show_int i) \<Longrightarrow> c = CHR ''-'' \<or> 48 \<le> byte_of c \<and> byte_of c \<le> 57"
  by (auto simp: show_int_def split: if_splits dest: show_nat_digits)

theorem parse_show_i64: "i64_min \<le> i \<Longrightarrow> i \<le> i64_max \<Longrightarrow> parse_i64 (show_int i) = Some i"
proof -
  assume range: "i64_min \<le> i" "i \<le> i64_max"
  obtain c cs where cs: "show_nat (nat i) = c # cs" by (cases "show_nat (nat i)") auto
  then have "48 \<le> byte_of c" using show_nat_digits [of c "nat i"] by simp
  then have "c \<noteq> CHR ''-''" "c \<noteq> CHR ''+''" by (auto simp: byte_of_def)
  moreover have "parse_digits 0 (c # cs) = Some (nat i)"
    using parse_digits_show_nat [of "nat i"] cs by simp
  ultimately show ?thesis using range
    by (cases "i < 0")
      (auto simp: parse_i64_def show_int_def parse_digits_show_nat cs simp del: parse_digits.simps)
qed

section \<open>Bytes and UTF-8 validation\<close>

definition as_bytes :: "string \<Rightarrow> u8 list" where
  "as_bytes s = map of_char s"

definition bytes_as_str :: "u8 list \<Rightarrow> string" where
  "bytes_as_str bs = map (\<lambda>b. char_of (unat b)) bs"

text \<open>Well-formed UTF-8 (Unicode table 3-7): what \<open>String::from_utf8\<close> accepts.\<close>

definition cont_byte :: "nat \<Rightarrow> bool" where
  "cont_byte b \<longleftrightarrow> 128 \<le> b \<and> b \<le> 191"

fun utf8_valid :: "nat list \<Rightarrow> bool" where
  "utf8_valid [] = True"
| "utf8_valid (a # bs) =
    (if a < 128 then utf8_valid bs
     else if 194 \<le> a \<and> a \<le> 223 then (case bs of b # r \<Rightarrow> cont_byte b \<and> utf8_valid r | _ \<Rightarrow> False)
     else if 224 \<le> a \<and> a \<le> 239 then (case bs of b # c # r \<Rightarrow>
         (if a = 224 then 160 else 128) \<le> b \<and> b \<le> (if a = 237 then 159 else 191) \<and> cont_byte c
         \<and> utf8_valid r | _ \<Rightarrow> False)
     else if 240 \<le> a \<and> a \<le> 244 then (case bs of b # c # d # r \<Rightarrow>
         (if a = 240 then 144 else 128) \<le> b \<and> b \<le> (if a = 244 then 143 else 191) \<and> cont_byte c
         \<and> cont_byte d \<and> utf8_valid r | _ \<Rightarrow> False)
     else False)"

definition from_utf8 :: "u8 list \<Rightarrow> string option" where
  "from_utf8 bs = (if utf8_valid (map unat bs) then Some (bytes_as_str bs) else None)"

text \<open>The invariant of the Rust type: a \<open>str\<close> is well-formed UTF-8.\<close>

definition str_ok :: "string \<Rightarrow> bool" where
  "str_ok s \<longleftrightarrow> utf8_valid (map byte_of s)"

lemma unat_of_char [simp]: "unat (of_char c :: u8) = byte_of c"
proof -
  have "(of_char c :: u8) = of_nat (of_char c)" by (rule of_nat_of_char [symmetric])
  then show ?thesis by (simp add: byte_of_def unat_of_nat)
qed

lemma bytes_as_str_as_bytes [simp]: "bytes_as_str (as_bytes s) = s"
  by (induction s) (simp_all add: bytes_as_str_def as_bytes_def byte_of_def)

lemma length_as_bytes [simp]: "length (as_bytes s) = length s"
  by (simp add: as_bytes_def)

lemma as_bytes_inj: "as_bytes a = as_bytes b \<longleftrightarrow> a = b"
  by (metis bytes_as_str_as_bytes)

lemma as_bytes_append [simp]: "as_bytes (a @ b) = as_bytes a @ as_bytes b"
  by (simp add: as_bytes_def)

lemma from_utf8_as_bytes: "str_ok s \<Longrightarrow> from_utf8 (as_bytes s) = Some s"
  using bytes_as_str_as_bytes [of s]
  by (simp add: from_utf8_def str_ok_def as_bytes_def o_def)

lemma str_ok_ascii: "(\<And>c. c \<in> set s \<Longrightarrow> byte_of c < 128) \<Longrightarrow> str_ok s"
  unfolding str_ok_def by (induction s) auto

section \<open>text.rs and CommaList\<close>

definition non_blank :: "string \<Rightarrow> string option" where
  "non_blank value = (let trimmed = trim value in if trimmed \<noteq> [] then Some trimmed else None)"

definition normalize_base_path :: "string \<Rightarrow> string" where
  "normalize_base_path base_path =
     (let trimmed = trim_matches CHR ''/'' (trim base_path)
      in if trimmed = [] then [] else CHR ''/'' # trimmed)"

text \<open>
  The set of bytes \<open>path_segment\<close> encodes: everything but the unreserved characters.  The encoder
  itself, \<open>utf8_percent_encode\<close> of the \<open>percent-encoding\<close> crate, is a parameter.
\<close>

definition path_segment_set :: "char \<Rightarrow> bool" where
  "path_segment_set b \<longleftrightarrow> \<not> (48 \<le> byte_of b \<and> byte_of b \<le> 57 \<or> 65 \<le> byte_of b \<and> byte_of b \<le> 90
     \<or> 97 \<le> byte_of b \<and> byte_of b \<le> 122) \<and> b \<notin> set ''-._~''"

definition path_segment :: "((char \<Rightarrow> bool) \<Rightarrow> string \<Rightarrow> string) \<Rightarrow> string \<Rightarrow> string" where
  "path_segment percent_encode value = percent_encode path_segment_set value"

definition comma_list :: "string \<Rightarrow> string list" where
  "comma_list value = List.map_filter non_blank (split_on CHR '','' value)"

lemma non_blank_Some_iff: "non_blank v = Some t \<longleftrightarrow> t = trim v \<and> t \<noteq> []"
  by (auto simp: non_blank_def Let_def)

lemma non_blank_None_iff: "non_blank v = None \<longleftrightarrow> trim v = []"
  by (simp add: non_blank_def Let_def)

lemma non_blank_fixed: "non_blank v = Some t \<Longrightarrow> non_blank t = Some t"
  by (auto simp: non_blank_Some_iff)

end
