(* ===== verification/Api_Error.thy ===== *)
theory Api_Error
  imports Rust_Str
begin

text \<open>
  The error type both servers share (\<open>lakefs-auth-core/src/error.rs\<close>) and the errors of the stores
  (\<open>lakefs-authz/src/store/error.rs\<close>) with their conversion.  An \<open>anyhow::Error\<close> is represented by its
  rendered text.
\<close>

section \<open>error.rs of the core crate\<close>

datatype api_error =
    NotFound string
  | Invalid string
  | AlreadyExists string
  | Unauthorized string
  | Forbidden string
  | NotImplemented string
  | Unavailable string
  | Internal string
  | WithStatus (ws_status: int) (ws_message: string)

definition api_not_found :: "string \<Rightarrow> string \<Rightarrow> api_error" where
  "api_not_found entity i = NotFound (entity @ '' not found: '' @ i)"

definition api_already_exists :: "string \<Rightarrow> string \<Rightarrow> api_error" where
  "api_already_exists entity i = AlreadyExists (entity @ '' already exists: '' @ i)"

fun status_code :: "api_error \<Rightarrow> int" where
  "status_code (NotFound _) = 404"
| "status_code (Invalid _) = 400"
| "status_code (AlreadyExists _) = 409"
| "status_code (Unauthorized _) = 401"
| "status_code (Forbidden _) = 403"
| "status_code (NotImplemented _) = 501"
| "status_code (Unavailable _) = 503"
| "status_code (Internal _) = 500"
| "status_code (WithStatus s _) = s"

text \<open>\<open>StatusCode::from_u16\<close> accepts 100 to 999.\<close>

definition api_status :: "api_error \<Rightarrow> int" where
  "api_status e = (if 100 \<le> status_code e \<and> status_code e \<le> 999 then status_code e else 500)"

text \<open>The \<open>Display\<close> texts of the \<open>thiserror\<close> attributes.\<close>

fun api_display :: "api_error \<Rightarrow> string" where
  "api_display (NotFound m) = m"
| "api_display (Invalid m) = m"
| "api_display (AlreadyExists m) = m"
| "api_display (Unauthorized m) = m"
| "api_display (Forbidden m) = m"
| "api_display (NotImplemented m) = m"
| "api_display (Unavailable m) = m"
| "api_display (Internal e) = ''internal error: '' @ e"
| "api_display (WithStatus _ m) = m"

definition public_message :: "api_error \<Rightarrow> string" where
  "public_message e = (case e of Internal _ \<Rightarrow> ''internal server error'' | other \<Rightarrow> api_display other)"

record error_body = eb_message :: string

definition error_body_of :: "api_error \<Rightarrow> error_body" where
  "error_body_of e = \<lparr> eb_message = public_message e \<rparr>"

text \<open>\<open>IntoResponse\<close>: the status line and the body.\<close>

definition error_response :: "api_error \<Rightarrow> int \<times> error_body" where
  "error_response e = (api_status e, error_body_of e)"

lemma public_message_hides_internal: "public_message (Internal a) = public_message (Internal b)"
  by (simp add: public_message_def)

lemma api_status_range: "100 \<le> api_status e \<and> api_status e \<le> 999"
  by (simp add: api_status_def)

section \<open>error.rs of the stores\<close>

datatype store_error =
    SNotFound string string
  | SAlreadyExists string string
  | SWrongIdentity string string
  | SBackend string

definition is_not_found :: "store_error \<Rightarrow> bool" where
  "is_not_found e = (case e of SNotFound _ _ \<Rightarrow> True | _ \<Rightarrow> False)"

definition is_already_exists :: "store_error \<Rightarrow> bool" where
  "is_already_exists e = (case e of SAlreadyExists _ _ \<Rightarrow> True | _ \<Rightarrow> False)"

fun store_error_display :: "store_error \<Rightarrow> string" where
  "store_error_display (SNotFound entity i) = entity @ '' not found: '' @ i"
| "store_error_display (SAlreadyExists entity i) = entity @ '' already exists: '' @ i"
| "store_error_display (SWrongIdentity entity i) =
     entity @ '' '' @ i @ '' exists with a different identity; bootstrap leaves it untouched''"
| "store_error_display (SBackend e) = e"

fun api_of_store :: "store_error \<Rightarrow> api_error" where
  "api_of_store (SNotFound entity i) = api_not_found entity i"
| "api_of_store (SAlreadyExists entity i) = api_already_exists entity i"
| "api_of_store (SWrongIdentity entity i) = AlreadyExists (store_error_display (SWrongIdentity entity i))"
| "api_of_store (SBackend e) = Internal e"

lemma status_of_store_error:
  "status_code (api_of_store e) =
     (case e of SNotFound _ _ \<Rightarrow> 404 | SAlreadyExists _ _ \<Rightarrow> 409 | SWrongIdentity _ _ \<Rightarrow> 409 | SBackend _ \<Rightarrow> 500)"
  by (cases e) (simp_all add: api_not_found_def api_already_exists_def)

lemma public_message_of_store_error:
  "public_message (api_of_store e) =
     (case e of SBackend _ \<Rightarrow> ''internal server error'' | _ \<Rightarrow> store_error_display e)"
  by (cases e) (simp_all add: public_message_def api_not_found_def api_already_exists_def)

end
