(* ===== verification/Btree.thy ===== *)
theory Btree
  imports Rust_Str
begin

text \<open>
  Rust's \<open>BTreeMap\<close> and \<open>BTreeSet\<close> as the sources use them: iteration is in key order, so a map is
  the list of its entries with strictly increasing keys and a set the strictly increasing list of
  its elements.  The locale \<open>ordered_map\<close> is the contract the in-memory store relies on; it is
  interpreted on the list model below.
\<close>

named_theorems bt_simps \<open>lookups after the operations of ordered maps and sets\<close>
named_theorems bt_inv \<open>the operations of ordered maps and sets preserve their invariants\<close>

section \<open>Ordered maps\<close>

type_synonym ('k, 'v) btree = "('k \<times> 'v) list"

definition bt_ok :: "('k::linorder, 'v) btree \<Rightarrow> bool" where
  "bt_ok m \<longleftrightarrow> sorted_wrt (<) (map fst m)"

definition bt_get :: "('k, 'v) btree \<Rightarrow> 'k \<Rightarrow> 'v option" where
  "bt_get m k = map_of m k"

definition bt_contains_key :: "('k, 'v) btree \<Rightarrow> 'k \<Rightarrow> bool" where
  "bt_contains_key m k \<longleftrightarrow> bt_get m k \<noteq> None"

fun bt_insert :: "'k::linorder \<Rightarrow> 'v \<Rightarrow> ('k, 'v) btree \<Rightarrow> ('k, 'v) btree" where
  "bt_insert k v [] = [(k, v)]"
| "bt_insert k v ((k', v') # m) =
     (if k < k' then (k, v) # (k', v') # m
      else if k = k' then (k, v) # m
      else (k', v') # bt_insert k v m)"

definition bt_remove :: "'k \<Rightarrow> ('k, 'v) btree \<Rightarrow> ('k, 'v) btree" where
  "bt_remove k m = filter (\<lambda>(k', _). k' \<noteq> k) m"

definition bt_retain :: "('k \<Rightarrow> 'v \<Rightarrow> bool) \<Rightarrow> ('k, 'v) btree \<Rightarrow> ('k, 'v) btree" where
  "bt_retain p m = filter (\<lambda>(k, v). p k v) m"

text \<open>A write through \<open>get_mut\<close>.\<close>

definition bt_modify :: "'k \<Rightarrow> ('v \<Rightarrow> 'v) \<Rightarrow> ('k, 'v) btree \<Rightarrow> ('k, 'v) btree" where
  "bt_modify k f m = map (\<lambda>(k', v). (k', if k' = k then f v else v)) m"

definition bt_values :: "('k, 'v) btree \<Rightarrow> 'v list" where
  "bt_values m = map snd m"

section \<open>The contract of an ordered map\<close>

locale ordered_map =
  fixes inv :: "'m \<Rightarrow> bool"
    and get :: "'m \<Rightarrow> 'k::linorder \<Rightarrow> 'v option"
    and insert :: "'k \<Rightarrow> 'v \<Rightarrow> 'm \<Rightarrow> 'm"
    and remove :: "'k \<Rightarrow> 'm \<Rightarrow> 'm"
    and retain :: "('k \<Rightarrow> 'v \<Rightarrow> bool) \<Rightarrow> 'm \<Rightarrow> 'm"
    and modify :: "'k \<Rightarrow> ('v \<Rightarrow> 'v) \<Rightarrow> 'm \<Rightarrow> 'm"
    and entries :: "'m \<Rightarrow> ('k \<times> 'v) list"
  assumes inv_insert: "inv m \<Longrightarrow> inv (insert k v m)"
    and inv_remove: "inv m \<Longrightarrow> inv (remove k m)"
    and inv_retain: "inv m \<Longrightarrow> inv (retain p m)"
    and inv_modify: "inv m \<Longrightarrow> inv (modify k f m)"
    and get_insert: "inv m \<Longrightarrow> get (insert k v m) k' = (if k' = k then Some v else get m k')"
    and get_remove: "inv m \<Longrightarrow> get (remove k m) k' = (if k' = k then None else get m k')"
    and get_retain: "inv m \<Longrightarrow> get (retain p m) k' = opt_filter (p k') (get m k')"
    and get_modify: "inv m \<Longrightarrow> get (modify k f m) k' = (if k' = k then map_option f (get m k') else get m k')"
    and entries_sorted: "inv m \<Longrightarrow> sorted_wrt (<) (map fst (entries m))"
    and entries_iff: "inv m \<Longrightarrow> (k, v) \<in> set (entries m) \<longleftrightarrow> get m k = Some v"
begin

lemma entries_distinct: "inv m \<Longrightarrow> distinct (map fst (entries m))"
  using entries_sorted sorted_wrt_less_distinct by blast

lemma entries_ext:
  assumes "inv m" "inv m'" "\<And>k. get m k = get m' k"
  shows "entries m = entries m'"
proof -
  have "set (entries m) = set (entries m')"
    using assms entries_iff by (auto simp: set_eq_iff)
  then show ?thesis
    using entries_sorted [OF assms(1)] entries_sorted [OF assms(2)] by (intro sorted_keys_unique)
qed

lemma remove_insert:
  assumes "inv m" "get m k = None"
  shows "entries (remove k (insert k v m)) = entries m"
  using assms by (intro entries_ext) (auto simp: inv_insert inv_remove get_insert get_remove)

lemma value_iff: "inv m \<Longrightarrow> v \<in> snd ` set (entries m) \<longleftrightarrow> (\<exists>k. get m k = Some v)"
  using entries_iff by force

end

lemma bt_ok_simps [simp]:
  "bt_ok []"
  "bt_ok ((k, v) # m) \<longleftrightarrow> (\<forall>k' \<in> fst ` set m. k < k') \<and> bt_ok m"
  by (auto simp: bt_ok_def)

lemma bt_ok_distinct: "bt_ok m \<Longrightarrow> distinct (map fst m)"
  unfolding bt_ok_def by (rule sorted_wrt_less_distinct)

lemma bt_get_Nil [simp]: "bt_get [] k = None"
  by (simp add: bt_get_def)

lemma bt_get_iff: "bt_ok m \<Longrightarrow> bt_get m k = Some v \<longleftrightarrow> (k, v) \<in> set m"
  unfolding bt_get_def by (simp add: bt_ok_distinct)

lemma keys_bt_insert: "fst ` set (bt_insert k v m) = insert k (fst ` set m)"
  by (induction k v m rule: bt_insert.induct) auto

lemma bt_ok_insert: "bt_ok m \<Longrightarrow> bt_ok (bt_insert k v m)"
  by (induction k v m rule: bt_insert.induct) (auto simp: keys_bt_insert less_trans)

lemma bt_get_insert: "bt_ok m \<Longrightarrow> bt_get (bt_insert k v m) k' = (if k' = k then Some v else bt_get m k')"
  by (induction k v m rule: bt_insert.induct) (auto simp: bt_get_def)

lemma bt_ok_filter: "bt_ok m \<Longrightarrow> bt_ok (filter p m)"
  by (induction m) auto

lemma bt_get_retain: "bt_ok m \<Longrightarrow> bt_get (bt_retain p m) k = opt_filter (p k) (bt_get m k)"
proof (induction m)
  case (Cons e m)
  obtain k' v where e: "e = (k', v)" by force
  with Cons.prems have "map_of m k' = None" by (auto simp: map_of_eq_None_iff)
  with Cons e show ?case by (auto simp: bt_get_def bt_retain_def)
qed (simp add: bt_retain_def)

lemma bt_remove_retain: "bt_remove k m = bt_retain (\<lambda>k' _. k' \<noteq> k) m"
  by (simp add: bt_remove_def bt_retain_def)

interpretation bt: ordered_map bt_ok bt_get bt_insert bt_remove bt_retain bt_modify "\<lambda>m. m"
proof unfold_locales
  fix m :: "('a, 'b) btree" and k k' v p f
  assume ok: "bt_ok m"
  show "bt_ok (bt_insert k v m)" using ok by (rule bt_ok_insert)
  show "bt_ok (bt_remove k m)" using ok by (simp add: bt_remove_def bt_ok_filter)
  show "bt_ok (bt_retain p m)" using ok by (simp add: bt_retain_def bt_ok_filter)
  show "bt_ok (bt_modify k f m)"
    using ok by (simp add: bt_ok_def bt_modify_def o_def case_prod_beta)
  show "bt_get (bt_insert k v m) k' = (if k' = k then Some v else bt_get m k')"
    using ok by (rule bt_get_insert)
  show "bt_get (bt_retain p m) k' = opt_filter (p k') (bt_get m k')"
    using ok by (rule bt_get_retain)
  show "bt_get (bt_remove k m) k' = (if k' = k then None else bt_get m k')"
    using ok by (cases "bt_get m k'") (auto simp: bt_remove_retain bt_get_retain)
  show "bt_get (bt_modify k f m) k' = (if k' = k then map_option f (bt_get m k') else bt_get m k')"
    by (induction m) (auto simp: bt_get_def bt_modify_def)
  show "sorted_wrt (<) (map fst m)" using ok by (simp add: bt_ok_def)
  show "((k, v) \<in> set m) = (bt_get m k = Some v)" using ok by (simp add: bt_get_iff)
qed

lemmas [bt_simps] = bt.get_insert bt.get_remove bt.get_retain bt.get_modify
lemmas [bt_inv] = bt.inv_insert bt.inv_remove bt.inv_retain bt.inv_modify

lemma bt_values_iff: "bt_ok m \<Longrightarrow> v \<in> set (bt_values m) \<longleftrightarrow> (\<exists>k. bt_get m k = Some v)"
  using bt.value_iff by (simp add: bt_values_def)

lemma bt_contains_key_iff: "bt_ok m \<Longrightarrow> bt_contains_key m k \<longleftrightarrow> k \<in> fst ` set m"
  by (force simp: bt_contains_key_def bt_get_iff image_iff)

section \<open>Ordered sets\<close>

definition bs_ok :: "'k::linorder list \<Rightarrow> bool" where
  "bs_ok s \<longleftrightarrow> sorted_wrt (<) s"

fun bs_insert :: "'k::linorder \<Rightarrow> 'k list \<Rightarrow> 'k list" where
  "bs_insert k [] = [k]"
| "bs_insert k (x # s) = (if k < x then k # x # s else if k = x then x # s else x # bs_insert k s)"

definition bs_remove :: "'k \<Rightarrow> 'k list \<Rightarrow> 'k list" where
  "bs_remove k s = filter (\<lambda>x. x \<noteq> k) s"

definition bs_contains :: "'k list \<Rightarrow> 'k \<Rightarrow> bool" where
  "bs_contains s k = List.member s k"

text \<open>\<open>collect\<close> and \<open>extend\<close>.\<close>

definition bs_extend :: "'k::linorder list \<Rightarrow> 'k list \<Rightarrow> 'k list" where
  "bs_extend s xs = fold bs_insert xs s"

lemma set_bs_insert [bt_simps]: "set (bs_insert k s) = insert k (set s)"
  by (induction k s rule: bs_insert.induct) auto

lemma set_bs_remove [bt_simps]: "set (bs_remove k s) = set s - {k}"
  by (auto simp: bs_remove_def)

lemma bs_contains_iff [bt_simps]: "bs_contains s k \<longleftrightarrow> k \<in> set s"
  by (simp add: bs_contains_def)

lemma bs_ok_insert [bt_inv]: "bs_ok s \<Longrightarrow> bs_ok (bs_insert k s)"
  by (induction k s rule: bs_insert.induct) (auto simp: bs_ok_def set_bs_insert)

lemma bs_ok_filter [bt_inv]: "bs_ok s \<Longrightarrow> bs_ok (filter p s)"
  by (simp add: bs_ok_def sorted_wrt_filter_same)

lemma bs_ok_remove [bt_inv]: "bs_ok s \<Longrightarrow> bs_ok (bs_remove k s)"
  by (simp add: bs_remove_def bs_ok_filter)

lemma bs_ok_Nil [simp]: "bs_ok []"
  by (simp add: bs_ok_def)

lemma set_bs_extend [bt_simps]: "set (bs_extend s xs) = set s \<union> set xs"
  unfolding bs_extend_def by (induction xs arbitrary: s) (auto simp: set_bs_insert)

lemma bs_ok_extend [bt_inv]: "bs_ok s \<Longrightarrow> bs_ok (bs_extend s xs)"
  unfolding bs_extend_def by (induction xs arbitrary: s) (auto simp: bs_ok_insert)

lemma bs_ok_unique: "bs_ok s \<Longrightarrow> bs_ok t \<Longrightarrow> set s = set t \<Longrightarrow> s = t"
  unfolding bs_ok_def by (rule sorted_list_unique)

end
