(* ===== verification/Model.thy ===== *)
theory Model
  imports Btree
begin

text \<open>
  The wire models of \<open>lakefs-auth-core/src/model\<close>.  Identifiers, limits and Unix times are \<open>i64\<close> in the
  source and \<open>int\<close> here; where their range matters the operations check it.
\<close>

definition MAX_PAGE :: int where "MAX_PAGE = 1000"
definition DEFAULT_PAGE :: int where "DEFAULT_PAGE = 100"

record credentials =
  c_access_key_id :: string
  c_creation_date :: int

record credentials_with_secret =
  cs_access_key_id :: string
  cs_secret_access_key :: string
  cs_creation_date :: int
  cs_user_id :: int
  cs_user_name :: "string option"

record group =
  g_id :: "string option"
  g_name :: string
  g_description :: "string option"
  g_creation_date :: int

record group_creation =
  gc_id :: string
  gc_description :: "string option"

record pagination =
  pg_has_more :: bool
  pg_next_offset :: string
  pg_results :: int
  pg_max_per_page :: int

record 'a list_response =
  lr_pagination :: pagination
  lr_results :: "'a list"

datatype effect = Allow | Deny

type_synonym condition = "(string, (string, string list) btree) btree"

record statement =
  st_effect :: effect
  st_resource :: string
  st_action :: "string list"
  st_condition :: "condition option"

record policy =
  p_name :: string
  p_creation_date :: "int option"
  p_statement :: "statement list"
  p_acl :: "string option"

record external_principal =
  ep_user_id :: string
  ep_id :: string

record claim_token_id =
  ct_token_id :: string
  ct_expires_at :: int

type_synonym base64_bytes = "u8 list"

record user =
  u_username :: string
  u_creation_date :: int
  u_friendly_name :: "string option"
  u_email :: "string option"
  u_source :: "string option"
  u_encrypted_password :: "base64_bytes option"
  u_external_id :: "string option"

record user_creation =
  uc_username :: string
  uc_email :: "string option"
  uc_friendly_name :: "string option"
  uc_source :: "string option"
  uc_encrypted_password :: "base64_bytes option"
  uc_external_id :: "string option"
  uc_invite :: "bool option"

record friendly_name_update = fn_friendly_name :: string

text \<open>
  \<open>Effect\<close> as text, lower case only (\<open>rename_all = "lowercase"\<close>).
\<close>

fun effect_str :: "effect \<Rightarrow> string" where
  "effect_str Allow = ''allow''"
| "effect_str Deny = ''deny''"

definition parse_effect :: "string \<Rightarrow> effect option" where
  "parse_effect s = (if s = ''allow'' then Some Allow else if s = ''deny'' then Some Deny else None)"

lemma parse_effect_iff: "parse_effect s = Some e \<longleftrightarrow> s = effect_str e"
  by (cases e) (auto simp: parse_effect_def)

end
