(* ===== verification/Validate.thy ===== *)
theory Validate
  imports Api_Error Model
begin

text \<open>
  \<open>lakefs-auth-core/src/validate.rs\<close>: what the authorization API accepts as identifiers, actions, ARNs,
  resources, statements and policies.  The JSON parser of \<open>serde_json\<close> is the parameter \<open>parse_list\<close>
  (a string list, or the message of the parse error).  Logging is not modelled.
\<close>

definition SERVICES :: "string list" where
  "SERVICES = [''fs'', ''auth'', ''ci'', ''retention'', ''branches'', ''pr'', ''catalog'']"

definition CONDITION_OPERATORS :: "string list" where
  "CONDITION_OPERATORS = [''IpAddress'', ''NotIpAddress'', ''StringLike'', ''StringNotLike'']"

definition ALL_RESOURCES :: string where "ALL_RESOURCES = ''*''"

definition MAX_ID_LEN :: nat where "MAX_ID_LEN = 512"

definition validate_entity_id :: "string \<Rightarrow> string \<Rightarrow> api_error + unit" where
  "validate_entity_id kind i =
    (if i = [] then Err (Invalid (kind @ '' id must not be empty''))
     else if length i > MAX_ID_LEN then Err (Invalid (kind @ '' id is longer than '' @ show_nat MAX_ID_LEN @ '' bytes''))
     else if i = ''.'' \<or> i = ''..'' then
       Err (Invalid (kind @ '' id must not be '' @ quoted ''.'' @ '' or '' @ quoted ''..''))
     else if CHR ''/'' \<in> set i then Err (Invalid (kind @ '' id must not contain '' @ quoted ''/''))
     else if CHR ''*'' \<in> set i \<or> CHR ''?'' \<in> set i then
       Err (Invalid (kind @ '' id must not contain '' @ quoted ''*'' @ '' or '' @ quoted ''?''))
     else if has_control i then Err (Invalid (kind @ '' id must not contain control characters''))
     else Ok ())"

definition validate_action :: "string \<Rightarrow> api_error + unit" where
  "validate_action action = (case splitn 3 CHR '':'' action of
     [service, name] \<Rightarrow>
       (if service \<notin> set SERVICES then Err (Invalid (''unknown service in action: '' @ action))
        else if name = [] then Err (Invalid (''action name must not be empty: '' @ action))
        else Ok ())
   | _ \<Rightarrow> Err (Invalid (''action must have the form service:Action: '' @ action)))"

definition validate_arn :: "string \<Rightarrow> api_error + unit" where
  "validate_arn arn = (let parts = splitn 6 CHR '':'' arn in
     if length parts \<noteq> 6 \<or> parts ! 0 \<noteq> ''arn'' then Err (Invalid (''invalid ARN: '' @ arn))
     else if parts ! 1 \<noteq> ''lakefs'' then Err (Invalid (''ARN partition must be lakefs: '' @ arn))
     else if parts ! 2 = [] then Err (Invalid (''ARN service must not be empty: '' @ arn))
     else if parts ! 5 = [] then Err (Invalid (''ARN resource must not be empty: '' @ arn))
     else Ok ())"

definition validate_resource :: "(string \<Rightarrow> string + string list) \<Rightarrow> string \<Rightarrow> api_error + unit" where
  "validate_resource parse_list resource =
    (if resource = ALL_RESOURCES then Ok ()
     else if starts_with ''['' resource \<and> ends_with '']'' resource then
       and_then (map_err (\<lambda>err. Invalid (''resource list is not a JSON array of strings: '' @ err)) (parse_list resource))
         (\<lambda>list. if list = [] then Err (Invalid ''resource list must not be empty'')
                 else try_each (\<lambda>item. if item \<noteq> ALL_RESOURCES then validate_arn item else Ok ()) list)
     else validate_arn resource)"

definition validate_statement :: "(string \<Rightarrow> string + string list) \<Rightarrow> statement \<Rightarrow> api_error + unit" where
  "validate_statement parse_list s =
    (if st_action s = [] then Err (Invalid ''statement needs at least one action'')
     else and_then (try_each validate_action (st_action s))
            (\<lambda>_. validate_resource parse_list (st_resource s)))"

definition validate_statements :: "(string \<Rightarrow> string + string list) \<Rightarrow> statement list \<Rightarrow> api_error + unit" where
  "validate_statements parse_list ss =
    (if ss = [] then Err (Invalid ''policy needs at least one statement'')
     else try_each (validate_statement parse_list) ss)"

definition validate_policy :: "(string \<Rightarrow> string + string list) \<Rightarrow> string \<Rightarrow> statement list \<Rightarrow> api_error + unit" where
  "validate_policy parse_list name ss =
    and_then (validate_entity_id ''policy'' name) (\<lambda>_. validate_statements parse_list ss)"

section \<open>What is accepted\<close>

definition entity_id_ok :: "string \<Rightarrow> bool" where
  "entity_id_ok i \<longleftrightarrow> i \<noteq> [] \<and> length i \<le> 512 \<and> i \<noteq> ''.'' \<and> i \<noteq> ''..''
     \<and> set i \<inter> {CHR ''/'', CHR ''*'', CHR ''?''} = {} \<and> \<not> has_control i"

lemma validate_entity_id_iff [res_simps]: "validate_entity_id kind i = Ok u \<longleftrightarrow> entity_id_ok i"
  by (auto simp: validate_entity_id_def entity_id_ok_def MAX_ID_LEN_def)

lemma validate_entity_id_status:
  "validate_entity_id kind i = Err e \<Longrightarrow> status_code e = 400"
  by (auto simp: validate_entity_id_def split: if_splits)

lemma splitn_2: "splitn 2 c s = (case split_once c s of None \<Rightarrow> [s] | Some (a, b) \<Rightarrow> [a, b])"
  by (simp add: numeral_2_eq_2 split: option.splits)

lemma splitn_Suc: "0 < n \<Longrightarrow>
    splitn (Suc n) c s = (case split_once c s of None \<Rightarrow> [s] | Some (a, b) \<Rightarrow> a # splitn n c b)"
  by (cases n) (auto split: option.splits)

lemma length_splitn: "0 < n \<Longrightarrow> length (splitn n c s) = min n (Suc (count_list s c))"
proof (induction n arbitrary: s)
  case (Suc n)
  show ?case
  proof (cases "n = 0")
    case False
    show ?thesis
    proof (cases "split_once c s")
      case None
      then have "c \<notin> set s" by (simp add: split_once_None_iff)
      then have "count_list s c = 0" by (simp add: count_list_0_iff)
      with None False show ?thesis by (simp add: splitn_Suc)
    next
      case (Some p)
      obtain a b where p: "p = (a, b)" by force
      with Some have s: "s = a @ c # b" "c \<notin> set a" by (auto simp: split_once_Some_iff)
      then have "count_list s c = Suc (count_list b c)" by (simp add: count_list_append count_list_0_iff)
      with Some p False Suc.IH show ?thesis by (simp add: splitn_Suc)
    qed
  qed simp
qed simp

lemma join_splitn: "0 < n \<Longrightarrow> join [c] (splitn n c s) = s"
proof (induction n arbitrary: s)
  case (Suc n)
  show ?case
  proof (cases "n = 0")
    case False
    show ?thesis
    proof (cases "split_once c s")
      case None
      with False show ?thesis by (simp add: splitn_Suc)
    next
      case (Some p)
      obtain a b where p: "p = (a, b)" by force
      with Some have s: "s = a @ c # b" by (auto simp: split_once_Some_iff)
      obtain y ys where ys: "splitn n c b = y # ys"
        using length_splitn [of n c b] False by (cases "splitn n c b") auto
      from Suc.IH [of b] ys False have "join [c] (y # ys) = b" by simp
      with Some p s ys False show ?thesis by (simp add: splitn_Suc)
    qed
  qed simp
qed simp

lemma splitn_no_sep: "x \<in> set (butlast (splitn n c s)) \<Longrightarrow> c \<notin> set x"
proof (induction n c s rule: splitn.induct)
  case (3 n c s)
  then show ?case
    by (cases "split_once c s") (auto simp: split_once_Some_iff split: if_splits prod.splits)
qed auto

text \<open>An action is a known service, one colon, and a non-empty name without a colon.\<close>

lemma validate_action_iff [res_simps]:
  "validate_action action = Ok u \<longleftrightarrow>
     (\<exists>service name. action = service @ CHR '':'' # name \<and> service \<in> set SERVICES \<and> name \<noteq> [] \<and> CHR '':'' \<notin> set name)"
  (is "?l \<longleftrightarrow> ?r")
proof
  assume ?l
  then obtain service name where parts: "splitn 3 CHR '':'' action = [service, name]"
    and ok: "service \<in> set SERVICES" "name \<noteq> []"
    by (auto simp: validate_action_def split: list.splits if_splits)
  from parts have "action = service @ CHR '':'' # name"
    using join_splitn [of 3 "CHR '':''" action] by simp
  moreover have "count_list action CHR '':'' = 1"
    using length_splitn [of 3 "CHR '':''" action] parts by simp
  then have "CHR '':'' \<notin> set name"
    unfolding calculation by (auto simp: count_list_append count_list_0_iff)
  ultimately show ?r using ok by blast
next
  assume ?r
  then obtain service name where a: "action = service @ CHR '':'' # name" "service \<in> set SERVICES"
      "name \<noteq> []" "CHR '':'' \<notin> set name" by blast
  moreover from a(2) have "CHR '':'' \<notin> set service" by (auto simp: SERVICES_def)
  ultimately have "split_once CHR '':'' action = Some (service, name)" "split_once CHR '':'' name = None"
    by (auto simp: split_once_Some_iff split_once_None_iff)
  then have "splitn 3 CHR '':'' action = [service, name]" by (simp add: numeral_3_eq_3)
  with a show ?l by (simp add: validate_action_def)
qed

text \<open>
  The reference form of an ARN: partition, service and resource as lakeFS reads them; region and
  account are arbitrary, the resource may hold further colons.
\<close>

definition arn_ok :: "string \<Rightarrow> bool" where
  "arn_ok arn \<longleftrightarrow> (case splitn 6 CHR '':'' arn of
     [a, p, service, region, account, resource] \<Rightarrow> a = ''arn'' \<and> p = ''lakefs'' \<and> service \<noteq> [] \<and> resource \<noteq> []
   | _ \<Rightarrow> False)"

lemma length_6E:
  assumes "length xs = 6"
  obtains a b c d e f where "xs = [a, b, c, d, e, f]"
  using assms by (auto simp: numeral_eq_Suc length_Suc_conv)

lemma validate_arn_arn_ok [res_simps]: "validate_arn arn = Ok u \<longleftrightarrow> arn_ok arn"
proof (cases "length (splitn 6 CHR '':'' arn) = 6")
  case True
  then obtain a b c d e f where "splitn 6 CHR '':'' arn = [a, b, c, d, e, f]" by (rule length_6E)
  then show ?thesis by (simp add: validate_arn_def arn_ok_def Let_def)
next
  case False
  then show ?thesis by (auto simp: validate_arn_def arn_ok_def split: list.splits)
qed

lemma splitn_append: "0 < n \<Longrightarrow> c \<notin> set a \<Longrightarrow> splitn (Suc n) c (a @ c # b) = a # splitn n c b"
  by (simp add: splitn_Suc split_once_append)

lemma arn_ok_iff:
  "arn_ok arn \<longleftrightarrow> (\<exists>service region account resource.
     arn = ''arn:lakefs:'' @ service @ '':'' @ region @ '':'' @ account @ '':'' @ resource
     \<and> CHR '':'' \<notin> set (service @ region @ account) \<and> service \<noteq> [] \<and> resource \<noteq> [])"
  (is "?l \<longleftrightarrow> ?r")
proof
  assume ?l
  then obtain service region account resource
    where parts: "splitn 6 CHR '':'' arn = [''arn'', ''lakefs'', service, region, account, resource]"
      and ne: "service \<noteq> []" "resource \<noteq> []"
    by (auto simp: arn_ok_def split: list.splits)
  have "arn = ''arn:lakefs:'' @ service @ '':'' @ region @ '':'' @ account @ '':'' @ resource"
    using join_splitn [of 6 "CHR '':''" arn] parts by simp
  moreover have "CHR '':'' \<notin> set (service @ region @ account)"
    using splitn_no_sep [of _ 6 "CHR '':''" arn] parts by auto
  ultimately show ?r using ne by blast
next
  assume ?r
  then obtain service region account resource
    where t: "arn = ''arn:lakefs:'' @ service @ '':'' @ region @ '':'' @ account @ '':'' @ resource"
      and c: "CHR '':'' \<notin> set service" "CHR '':'' \<notin> set region" "CHR '':'' \<notin> set account"
      and ne: "service \<noteq> []" "resource \<noteq> []" by auto
  have "splitn 6 CHR '':'' arn =
      [''arn'', ''lakefs'', service, region, account, resource]"
    using c splitn_2 [of "CHR '':''" "account @ CHR '':'' # resource"] split_once_append [OF c(3), of resource]
      splitn_append [of 5 "CHR '':''" "''arn''"] splitn_append [of 4 "CHR '':''" "''lakefs''"]
      splitn_append [of 3 "CHR '':''" service] splitn_append [of 2 "CHR '':''" region]
    by (simp add: t)
  with ne show ?l by (simp add: arn_ok_def)
qed

lemma validate_resource_iff [res_simps]:
  "validate_resource parse_list r = Ok u \<longleftrightarrow>
     r = ''*''
     \<or> (if starts_with ''['' r \<and> ends_with '']'' r
        then \<exists>items. parse_list r = Ok items \<and> items \<noteq> [] \<and> (\<forall>i \<in> set items. i = ''*'' \<or> arn_ok i)
        else arn_ok r)"
  by (auto simp: validate_resource_def ALL_RESOURCES_def res_simps split: if_splits)

definition statement_ok :: "(string \<Rightarrow> string + string list) \<Rightarrow> statement \<Rightarrow> bool" where
  "statement_ok parse_list s \<longleftrightarrow> st_action s \<noteq> [] \<and> (\<forall>a \<in> set (st_action s). is_ok (validate_action a))
     \<and> is_ok (validate_resource parse_list (st_resource s))"

lemma validate_statement_iff [res_simps]:
  "validate_statement parse_list s = Ok u \<longleftrightarrow> statement_ok parse_list s"
  by (auto simp: validate_statement_def statement_ok_def and_then_Ok_iff try_each_Ok_iff is_ok_iff)

lemma validate_statements_iff [res_simps]:
  "validate_statements parse_list ss = Ok u \<longleftrightarrow> ss \<noteq> [] \<and> (\<forall>s \<in> set ss. statement_ok parse_list s)"
  by (auto simp: validate_statements_def res_simps)

lemma validate_policy_iff [res_simps]:
  "validate_policy parse_list name ss = Ok u \<longleftrightarrow>
     entity_id_ok name \<and> ss \<noteq> [] \<and> (\<forall>s \<in> set ss. statement_ok parse_list s)"
  by (auto simp: validate_policy_def res_simps)

text \<open>Every rejection is a 400.\<close>

lemma validate_action_status: "validate_action a = Err e \<Longrightarrow> status_code e = 400"
  by (auto simp: validate_action_def split: list.splits if_splits)

lemma validate_arn_status: "validate_arn a = Err e \<Longrightarrow> status_code e = 400"
  by (auto simp: validate_arn_def Let_def split: if_splits)

lemma try_each_ErrD: "try_each f xs = Err e \<Longrightarrow> \<exists>x \<in> set xs. f x = Err e"
  by (induction xs) (auto simp: and_then_Err_iff)

lemma map_err_ErrD: "map_err f r = Err e \<Longrightarrow> \<exists>e'. r = Err e' \<and> e = f e'"
  by (cases r) auto

lemma validate_resource_status: "validate_resource parse_list r = Err e \<Longrightarrow> status_code e = 400"
  by (auto simp: validate_resource_def and_then_Err_iff dest!: try_each_ErrD map_err_ErrD
      dest: validate_arn_status split: if_splits)

lemma validate_statement_status: "validate_statement parse_list s = Err e \<Longrightarrow> status_code e = 400"
  by (auto simp: validate_statement_def and_then_Err_iff dest!: try_each_ErrD
      dest: validate_action_status validate_resource_status split: if_splits)

lemma validate_policy_status: "validate_policy parse_list n ss = Err e \<Longrightarrow> status_code e = 400"
  by (auto simp: validate_policy_def validate_statements_def and_then_Err_iff dest!: try_each_ErrD
      dest: validate_entity_id_status validate_statement_status split: if_splits)

end
