(* ===== verification/Crypto.thy ===== *)
theory Crypto
  imports Rust_Str
begin

text \<open>
  \<open>lakefs-auth-core/src/crypto\<close>: sealing of secrets (\<open>secretbox.rs\<close>) and generation of access keys
  (\<open>keygen.rs\<close>).  AES-256-GCM, HKDF and base64 are parameters: a cipher is its two functions of a nonce
  and a message; the random numbers are arguments.
\<close>

section \<open>secretbox.rs\<close>

definition VERSION :: u8 where "VERSION = 1"
definition NONCE_LEN :: nat where "NONCE_LEN = 12"
definition TAG_LEN :: nat where "TAG_LEN = 16"
definition KEY_LEN :: nat where "KEY_LEN = 32"
definition HKDF_SALT :: string where "HKDF_SALT = ''lakefs-auth/hkdf/v1''"
definition HKDF_INFO :: string where "HKDF_INFO = ''lakefs-authz/credentials-secret/v1''"

datatype crypto_error = TooShort | UnsupportedVersion u8 | Decrypt | Encrypt | NotUtf8

record secret_box =
  sb_encrypt :: "u8 list \<Rightarrow> u8 list \<Rightarrow> u8 list option"
  sb_decrypt :: "u8 list \<Rightarrow> u8 list \<Rightarrow> u8 list option"

text \<open>\<open>None\<close> is the panic of the \<open>expect\<close>.\<close>

definition derive_box :: "(u8 list \<Rightarrow> u8 list \<Rightarrow> u8 list \<Rightarrow> nat \<Rightarrow> u8 list option) \<Rightarrow> (u8 list \<Rightarrow> secret_box)
    \<Rightarrow> u8 list \<Rightarrow> secret_box option" where
  "derive_box hkdf aes256gcm shared_secret =
     map_option aes256gcm (hkdf (as_bytes HKDF_SALT) shared_secret (as_bytes HKDF_INFO) KEY_LEN)"

definition seal :: "secret_box \<Rightarrow> u8 list \<Rightarrow> u8 list \<Rightarrow> crypto_error + u8 list" where
  "seal sb nonce plaintext =
    and_then (ok_or Encrypt (sb_encrypt sb nonce plaintext)) (\<lambda>ciphertext. Ok (VERSION # nonce @ ciphertext))"

definition open_box :: "secret_box \<Rightarrow> u8 list \<Rightarrow> crypto_error + u8 list" where
  "open_box sb blob =
    (if length blob < 1 + NONCE_LEN + TAG_LEN then Err TooShort
     else if hd blob \<noteq> VERSION then Err (UnsupportedVersion (hd blob))
     else let nonce = take NONCE_LEN (tl blob); ciphertext = drop NONCE_LEN (tl blob)
          in ok_or Decrypt (sb_decrypt sb nonce ciphertext))"

definition seal_str :: "secret_box \<Rightarrow> u8 list \<Rightarrow> string \<Rightarrow> crypto_error + u8 list" where
  "seal_str sb nonce plaintext = seal sb nonce (as_bytes plaintext)"

definition open_str :: "secret_box \<Rightarrow> u8 list \<Rightarrow> crypto_error + string" where
  "open_str sb blob = and_then (open_box sb blob) (\<lambda>bytes. ok_or NotUtf8 (from_utf8 bytes))"

text \<open>
  What the authenticated cipher documents: a ciphertext is the message with a tag, and decrypting it
  under the nonce of the encryption gives the message back.
\<close>

definition aead_ok :: "secret_box \<Rightarrow> bool" where
  "aead_ok sb \<longleftrightarrow> (\<forall>nonce p c. length nonce = NONCE_LEN \<longrightarrow> sb_encrypt sb nonce p = Some c \<longrightarrow>
     length c = length p + TAG_LEN \<and> sb_decrypt sb nonce c = Some p)"

lemma seal_layout:
  "seal sb nonce p = Ok blob \<longleftrightarrow> (\<exists>c. sb_encrypt sb nonce p = Some c \<and> blob = VERSION # nonce @ c)"
  by (auto simp: seal_def res_simps)

lemma open_seal:
  assumes "aead_ok sb" "length nonce = NONCE_LEN" "seal sb nonce p = Ok blob"
  shows "open_box sb blob = Ok p"
proof -
  obtain c where c: "sb_encrypt sb nonce p = Some c" "blob = VERSION # nonce @ c"
    using assms(3) by (auto simp: seal_layout)
  with assms have "length c = length p + TAG_LEN" "sb_decrypt sb nonce c = Some p"
    by (auto simp: aead_ok_def)
  with c assms(2) show ?thesis by (simp add: open_box_def)
qed

lemma open_str_seal_str:
  assumes "aead_ok sb" "length nonce = NONCE_LEN" "str_ok p" "seal_str sb nonce p = Ok blob"
  shows "open_str sb blob = Ok p"
  using assms open_seal [of sb nonce "as_bytes p" blob]
  by (simp add: open_str_def seal_str_def from_utf8_as_bytes)

lemma open_box_errors:
  "open_box sb blob = Err e \<longleftrightarrow>
     (if length blob < 29 then e = TooShort
      else if hd blob \<noteq> 1 then e = UnsupportedVersion (hd blob)
      else sb_decrypt sb (take 12 (tl blob)) (drop 12 (tl blob)) = None \<and> e = Decrypt)"
  by (auto simp: open_box_def res_simps NONCE_LEN_def TAG_LEN_def VERSION_def Let_def)

section \<open>keygen.rs\<close>

definition AKIA_ALPHABET :: string where "AKIA_ALPHABET = ''ABCDEFGHIJKLMNOPQRSTUVWXYZ234567''"
definition ACCESS_KEY_PREFIX :: string where "ACCESS_KEY_PREFIX = ''AKIAJ''"
definition ACCESS_KEY_SUFFIX :: string where "ACCESS_KEY_SUFFIX = ''Q''"
definition ACCESS_KEY_RANDOM_LEN :: nat where "ACCESS_KEY_RANDOM_LEN = 14"
definition SECRET_KEY_BYTES :: nat where "SECRET_KEY_BYTES = 30"

text \<open>\<open>random i\<close> is the result of the \<open>i\<close>-th call of \<open>random_range\<close>.\<close>

definition new_access_key_id :: "(nat \<Rightarrow> nat) \<Rightarrow> string" where
  "new_access_key_id random = fold (\<lambda>i key. key @ [AKIA_ALPHABET ! random i]) [0..<ACCESS_KEY_RANDOM_LEN] ACCESS_KEY_PREFIX
     @ ACCESS_KEY_SUFFIX"

definition new_secret_access_key :: "(u8 list \<Rightarrow> string) \<Rightarrow> u8 list \<Rightarrow> string" where
  "new_secret_access_key base64_encode random_bytes = base64_encode (take SECRET_KEY_BYTES random_bytes)"

definition is_well_formed_access_key_id :: "string \<Rightarrow> bool" where
  "is_well_formed_access_key_id i \<longleftrightarrow>
     length i = length ACCESS_KEY_PREFIX + ACCESS_KEY_RANDOM_LEN + length ACCESS_KEY_SUFFIX
     \<and> starts_with ACCESS_KEY_PREFIX i \<and> ends_with ACCESS_KEY_SUFFIX i
     \<and> list_all (\<lambda>b. b \<in> set AKIA_ALPHABET)
         (drop (length ACCESS_KEY_PREFIX) (take (length i - length ACCESS_KEY_SUFFIX) i))"

lemma fold_snoc: "fold (\<lambda>i key. key @ [f i]) xs acc = acc @ map f xs"
  by (induction xs arbitrary: acc) auto

lemma new_access_key_id_eq:
  "new_access_key_id random = ''AKIAJ'' @ map (\<lambda>i. AKIA_ALPHABET ! random i) [0..<14] @ ''Q''"
  by (simp add: new_access_key_id_def fold_snoc ACCESS_KEY_PREFIX_def ACCESS_KEY_SUFFIX_def
      ACCESS_KEY_RANDOM_LEN_def del: upt_conv_Cons upt_rec_numeral)

lemma new_access_key_well_formed:
  assumes "\<And>i. random i < length AKIA_ALPHABET"
  shows "is_well_formed_access_key_id (new_access_key_id random)"
proof -
  let ?mid = "map (\<lambda>i. AKIA_ALPHABET ! random i) [0..<14]"
  have "\<forall>b \<in> set ?mid. b \<in> set AKIA_ALPHABET" using assms by auto
  then show ?thesis
    unfolding is_well_formed_access_key_id_def new_access_key_id_eq starts_with_iff ends_with_iff
    by (simp add: ACCESS_KEY_PREFIX_def ACCESS_KEY_SUFFIX_def ACCESS_KEY_RANDOM_LEN_def list_all_iff
        del: upt_conv_Cons upt_rec_numeral)
qed

end
