(* ===== verification/Pagination.thy ===== *)
theory Pagination
  imports Model
begin

text \<open>
  \<open>lakefs-auth-core/src/pagination.rs\<close>: the \<open>prefix\<close> / \<open>after\<close> / \<open>amount\<close> contract of the list routes, the
  page a sorted listing gives, the cursor walk of a client that collects every page, and the
  \<open>LIKE\<close> escape.  The locale \<open>pager\<close> is the contract between a listing and the client that walks it.
\<close>

section \<open>Requests\<close>

record pagination_params =
  pp_prefix :: "string option"
  pp_after :: "string option"
  pp_amount :: "int option"

record page_query =
  q_prefix :: string
  q_after :: string
  q_limit :: int

definition fetch_limit :: "page_query \<Rightarrow> int" where
  "fetch_limit q = q_limit q + 1"

definition normalize :: "pagination_params \<Rightarrow> page_query" where
  "normalize p = (let limit = (case pp_amount p of None \<Rightarrow> DEFAULT_PAGE
       | Some amount \<Rightarrow> (if 1 \<le> amount \<and> amount \<le> MAX_PAGE then amount else MAX_PAGE))
     in \<lparr> q_prefix = unwrap_or [] (pp_prefix p), q_after = unwrap_or [] (pp_after p), q_limit = limit \<rparr>)"

definition parse_amount :: "string option \<Rightarrow> int option" where
  "parse_amount raw = Option.bind (Option.bind raw non_blank) parse_i64"

definition lenient_i64 :: "string option \<Rightarrow> int option" where
  "lenient_i64 raw = parse_amount raw"

definition lenient_bool :: "string option \<Rightarrow> bool" where
  "lenient_bool raw = is_some_and (\<lambda>v. eq_ignore_ascii_case v ''true'' \<or> v = ''1'') (map_option trim raw)"

text \<open>The query parameters of a request, each absent or present once.\<close>

definition pagination_of_query :: "(string \<Rightarrow> string option) \<Rightarrow> pagination_params" where
  "pagination_of_query param = \<lparr> pp_prefix = param ''prefix'', pp_after = param ''after'',
     pp_amount = lenient_i64 (param ''amount'') \<rparr>"

section \<open>Pages\<close>

record 'a page_of =
  po_items :: "'a list"
  po_next_offset :: "string option"

definition from_overfetch :: "'a list \<Rightarrow> int \<Rightarrow> ('a \<Rightarrow> string) \<Rightarrow> 'a page_of" where
  "from_overfetch rows limit key = (let n = nat (max limit 0) in
     if length rows > n
     then \<lparr> po_items = take n rows,
            po_next_offset = (if take n rows = [] then None else Some (key (last (take n rows)))) \<rparr>
     else \<lparr> po_items = rows, po_next_offset = None \<rparr>)"

definition page_last :: "'a list \<Rightarrow> 'a page_of" where
  "page_last xs = \<lparr> po_items = xs, po_next_offset = None \<rparr>"

definition page_map :: "('a \<Rightarrow> 'b) \<Rightarrow> 'a page_of \<Rightarrow> 'b page_of" where
  "page_map f p = \<lparr> po_items = List.map f (po_items p), po_next_offset = po_next_offset p \<rparr>"

definition into_response :: "'a page_of \<Rightarrow> 'a list_response" where
  "into_response p = \<lparr> lr_pagination = \<lparr> pg_has_more = (po_next_offset p \<noteq> None),
       pg_next_offset = unwrap_or [] (po_next_offset p),
       pg_results = min (int (length (po_items p))) i64_max, pg_max_per_page = MAX_PAGE \<rparr>,
     lr_results = po_items p \<rparr>"

definition page_sorted :: "(string \<times> 'a) list \<Rightarrow> page_query \<Rightarrow> 'a page_of" where
  "page_sorted input q =
     (let rows = take (nat (fetch_limit q))
                   (filter (\<lambda>(key, _). starts_with (q_prefix q) key \<and> q_after q < key) input)
      in page_map snd (from_overfetch rows (q_limit q) fst))"

text \<open>
  The three characters the escape treats are ASCII, so working on bytes is working on characters.
\<close>

definition escape_like_prefix :: "string \<Rightarrow> string" where
  "escape_like_prefix prefix = concat (List.map
     (\<lambda>ch. if ch = CHR 0x5C \<or> ch = CHR ''%'' \<or> ch = CHR ''_'' then [CHR 0x5C, ch] else [ch]) prefix)"

section \<open>Walking the cursors\<close>

datatype cursor_error = Repeated string | TooManyPages nat

record cursor_walk =
  cw_after :: string
  cw_pages :: nat
  cw_max_pages :: nat

definition new_walk :: "nat \<Rightarrow> cursor_walk" where
  "new_walk max_pages = \<lparr> cw_after = [], cw_pages = 0, cw_max_pages = max_pages \<rparr>"

definition advance :: "cursor_walk \<Rightarrow> string \<Rightarrow> (cursor_error + bool) \<times> cursor_walk" where
  "advance w0 next_offset = (let w = w0\<lparr> cw_pages := cw_pages w0 + 1 \<rparr> in
     if next_offset = [] then (Ok False, w)
     else if next_offset = cw_after w then (Err (Repeated next_offset), w)
     else if cw_pages w \<ge> cw_max_pages w then (Err (TooManyPages (cw_max_pages w)), w)
     else (Ok True, w\<lparr> cw_after := next_offset \<rparr>))"

text \<open>
  The loop of the clients that collect a whole listing: fetch a page after the cursor, keep its
  items, advance.  The other side keeps a state of its own.
\<close>

lemma advance_more:
  "advance w next_offset = (Ok True, w') \<Longrightarrow>
     cw_pages w' = Suc (cw_pages w) \<and> cw_pages w' < cw_max_pages w \<and> cw_max_pages w' = cw_max_pages w
     \<and> cw_after w' = next_offset \<and> next_offset \<noteq> [] \<and> next_offset \<noteq> cw_after w"
  by (auto simp: advance_def Let_def split: if_splits)

function walk_pages :: "('s \<Rightarrow> string \<Rightarrow> ('e + 'a list \<times> string) \<times> 's) \<Rightarrow> (cursor_error \<Rightarrow> 'e)
    \<Rightarrow> 's \<Rightarrow> cursor_walk \<Rightarrow> 'a list \<Rightarrow> ('e + 'a list) \<times> 's" where
  "walk_pages fetch cerr s w acc = (case fetch s (cw_after w) of
     (Inl e, s') \<Rightarrow> (Err e, s')
   | (Inr (items, next_offset), s') \<Rightarrow> (case advance w next_offset of
       (Inl e, _) \<Rightarrow> (Err (cerr e), s')
     | (Inr False, _) \<Rightarrow> (Ok (acc @ items), s')
     | (Inr True, w') \<Rightarrow> walk_pages fetch cerr s' w' (acc @ items)))"
  by pat_completeness auto

termination
  by (relation "measure (\<lambda>(_, _, _, w, _). cw_max_pages w - cw_pages w)")
    (auto dest!: advance_more [OF sym])

declare walk_pages.simps [simp del]

section \<open>Requests: bounds\<close>

lemma normalize_limit: "1 \<le> q_limit (normalize p) \<and> q_limit (normalize p) \<le> MAX_PAGE"
  by (auto simp: normalize_def Let_def MAX_PAGE_def DEFAULT_PAGE_def split: option.splits)

lemma normalize_keeps_valid:
  "pp_amount p = Some n \<Longrightarrow> 1 \<le> n \<Longrightarrow> n \<le> MAX_PAGE \<Longrightarrow> q_limit (normalize p) = n"
  by (simp add: normalize_def Let_def)

section \<open>Pages: what a page holds\<close>

lemma Nil_less_iff: "([] :: string) < a \<longleftrightarrow> a \<noteq> []"
  by (cases a) simp_all

definition page_rows :: "page_query \<Rightarrow> (string \<times> 'a) list \<Rightarrow> (string \<times> 'a) list" where
  "page_rows q rows = filter (\<lambda>(key, _). starts_with (q_prefix q) key \<and> q_after q < key) rows"

lemma page_sorted_spec:
  assumes "1 \<le> q_limit q"
  defines "n \<equiv> nat (q_limit q)"
  shows "po_items (page_sorted rows q) = List.map snd (take n (page_rows q rows))"
    and "po_next_offset (page_sorted rows q) =
      (if n < length (page_rows q rows) then Some (fst (page_rows q rows ! (n - 1))) else None)"
proof -
  let ?R = "page_rows q rows"
  have n: "0 < n" "nat (max (q_limit q) 0) = n" "nat (fetch_limit q) = Suc n"
    using assms by (auto simp: fetch_limit_def)
  have unfold: "page_sorted rows q = page_map snd (from_overfetch (take (Suc n) ?R) (q_limit q) fst)"
    by (simp add: page_sorted_def page_rows_def n Let_def)
  have tt: "take n (take (Suc n) ?R) = take n ?R" by (simp add: min_def)
  show "po_items (page_sorted rows q) = List.map snd (take n ?R)"
    unfolding unfold from_overfetch_def n(2) Let_def tt by (auto simp: page_map_def min_def)
  show "po_next_offset (page_sorted rows q) = (if n < length ?R then Some (fst (?R ! (n - 1))) else None)"
    unfolding unfold from_overfetch_def n(2) Let_def tt using n(1)
    by (auto simp: page_map_def min_def last_conv_nth)
qed

lemma page_sorted_has_more_iff:
  assumes "1 \<le> q_limit q"
  shows "pg_has_more (lr_pagination (into_response (page_sorted rows q)))
      \<longleftrightarrow> nat (q_limit q) < length (page_rows q rows)"
  using page_sorted_spec(2) [OF assms, of rows] by (simp add: into_response_def)

lemma page_size: "1 \<le> q_limit q \<Longrightarrow> int (length (po_items (page_sorted rows q))) \<le> q_limit q"
  by (simp add: page_sorted_spec)

section \<open>The walk of an arbitrary server is bounded\<close>

text \<open>A server whose state counts the requests it has answered.\<close>

definition counted :: "('s \<Rightarrow> string \<Rightarrow> ('e + 'a list \<times> string) \<times> 's)
    \<Rightarrow> nat \<times> 's \<Rightarrow> string \<Rightarrow> ('e + 'a list \<times> string) \<times> nat \<times> 's" where
  "counted fetch = (\<lambda>(k, s) a. (case fetch s a of (r, s') \<Rightarrow> (r, Suc k, s')))"

lemma walk_pages_requests:
  "fst (snd (walk_pages (counted fetch) cerr (k, s) w acc)) \<le> k + max 1 (cw_max_pages w - cw_pages w)"
proof (induction "cw_max_pages w - cw_pages w" arbitrary: k s w acc rule: less_induct)
  case (less w k s acc)
  obtain r s' where f: "fetch s (cw_after w) = (r, s')" by force
  show ?case
  proof (cases r)
    case (Inl e)
    with f show ?thesis by (subst walk_pages.simps) (simp add: counted_def)
  next
    case (Inr page)
    obtain items nxt where page: "page = (items, nxt)" by force
    obtain a w' where adv: "advance w nxt = (a, w')" by force
    show ?thesis
    proof (cases "a = Ok True")
      case True
      with adv have more: "cw_pages w' = Suc (cw_pages w)" "cw_pages w' < cw_max_pages w" "cw_max_pages w' = cw_max_pages w"
        using advance_more by blast+
      have "fst (snd (walk_pages (counted fetch) cerr (Suc k, s') w' (acc @ items)))
          \<le> Suc k + max 1 (cw_max_pages w' - cw_pages w')"
        using more by (intro less) simp
      moreover have "Suc k + max 1 (cw_max_pages w' - cw_pages w') \<le> k + max 1 (cw_max_pages w - cw_pages w)"
        using more by (auto simp: max_def)
      moreover have "walk_pages (counted fetch) cerr (k, s) w acc
          = walk_pages (counted fetch) cerr (Suc k, s') w' (acc @ items)"
        using f Inr page adv True by (subst walk_pages.simps) (simp add: counted_def)
      ultimately show ?thesis by simp
    next
      case False
      with f Inr page adv show ?thesis
        by (subst walk_pages.simps) (auto simp: counted_def split: sum.splits bool.splits)
    qed
  qed
qed

section \<open>The contract between a listing and the client that walks it\<close>

locale pager =
  fixes fetch :: "'s \<Rightarrow> string \<Rightarrow> ('e + 'a list \<times> string) \<times> 's"
    and rows :: "'s \<Rightarrow> (string \<times> 'a) list"
    and size :: nat
    and valid :: "'s \<Rightarrow> bool"
  assumes size_pos: "0 < size"
    and keys_sorted: "valid s \<Longrightarrow> sorted_wrt (<) (List.map fst (rows s))"
    and keys_not_empty: "valid s \<Longrightarrow> [] \<notin> fst ` set (rows s)"
    and fetch_page: "valid s \<Longrightarrow> fetch s after =
      (let R = filter (\<lambda>(k, _). after < k) (rows s)
       in (Ok (List.map snd (take size R), if size < length R then fst (R ! (size - 1)) else []), s))"
begin

definition remaining :: "'s \<Rightarrow> string \<Rightarrow> (string \<times> 'a) list" where
  "remaining s after = filter (\<lambda>(k, _). after < k) (rows s)"

lemma remaining_start: "valid s \<Longrightarrow> remaining s [] = rows s"
  unfolding remaining_def using keys_not_empty [of s]
  by (intro filter_True) (auto simp: image_iff Nil_less_iff)

lemma remaining_after_page:
  assumes "valid s" "size < length (remaining s after)"
  defines "edge \<equiv> fst (remaining s after ! (size - 1))"
  shows "remaining s edge = drop size (remaining s after)" and "after < edge"
proof -
  let ?R = "remaining s after"
  have idx: "size - 1 < length ?R" using assms by simp
  then have "?R ! (size - 1) \<in> set ?R" by simp
  then show after: "after < edge" by (auto simp: remaining_def edge_def)
  have sorted: "sorted_wrt (\<lambda>x y. fst x < fst y) ?R"
    using keys_sorted [OF assms(1)] unfolding remaining_def sorted_wrt_map by (intro sorted_wrt_filter_same)
  have split: "?R = take size ?R @ drop size ?R" by simp
  have below: "\<not> edge < fst x" if "x \<in> set (take size ?R)" for x
  proof -
    from that obtain i where i: "i < size" "i < length ?R" "x = ?R ! i" by (auto simp: in_set_conv_nth)
    show ?thesis
    proof (cases "i = size - 1")
      case False
      with i have "fst (?R ! i) < fst (?R ! (size - 1))" using sorted idx by (intro sorted_wrt_nth_less [OF sorted]) auto
      with i show ?thesis by (simp add: edge_def)
    qed (simp add: i edge_def)
  qed
  have above: "edge < fst x" if "x \<in> set (drop size ?R)" for x
  proof -
    from that obtain i where "i < length ?R - size" "x = drop size ?R ! i" by (metis in_set_conv_nth length_drop)
    then have i: "size + i < length ?R" "x = ?R ! (size + i)" by auto
    then show ?thesis unfolding edge_def i(2) using size_pos by (intro sorted_wrt_nth_less [OF sorted]) auto
  qed
  have "remaining s edge = filter (\<lambda>(k, _). edge < k) ?R"
    using after unfolding remaining_def filter_filter by (intro filter_cong) auto
  also have "\<dots> = filter (\<lambda>(k, _). edge < k) (take size ?R) @ filter (\<lambda>(k, _). edge < k) (drop size ?R)"
    by (subst split) (simp only: filter_append)
  also have "\<dots> = drop size ?R" using below above by (auto simp: filter_empty_conv filter_id_conv case_prod_beta)
  finally show "remaining s edge = drop size ?R" .
qed

text \<open>The walk collects every row, or stops because the listing spans too many pages.\<close>

lemma walk_collects:
  assumes "valid s"
  shows "walk_pages fetch cerr s w acc =
    (if length (remaining s (cw_after w)) \<le> size * max 1 (cw_max_pages w - cw_pages w)
     then Ok (acc @ List.map snd (remaining s (cw_after w)))
     else Err (cerr (TooManyPages (cw_max_pages w))), s)"
  using assms
proof (induction "cw_max_pages w - cw_pages w" arbitrary: w acc rule: less_induct)
  case (less w acc)
  let ?R = "remaining s (cw_after w)"
  have fetch: "fetch s (cw_after w) = (Ok (List.map snd (take size ?R), if size < length ?R then fst (?R ! (size - 1)) else []), s)"
    using fetch_page [OF less.prems] by (simp add: remaining_def Let_def)
  show ?case
  proof (cases "size < length ?R")
    case False
    moreover have "size * 1 \<le> size * max 1 (cw_max_pages w - cw_pages w)" by (rule mult_le_mono2) simp
    ultimately have "length ?R \<le> size * max 1 (cw_max_pages w - cw_pages w)" by linarith
    with False show ?thesis by (subst walk_pages.simps) (simp add: fetch advance_def Let_def)
  next
    case True
    let ?edge = "fst (?R ! (size - 1))"
    note step = remaining_after_page [OF less.prems True]
    have ne: "?edge \<noteq> []" "?edge \<noteq> cw_after w" using step(2) by auto
    show ?thesis
    proof (cases "cw_max_pages w \<le> Suc (cw_pages w)")
      case over: True
      then have "max 1 (cw_max_pages w - cw_pages w) = 1" by simp
      with True over ne show ?thesis by (subst walk_pages.simps) (simp add: fetch advance_def Let_def)
    next
      case False
      let ?w = "w\<lparr> cw_pages := Suc (cw_pages w), cw_after := ?edge \<rparr>"
      have left: "cw_max_pages w - cw_pages w = Suc (cw_max_pages w - Suc (cw_pages w))"
        "0 < cw_max_pages w - Suc (cw_pages w)" using False by auto
      have "walk_pages fetch cerr s w acc = walk_pages fetch cerr s ?w (acc @ List.map snd (take size ?R))"
        using True ne False by (subst walk_pages.simps) (simp add: fetch advance_def Let_def)
      also have "\<dots> = (if length (drop size ?R) \<le> size * max 1 (cw_max_pages w - Suc (cw_pages w))
         then Ok ((acc @ List.map snd (take size ?R)) @ List.map snd (drop size ?R))
         else Err (cerr (TooManyPages (cw_max_pages w))), s)"
        using less.hyps [of ?w] less.prems left step(1) by simp
      also have "(acc @ List.map snd (take size ?R)) @ List.map snd (drop size ?R) = acc @ List.map snd ?R"
        by (simp flip: map_append)
      also have "length (drop size ?R) \<le> size * max 1 (cw_max_pages w - Suc (cw_pages w))
          \<longleftrightarrow> length ?R \<le> size * max 1 (cw_max_pages w - cw_pages w)"
        using left by (simp add: max_def) linarith
      finally show ?thesis .
    qed
  qed
qed

lemma walk_all:
  assumes "valid s" "length (rows s) \<le> size * max 1 m"
  shows "walk_pages fetch cerr s (new_walk m) [] = (Ok (List.map snd (rows s)), s)"
  using assms walk_collects [OF assms(1), of cerr "new_walk m" "[]"]
  by (simp add: new_walk_def remaining_start)

lemma walk_too_long:
  assumes "valid s" "size * max 1 m < length (rows s)"
  shows "walk_pages fetch cerr s (new_walk m) [] = (Err (cerr (TooManyPages m)), s)"
  using assms walk_collects [OF assms(1), of cerr "new_walk m" "[]"]
  by (simp add: new_walk_def remaining_start)

end

text \<open>
  The listings of the code: a page of the given size of a sorted list of rows, on the wire.
\<close>

definition sorted_listing :: "int \<Rightarrow> (string \<times> 'a) list \<Rightarrow> string \<Rightarrow> ('e + 'a list \<times> string) \<times> (string \<times> 'a) list" where
  "sorted_listing amount rows after =
     (let resp = into_response (page_sorted rows
             (normalize \<lparr> pp_prefix = None, pp_after = Some after, pp_amount = Some amount \<rparr>))
      in (Ok (lr_results resp, pg_next_offset (lr_pagination resp)), rows))"

definition rows_ok :: "(string \<times> 'a) list \<Rightarrow> bool" where
  "rows_ok rows \<longleftrightarrow> sorted_wrt (<) (List.map fst rows) \<and> [] \<notin> fst ` set rows"

lemma sorted_listing_page:
  "sorted_listing 1000 rows after = (let R = filter (\<lambda>(k, _). after < k) rows
     in (Ok (List.map snd (take 1000 R), if 1000 < length R then fst (R ! (1000 - 1)) else []), rows))"
proof -
  let ?q = "normalize \<lparr> pp_prefix = None, pp_after = Some after, pp_amount = Some 1000 \<rparr>"
  have q: "?q = \<lparr> q_prefix = [], q_after = after, q_limit = 1000 \<rparr>"
    by (simp add: normalize_def MAX_PAGE_def)
  have R: "page_rows ?q rows = filter (\<lambda>(k, _). after < k) rows"
    by (simp add: page_rows_def q)
  show ?thesis
    using page_sorted_spec [of ?q rows] unfolding R
    by (simp add: sorted_listing_def into_response_def q Let_def)
qed

interpretation listing: pager "sorted_listing 1000" "\<lambda>rows. rows" 1000 rows_ok
  by unfold_locales (simp_all add: rows_ok_def sorted_listing_page)

end
