(* ===== verification/Store_Types.thy ===== *)
theory Store_Types
  imports Validate Crypto Pagination
begin

text \<open>
  The records of the stores (\<open>lakefs-authz/src/store/types.rs\<close>) and their validating constructors.  A
  timestamp is an integer; sub-second precision plays no part in the code modelled here.
\<close>

definition optional_text :: "string option \<Rightarrow> string option" where
  "optional_text value = Option.bind value non_blank"

record user_record =
  ur_username :: string
  ur_user_id :: int
  ur_creation_date :: int
  ur_friendly_name :: "string option"
  ur_email :: "string option"
  ur_source :: "string option"
  ur_external_id :: "string option"
  ur_encrypted_password :: "u8 list option"

record new_user =
  nu_username :: string
  nu_creation_date :: int
  nu_friendly_name :: "string option"
  nu_email :: "string option"
  nu_source :: "string option"
  nu_external_id :: "string option"
  nu_encrypted_password :: "u8 list option"

record user_fields =
  uf_friendly_name :: "string option"
  uf_email :: "string option"
  uf_source :: "string option"
  uf_external_id :: "string option"
  uf_encrypted_password :: "u8 list option"

definition new_user_validated :: "string \<Rightarrow> user_fields \<Rightarrow> int \<Rightarrow> api_error + new_user" where
  "new_user_validated username flds creation_date =
    and_then (validate_entity_id ''user'' username) (\<lambda>_. Ok
      \<lparr> nu_username = username, nu_creation_date = creation_date,
        nu_friendly_name = optional_text (uf_friendly_name flds),
        nu_email = optional_text (uf_email flds),
        nu_source = optional_text (uf_source flds),
        nu_external_id = optional_text (uf_external_id flds),
        nu_encrypted_password = uf_encrypted_password flds \<rparr>)"

definition same_identity_as :: "new_user \<Rightarrow> user_record \<Rightarrow> bool" where
  "same_identity_as user existing \<longleftrightarrow> nu_external_id user = ur_external_id existing"

definition new_user_named :: "int \<Rightarrow> string \<Rightarrow> new_user" where
  "new_user_named now username = \<lparr> nu_username = username, nu_creation_date = now, nu_friendly_name = None,
     nu_email = None, nu_source = None, nu_external_id = None, nu_encrypted_password = None \<rparr>"

record group_record =
  gr_id :: string
  gr_description :: "string option"
  gr_creation_date :: int

record new_group =
  ng_id :: string
  ng_description :: "string option"
  ng_creation_date :: int

definition new_group_validated :: "string \<Rightarrow> string option \<Rightarrow> int \<Rightarrow> api_error + new_group" where
  "new_group_validated i description creation_date =
    and_then (validate_entity_id ''group'' i) (\<lambda>_. Ok
      \<lparr> ng_id = i, ng_description = description, ng_creation_date = creation_date \<rparr>)"

definition new_group_named :: "int \<Rightarrow> string \<Rightarrow> new_group" where
  "new_group_named now i = \<lparr> ng_id = i, ng_description = None, ng_creation_date = now \<rparr>"

record policy_record =
  pr_name :: string
  pr_creation_date :: int
  pr_statement :: "statement list"
  pr_acl :: "string option"

record new_policy =
  np_name :: string
  np_creation_date :: int
  np_statement :: "statement list"
  np_acl :: "string option"

definition new_policy_validated :: "(string \<Rightarrow> string + string list) \<Rightarrow> string \<Rightarrow> statement list \<Rightarrow> string option
    \<Rightarrow> int \<Rightarrow> api_error + new_policy" where
  "new_policy_validated parse_list name statement acl creation_date =
    and_then (validate_policy parse_list name statement) (\<lambda>_. Ok
      \<lparr> np_name = name, np_creation_date = creation_date, np_statement = statement, np_acl = acl \<rparr>)"

record credential_record =
  cr_access_key_id :: string
  cr_username :: string
  cr_user_id :: int
  cr_secret_ciphertext :: "u8 list"
  cr_creation_date :: int

record new_credential =
  nc_access_key_id :: string
  nc_username :: string
  nc_secret_ciphertext :: "u8 list"
  nc_creation_date :: int

definition new_credential_sealed :: "secret_box \<Rightarrow> u8 list \<Rightarrow> string \<Rightarrow> string \<Rightarrow> string \<Rightarrow> int
    \<Rightarrow> crypto_error + new_credential" where
  "new_credential_sealed secrets nonce username access_key_id secret_access_key creation_date =
    and_then (seal_str secrets nonce secret_access_key) (\<lambda>ciphertext. Ok
      \<lparr> nc_access_key_id = access_key_id, nc_username = username, nc_secret_ciphertext = ciphertext,
        nc_creation_date = creation_date \<rparr>)"

record external_principal_record =
  er_id :: string
  er_username :: string

record bootstrap_plan =
  bp_policies :: "new_policy list"
  bp_groups :: "new_group list"
  bp_users :: "new_user list"
  bp_memberships :: "(string \<times> string) list"
  bp_user_policies :: "(string \<times> string) list"
  bp_group_policies :: "(string \<times> string) list"
  bp_credentials :: "new_credential list"

definition empty_plan :: bootstrap_plan where
  "empty_plan = \<lparr> bp_policies = [], bp_groups = [], bp_users = [], bp_memberships = [], bp_user_policies = [],
     bp_group_policies = [], bp_credentials = [] \<rparr>"

definition plan_is_empty :: "bootstrap_plan \<Rightarrow> bool" where
  "plan_is_empty p \<longleftrightarrow> bp_policies p = [] \<and> bp_groups p = [] \<and> bp_users p = [] \<and> bp_memberships p = []
     \<and> bp_user_policies p = [] \<and> bp_group_policies p = [] \<and> bp_credentials p = []"

text \<open>The counters are \<open>u32\<close> in the source; a plan has one entry per increment.\<close>

record bootstrap_counts =
  bc_policies :: nat
  bc_groups :: nat
  bc_users :: nat
  bc_memberships :: nat
  bc_attachments :: nat
  bc_credentials :: nat

definition zero_counts :: bootstrap_counts where
  "zero_counts = \<lparr> bc_policies = 0, bc_groups = 0, bc_users = 0, bc_memberships = 0, bc_attachments = 0,
     bc_credentials = 0 \<rparr>"

record bootstrap_report =
  br_created :: bootstrap_counts
  br_skipped :: bootstrap_counts

definition zero_report :: bootstrap_report where
  "zero_report = \<lparr> br_created = zero_counts, br_skipped = zero_counts \<rparr>"

definition report_display :: "bootstrap_report \<Rightarrow> string" where
  "report_display r = (let c = br_created r; s = br_skipped r; pair = (\<lambda>a b. show_nat a @ ''/'' @ show_nat b) in
     ''policies '' @ pair (bc_policies c) (bc_policies s)
     @ '' groups '' @ pair (bc_groups c) (bc_groups s)
     @ '' users '' @ pair (bc_users c) (bc_users s)
     @ '' memberships '' @ pair (bc_memberships c) (bc_memberships s)
     @ '' attachments '' @ pair (bc_attachments c) (bc_attachments s)
     @ '' credentials '' @ pair (bc_credentials c) (bc_credentials s) @ '' (created/skipped)'')"

lemma optional_text_not_blank: "optional_text v = Some t \<Longrightarrow> t \<noteq> [] \<and> trim t = t"
  by (auto simp: optional_text_def bind_eq_Some_conv non_blank_Some_iff)

lemma optional_text_idem [simp]: "optional_text (optional_text v) = optional_text v"
  by (cases "optional_text v") (auto simp: optional_text_def bind_eq_Some_conv non_blank_fixed)

lemma new_user_validated_Ok:
  "new_user_validated username flds now = Ok u \<longleftrightarrow> entity_id_ok username \<and>
     u = \<lparr> nu_username = username, nu_creation_date = now,
        nu_friendly_name = optional_text (uf_friendly_name flds), nu_email = optional_text (uf_email flds),
        nu_source = optional_text (uf_source flds), nu_external_id = optional_text (uf_external_id flds),
        nu_encrypted_password = uf_encrypted_password flds \<rparr>"
  by (auto simp: new_user_validated_def res_simps)

lemma plan_is_empty_iff: "plan_is_empty (p :: bootstrap_plan) \<longleftrightarrow> p = empty_plan"
  by (cases p) (auto simp: plan_is_empty_def empty_plan_def)

end
