(* ===== verification/Mem_Store.thy ===== *)
theory Mem_Store
  imports Store_Types
begin

text \<open>
  The in-memory store, \<open>lakefs-authz/src/store/mem.rs\<close>.  An operation that writes takes the \<open>Inner\<close> it
  holds the lock of and returns its result with the new \<open>Inner\<close>; one that reads returns its result.
  Every write runs under the lock from its first check to its last change, so operations are atomic;
  \<open>apply_bootstrap\<close> is the exception the source documents, and is split into its two halves.
\<close>

record inner =
  in_users :: "(string, user_record) btree"
  in_next_user_id :: int
  in_groups :: "(string, group_record) btree"
  in_policies :: "(string, policy_record) btree"
  in_group_members :: "(string \<times> string) list"
  in_user_policies :: "(string \<times> string) list"
  in_group_policies :: "(string \<times> string) list"
  in_credentials :: "(string, credential_record) btree"
  in_external_principals :: "(string, external_principal_record) btree"
  in_claimed_token_ids :: "(string, int) btree"

definition empty_inner :: inner where
  "empty_inner = \<lparr> in_users = [], in_next_user_id = 0, in_groups = [], in_policies = [], in_group_members = [],
     in_user_policies = [], in_group_policies = [], in_credentials = [], in_external_principals = [],
     in_claimed_token_ids = [] \<rparr>"

text \<open>\<open>ms_unavailable\<close> is the test knob of \<open>ping\<close>.\<close>

record mem_store =
  ms_inner :: inner
  ms_unavailable :: bool

definition new_mem_store :: mem_store where
  "new_mem_store = \<lparr> ms_inner = empty_inner, ms_unavailable = False \<rparr>"

type_synonym 'a store_result = "store_error + 'a"
type_synonym 'a update = "inner \<Rightarrow> 'a store_result \<times> inner"

section \<open>Helpers of \<open>Inner\<close>\<close>

definition require_row :: "bool \<Rightarrow> string \<Rightarrow> string \<Rightarrow> unit store_result" where
  "require_row found entity i = (if found then Ok () else Err (SNotFound entity i))"

definition require_user :: "inner \<Rightarrow> string \<Rightarrow> unit store_result" where
  "require_user s username = require_row (bt_contains_key (in_users s) username) ''user'' username"

definition require_group :: "inner \<Rightarrow> string \<Rightarrow> unit store_result" where
  "require_group s group_id = require_row (bt_contains_key (in_groups s) group_id) ''group'' group_id"

definition require_policy :: "inner \<Rightarrow> string \<Rightarrow> unit store_result" where
  "require_policy s name = require_row (bt_contains_key (in_policies s) name) ''policy'' name"

definition user_record_of :: "int \<Rightarrow> new_user \<Rightarrow> user_record" where
  "user_record_of uid user = \<lparr> ur_username = nu_username user, ur_user_id = uid,
     ur_creation_date = nu_creation_date user, ur_friendly_name = nu_friendly_name user,
     ur_email = nu_email user, ur_source = nu_source user, ur_external_id = nu_external_id user,
     ur_encrypted_password = nu_encrypted_password user \<rparr>"

definition insert_user :: "new_user \<Rightarrow> user_record update" where
  "insert_user user s =
    (if bt_contains_key (in_users s) (nu_username user)
     then (Err (SAlreadyExists ''user'' (nu_username user)), s)
     else case opt_filter (\<lambda>email. list_ex (\<lambda>u. ur_email u = Some email) (bt_values (in_users s))) (nu_email user) of
       Some email \<Rightarrow> (Err (SAlreadyExists ''user with email'' email), s)
     | None \<Rightarrow>
       (case opt_filter (\<lambda>x. list_ex (\<lambda>u. ur_external_id u = Some x) (bt_values (in_users s))) (nu_external_id user) of
         Some external_id \<Rightarrow> (Err (SAlreadyExists ''user with external id'' external_id), s)
       | None \<Rightarrow> (let next = in_next_user_id s + 1; record = user_record_of next user
                 in (Ok record, s\<lparr> in_next_user_id := next,
                                   in_users := bt_insert (nu_username user) record (in_users s) \<rparr>))))"

definition insert_group :: "new_group \<Rightarrow> group_record update" where
  "insert_group g s =
    (if bt_contains_key (in_groups s) (ng_id g) then (Err (SAlreadyExists ''group'' (ng_id g)), s)
     else let record = \<lparr> gr_id = ng_id g, gr_description = ng_description g, gr_creation_date = ng_creation_date g \<rparr>
          in (Ok record, s\<lparr> in_groups := bt_insert (ng_id g) record (in_groups s) \<rparr>))"

definition insert_policy :: "new_policy \<Rightarrow> policy_record update" where
  "insert_policy p s =
    (if bt_contains_key (in_policies s) (np_name p) then (Err (SAlreadyExists ''policy'' (np_name p)), s)
     else let record = \<lparr> pr_name = np_name p, pr_creation_date = np_creation_date p,
                         pr_statement = np_statement p, pr_acl = np_acl p \<rparr>
          in (Ok record, s\<lparr> in_policies := bt_insert (np_name p) record (in_policies s) \<rparr>))"

definition insert_credential :: "new_credential \<Rightarrow> credential_record update" where
  "insert_credential c s = (case bt_get (in_users s) (nc_username c) of
     None \<Rightarrow> (Err (SNotFound ''user'' (nc_username c)), s)
   | Some user \<Rightarrow>
      (if bt_contains_key (in_credentials s) (nc_access_key_id c)
       then (Err (SAlreadyExists ''credentials'' (nc_access_key_id c)), s)
       else let record = \<lparr> cr_access_key_id = nc_access_key_id c, cr_username = nc_username c,
                           cr_user_id = ur_user_id user, cr_secret_ciphertext = nc_secret_ciphertext c,
                           cr_creation_date = nc_creation_date c \<rparr>
            in (Ok record, s\<lparr> in_credentials := bt_insert (nc_access_key_id c) record (in_credentials s) \<rparr>)))"

definition cascade_delete_user :: "string \<Rightarrow> inner \<Rightarrow> inner" where
  "cascade_delete_user username s = s\<lparr>
     in_group_members := filter (\<lambda>(_, member). member \<noteq> username) (in_group_members s),
     in_user_policies := filter (\<lambda>(user, _). user \<noteq> username) (in_user_policies s),
     in_credentials := bt_retain (\<lambda>_ cred. cr_username cred \<noteq> username) (in_credentials s),
     in_external_principals := bt_retain (\<lambda>_ p. er_username p \<noteq> username) (in_external_principals s) \<rparr>"

definition cascade_delete_group :: "string \<Rightarrow> inner \<Rightarrow> inner" where
  "cascade_delete_group group_id s = s\<lparr>
     in_group_members := filter (\<lambda>(g, _). g \<noteq> group_id) (in_group_members s),
     in_group_policies := filter (\<lambda>(g, _). g \<noteq> group_id) (in_group_policies s) \<rparr>"

definition cascade_delete_policy :: "string \<Rightarrow> inner \<Rightarrow> inner" where
  "cascade_delete_policy name s = s\<lparr>
     in_user_policies := filter (\<lambda>(_, p). p \<noteq> name) (in_user_policies s),
     in_group_policies := filter (\<lambda>(_, p). p \<noteq> name) (in_group_policies s) \<rparr>"

definition policies_named :: "inner \<Rightarrow> string list \<Rightarrow> (string \<times> policy_record) list" where
  "policies_named s names = List.map_filter (\<lambda>name. map_option (Pair name) (bt_get (in_policies s) name)) names"

definition page_btree :: "(string, 'a) btree \<Rightarrow> page_query \<Rightarrow> 'a page_of" where
  "page_btree m q = page_sorted m q"

section \<open>Users\<close>

definition create_user :: "new_user \<Rightarrow> user_record update" where
  "create_user user s = insert_user user s"

definition get_user :: "inner \<Rightarrow> string \<Rightarrow> user_record store_result" where
  "get_user s username = ok_or (SNotFound ''user'' username) (bt_get (in_users s) username)"

definition find_user_by_id :: "inner \<Rightarrow> int \<Rightarrow> user_record option store_result" where
  "find_user_by_id s uid = Ok (List.find (\<lambda>u. ur_user_id u = uid) (bt_values (in_users s)))"

definition find_user_by_email :: "inner \<Rightarrow> string \<Rightarrow> user_record option store_result" where
  "find_user_by_email s email = Ok (List.find (\<lambda>u. ur_email u = Some email) (bt_values (in_users s)))"

definition find_user_by_external_id :: "inner \<Rightarrow> string \<Rightarrow> user_record option store_result" where
  "find_user_by_external_id s external_id =
     Ok (List.find (\<lambda>u. ur_external_id u = Some external_id) (bt_values (in_users s)))"

definition delete_user :: "string \<Rightarrow> unit update" where
  "delete_user username s =
    (if bt_get (in_users s) username = None then (Err (SNotFound ''user'' username), s)
     else (Ok (), cascade_delete_user username (s\<lparr> in_users := bt_remove username (in_users s) \<rparr>)))"

definition list_users :: "inner \<Rightarrow> page_query \<Rightarrow> user_record page_of store_result" where
  "list_users s q = Ok (page_btree (in_users s) q)"

definition set_friendly_name :: "string \<Rightarrow> string \<Rightarrow> unit update" where
  "set_friendly_name username friendly_name s =
    (if bt_get (in_users s) username = None then (Err (SNotFound ''user'' username), s)
     else (Ok (), s\<lparr> in_users := bt_modify username (\<lambda>u. u\<lparr> ur_friendly_name := Some friendly_name \<rparr>) (in_users s) \<rparr>))"

section \<open>Groups and policies\<close>

definition create_group :: "new_group \<Rightarrow> group_record update" where
  "create_group g s = insert_group g s"

definition get_group :: "inner \<Rightarrow> string \<Rightarrow> group_record store_result" where
  "get_group s group_id = ok_or (SNotFound ''group'' group_id) (bt_get (in_groups s) group_id)"

definition delete_group :: "string \<Rightarrow> unit update" where
  "delete_group group_id s =
    (if bt_get (in_groups s) group_id = None then (Err (SNotFound ''group'' group_id), s)
     else (Ok (), cascade_delete_group group_id (s\<lparr> in_groups := bt_remove group_id (in_groups s) \<rparr>)))"

definition list_groups :: "inner \<Rightarrow> page_query \<Rightarrow> group_record page_of store_result" where
  "list_groups s q = Ok (page_btree (in_groups s) q)"

definition create_policy :: "new_policy \<Rightarrow> policy_record update" where
  "create_policy p s = insert_policy p s"

definition get_policy :: "inner \<Rightarrow> string \<Rightarrow> policy_record store_result" where
  "get_policy s name = ok_or (SNotFound ''policy'' name) (bt_get (in_policies s) name)"

definition update_policy :: "new_policy \<Rightarrow> policy_record update" where
  "update_policy p s = (case bt_get (in_policies s) (np_name p) of
     None \<Rightarrow> (Err (SNotFound ''policy'' (np_name p)), s)
   | Some slot \<Rightarrow> (let slot' = slot\<lparr> pr_creation_date := np_creation_date p, pr_statement := np_statement p, pr_acl := np_acl p \<rparr>
       in (Ok slot', s\<lparr> in_policies := bt_modify (np_name p) (\<lambda>_. slot') (in_policies s) \<rparr>)))"

definition delete_policy :: "string \<Rightarrow> unit update" where
  "delete_policy name s =
    (if bt_get (in_policies s) name = None then (Err (SNotFound ''policy'' name), s)
     else (Ok (), cascade_delete_policy name (s\<lparr> in_policies := bt_remove name (in_policies s) \<rparr>)))"

definition list_policies :: "inner \<Rightarrow> page_query \<Rightarrow> policy_record page_of store_result" where
  "list_policies s q = Ok (page_btree (in_policies s) q)"

section \<open>Memberships and attachments\<close>

text \<open>Two checks in order, then the change.\<close>

definition checked :: "unit store_result \<Rightarrow> unit store_result \<Rightarrow> inner \<Rightarrow> inner \<Rightarrow> unit store_result \<times> inner" where
  "checked c1 c2 s s' = (case and_then c1 (\<lambda>_. c2) of Inl e \<Rightarrow> (Err e, s) | Inr _ \<Rightarrow> (Ok (), s'))"

definition add_membership :: "string \<Rightarrow> string \<Rightarrow> unit update" where
  "add_membership group_id username s = checked (require_group s group_id) (require_user s username) s
     (s\<lparr> in_group_members := bs_insert (group_id, username) (in_group_members s) \<rparr>)"

definition remove_membership :: "string \<Rightarrow> string \<Rightarrow> unit update" where
  "remove_membership group_id username s =
    (if \<not> bs_contains (in_group_members s) (group_id, username)
     then (Err (SNotFound ''group membership'' username), s)
     else (Ok (), s\<lparr> in_group_members := bs_remove (group_id, username) (in_group_members s) \<rparr>))"

definition list_group_members :: "inner \<Rightarrow> string \<Rightarrow> page_query \<Rightarrow> user_record page_of store_result" where
  "list_group_members s group_id q = and_then (require_group s group_id) (\<lambda>_.
     let rows = List.map_filter (\<lambda>(_, username). map_option (Pair username) (bt_get (in_users s) username))
                  (filter (\<lambda>(g, _). g = group_id) (in_group_members s))
     in Ok (page_sorted rows q))"

definition list_user_groups :: "inner \<Rightarrow> string \<Rightarrow> page_query \<Rightarrow> group_record page_of store_result" where
  "list_user_groups s username q = and_then (require_user s username) (\<lambda>_.
     let rows = List.map_filter (\<lambda>(g, _). map_option (Pair g) (bt_get (in_groups s) g))
                  (filter (\<lambda>(_, member). member = username) (in_group_members s))
     in Ok (page_sorted rows q))"

definition attach_policy_to_user :: "string \<Rightarrow> string \<Rightarrow> unit update" where
  "attach_policy_to_user username p s = checked (require_user s username) (require_policy s p) s
     (s\<lparr> in_user_policies := bs_insert (username, p) (in_user_policies s) \<rparr>)"

definition detach_policy_from_user :: "string \<Rightarrow> string \<Rightarrow> unit update" where
  "detach_policy_from_user username p s =
    (if \<not> bs_contains (in_user_policies s) (username, p) then (Err (SNotFound ''policy attachment'' p), s)
     else (Ok (), s\<lparr> in_user_policies := bs_remove (username, p) (in_user_policies s) \<rparr>))"

definition list_user_policies :: "inner \<Rightarrow> string \<Rightarrow> page_query \<Rightarrow> policy_record page_of store_result" where
  "list_user_policies s username q = and_then (require_user s username) (\<lambda>_.
     let names = map snd (filter (\<lambda>(user, _). user = username) (in_user_policies s))
     in Ok (page_sorted (policies_named s names) q))"

text \<open>The names collected by \<open>list_effective_user_policies\<close>.\<close>

definition effective_names :: "inner \<Rightarrow> string \<Rightarrow> string list" where
  "effective_names s username =
    (let groups = bs_extend [] (map fst (filter (\<lambda>(_, member). member = username) (in_group_members s)));
         names = bs_extend [] (map snd (filter (\<lambda>(user, _). user = username) (in_user_policies s)))
     in bs_extend names (map snd (filter (\<lambda>(g, _). bs_contains groups g) (in_group_policies s))))"

definition list_effective_user_policies :: "inner \<Rightarrow> string \<Rightarrow> page_query \<Rightarrow> policy_record page_of store_result" where
  "list_effective_user_policies s username q = and_then (require_user s username) (\<lambda>_.
     Ok (page_sorted (policies_named s (effective_names s username)) q))"

definition attach_policy_to_group :: "string \<Rightarrow> string \<Rightarrow> unit update" where
  "attach_policy_to_group group_id p s = checked (require_group s group_id) (require_policy s p) s
     (s\<lparr> in_group_policies := bs_insert (group_id, p) (in_group_policies s) \<rparr>)"

definition detach_policy_from_group :: "string \<Rightarrow> string \<Rightarrow> unit update" where
  "detach_policy_from_group group_id p s =
    (if \<not> bs_contains (in_group_policies s) (group_id, p) then (Err (SNotFound ''policy attachment'' p), s)
     else (Ok (), s\<lparr> in_group_policies := bs_remove (group_id, p) (in_group_policies s) \<rparr>))"

definition list_group_policies :: "inner \<Rightarrow> string \<Rightarrow> page_query \<Rightarrow> policy_record page_of store_result" where
  "list_group_policies s group_id q = and_then (require_group s group_id) (\<lambda>_.
     let names = map snd (filter (\<lambda>(g, _). g = group_id) (in_group_policies s))
     in Ok (page_sorted (policies_named s names) q))"

section \<open>Credentials\<close>

definition create_credential :: "new_credential \<Rightarrow> credential_record update" where
  "create_credential c s = insert_credential c s"

definition get_credential :: "inner \<Rightarrow> string \<Rightarrow> credential_record store_result" where
  "get_credential s access_key_id =
     ok_or (SNotFound ''credentials'' access_key_id) (bt_get (in_credentials s) access_key_id)"

definition get_user_credential :: "inner \<Rightarrow> string \<Rightarrow> string \<Rightarrow> credential_record store_result" where
  "get_user_credential s username access_key_id = ok_or (SNotFound ''credentials'' access_key_id)
     (opt_filter (\<lambda>cred. cr_username cred = username) (bt_get (in_credentials s) access_key_id))"

definition delete_credential :: "string \<Rightarrow> string \<Rightarrow> unit update" where
  "delete_credential username access_key_id s =
    (if \<not> is_some_and (\<lambda>cred. cr_username cred = username) (bt_get (in_credentials s) access_key_id)
     then (Err (SNotFound ''credentials'' access_key_id), s)
     else (Ok (), s\<lparr> in_credentials := bt_remove access_key_id (in_credentials s) \<rparr>))"

definition list_user_credentials :: "inner \<Rightarrow> string \<Rightarrow> page_query \<Rightarrow> credential_record page_of store_result" where
  "list_user_credentials s username q = and_then (require_user s username) (\<lambda>_.
     Ok (page_sorted (filter (\<lambda>(_, c). cr_username c = username) (in_credentials s)) q))"

section \<open>External principals\<close>

definition create_external_principal :: "string \<Rightarrow> string \<Rightarrow> unit update" where
  "create_external_principal username principal_id s = (case require_user s username of
     Inl e \<Rightarrow> (Err e, s)
   | Inr _ \<Rightarrow>
      (if bt_contains_key (in_external_principals s) principal_id
       then (Err (SAlreadyExists ''external principal'' principal_id), s)
       else (Ok (), s\<lparr> in_external_principals :=
          bt_insert principal_id \<lparr> er_id = principal_id, er_username = username \<rparr> (in_external_principals s) \<rparr>)))"

definition delete_external_principal :: "string \<Rightarrow> string \<Rightarrow> unit update" where
  "delete_external_principal username principal_id s =
    (if \<not> is_some_and (\<lambda>p. er_username p = username) (bt_get (in_external_principals s) principal_id)
     then (Err (SNotFound ''external principal'' principal_id), s)
     else (Ok (), s\<lparr> in_external_principals := bt_remove principal_id (in_external_principals s) \<rparr>))"

definition get_external_principal :: "inner \<Rightarrow> string \<Rightarrow> external_principal_record store_result" where
  "get_external_principal s principal_id =
     ok_or (SNotFound ''external principal'' principal_id) (bt_get (in_external_principals s) principal_id)"

definition list_user_external_principals ::
    "inner \<Rightarrow> string \<Rightarrow> page_query \<Rightarrow> external_principal_record page_of store_result" where
  "list_user_external_principals s username q = and_then (require_user s username) (\<lambda>_.
     Ok (page_sorted (filter (\<lambda>(_, p). er_username p = username) (in_external_principals s)) q))"

section \<open>Token ids and administration\<close>

definition claim_token_id :: "string \<Rightarrow> int \<Rightarrow> unit update" where
  "claim_token_id token_id expires_at s =
    (if bt_contains_key (in_claimed_token_ids s) token_id then (Err (SAlreadyExists ''token id'' token_id), s)
     else (Ok (), s\<lparr> in_claimed_token_ids := bt_insert token_id expires_at (in_claimed_token_ids s) \<rparr>))"

definition delete_expired_token_ids :: "int \<Rightarrow> nat update" where
  "delete_expired_token_ids now s =
    (let before = length (in_claimed_token_ids s);
         kept = bt_retain (\<lambda>_ expires. expires > now) (in_claimed_token_ids s)
     in (Ok (before - length kept), s\<lparr> in_claimed_token_ids := kept \<rparr>))"

definition ping :: "mem_store \<Rightarrow> unit store_result" where
  "ping ms = (if ms_unavailable ms then Err (SBackend ''the in-memory store is marked unavailable'') else Ok ())"

definition set_unavailable :: "bool \<Rightarrow> mem_store \<Rightarrow> mem_store" where
  "set_unavailable b ms = ms\<lparr> ms_unavailable := b \<rparr>"

end
