(* ===== verification/Mem_Inv.thy ===== *)
theory Mem_Inv
  imports Mem_Store
begin

text \<open>
  The invariant of the in-memory store: its maps are ordered maps keyed by the rows they hold, every
  reference points at a row (the foreign keys of the schema), and user ids, emails and external ids
  are unique (its unique indexes).  Every operation preserves it, so every reachable store has it.
\<close>

named_theorems wf_preserved \<open>operations of the in-memory store preserve its invariant\<close>

definition wf_shape :: "inner \<Rightarrow> bool" where
  "wf_shape s \<longleftrightarrow> bt_ok (in_users s) \<and> bt_ok (in_groups s) \<and> bt_ok (in_policies s) \<and> bs_ok (in_group_members s)
     \<and> bs_ok (in_user_policies s) \<and> bs_ok (in_group_policies s) \<and> bt_ok (in_credentials s)
     \<and> bt_ok (in_external_principals s) \<and> bt_ok (in_claimed_token_ids s)"

definition wf_keys :: "inner \<Rightarrow> bool" where
  "wf_keys s \<longleftrightarrow> (\<forall>k u. bt_get (in_users s) k = Some u \<longrightarrow> ur_username u = k)
     \<and> (\<forall>k g. bt_get (in_groups s) k = Some g \<longrightarrow> gr_id g = k)
     \<and> (\<forall>k p. bt_get (in_policies s) k = Some p \<longrightarrow> pr_name p = k)
     \<and> (\<forall>k c. bt_get (in_credentials s) k = Some c \<longrightarrow> cr_access_key_id c = k)
     \<and> (\<forall>k e. bt_get (in_external_principals s) k = Some e \<longrightarrow> er_id e = k)"

definition wf_refs :: "inner \<Rightarrow> bool" where
  "wf_refs s \<longleftrightarrow>
     (\<forall>g u. (g, u) \<in> set (in_group_members s) \<longrightarrow> bt_get (in_groups s) g \<noteq> None \<and> bt_get (in_users s) u \<noteq> None)
     \<and> (\<forall>u p. (u, p) \<in> set (in_user_policies s) \<longrightarrow> bt_get (in_users s) u \<noteq> None \<and> bt_get (in_policies s) p \<noteq> None)
     \<and> (\<forall>g p. (g, p) \<in> set (in_group_policies s) \<longrightarrow> bt_get (in_groups s) g \<noteq> None \<and> bt_get (in_policies s) p \<noteq> None)
     \<and> (\<forall>k c. bt_get (in_credentials s) k = Some c \<longrightarrow>
           (\<exists>u. bt_get (in_users s) (cr_username c) = Some u \<and> ur_user_id u = cr_user_id c))
     \<and> (\<forall>k e. bt_get (in_external_principals s) k = Some e \<longrightarrow> bt_get (in_users s) (er_username e) \<noteq> None)"

definition wf_unique :: "inner \<Rightarrow> bool" where
  "wf_unique s \<longleftrightarrow> 0 \<le> in_next_user_id s
     \<and> (\<forall>k u. bt_get (in_users s) k = Some u \<longrightarrow> 1 \<le> ur_user_id u \<and> ur_user_id u \<le> in_next_user_id s)
     \<and> (\<forall>k k' u u'. bt_get (in_users s) k = Some u \<longrightarrow> bt_get (in_users s) k' = Some u' \<longrightarrow> k \<noteq> k' \<longrightarrow>
          ur_user_id u \<noteq> ur_user_id u' \<and> (ur_email u = ur_email u' \<longrightarrow> ur_email u = None)
          \<and> (ur_external_id u = ur_external_id u' \<longrightarrow> ur_external_id u = None))"

definition wf_inner :: "inner \<Rightarrow> bool" where
  "wf_inner s \<longleftrightarrow> wf_shape s \<and> wf_keys s \<and> wf_refs s \<and> wf_unique s"

lemma wf_innerI [intro?]: "wf_shape s \<Longrightarrow> wf_keys s \<Longrightarrow> wf_refs s \<Longrightarrow> wf_unique s \<Longrightarrow> wf_inner s"
  by (simp add: wf_inner_def)

lemma wf_inner_parts:
  assumes "wf_inner s"
  shows "wf_shape s" "wf_keys s" "wf_refs s" "wf_unique s"
  using assms by (simp_all add: wf_inner_def)

lemma wf_shapeD:
  assumes "wf_shape s"
  shows "bt_ok (in_users s)" "bt_ok (in_groups s)" "bt_ok (in_policies s)" "bs_ok (in_group_members s)"
    "bs_ok (in_user_policies s)" "bs_ok (in_group_policies s)" "bt_ok (in_credentials s)"
    "bt_ok (in_external_principals s)" "bt_ok (in_claimed_token_ids s)"
  using assms by (simp_all add: wf_shape_def)

lemmas wf_shape_of = wf_shapeD [OF wf_inner_parts(1)]

lemma wf_empty: "wf_inner empty_inner"
  by (simp add: wf_inner_def wf_shape_def wf_keys_def wf_refs_def wf_unique_def empty_inner_def)

section \<open>Helpers\<close>

lemma contains_key_iff [simp]: "bt_contains_key m k \<longleftrightarrow> bt_get m k \<noteq> None"
  by (simp add: bt_contains_key_def)

lemma require_simps [res_simps]:
  "require_user s u = Ok x \<longleftrightarrow> bt_get (in_users s) u \<noteq> None"
  "require_group s g = Ok x \<longleftrightarrow> bt_get (in_groups s) g \<noteq> None"
  "require_policy s p = Ok x \<longleftrightarrow> bt_get (in_policies s) p \<noteq> None"
  by (auto simp: require_user_def require_group_def require_policy_def require_row_def)

text \<open>A checked change either keeps the store or makes the change with both checks passed.\<close>

lemma checked_cases:
  obtains (err) e where "checked c1 c2 s s' = (Err e, s)"
  | (ok) "checked c1 c2 s s' = (Ok (), s')" "c1 = Ok ()" "c2 = Ok ()"
  by (cases c1; cases c2) (auto simp: checked_def)

lemma checked_preserves:
  assumes "P s" "c1 = Ok () \<Longrightarrow> c2 = Ok () \<Longrightarrow> P s'"
  shows "P (snd (checked c1 c2 s s'))"
  using assms by (cases rule: checked_cases [of c1 c2 s s']) auto

lemma insert_user_cases:
  obtains (err) e where "insert_user user s = (Err e, s)"
  | (ok) "bt_get (in_users s) (nu_username user) = None"
      "\<And>email u. nu_email user = Some email \<Longrightarrow> u \<in> set (bt_values (in_users s)) \<Longrightarrow> ur_email u \<noteq> Some email"
      "\<And>x u. nu_external_id user = Some x \<Longrightarrow> u \<in> set (bt_values (in_users s)) \<Longrightarrow> ur_external_id u \<noteq> Some x"
      "insert_user user s = (Ok (user_record_of (in_next_user_id s + 1) user),
         s\<lparr> in_next_user_id := in_next_user_id s + 1,
            in_users := bt_insert (nu_username user) (user_record_of (in_next_user_id s + 1) user) (in_users s) \<rparr>)"
proof (cases "fst (insert_user user s)")
  case (Inl e)
  then have "insert_user user s = (Err e, s)"
    by (auto simp: insert_user_def Let_def split: if_splits option.splits)
  then show ?thesis by (rule err)
next
  case (Inr r)
  then have "bt_get (in_users s) (nu_username user) = None"
    "opt_filter (\<lambda>email. list_ex (\<lambda>u. ur_email u = Some email) (bt_values (in_users s))) (nu_email user) = None"
    "opt_filter (\<lambda>x. list_ex (\<lambda>u. ur_external_id u = Some x) (bt_values (in_users s))) (nu_external_id user) = None"
    by (auto simp: insert_user_def Let_def split: if_splits option.splits)
  then show ?thesis
    by (intro ok) (auto simp: insert_user_def Let_def list_ex_iff split: if_splits)
qed

lemma wf_users_value: "wf_inner s \<Longrightarrow> u \<in> set (bt_values (in_users s)) \<longleftrightarrow> (\<exists>k. bt_get (in_users s) k = Some u)"
  by (simp add: bt_values_iff wf_shape_of)

section \<open>Creating rows\<close>

lemma wf_insert_user [wf_preserved]: "wf_inner s \<Longrightarrow> wf_inner (snd (insert_user user s))"
proof (cases rule: insert_user_cases [of user s])
  case ok
  assume wf: "wf_inner s"
  let ?r = "user_record_of (in_next_user_id s + 1) user"
  let ?s = "s\<lparr> in_next_user_id := in_next_user_id s + 1, in_users := bt_insert (nu_username user) ?r (in_users s) \<rparr>"
  note shape = wf_shape_of [OF wf]
  have get: "bt_get (in_users ?s) k = (if k = nu_username user then Some ?r else bt_get (in_users s) k)" for k
    using shape by (simp add: bt_simps)
  have vals: "ur_email u = nu_email user \<Longrightarrow> ur_email u = None"
    "ur_external_id u = nu_external_id user \<Longrightarrow> ur_external_id u = None" if "bt_get (in_users s) k = Some u" for k u
    using ok(2,3) that wf_users_value [OF wf] by (metis option.exhaust)+
  have "wf_inner ?s"
  proof
    show "wf_shape ?s" using shape by (simp add: wf_shape_def bt_inv)
    show "wf_keys ?s" using wf_inner_parts(2) [OF wf] unfolding wf_keys_def get by (simp add: user_record_of_def)
    show "wf_refs ?s" using wf_inner_parts(3) [OF wf] ok(1) unfolding wf_refs_def get by (auto split: if_splits) fastforce+
    show "wf_unique ?s" using wf_inner_parts(4) [OF wf] vals unfolding wf_unique_def get
      by (auto simp: user_record_of_def) force+
  qed
  with ok(4) show ?thesis by simp
qed simp

lemma wf_insert_group [wf_preserved]: "wf_inner s \<Longrightarrow> wf_inner (snd (insert_group g s))"
  by (auto simp: insert_group_def Let_def wf_inner_def wf_shape_def wf_keys_def wf_refs_def wf_unique_def bt_inv bt_simps)

lemma wf_insert_policy [wf_preserved]: "wf_inner s \<Longrightarrow> wf_inner (snd (insert_policy p s))"
  by (auto simp: insert_policy_def Let_def wf_inner_def wf_shape_def wf_keys_def wf_refs_def wf_unique_def bt_inv bt_simps)

lemma wf_insert_credential [wf_preserved]: "wf_inner s \<Longrightarrow> wf_inner (snd (insert_credential c s))"
  by (auto simp: insert_credential_def Let_def wf_inner_def wf_shape_def wf_keys_def wf_refs_def wf_unique_def bt_inv bt_simps
      split: option.splits)

lemma wf_claim_token_id [wf_preserved]: "wf_inner s \<Longrightarrow> wf_inner (snd (claim_token_id t e s))"
  by (auto simp: claim_token_id_def wf_inner_def wf_shape_def wf_keys_def wf_refs_def wf_unique_def bt_inv)

lemma wf_create_external_principal [wf_preserved]: "wf_inner s \<Longrightarrow> wf_inner (snd (create_external_principal u p s))"
  by (auto simp: create_external_principal_def wf_inner_def wf_shape_def wf_keys_def wf_refs_def wf_unique_def bt_inv bt_simps res_simps
      split: sum.splits)

section \<open>Memberships and attachments\<close>

lemma wf_add_membership [wf_preserved]: "wf_inner s \<Longrightarrow> wf_inner (snd (add_membership g u s))"
  unfolding add_membership_def
  by (rule checked_preserves)
    (auto simp: wf_inner_def wf_shape_def wf_keys_def wf_refs_def wf_unique_def bt_inv bt_simps res_simps)

lemma wf_attach_policy_to_user [wf_preserved]: "wf_inner s \<Longrightarrow> wf_inner (snd (attach_policy_to_user u p s))"
  unfolding attach_policy_to_user_def
  by (rule checked_preserves)
    (auto simp: wf_inner_def wf_shape_def wf_keys_def wf_refs_def wf_unique_def bt_inv bt_simps res_simps)

lemma wf_attach_policy_to_group [wf_preserved]: "wf_inner s \<Longrightarrow> wf_inner (snd (attach_policy_to_group g p s))"
  unfolding attach_policy_to_group_def
  by (rule checked_preserves)
    (auto simp: wf_inner_def wf_shape_def wf_keys_def wf_refs_def wf_unique_def bt_inv bt_simps res_simps)

lemma wf_remove_membership [wf_preserved]: "wf_inner s \<Longrightarrow> wf_inner (snd (remove_membership g u s))"
  by (auto simp: remove_membership_def wf_inner_def wf_shape_def wf_keys_def wf_refs_def wf_unique_def bt_inv bt_simps)

lemma wf_detach_policy_from_user [wf_preserved]: "wf_inner s \<Longrightarrow> wf_inner (snd (detach_policy_from_user u p s))"
  by (auto simp: detach_policy_from_user_def wf_inner_def wf_shape_def wf_keys_def wf_refs_def wf_unique_def bt_inv bt_simps)

lemma wf_detach_policy_from_group [wf_preserved]: "wf_inner s \<Longrightarrow> wf_inner (snd (detach_policy_from_group g p s))"
  by (auto simp: detach_policy_from_group_def wf_inner_def wf_shape_def wf_keys_def wf_refs_def wf_unique_def bt_inv bt_simps)

section \<open>Deleting rows: the cascades leave no dangling reference\<close>

lemma wf_shape_delete_user: "wf_shape s \<Longrightarrow> wf_shape (snd (delete_user u s))"
  by (auto simp: delete_user_def cascade_delete_user_def wf_shape_def bt_inv)

lemma wf_refs_delete_user: "wf_shape s \<Longrightarrow> wf_refs s \<Longrightarrow> wf_refs (snd (delete_user u s))"
  by (auto simp: delete_user_def cascade_delete_user_def wf_shape_def wf_refs_def bt_simps opt_filter_Some_iff)

lemma wf_delete_user [wf_preserved]: "wf_inner s \<Longrightarrow> wf_inner (snd (delete_user u s))"
  by (rule wf_innerI)
    (auto simp: wf_inner_def wf_shape_delete_user wf_refs_delete_user,
     auto simp: delete_user_def cascade_delete_user_def wf_shape_def wf_keys_def wf_unique_def bt_simps opt_filter_Some_iff
       split: if_splits)

lemma wf_delete_group [wf_preserved]: "wf_inner s \<Longrightarrow> wf_inner (snd (delete_group g s))"
  by (auto simp: delete_group_def cascade_delete_group_def wf_inner_def wf_shape_def wf_keys_def wf_refs_def
      wf_unique_def bt_inv bt_simps split: if_splits)

lemma wf_delete_policy [wf_preserved]: "wf_inner s \<Longrightarrow> wf_inner (snd (delete_policy p s))"
  by (auto simp: delete_policy_def cascade_delete_policy_def wf_inner_def wf_shape_def wf_keys_def wf_refs_def
      wf_unique_def bt_inv bt_simps split: if_splits)

lemma wf_delete_credential [wf_preserved]: "wf_inner s \<Longrightarrow> wf_inner (snd (delete_credential u c s))"
  by (auto simp: delete_credential_def wf_inner_def wf_shape_def wf_keys_def wf_refs_def wf_unique_def bt_inv bt_simps
      split: if_splits)

lemma wf_delete_external_principal [wf_preserved]: "wf_inner s \<Longrightarrow> wf_inner (snd (delete_external_principal u p s))"
  by (auto simp: delete_external_principal_def wf_inner_def wf_shape_def wf_keys_def wf_refs_def wf_unique_def bt_inv bt_simps
      split: if_splits)

lemma wf_delete_expired_token_ids [wf_preserved]: "wf_inner s \<Longrightarrow> wf_inner (snd (delete_expired_token_ids now s))"
  by (auto simp: delete_expired_token_ids_def Let_def wf_inner_def wf_shape_def wf_keys_def wf_refs_def wf_unique_def bt_inv)

section \<open>Updating rows\<close>

lemma wf_set_friendly_name [wf_preserved]: "wf_inner s \<Longrightarrow> wf_inner (snd (set_friendly_name u n s))"
proof (cases "bt_get (in_users s) u = None")
  case False
  assume wf: "wf_inner s"
  let ?s = "s\<lparr> in_users := bt_modify u (\<lambda>u. u\<lparr> ur_friendly_name := Some n \<rparr>) (in_users s) \<rparr>"
  note shape = wf_shape_of [OF wf]
  define upd where "upd k r = (if k = u then r\<lparr> ur_friendly_name := Some n \<rparr> else r)" for k and r :: user_record
  have get: "bt_get (in_users ?s) k = map_option (upd k) (bt_get (in_users s) k)" for k
    using shape by (cases "bt_get (in_users s) k") (auto simp: bt_simps upd_def)
  have same [simp]: "ur_user_id (upd k r) = ur_user_id r" "ur_username (upd k r) = ur_username r"
    "ur_email (upd k r) = ur_email r" "ur_external_id (upd k r) = ur_external_id r" for k r
    by (simp_all add: upd_def)
  have "wf_inner ?s"
  proof
    show "wf_shape ?s" using shape by (simp add: wf_shape_def bt_inv)
    show "wf_keys ?s" using wf_inner_parts(2) [OF wf] unfolding wf_keys_def get by auto
    show "wf_refs ?s" using wf_inner_parts(3) [OF wf] unfolding wf_refs_def get by auto (metis same(1))
    show "wf_unique ?s" using wf_inner_parts(4) [OF wf] unfolding wf_unique_def get by auto
  qed
  then show ?thesis using False by (auto simp: set_friendly_name_def)
qed (simp add: set_friendly_name_def)

lemma wf_update_policy [wf_preserved]: "wf_inner s \<Longrightarrow> wf_inner (snd (update_policy p s))"
  by (auto simp: update_policy_def Let_def wf_inner_def wf_shape_def wf_keys_def wf_refs_def wf_unique_def bt_inv bt_simps
      split: option.splits)

section \<open>Reachable stores\<close>

text \<open>The writes of the store, one constructor per operation of the storage traits.\<close>

datatype mem_op =
    CreateUser new_user
  | DeleteUser string
  | SetFriendlyName string string
  | CreateGroup new_group
  | DeleteGroup string
  | CreatePolicy new_policy
  | UpdatePolicy new_policy
  | DeletePolicy string
  | AddMembership string string
  | RemoveMembership string string
  | AttachToUser string string
  | DetachFromUser string string
  | AttachToGroup string string
  | DetachFromGroup string string
  | CreateCredential new_credential
  | DeleteCredential string string
  | CreateExternalPrincipal string string
  | DeleteExternalPrincipal string string
  | ClaimTokenId string int
  | DeleteExpiredTokenIds int

fun run_op :: "mem_op \<Rightarrow> inner \<Rightarrow> inner" where
  "run_op (CreateUser u) s = snd (create_user u s)"
| "run_op (DeleteUser u) s = snd (delete_user u s)"
| "run_op (SetFriendlyName u n) s = snd (set_friendly_name u n s)"
| "run_op (CreateGroup g) s = snd (create_group g s)"
| "run_op (DeleteGroup g) s = snd (delete_group g s)"
| "run_op (CreatePolicy p) s = snd (create_policy p s)"
| "run_op (UpdatePolicy p) s = snd (update_policy p s)"
| "run_op (DeletePolicy p) s = snd (delete_policy p s)"
| "run_op (AddMembership g u) s = snd (add_membership g u s)"
| "run_op (RemoveMembership g u) s = snd (remove_membership g u s)"
| "run_op (AttachToUser u p) s = snd (attach_policy_to_user u p s)"
| "run_op (DetachFromUser u p) s = snd (detach_policy_from_user u p s)"
| "run_op (AttachToGroup g p) s = snd (attach_policy_to_group g p s)"
| "run_op (DetachFromGroup g p) s = snd (detach_policy_from_group g p s)"
| "run_op (CreateCredential c) s = snd (create_credential c s)"
| "run_op (DeleteCredential u c) s = snd (delete_credential u c s)"
| "run_op (CreateExternalPrincipal u p) s = snd (create_external_principal u p s)"
| "run_op (DeleteExternalPrincipal u p) s = snd (delete_external_principal u p s)"
| "run_op (ClaimTokenId t e) s = snd (claim_token_id t e s)"
| "run_op (DeleteExpiredTokenIds now) s = snd (delete_expired_token_ids now s)"

inductive reachable :: "inner \<Rightarrow> bool" where
  init: "reachable empty_inner"
| step: "reachable s \<Longrightarrow> reachable (run_op op s)"

lemma wf_run_op: "wf_inner s \<Longrightarrow> wf_inner (run_op op s)"
  by (cases op) (simp_all add: wf_preserved create_user_def create_group_def create_policy_def create_credential_def)

lemma wf_reachable: "reachable s \<Longrightarrow> wf_inner s"
  by (induction rule: reachable.induct) (simp_all add: wf_empty wf_run_op)

lemma reachable_fold: "reachable s \<Longrightarrow> reachable (fold run_op ops s)"
  by (induction ops arbitrary: s) (auto intro: reachable.step)

lemma reachable_iff_run: "reachable s \<longleftrightarrow> (\<exists>ops. s = fold run_op ops empty_inner)"
proof
  assume "reachable s"
  then show "\<exists>ops. s = fold run_op ops empty_inner"
  proof (induction rule: reachable.induct)
    case init
    show ?case by (rule exI [of _ "[]"]) simp
  next
    case (step s op)
    then obtain ops where "s = fold run_op ops empty_inner" by blast
    then show ?case by (intro exI [of _ "ops @ [op]"]) simp
  qed
qed (auto intro: reachable_fold reachable.init)

section \<open>A failed operation changes nothing\<close>

definition atomic_update :: "'a update \<Rightarrow> bool" where
  "atomic_update f \<longleftrightarrow> (\<forall>s e. fst (f s) = Err e \<longrightarrow> snd (f s) = s)"

lemma atomic_updates:
  "atomic_update (create_user u)" "atomic_update (delete_user n)" "atomic_update (set_friendly_name n m)"
  "atomic_update (create_group g)" "atomic_update (delete_group n)"
  "atomic_update (create_policy p)" "atomic_update (update_policy p)" "atomic_update (delete_policy n)"
  "atomic_update (add_membership n m)" "atomic_update (remove_membership n m)"
  "atomic_update (attach_policy_to_user n m)" "atomic_update (detach_policy_from_user n m)"
  "atomic_update (attach_policy_to_group n m)" "atomic_update (detach_policy_from_group n m)"
  "atomic_update (create_credential c)" "atomic_update (delete_credential n m)"
  "atomic_update (create_external_principal n m)" "atomic_update (delete_external_principal n m)"
  "atomic_update (claim_token_id n e)" "atomic_update (delete_expired_token_ids e)"
  unfolding atomic_update_def
  by (auto simp: create_user_def insert_user_def delete_user_def set_friendly_name_def create_group_def insert_group_def
      delete_group_def create_policy_def insert_policy_def update_policy_def delete_policy_def add_membership_def
      remove_membership_def attach_policy_to_user_def detach_policy_from_user_def attach_policy_to_group_def
      detach_policy_from_group_def create_credential_def insert_credential_def delete_credential_def
      create_external_principal_def delete_external_principal_def claim_token_id_def delete_expired_token_ids_def
      checked_def Let_def split: if_splits option.splits sum.splits)

end
