(* ===== verification/Mem_Spec.thy ===== *)
theory Mem_Spec
  imports Mem_Inv
begin

text \<open>
  What the operations of the in-memory store mean, on every branch: lookups find the unique row,
  deletes cascade and touch nothing else, the effective policies of a user are the direct ones and
  those of its groups, user ids are never reused and a token id is claimed once.
\<close>

section \<open>Sorted listings\<close>

lemma sorted_fst_filter:
  fixes xs :: "('a::linorder \<times> 'b::linorder) list"
  assumes "sorted_wrt (<) xs"
  shows "sorted_wrt (<) (map fst (filter (\<lambda>(_, y). y = k) xs))"
  using assms by (induction xs) (auto simp: less_prod_def')

lemma sorted_snd_filter:
  fixes xs :: "('a::linorder \<times> 'b::linorder) list"
  assumes "sorted_wrt (<) xs"
  shows "sorted_wrt (<) (map snd (filter (\<lambda>(x, _). x = k) xs))"
  using assms by (induction xs) (auto simp: less_prod_def')

lemma map_filter_named: "(\<And>n. n \<in> set names \<Longrightarrow> f n \<noteq> None) \<Longrightarrow>
    List.map_filter (\<lambda>n. map_option (Pair n) (f n)) names = map (\<lambda>n. (n, the (f n))) names"
proof (induction names)
  case (Cons a names)
  then obtain v where "f a = Some v" by fastforce
  with Cons show ?case by (simp add: map_filter_simps)
qed (simp add: map_filter_simps)

lemma policies_named_eq:
  "(\<And>n. n \<in> set names \<Longrightarrow> bt_get (in_policies s) n \<noteq> None) \<Longrightarrow>
     policies_named s names = map (\<lambda>n. (n, the (bt_get (in_policies s) n))) names"
  unfolding policies_named_def by (rule map_filter_named)

section \<open>Lookups\<close>

lemma find_user_unique:
  assumes "wf_inner s" "\<And>u u' k k'. bt_get (in_users s) k = Some u \<Longrightarrow> bt_get (in_users s) k' = Some u' \<Longrightarrow>
      p u \<Longrightarrow> p u' \<Longrightarrow> k = k'"
  shows "List.find p (bt_values (in_users s)) = Some u \<longleftrightarrow> bt_get (in_users s) (ur_username u) = Some u \<and> p u"
proof -
  have key: "ur_username u = k" if "bt_get (in_users s) k = Some u" for k u
    using that wf_inner_parts(2) [OF assms(1)] by (auto simp: wf_keys_def)
  have "x = y" if xy: "x \<in> set (bt_values (in_users s))" "y \<in> set (bt_values (in_users s))" "p x" "p y" for x y
  proof -
    obtain k k' where "bt_get (in_users s) k = Some x" "bt_get (in_users s) k' = Some y"
      using xy(1,2) wf_users_value [OF assms(1)] by blast
    with assms(2) xy(3,4) show ?thesis by fastforce
  qed
  then have "List.find p (bt_values (in_users s)) = Some u \<longleftrightarrow> u \<in> set (bt_values (in_users s)) \<and> p u"
    by (rule find_Some_iff_unique)
  then show ?thesis unfolding wf_users_value [OF assms(1)] using key by auto
qed

lemma find_user_by_email_iff:
  assumes "wf_inner s"
  shows "find_user_by_email s email = Ok (Some u)
    \<longleftrightarrow> bt_get (in_users s) (ur_username u) = Some u \<and> ur_email u = Some email"
  unfolding find_user_by_email_def sum.inject
  by (rule find_user_unique [OF assms])
    (use wf_inner_parts(4) [OF assms] in \<open>unfold wf_unique_def, metis option.distinct(1)\<close>)

lemma find_user_by_external_id_iff:
  assumes "wf_inner s"
  shows "find_user_by_external_id s x = Ok (Some u)
    \<longleftrightarrow> bt_get (in_users s) (ur_username u) = Some u \<and> ur_external_id u = Some x"
  unfolding find_user_by_external_id_def sum.inject
  by (rule find_user_unique [OF assms])
    (use wf_inner_parts(4) [OF assms] in \<open>unfold wf_unique_def, metis option.distinct(1)\<close>)

lemma find_user_by_id_iff:
  assumes "wf_inner s"
  shows "find_user_by_id s uid = Ok (Some u)
    \<longleftrightarrow> bt_get (in_users s) (ur_username u) = Some u \<and> ur_user_id u = uid"
  unfolding find_user_by_id_def sum.inject
  by (rule find_user_unique [OF assms])
    (use wf_inner_parts(4) [OF assms] in \<open>unfold wf_unique_def, metis\<close>)

section \<open>Effective policies\<close>

lemma image_pairs:
  "snd ` {x \<in> A. case x of (a, _) \<Rightarrow> P a} = {b. \<exists>a. (a, b) \<in> A \<and> P a}"
  "fst ` {x \<in> A. case x of (_, b) \<Rightarrow> Q b} = {a. \<exists>b. (a, b) \<in> A \<and> Q b}"
  by force+

lemma set_effective_names:
  "set (effective_names s u) = {p. (u, p) \<in> set (in_user_policies s)}
     \<union> {p. \<exists>g. (g, u) \<in> set (in_group_members s) \<and> (g, p) \<in> set (in_group_policies s)}"
  by (auto simp: effective_names_def Let_def bt_simps image_pairs)

lemma bs_ok_effective_names: "bs_ok (effective_names s u)"
  by (simp add: effective_names_def Let_def bt_inv)

lemma effective_rows:
  assumes "wf_inner s"
  shows "policies_named s (effective_names s u) = map (\<lambda>n. (n, the (bt_get (in_policies s) n))) (effective_names s u)"
  using wf_inner_parts(3) [OF assms] unfolding wf_refs_def
  by (intro policies_named_eq) (auto simp: set_effective_names)

lemma list_effective_spec:
  assumes "wf_inner s" "bt_get (in_users s) u \<noteq> None"
  shows "list_effective_user_policies s u q =
    Ok (page_sorted (map (\<lambda>n. (n, the (bt_get (in_policies s) n))) (effective_names s u)) q)"
  using assms require_simps(1) [of s u "()"] by (simp add: list_effective_user_policies_def effective_rows)

section \<open>Deletes\<close>

lemma delete_user_effect:
  assumes "wf_inner s" "delete_user u s = (Ok r, s')"
  shows "bt_get (in_users s') = (bt_get (in_users s))(u := None)"
    and "set (in_group_members s') = {(g, m) \<in> set (in_group_members s). m \<noteq> u}"
    and "set (in_user_policies s') = {(m, p) \<in> set (in_user_policies s). m \<noteq> u}"
    and "bt_get (in_credentials s') k = opt_filter (\<lambda>c. cr_username c \<noteq> u) (bt_get (in_credentials s) k)"
    and "bt_get (in_external_principals s') k = opt_filter (\<lambda>e. er_username e \<noteq> u) (bt_get (in_external_principals s) k)"
    and "in_groups s' = in_groups s" "in_policies s' = in_policies s" "in_group_policies s' = in_group_policies s"
      "in_claimed_token_ids s' = in_claimed_token_ids s" "in_next_user_id s' = in_next_user_id s"
  using assms(2) wf_shape_of [OF assms(1)]
  by (auto simp: delete_user_def cascade_delete_user_def bt_simps fun_eq_iff split: if_splits)

section \<open>User ids are never reused\<close>

lemma run_op_next_user_id: "in_next_user_id s \<le> in_next_user_id (run_op op s)"
  by (cases op)
    (auto simp: create_user_def insert_user_def delete_user_def cascade_delete_user_def set_friendly_name_def
      create_group_def insert_group_def delete_group_def cascade_delete_group_def create_policy_def insert_policy_def
      update_policy_def delete_policy_def cascade_delete_policy_def add_membership_def remove_membership_def
      attach_policy_to_user_def detach_policy_from_user_def attach_policy_to_group_def detach_policy_from_group_def
      create_credential_def insert_credential_def delete_credential_def create_external_principal_def
      delete_external_principal_def claim_token_id_def delete_expired_token_ids_def checked_def Let_def
      split: option.splits sum.splits)

lemma fold_next_user_id: "in_next_user_id s \<le> in_next_user_id (fold run_op ops s)"
  by (induction ops arbitrary: s) (auto intro: order_trans run_op_next_user_id)

lemma create_user_id:
  "create_user user s = (Ok r, s') \<Longrightarrow> ur_user_id r = in_next_user_id s + 1 \<and> in_next_user_id s' = in_next_user_id s + 1"
  by (cases rule: insert_user_cases [of user s]) (auto simp: create_user_def user_record_of_def)

lemma user_ids_increase:
  assumes "create_user user s = (Ok r, s')" "create_user user2 (fold run_op ops s') = (Ok r2, s2)"
  shows "ur_user_id r < ur_user_id r2"
  using create_user_id [OF assms(1)] create_user_id [OF assms(2)] fold_next_user_id [of s' ops] by simp

section \<open>A token id is claimed once\<close>

definition keeps_claim :: "int \<Rightarrow> mem_op \<Rightarrow> bool" where
  "keeps_claim expires op = (case op of DeleteExpiredTokenIds now \<Rightarrow> now < expires | _ \<Rightarrow> True)"

lemma run_op_keeps_claim:
  assumes "wf_inner s" "bt_get (in_claimed_token_ids s) t = Some e" "keeps_claim e op"
  shows "bt_get (in_claimed_token_ids (run_op op s)) t = Some e"
  using assms wf_shape_of(9) [OF assms(1)]
  by (cases op)
    (auto simp: keeps_claim_def create_user_def insert_user_def delete_user_def cascade_delete_user_def set_friendly_name_def
      create_group_def insert_group_def delete_group_def cascade_delete_group_def create_policy_def insert_policy_def
      update_policy_def delete_policy_def cascade_delete_policy_def add_membership_def remove_membership_def
      attach_policy_to_user_def detach_policy_from_user_def attach_policy_to_group_def detach_policy_from_group_def
      create_credential_def insert_credential_def delete_credential_def create_external_principal_def
      delete_external_principal_def claim_token_id_def delete_expired_token_ids_def checked_def Let_def bt_simps
      split: option.splits sum.splits)

lemma fold_keeps_claim:
  "wf_inner s \<Longrightarrow> bt_get (in_claimed_token_ids s) t = Some e \<Longrightarrow> list_all (keeps_claim e) ops \<Longrightarrow>
     bt_get (in_claimed_token_ids (fold run_op ops s)) t = Some e"
  by (induction ops arbitrary: s) (auto simp: run_op_keeps_claim wf_run_op)

lemma claim_token_id_effect:
  assumes "wf_inner s" "claim_token_id t e s = (Ok r, s')"
  shows "bt_get (in_claimed_token_ids s') t = Some e" "wf_inner s'"
  using assms wf_shape_of(9) [OF assms(1)] wf_claim_token_id [OF assms(1), of t e]
  by (auto simp: claim_token_id_def bt_simps split: if_splits)

lemma claim_once:
  assumes "wf_inner s" "claim_token_id t e s = (Ok r, s')" "list_all (keeps_claim e) ops"
  shows "fst (claim_token_id t e' (fold run_op ops s')) = Err (SAlreadyExists ''token id'' t)"
  using fold_keeps_claim [OF claim_token_id_effect(2,1) [OF assms(1,2)] assms(3)]
  by (simp add: claim_token_id_def)

text \<open>Cleanup removes exactly the expired ids and counts them.\<close>

lemma delete_expired_effect:
  assumes "wf_inner s" "delete_expired_token_ids now s = (r, s')"
  shows "bt_get (in_claimed_token_ids s') t = opt_filter (\<lambda>e. now < e) (bt_get (in_claimed_token_ids s) t)"
    and "r = Ok (length (filter (\<lambda>(_, e). e \<le> now) (in_claimed_token_ids s)))"
proof -
  have s': "in_claimed_token_ids s' = bt_retain (\<lambda>_ e. now < e) (in_claimed_token_ids s)"
    and r: "r = Ok (length (in_claimed_token_ids s) - length (bt_retain (\<lambda>_ e. now < e) (in_claimed_token_ids s)))"
    using assms(2) by (auto simp: delete_expired_token_ids_def Let_def)
  show "bt_get (in_claimed_token_ids s') t = opt_filter (\<lambda>e. now < e) (bt_get (in_claimed_token_ids s) t)"
    using wf_shape_of(9) [OF assms(1)] by (simp add: s' bt_simps)
  have "length xs - length (bt_retain (\<lambda>_ e. now < e) xs) = length (filter (\<lambda>(_, e). e \<le> now) xs)" for xs :: "(string \<times> int) list"
    using sum_length_filter_compl [of "\<lambda>(_, e). now < e" xs]
    unfolding bt_retain_def case_prod_beta not_less by simp
  then show "r = Ok (length (filter (\<lambda>(_, e). e \<le> now) (in_claimed_token_ids s)))" using r by simp
qed

end
