(* ===== verification/Boot_Plan.thy ===== *)
theory Boot_Plan
  imports Mem_Spec
begin

text \<open>
  The bootstrap run: \<open>lakefs-authz/src/store/bootstrap.rs\<close> over any \<open>BootstrapWriter\<close>, and the writer of
  the in-memory store with \<open>apply_bootstrap\<close> (\<open>store/mem.rs\<close>).  A writer is the record of its operations;
  the locale \<open>bootstrap_writer\<close> states the contract of the trait and proves the run against it, and the
  interpretation gives the facts for the in-memory store.
\<close>

section \<open>The writer and the loop\<close>

record 'w writer =
  bw_policy :: "new_policy \<Rightarrow> 'w \<Rightarrow> (store_error + bool) \<times> 'w"
  bw_group :: "new_group \<Rightarrow> 'w \<Rightarrow> (store_error + bool) \<times> 'w"
  bw_user :: "new_user \<Rightarrow> 'w \<Rightarrow> (store_error + user_record option) \<times> 'w"
  bw_membership :: "string \<Rightarrow> string \<Rightarrow> 'w \<Rightarrow> (store_error + bool) \<times> 'w"
  bw_user_policy :: "string \<Rightarrow> string \<Rightarrow> 'w \<Rightarrow> (store_error + bool) \<times> 'w"
  bw_group_policy :: "string \<Rightarrow> string \<Rightarrow> 'w \<Rightarrow> (store_error + bool) \<times> 'w"
  bw_credential :: "new_credential \<Rightarrow> 'w \<Rightarrow> (store_error + credential_record option) \<times> 'w"

type_synonym bump = "(nat \<Rightarrow> nat) \<Rightarrow> bootstrap_counts \<Rightarrow> bootstrap_counts"

definition tally :: "bump \<Rightarrow> bool \<Rightarrow> bootstrap_report \<Rightarrow> bootstrap_report" where
  "tally bump was_created r =
    (if was_created then r\<lparr> br_created := bump (\<lambda>n. n + 1) (br_created r) \<rparr>
     else r\<lparr> br_skipped := bump (\<lambda>n. n + 1) (br_skipped r) \<rparr>)"

fun plan_loop :: "('x \<Rightarrow> 'w \<Rightarrow> (store_error + bool) \<times> 'w) \<Rightarrow> bump \<Rightarrow> 'x list \<Rightarrow> bootstrap_report \<Rightarrow> 'w
    \<Rightarrow> (store_error + bootstrap_report) \<times> 'w" where
  "plan_loop f bump [] r w = (Ok r, w)"
| "plan_loop f bump (x # xs) r w = (case f x w of
     (Inl e, w') \<Rightarrow> (Err e, w')
   | (Inr done, w') \<Rightarrow> plan_loop f bump xs (tally bump done r) w')"

text \<open>One user entry: an existing row must be the identity the entry describes.\<close>

definition user_step :: "'w writer \<Rightarrow> new_user \<Rightarrow> 'w \<Rightarrow> (store_error + bool) \<times> 'w" where
  "user_step W user w = (case bw_user W user w of
     (Inl e, w') \<Rightarrow> (Err e, w')
   | (Inr None, w') \<Rightarrow> (Ok True, w')
   | (Inr (Some existing), w') \<Rightarrow>
       (if \<not> same_identity_as user existing then (Err (SWrongIdentity ''user'' (nu_username user)), w')
        else (Ok False, w')))"

definition credential_step :: "'w writer \<Rightarrow> new_credential \<Rightarrow> 'w \<Rightarrow> (store_error + bool) \<times> 'w" where
  "credential_step W c w = (case bw_credential W c w of
     (Inl e, w') \<Rightarrow> (Err e, w')
   | (Inr None, w') \<Rightarrow> (Ok True, w')
   | (Inr (Some existing), w') \<Rightarrow>
       (if cr_username existing \<noteq> nc_username c then (Err (SWrongIdentity ''credentials'' (nc_access_key_id c)), w')
        else (Ok False, w')))"

definition then_loop :: "(store_error + bootstrap_report) \<times> 'w
    \<Rightarrow> (bootstrap_report \<Rightarrow> 'w \<Rightarrow> (store_error + bootstrap_report) \<times> 'w) \<Rightarrow> (store_error + bootstrap_report) \<times> 'w" where
  "then_loop r k = (case r of (Inl e, w) \<Rightarrow> (Err e, w) | (Inr rep, w) \<Rightarrow> k rep w)"

definition apply_plan :: "'w writer \<Rightarrow> bootstrap_plan \<Rightarrow> 'w \<Rightarrow> (store_error + bootstrap_report) \<times> 'w" where
  "apply_plan W plan w =
    then_loop (then_loop (then_loop (then_loop (then_loop (then_loop
      (plan_loop (bw_policy W) bc_policies_update (bp_policies plan) zero_report w)
      (plan_loop (bw_group W) bc_groups_update (bp_groups plan)))
      (plan_loop (user_step W) bc_users_update (bp_users plan)))
      (plan_loop (\<lambda>(g, u). bw_membership W g u) bc_memberships_update (bp_memberships plan)))
      (plan_loop (\<lambda>(u, p). bw_user_policy W u p) bc_attachments_update (bp_user_policies plan)))
      (plan_loop (\<lambda>(g, p). bw_group_policy W g p) bc_attachments_update (bp_group_policies plan)))
      (plan_loop (credential_step W) bc_credentials_update (bp_credentials plan))"

text \<open>The report of a run that finds every entry in place.\<close>

definition skipped_report :: "bootstrap_plan \<Rightarrow> bootstrap_report" where
  "skipped_report plan = \<lparr> br_created = zero_counts,
     br_skipped = \<lparr> bc_policies = length (bp_policies plan), bc_groups = length (bp_groups plan),
       bc_users = length (bp_users plan), bc_memberships = length (bp_memberships plan),
       bc_attachments = length (bp_user_policies plan) + length (bp_group_policies plan),
       bc_credentials = length (bp_credentials plan) \<rparr> \<rparr>"

lemma fold_tally_skipped:
  assumes "\<And>f g c. bump f (bump g c) = bump (\<lambda>n. f (g n)) c" "\<And>c. bump (\<lambda>n. n) c = c"
  shows "fold (\<lambda>_. tally bump False) xs r = r\<lparr> br_skipped := bump (\<lambda>n. n + length xs) (br_skipped r) \<rparr>"
  by (induction xs arbitrary: r) (simp_all add: tally_def assms)

lemma skip_counts:
  "fold (\<lambda>_. tally bc_policies_update False) xs r = r\<lparr> br_skipped := bc_policies_update (\<lambda>n. n + length xs) (br_skipped r) \<rparr>"
  "fold (\<lambda>_. tally bc_groups_update False) xs r = r\<lparr> br_skipped := bc_groups_update (\<lambda>n. n + length xs) (br_skipped r) \<rparr>"
  "fold (\<lambda>_. tally bc_users_update False) xs r = r\<lparr> br_skipped := bc_users_update (\<lambda>n. n + length xs) (br_skipped r) \<rparr>"
  "fold (\<lambda>_. tally bc_memberships_update False) xs r = r\<lparr> br_skipped := bc_memberships_update (\<lambda>n. n + length xs) (br_skipped r) \<rparr>"
  "fold (\<lambda>_. tally bc_attachments_update False) xs r = r\<lparr> br_skipped := bc_attachments_update (\<lambda>n. n + length xs) (br_skipped r) \<rparr>"
  "fold (\<lambda>_. tally bc_credentials_update False) xs r = r\<lparr> br_skipped := bc_credentials_update (\<lambda>n. n + length xs) (br_skipped r) \<rparr>"
  by (rule fold_tally_skipped; simp add: o_def)+

section \<open>One loop over insert-if-missing steps\<close>

locale insert_if_missing =
  fixes step :: "'x \<Rightarrow> 'w \<Rightarrow> (store_error + bool) \<times> 'w"
    and present :: "'x \<Rightarrow> 'w \<Rightarrow> bool"
    and grow :: "'w \<Rightarrow> 'w \<Rightarrow> bool"
    and inv :: "'w \<Rightarrow> bool"
    and idle :: "'w \<Rightarrow> 'w \<Rightarrow> bool"
  assumes step_inv: "inv w \<Longrightarrow> inv (snd (step x w))"
    and step_creates: "inv w \<Longrightarrow> step x w = (Ok b, w') \<Longrightarrow> present x w' \<and> grow w w'"
    and step_present: "inv w \<Longrightarrow> present x w \<Longrightarrow> \<exists>w'. step x w = (Ok False, w') \<and> idle w w'"
    and present_grow: "grow w w' \<Longrightarrow> present x w \<Longrightarrow> present x w'"
    and grow_refl: "grow w w"
    and grow_trans: "grow w w' \<Longrightarrow> grow w' w'' \<Longrightarrow> grow w w''"
    and idle_refl: "idle w w"
    and idle_trans: "idle w w' \<Longrightarrow> idle w' w'' \<Longrightarrow> idle w w''"
begin

lemma loop_creates:
  assumes "inv w" "plan_loop step bump xs r w = (Ok r', w')"
  shows "inv w' \<and> grow w w' \<and> (\<forall>x \<in> set xs. present x w')"
  using assms
proof (induction xs arbitrary: r w)
  case (Cons x xs)
  obtain res w1 where s: "step x w = (res, w1)" by force
  with Cons.prems obtain b where b: "res = Ok b" "plan_loop step bump xs (tally bump b r) w1 = (Ok r', w')"
    by (cases res) auto
  have "inv w1" using step_inv [OF Cons.prems(1), of x] s by simp
  moreover have "present x w1" "grow w w1" using step_creates [OF Cons.prems(1)] s b by auto
  ultimately show ?case using Cons.IH [OF _ b(2)] grow_trans present_grow by auto
qed (simp add: grow_refl)

lemma loop_present:
  assumes "inv w" "\<forall>x \<in> set xs. present x w"
  shows "\<exists>w'. plan_loop step bump xs r w = (Ok (fold (\<lambda>_. tally bump False) xs r), w') \<and> inv w' \<and> grow w w' \<and> idle w w'"
  using assms
proof (induction xs arbitrary: r w)
  case (Cons x xs)
  then obtain w1 where s: "step x w = (Ok False, w1)" "idle w w1" using step_present [of w x] by auto
  then have w1: "inv w1" "grow w w1" using step_inv [OF Cons.prems(1), of x] step_creates [OF Cons.prems(1) s(1)] by auto
  then have "\<forall>y \<in> set xs. present y w1" using Cons.prems(2) present_grow by auto
  from Cons.IH [OF w1(1) this, of "tally bump False r"] show ?case using s w1 grow_trans idle_trans by fastforce
qed (simp add: grow_refl idle_refl)

end

section \<open>The contract of a writer\<close>

locale bootstrap_writer =
  fixes W :: "'w writer"
    and inv :: "'w \<Rightarrow> bool"
    and grow :: "'w \<Rightarrow> 'w \<Rightarrow> bool"
    and idle :: "'w \<Rightarrow> 'w \<Rightarrow> bool"
    and has_policy :: "new_policy \<Rightarrow> 'w \<Rightarrow> bool"
    and has_group :: "new_group \<Rightarrow> 'w \<Rightarrow> bool"
    and has_user :: "new_user \<Rightarrow> 'w \<Rightarrow> bool"
    and has_membership :: "string \<times> string \<Rightarrow> 'w \<Rightarrow> bool"
    and has_user_policy :: "string \<times> string \<Rightarrow> 'w \<Rightarrow> bool"
    and has_group_policy :: "string \<times> string \<Rightarrow> 'w \<Rightarrow> bool"
    and has_credential :: "new_credential \<Rightarrow> 'w \<Rightarrow> bool"
  assumes policies: "insert_if_missing (bw_policy W) has_policy grow inv idle"
    and groups: "insert_if_missing (bw_group W) has_group grow inv idle"
    and users: "insert_if_missing (user_step W) has_user grow inv idle"
    and memberships: "insert_if_missing (\<lambda>(g, u). bw_membership W g u) has_membership grow inv idle"
    and user_policies: "insert_if_missing (\<lambda>(u, p). bw_user_policy W u p) has_user_policy grow inv idle"
    and group_policies: "insert_if_missing (\<lambda>(g, p). bw_group_policy W g p) has_group_policy grow inv idle"
    and credentials: "insert_if_missing (credential_step W) has_credential grow inv idle"
begin

definition plan_present :: "bootstrap_plan \<Rightarrow> 'w \<Rightarrow> bool" where
  "plan_present plan w \<longleftrightarrow>
     (\<forall>x \<in> set (bp_policies plan). has_policy x w) \<and> (\<forall>x \<in> set (bp_groups plan). has_group x w)
     \<and> (\<forall>x \<in> set (bp_users plan). has_user x w) \<and> (\<forall>x \<in> set (bp_memberships plan). has_membership x w)
     \<and> (\<forall>x \<in> set (bp_user_policies plan). has_user_policy x w)
     \<and> (\<forall>x \<in> set (bp_group_policies plan). has_group_policy x w)
     \<and> (\<forall>x \<in> set (bp_credentials plan). has_credential x w)"

lemma then_loop_Ok:
  "then_loop m k = (Ok r, w) \<longleftrightarrow> (\<exists>r1 w1. m = (Ok r1, w1) \<and> k r1 w1 = (Ok r, w))"
  by (cases m; cases "fst m") (auto simp: then_loop_def)

lemmas loops = insert_if_missing.loop_creates [OF policies] insert_if_missing.loop_creates [OF groups]
  insert_if_missing.loop_creates [OF users] insert_if_missing.loop_creates [OF memberships]
  insert_if_missing.loop_creates [OF user_policies] insert_if_missing.loop_creates [OF group_policies]
  insert_if_missing.loop_creates [OF credentials]

lemmas kept = insert_if_missing.present_grow [OF policies] insert_if_missing.present_grow [OF groups]
  insert_if_missing.present_grow [OF users] insert_if_missing.present_grow [OF memberships]
  insert_if_missing.present_grow [OF user_policies] insert_if_missing.present_grow [OF group_policies]
  insert_if_missing.present_grow [OF credentials]

lemma apply_plan_creates:
  assumes "inv w" "apply_plan W plan w = (Ok r, w')"
  shows "inv w'" "grow w w'" "plan_present plan w'"
proof -
  from assms(2) obtain r1 w1 r2 w2 r3 w3 r4 w4 r5 w5 r6 w6 where runs:
      "plan_loop (bw_policy W) bc_policies_update (bp_policies plan) zero_report w = (Ok r1, w1)"
      "plan_loop (bw_group W) bc_groups_update (bp_groups plan) r1 w1 = (Ok r2, w2)"
      "plan_loop (user_step W) bc_users_update (bp_users plan) r2 w2 = (Ok r3, w3)"
      "plan_loop (\<lambda>(g, u). bw_membership W g u) bc_memberships_update (bp_memberships plan) r3 w3 = (Ok r4, w4)"
      "plan_loop (\<lambda>(u, p). bw_user_policy W u p) bc_attachments_update (bp_user_policies plan) r4 w4 = (Ok r5, w5)"
      "plan_loop (\<lambda>(g, p). bw_group_policy W g p) bc_attachments_update (bp_group_policies plan) r5 w5 = (Ok r6, w6)"
      "plan_loop (credential_step W) bc_credentials_update (bp_credentials plan) r6 w6 = (Ok r, w')"
    unfolding apply_plan_def then_loop_Ok by blast
  note l1 = loops(1) [OF assms(1) runs(1)]
  note l2 = loops(2) [OF conjunct1 [OF l1] runs(2)]
  note l3 = loops(3) [OF conjunct1 [OF l2] runs(3)]
  note l4 = loops(4) [OF conjunct1 [OF l3] runs(4)]
  note l5 = loops(5) [OF conjunct1 [OF l4] runs(5)]
  note l6 = loops(6) [OF conjunct1 [OF l5] runs(6)]
  note l7 = loops(7) [OF conjunct1 [OF l6] runs(7)]
  note trans = insert_if_missing.grow_trans [OF policies]
  note grows = conjunct1 [OF conjunct2 [OF l1]] conjunct1 [OF conjunct2 [OF l2]] conjunct1 [OF conjunct2 [OF l3]]
    conjunct1 [OF conjunct2 [OF l4]] conjunct1 [OF conjunct2 [OF l5]] conjunct1 [OF conjunct2 [OF l6]]
    conjunct1 [OF conjunct2 [OF l7]]
  note g6 = grows(7)
  note g5 = trans [OF grows(6) g6]
  note g4 = trans [OF grows(5) g5]
  note g3 = trans [OF grows(4) g4]
  note g2 = trans [OF grows(3) g3]
  note g1 = trans [OF grows(2) g2]
  show "inv w'" using l7 by blast
  show "grow w w'" by (rule trans [OF grows(1) g1])
  show "plan_present plan w'"
    unfolding plan_present_def
    using l1 kept(1) [OF g1] l2 kept(2) [OF g2] l3 kept(3) [OF g3] l4 kept(4) [OF g4] l5 kept(5) [OF g5]
      l6 kept(6) [OF g6] l7
    by simp
qed

text \<open>Every entry present: the run leaves the rows alone and counts every entry as skipped.\<close>

lemma plan_present_grow:
  assumes "plan_present plan w" "grow w w'"
  shows "plan_present plan w'"
  using assms(1) kept [OF assms(2)] by (simp add: plan_present_def)

lemmas skips = insert_if_missing.loop_present [OF policies] insert_if_missing.loop_present [OF groups]
  insert_if_missing.loop_present [OF users] insert_if_missing.loop_present [OF memberships]
  insert_if_missing.loop_present [OF user_policies] insert_if_missing.loop_present [OF group_policies]
  insert_if_missing.loop_present [OF credentials]

lemma present_parts:
  assumes "plan_present plan w"
  shows "\<forall>x \<in> set (bp_policies plan). has_policy x w" "\<forall>x \<in> set (bp_groups plan). has_group x w"
    "\<forall>x \<in> set (bp_users plan). has_user x w" "\<forall>x \<in> set (bp_memberships plan). has_membership x w"
    "\<forall>x \<in> set (bp_user_policies plan). has_user_policy x w"
    "\<forall>x \<in> set (bp_group_policies plan). has_group_policy x w"
    "\<forall>x \<in> set (bp_credentials plan). has_credential x w"
  using assms by (simp_all add: plan_present_def)

definition skipped :: "bootstrap_plan \<Rightarrow> 'w \<Rightarrow> (store_error + bootstrap_report) \<times> 'w \<Rightarrow> bootstrap_report \<Rightarrow> bool" where
  "skipped plan w m r \<longleftrightarrow> (\<exists>w'. m = (Ok r, w') \<and> inv w' \<and> plan_present plan w' \<and> idle w w')"

lemma skippedI:
  "\<exists>w'. m = (Ok r, w') \<and> inv w' \<and> grow w w' \<and> idle w w' \<Longrightarrow> plan_present plan w \<Longrightarrow> skipped plan w m r"
  using plan_present_grow by (fastforce simp: skipped_def)

lemma skipped_then:
  assumes "skipped plan w m r" "\<And>w1. inv w1 \<Longrightarrow> plan_present plan w1 \<Longrightarrow> skipped plan w1 (k r w1) r'"
  shows "skipped plan w (then_loop m k) r'"
proof -
  obtain w1 where 1: "m = (Ok r, w1)" "inv w1" "plan_present plan w1" "idle w w1"
    using assms(1) by (auto simp: skipped_def)
  with assms(2) obtain w2 where "k r w1 = (Ok r', w2)" "inv w2" "plan_present plan w2" "idle w1 w2"
    by (auto simp: skipped_def)
  then show ?thesis
    using 1 insert_if_missing.idle_trans [OF policies] by (auto simp: skipped_def then_loop_def)
qed

lemma skipped_loops:
  assumes "inv w" "plan_present plan w"
  shows "skipped plan w (plan_loop (bw_policy W) b (bp_policies plan) r w) (fold (\<lambda>_. tally b False) (bp_policies plan) r)"
    and "skipped plan w (plan_loop (bw_group W) b (bp_groups plan) r w) (fold (\<lambda>_. tally b False) (bp_groups plan) r)"
    and "skipped plan w (plan_loop (user_step W) b (bp_users plan) r w) (fold (\<lambda>_. tally b False) (bp_users plan) r)"
    and "skipped plan w (plan_loop (\<lambda>(g, u). bw_membership W g u) b (bp_memberships plan) r w)
      (fold (\<lambda>_. tally b False) (bp_memberships plan) r)"
    and "skipped plan w (plan_loop (\<lambda>(u, p). bw_user_policy W u p) b (bp_user_policies plan) r w)
      (fold (\<lambda>_. tally b False) (bp_user_policies plan) r)"
    and "skipped plan w (plan_loop (\<lambda>(g, p). bw_group_policy W g p) b (bp_group_policies plan) r w)
      (fold (\<lambda>_. tally b False) (bp_group_policies plan) r)"
    and "skipped plan w (plan_loop (credential_step W) b (bp_credentials plan) r w)
      (fold (\<lambda>_. tally b False) (bp_credentials plan) r)"
  by (rule skippedI [OF skips(1) [OF assms(1) present_parts(1) [OF assms(2)]] assms(2)]
      skippedI [OF skips(2) [OF assms(1) present_parts(2) [OF assms(2)]] assms(2)]
      skippedI [OF skips(3) [OF assms(1) present_parts(3) [OF assms(2)]] assms(2)]
      skippedI [OF skips(4) [OF assms(1) present_parts(4) [OF assms(2)]] assms(2)]
      skippedI [OF skips(5) [OF assms(1) present_parts(5) [OF assms(2)]] assms(2)]
      skippedI [OF skips(6) [OF assms(1) present_parts(6) [OF assms(2)]] assms(2)]
      skippedI [OF skips(7) [OF assms(1) present_parts(7) [OF assms(2)]] assms(2)])+

lemma apply_plan_present:
  assumes "inv w" "plan_present plan w"
  shows "\<exists>w'. apply_plan W plan w = (Ok (skipped_report plan), w') \<and> idle w w'"
proof -
  have "skipped plan w (apply_plan W plan w)
    (fold (\<lambda>_. tally bc_credentials_update False) (bp_credentials plan)
    (fold (\<lambda>_. tally bc_attachments_update False) (bp_group_policies plan)
    (fold (\<lambda>_. tally bc_attachments_update False) (bp_user_policies plan)
    (fold (\<lambda>_. tally bc_memberships_update False) (bp_memberships plan)
    (fold (\<lambda>_. tally bc_users_update False) (bp_users plan)
    (fold (\<lambda>_. tally bc_groups_update False) (bp_groups plan)
    (fold (\<lambda>_. tally bc_policies_update False) (bp_policies plan) zero_report)))))))"
    unfolding apply_plan_def by ((rule skipped_then)+; (rule skipped_loops; (rule assms | assumption)))
  then show ?thesis
    by (auto simp: skipped_def skip_counts skipped_report_def zero_report_def zero_counts_def)
qed

lemma apply_plan_twice:
  assumes "inv w" "apply_plan W plan w = (Ok r, w')"
  shows "\<exists>w''. apply_plan W plan w' = (Ok (skipped_report plan), w'') \<and> idle w' w''"
  using apply_plan_creates [OF assms] by (intro apply_plan_present)

end

section \<open>The writer of the in-memory store\<close>

definition mem_insert_policy_if_missing :: "new_policy \<Rightarrow> bool update" where
  "mem_insert_policy_if_missing p s =
    (if bt_contains_key (in_policies s) (np_name p) then (Ok False, s)
     else map_prod (map_ok (\<lambda>_. True)) id (insert_policy p s))"

definition mem_insert_group_if_missing :: "new_group \<Rightarrow> bool update" where
  "mem_insert_group_if_missing g s =
    (if bt_contains_key (in_groups s) (ng_id g) then (Ok False, s)
     else map_prod (map_ok (\<lambda>_. True)) id (insert_group g s))"

definition mem_insert_user_if_missing :: "new_user \<Rightarrow> user_record option update" where
  "mem_insert_user_if_missing user s = (case bt_get (in_users s) (nu_username user) of
     Some existing \<Rightarrow> (Ok (Some existing), s)
   | None \<Rightarrow> map_prod (map_ok (\<lambda>_. None)) id (insert_user user s))"

text \<open>The membership and attachment inserts: two checks, then \<open>BTreeSet::insert\<close>, which tells whether the
  pair is new.\<close>

definition insert_pair_if_missing :: "unit store_result \<Rightarrow> unit store_result \<Rightarrow> bool \<Rightarrow> inner \<Rightarrow> inner
    \<Rightarrow> bool store_result \<times> inner" where
  "insert_pair_if_missing c1 c2 fresh s s' =
     (case and_then c1 (\<lambda>_. c2) of Inl e \<Rightarrow> (Err e, s) | Inr _ \<Rightarrow> (Ok fresh, s'))"

definition mem_insert_membership_if_missing :: "string \<Rightarrow> string \<Rightarrow> bool update" where
  "mem_insert_membership_if_missing g u s = insert_pair_if_missing (require_group s g) (require_user s u)
     (\<not> bs_contains (in_group_members s) (g, u)) s
     (s\<lparr> in_group_members := bs_insert (g, u) (in_group_members s) \<rparr>)"

definition mem_insert_user_policy_if_missing :: "string \<Rightarrow> string \<Rightarrow> bool update" where
  "mem_insert_user_policy_if_missing u p s = insert_pair_if_missing (require_user s u) (require_policy s p)
     (\<not> bs_contains (in_user_policies s) (u, p)) s
     (s\<lparr> in_user_policies := bs_insert (u, p) (in_user_policies s) \<rparr>)"

definition mem_insert_group_policy_if_missing :: "string \<Rightarrow> string \<Rightarrow> bool update" where
  "mem_insert_group_policy_if_missing g p s = insert_pair_if_missing (require_group s g) (require_policy s p)
     (\<not> bs_contains (in_group_policies s) (g, p)) s
     (s\<lparr> in_group_policies := bs_insert (g, p) (in_group_policies s) \<rparr>)"

definition mem_insert_credential_if_missing :: "new_credential \<Rightarrow> credential_record option update" where
  "mem_insert_credential_if_missing c s = (case bt_get (in_credentials s) (nc_access_key_id c) of
     Some existing \<Rightarrow> (Ok (Some existing), s)
   | None \<Rightarrow> map_prod (map_ok (\<lambda>_. None)) id (insert_credential c s))"

definition mem_writer :: "inner writer" where
  "mem_writer = \<lparr> bw_policy = mem_insert_policy_if_missing, bw_group = mem_insert_group_if_missing,
     bw_user = mem_insert_user_if_missing, bw_membership = mem_insert_membership_if_missing,
     bw_user_policy = mem_insert_user_policy_if_missing, bw_group_policy = mem_insert_group_policy_if_missing,
     bw_credential = mem_insert_credential_if_missing \<rparr>"

text \<open>
  \<open>apply_bootstrap\<close> clones the store, runs the plan on the clone, and swaps it in.  The lock is not held
  in between, so \<open>between\<close> are the writes that land while the plan runs: a successful run loses them,
  as the source says, and a failed one leaves them alone.
\<close>

definition apply_bootstrap_between :: "mem_op list \<Rightarrow> bootstrap_plan \<Rightarrow> bootstrap_report update" where
  "apply_bootstrap_between between plan s = (case apply_plan mem_writer plan s of
     (Inl e, _) \<Rightarrow> (Err e, fold run_op between s)
   | (Inr report, staged) \<Rightarrow> (Ok report, staged))"

definition apply_bootstrap :: "bootstrap_plan \<Rightarrow> bootstrap_report update" where
  "apply_bootstrap plan = apply_bootstrap_between [] plan"

section \<open>The in-memory writer honours the contract\<close>

text \<open>\<open>mem_grow\<close>: every row and pair of the first store is, unchanged, in the second.\<close>

definition mem_grow :: "inner \<Rightarrow> inner \<Rightarrow> bool" where
  "mem_grow s s' \<longleftrightarrow> bt_get (in_users s) \<subseteq>\<^sub>m bt_get (in_users s') \<and> bt_get (in_groups s) \<subseteq>\<^sub>m bt_get (in_groups s')
     \<and> bt_get (in_policies s) \<subseteq>\<^sub>m bt_get (in_policies s') \<and> bt_get (in_credentials s) \<subseteq>\<^sub>m bt_get (in_credentials s')
     \<and> set (in_group_members s) \<subseteq> set (in_group_members s') \<and> set (in_user_policies s) \<subseteq> set (in_user_policies s')
     \<and> set (in_group_policies s) \<subseteq> set (in_group_policies s')
     \<and> in_external_principals s' = in_external_principals s \<and> in_claimed_token_ids s' = in_claimed_token_ids s"

lemma mem_grow_refl: "mem_grow s s"
  by (simp add: mem_grow_def)

lemma mem_grow_trans: "mem_grow s s' \<Longrightarrow> mem_grow s' s'' \<Longrightarrow> mem_grow s s''"
  unfolding mem_grow_def by (auto intro: map_le_trans)

definition mem_has_policy :: "new_policy \<Rightarrow> inner \<Rightarrow> bool" where
  "mem_has_policy p s \<longleftrightarrow> bt_get (in_policies s) (np_name p) \<noteq> None"

definition mem_has_group :: "new_group \<Rightarrow> inner \<Rightarrow> bool" where
  "mem_has_group g s \<longleftrightarrow> bt_get (in_groups s) (ng_id g) \<noteq> None"

definition mem_has_user :: "new_user \<Rightarrow> inner \<Rightarrow> bool" where
  "mem_has_user u s \<longleftrightarrow> (\<exists>r. bt_get (in_users s) (nu_username u) = Some r \<and> same_identity_as u r)"

definition mem_has_membership :: "string \<times> string \<Rightarrow> inner \<Rightarrow> bool" where
  "mem_has_membership x s \<longleftrightarrow> x \<in> set (in_group_members s) \<and> bt_get (in_groups s) (fst x) \<noteq> None
     \<and> bt_get (in_users s) (snd x) \<noteq> None"

definition mem_has_user_policy :: "string \<times> string \<Rightarrow> inner \<Rightarrow> bool" where
  "mem_has_user_policy x s \<longleftrightarrow> x \<in> set (in_user_policies s) \<and> bt_get (in_users s) (fst x) \<noteq> None
     \<and> bt_get (in_policies s) (snd x) \<noteq> None"

definition mem_has_group_policy :: "string \<times> string \<Rightarrow> inner \<Rightarrow> bool" where
  "mem_has_group_policy x s \<longleftrightarrow> x \<in> set (in_group_policies s) \<and> bt_get (in_groups s) (fst x) \<noteq> None
     \<and> bt_get (in_policies s) (snd x) \<noteq> None"

definition mem_has_credential :: "new_credential \<Rightarrow> inner \<Rightarrow> bool" where
  "mem_has_credential c s \<longleftrightarrow> (\<exists>r. bt_get (in_credentials s) (nc_access_key_id c) = Some r \<and> cr_username r = nc_username c)"

lemma map_le_SomeD: "m \<subseteq>\<^sub>m m' \<Longrightarrow> m k = Some v \<Longrightarrow> m' k = Some v"
  by (metis map_le_def domI)

lemma map_le_not_None: "m \<subseteq>\<^sub>m m' \<Longrightarrow> m k \<noteq> None \<Longrightarrow> m' k \<noteq> None"
  by (metis map_le_def domI option.exhaust)

lemma mem_has_grow:
  assumes "mem_grow s s'"
  shows "mem_has_policy p s \<Longrightarrow> mem_has_policy p s'" "mem_has_group g s \<Longrightarrow> mem_has_group g s'"
    "mem_has_user u s \<Longrightarrow> mem_has_user u s'" "mem_has_membership x s \<Longrightarrow> mem_has_membership x s'"
    "mem_has_user_policy x s \<Longrightarrow> mem_has_user_policy x s'" "mem_has_group_policy x s \<Longrightarrow> mem_has_group_policy x s'"
    "mem_has_credential c s \<Longrightarrow> mem_has_credential c s'"
proof -
  have U: "bt_get (in_users s) k = Some a \<Longrightarrow> bt_get (in_users s') k = Some a"
    and G: "bt_get (in_groups s) k = Some b \<Longrightarrow> bt_get (in_groups s') k = Some b"
    and P: "bt_get (in_policies s) k = Some d \<Longrightarrow> bt_get (in_policies s') k = Some d"
    and C: "bt_get (in_credentials s) k = Some e \<Longrightarrow> bt_get (in_credentials s') k = Some e" for k a b d e
    using assms map_le_SomeD unfolding mem_grow_def by metis+
  have sets: "set (in_group_members s) \<subseteq> set (in_group_members s')" "set (in_user_policies s) \<subseteq> set (in_user_policies s')"
    "set (in_group_policies s) \<subseteq> set (in_group_policies s')" using assms by (simp_all add: mem_grow_def)
  show "mem_has_policy p s \<Longrightarrow> mem_has_policy p s'" by (auto simp: mem_has_policy_def dest: P)
  show "mem_has_group g s \<Longrightarrow> mem_has_group g s'" by (auto simp: mem_has_group_def dest: G)
  show "mem_has_user u s \<Longrightarrow> mem_has_user u s'" by (auto simp: mem_has_user_def dest: U)
  show "mem_has_membership x s \<Longrightarrow> mem_has_membership x s'"
    using sets(1) by (auto simp: mem_has_membership_def dest: U G)
  show "mem_has_user_policy x s \<Longrightarrow> mem_has_user_policy x s'"
    using sets(2) by (auto simp: mem_has_user_policy_def dest: U P)
  show "mem_has_group_policy x s \<Longrightarrow> mem_has_group_policy x s'"
    using sets(3) by (auto simp: mem_has_group_policy_def dest: G P)
  show "mem_has_credential c s \<Longrightarrow> mem_has_credential c s'" by (auto simp: mem_has_credential_def dest: C)
qed

lemma map_le_insert: "bt_ok m \<Longrightarrow> bt_get m k = None \<Longrightarrow> bt_get m \<subseteq>\<^sub>m bt_get (bt_insert k v m)"
  by (auto simp: map_le_def bt_simps)

lemma mem_step_bool:
  assumes "\<And>s. wf_inner s \<Longrightarrow> wf_inner (snd (step x s))"
  shows "wf_inner s \<Longrightarrow> wf_inner (snd (map_prod f id (step x s)))"
  using assms by simp

lemma mem_policy_step: "insert_if_missing mem_insert_policy_if_missing mem_has_policy mem_grow wf_inner (=)"
proof unfold_locales
  fix s p b s'
  assume wf: "wf_inner s"
  show "wf_inner (snd (mem_insert_policy_if_missing p s))"
    using wf wf_insert_policy [OF wf, of p] by (simp add: mem_insert_policy_if_missing_def)
  show "mem_has_policy p s' \<and> mem_grow s s'" if "mem_insert_policy_if_missing p s = (Ok b, s')"
    using that wf_shape_of [OF wf]
    by (auto simp: mem_insert_policy_if_missing_def insert_policy_def mem_has_policy_def mem_grow_def Let_def
        bt_simps map_le_insert split: if_splits)
  show "\<exists>t. mem_insert_policy_if_missing p s = (Ok False, t) \<and> s = t" if "mem_has_policy p s"
    using that by (simp add: mem_insert_policy_if_missing_def mem_has_policy_def)
qed (auto intro: mem_has_grow mem_grow_refl mem_grow_trans)

lemma mem_group_step: "insert_if_missing mem_insert_group_if_missing mem_has_group mem_grow wf_inner (=)"
proof unfold_locales
  fix s g b s'
  assume wf: "wf_inner s"
  show "wf_inner (snd (mem_insert_group_if_missing g s))"
    using wf wf_insert_group [OF wf, of g] by (simp add: mem_insert_group_if_missing_def)
  show "mem_has_group g s' \<and> mem_grow s s'" if "mem_insert_group_if_missing g s = (Ok b, s')"
    using that wf_shape_of [OF wf]
    by (auto simp: mem_insert_group_if_missing_def insert_group_def mem_has_group_def mem_grow_def Let_def
        bt_simps map_le_insert split: if_splits)
  show "\<exists>t. mem_insert_group_if_missing g s = (Ok False, t) \<and> s = t" if "mem_has_group g s"
    using that by (simp add: mem_insert_group_if_missing_def mem_has_group_def)
qed (auto intro: mem_has_grow mem_grow_refl mem_grow_trans)

text \<open>The two entries with an identity check: what one step can do.\<close>

lemma user_step_mem:
  "user_step mem_writer u s = (case bt_get (in_users s) (nu_username u) of
     Some r \<Rightarrow> (if same_identity_as u r then Ok False else Err (SWrongIdentity ''user'' (nu_username u)), s)
   | None \<Rightarrow> map_prod (map_ok (\<lambda>_. True)) id (insert_user u s))"
  by (cases "insert_user u s"; cases "fst (insert_user u s)")
    (auto simp: user_step_def mem_writer_def mem_insert_user_if_missing_def split: option.splits)

lemma credential_step_mem:
  "credential_step mem_writer c s = (case bt_get (in_credentials s) (nc_access_key_id c) of
     Some r \<Rightarrow> (if cr_username r = nc_username c then Ok False
               else Err (SWrongIdentity ''credentials'' (nc_access_key_id c)), s)
   | None \<Rightarrow> map_prod (map_ok (\<lambda>_. True)) id (insert_credential c s))"
  by (cases "insert_credential c s"; cases "fst (insert_credential c s)")
    (auto simp: credential_step_def mem_writer_def mem_insert_credential_if_missing_def split: option.splits)

lemma mem_user_step: "insert_if_missing (user_step mem_writer) mem_has_user mem_grow wf_inner (=)"
proof unfold_locales
  fix s u b s'
  assume wf: "wf_inner s"
  show "wf_inner (snd (user_step mem_writer u s))"
    using wf wf_insert_user [OF wf, of u] by (simp add: user_step_mem split: option.split)
  show "mem_has_user u s' \<and> mem_grow s s'" if step: "user_step mem_writer u s = (Ok b, s')"
  proof (cases "bt_get (in_users s) (nu_username u)")
    case (Some r)
    with step show ?thesis by (auto simp: user_step_mem mem_has_user_def mem_grow_refl split: if_splits)
  next
    case None
    with step obtain r where r: "insert_user u s = (Ok r, s')"
      by (cases "insert_user u s"; cases "fst (insert_user u s)") (auto simp: user_step_mem)
    then show ?thesis using wf_shape_of [OF wf] None
      by (cases rule: insert_user_cases [of u s])
        (auto simp: mem_has_user_def mem_grow_def bt_simps map_le_insert same_identity_as_def user_record_of_def)
  qed
  show "\<exists>t. user_step mem_writer u s = (Ok False, t) \<and> s = t" if "mem_has_user u s"
    using that by (auto simp: user_step_mem mem_has_user_def)
qed (auto intro: mem_has_grow mem_grow_refl mem_grow_trans)

lemma mem_credential_step: "insert_if_missing (credential_step mem_writer) mem_has_credential mem_grow wf_inner (=)"
proof unfold_locales
  fix s c b s'
  assume wf: "wf_inner s"
  show "wf_inner (snd (credential_step mem_writer c s))"
    using wf wf_insert_credential [OF wf, of c] by (simp add: credential_step_mem split: option.split)
  show "mem_has_credential c s' \<and> mem_grow s s'" if "credential_step mem_writer c s = (Ok b, s')"
    using that wf_shape_of [OF wf]
    by (auto simp: credential_step_mem insert_credential_def mem_has_credential_def mem_grow_def Let_def bt_simps
        map_le_insert split: option.splits if_splits)
  show "\<exists>t. credential_step mem_writer c s = (Ok False, t) \<and> s = t" if "mem_has_credential c s"
    using that by (auto simp: credential_step_mem mem_has_credential_def)
qed (auto intro: mem_has_grow mem_grow_refl mem_grow_trans)

lemma insert_pair_Ok:
  "insert_pair_if_missing c1 c2 fresh s s' = (Ok b, t) \<longleftrightarrow> c1 = Ok () \<and> c2 = Ok () \<and> b = fresh \<and> t = s'"
  by (cases c1; cases c2) (auto simp: insert_pair_if_missing_def)

lemma mem_writer_sel:
  "bw_policy mem_writer = mem_insert_policy_if_missing" "bw_group mem_writer = mem_insert_group_if_missing"
  "bw_membership mem_writer = mem_insert_membership_if_missing"
  "bw_user_policy mem_writer = mem_insert_user_policy_if_missing"
  "bw_group_policy mem_writer = mem_insert_group_policy_if_missing"
  by (simp_all add: mem_writer_def)

lemma bs_insert_present: "bs_ok s \<Longrightarrow> k \<in> set s \<Longrightarrow> bs_insert k s = s"
  by (rule bs_ok_unique) (auto simp: bt_inv bt_simps)

lemma mem_membership_step:
  "insert_if_missing (\<lambda>(g, u). mem_insert_membership_if_missing g u) mem_has_membership mem_grow wf_inner (=)"
proof unfold_locales
  fix s b s' and x :: "string \<times> string"
  obtain g u where x: "x = (g, u)" by force
  assume wf: "wf_inner s"
  show "wf_inner (snd ((\<lambda>(g, u). mem_insert_membership_if_missing g u) x s))"
    using wf wf_add_membership [OF wf, of g u]
    by (auto simp: x mem_insert_membership_if_missing_def insert_pair_if_missing_def add_membership_def checked_def split: sum.splits)
  show "mem_has_membership x s' \<and> mem_grow s s'" if "(\<lambda>(g, u). mem_insert_membership_if_missing g u) x s = (Ok b, s')"
    using that unfolding x case_prod_conv mem_insert_membership_if_missing_def
    by (auto simp: insert_pair_Ok res_simps mem_has_membership_def mem_grow_def bt_simps)
  show "\<exists>t. (\<lambda>(g, u). mem_insert_membership_if_missing g u) x s = (Ok False, t) \<and> s = t" if "mem_has_membership x s"
    using that wf_shape_of(4) [OF wf]
    by (auto simp: x mem_insert_membership_if_missing_def insert_pair_if_missing_def mem_has_membership_def bt_simps
        bs_insert_present require_group_def require_user_def require_row_def)
qed (auto intro: mem_has_grow mem_grow_refl mem_grow_trans)

lemma mem_user_policy_step:
  "insert_if_missing (\<lambda>(u, p). mem_insert_user_policy_if_missing u p) mem_has_user_policy mem_grow wf_inner (=)"
proof unfold_locales
  fix s b s' and x :: "string \<times> string"
  obtain u p where x: "x = (u, p)" by force
  assume wf: "wf_inner s"
  show "wf_inner (snd ((\<lambda>(u, p). mem_insert_user_policy_if_missing u p) x s))"
    using wf wf_attach_policy_to_user [OF wf, of u p]
    by (auto simp: x mem_insert_user_policy_if_missing_def insert_pair_if_missing_def attach_policy_to_user_def checked_def split: sum.splits)
  show "mem_has_user_policy x s' \<and> mem_grow s s'" if "(\<lambda>(u, p). mem_insert_user_policy_if_missing u p) x s = (Ok b, s')"
    using that unfolding x case_prod_conv mem_insert_user_policy_if_missing_def
    by (auto simp: insert_pair_Ok res_simps mem_has_user_policy_def mem_grow_def bt_simps)
  show "\<exists>t. (\<lambda>(u, p). mem_insert_user_policy_if_missing u p) x s = (Ok False, t) \<and> s = t" if "mem_has_user_policy x s"
    using that wf_shape_of(5) [OF wf]
    by (auto simp: x mem_insert_user_policy_if_missing_def insert_pair_if_missing_def mem_has_user_policy_def bt_simps
        bs_insert_present require_policy_def require_user_def require_row_def)
qed (auto intro: mem_has_grow mem_grow_refl mem_grow_trans)

lemma mem_group_policy_step:
  "insert_if_missing (\<lambda>(g, p). mem_insert_group_policy_if_missing g p) mem_has_group_policy mem_grow wf_inner (=)"
proof unfold_locales
  fix s b s' and x :: "string \<times> string"
  obtain g p where x: "x = (g, p)" by force
  assume wf: "wf_inner s"
  show "wf_inner (snd ((\<lambda>(g, p). mem_insert_group_policy_if_missing g p) x s))"
    using wf wf_attach_policy_to_group [OF wf, of g p]
    by (auto simp: x mem_insert_group_policy_if_missing_def insert_pair_if_missing_def attach_policy_to_group_def checked_def split: sum.splits)
  show "mem_has_group_policy x s' \<and> mem_grow s s'" if "(\<lambda>(g, p). mem_insert_group_policy_if_missing g p) x s = (Ok b, s')"
    using that unfolding x case_prod_conv mem_insert_group_policy_if_missing_def
    by (auto simp: insert_pair_Ok res_simps mem_has_group_policy_def mem_grow_def bt_simps)
  show "\<exists>t. (\<lambda>(g, p). mem_insert_group_policy_if_missing g p) x s = (Ok False, t) \<and> s = t" if "mem_has_group_policy x s"
    using that wf_shape_of(6) [OF wf]
    by (auto simp: x mem_insert_group_policy_if_missing_def insert_pair_if_missing_def mem_has_group_policy_def bt_simps
        bs_insert_present require_policy_def require_group_def require_row_def)
qed (auto intro: mem_has_grow mem_grow_refl mem_grow_trans)

interpretation mem_boot: bootstrap_writer mem_writer wf_inner mem_grow "(=)" mem_has_policy mem_has_group mem_has_user
    mem_has_membership mem_has_user_policy mem_has_group_policy mem_has_credential
  by (rule bootstrap_writer.intro)
    (simp_all add: mem_writer_sel mem_policy_step mem_group_step mem_membership_step mem_user_policy_step
      mem_group_policy_step mem_user_step mem_credential_step)

section \<open>The bootstrap of the in-memory store\<close>

lemma apply_bootstrap_Ok:
  "apply_bootstrap plan s = (Ok r, s') \<longleftrightarrow> apply_plan mem_writer plan s = (Ok r, s')"
  by (auto simp: apply_bootstrap_def apply_bootstrap_between_def split: prod.splits sum.splits)

lemma apply_bootstrap_Err: "fst (apply_bootstrap plan s) = Err e \<Longrightarrow> snd (apply_bootstrap plan s) = s"
  by (auto simp: apply_bootstrap_def apply_bootstrap_between_def split: prod.splits sum.splits)

lemma wf_apply_bootstrap: "wf_inner s \<Longrightarrow> wf_inner (snd (apply_bootstrap plan s))"
proof -
  assume wf: "wf_inner s"
  obtain r s' where a: "apply_plan mem_writer plan s = (r, s')" by force
  show ?thesis
    using wf mem_boot.apply_plan_creates(1) [OF wf, of plan] a
    by (cases r) (auto simp: apply_bootstrap_def apply_bootstrap_between_def)
qed

lemma apply_bootstrap_idempotent:
  assumes "wf_inner s" "apply_bootstrap plan s = (Ok r, s')"
  shows "apply_bootstrap plan s' = (Ok (skipped_report plan), s')"
  using mem_boot.apply_plan_twice assms by (auto simp: apply_bootstrap_Ok)

lemma apply_bootstrap_never_updates:
  assumes "wf_inner s" "apply_bootstrap plan s = (Ok r, s')"
  shows "mem_grow s s'"
  using mem_boot.apply_plan_creates(2) assms by (auto simp: apply_bootstrap_Ok)

end
