(* ===== verification/Pg_Sql.thy ===== *)
theory Pg_Sql
  imports Boot_Plan
begin

text \<open>
  The statements of the PostgreSQL store, \<open>lakefs-authz/src/store/pg/sql.rs\<close>, over the tables of
  \<open>migrations/0001_initial.sql\<close>.  A table is the list of its rows, in no order that means anything; a
  statement is what it selects, or its effect on the tables with the rows it affects.  Keys collate as
  bytes, so the order of the database is the order of strings here.
\<close>

section \<open>LIKE\<close>

text \<open>
  \<open>%\<close> stands for any sequence, \<open>_\<close> for one character, and the backslash makes the next character stand for
  itself.  Characters are encoded without one being part of another, so comparing bytes compares characters.
\<close>

function like :: "string \<Rightarrow> string \<Rightarrow> bool" where
  "like [] s \<longleftrightarrow> s = []"
| "like (c # p) s \<longleftrightarrow>
     (if c = CHR ''%'' then like p s \<or> (case s of [] \<Rightarrow> False | _ # s' \<Rightarrow> like (c # p) s')
      else (case s of [] \<Rightarrow> False
        | x # s' \<Rightarrow>
            if c = CHR 0x5C then (case p of [] \<Rightarrow> False | e # p' \<Rightarrow> x = e \<and> like p' s')
            else if c = CHR ''_'' then like p (drop (utf8_cont x) s')
            else x = c \<and> like p s'))"
  by pat_completeness auto

termination
  by (relation "measure (\<lambda>(p, s). length p + length s)") auto

declare like.simps [simp del]

lemma like_percent: "like (CHR ''%'' # p) s \<longleftrightarrow> like p s \<or> (case s of [] \<Rightarrow> False | _ # s' \<Rightarrow> like (CHR ''%'' # p) s')"
  by (subst like.simps) simp

lemma like_escaped: "like (CHR 0x5C # e # p) s \<longleftrightarrow> (case s of [] \<Rightarrow> False | x # s' \<Rightarrow> x = e \<and> like p s')"
  by (subst like.simps) (simp split: list.split)

lemma like_plain:
  assumes "c \<noteq> CHR ''%''" "c \<noteq> CHR 0x5C" "c \<noteq> CHR ''_''"
  shows "like (c # p) s \<longleftrightarrow> (case s of [] \<Rightarrow> False | x # s' \<Rightarrow> x = c \<and> like p s')"
  using assms by (subst like.simps) (simp split: list.split)

lemma like_any: "like ''%'' s"
proof (induction s)
  case Nil
  show ?case by (subst like_percent) (simp add: like.simps(1))
next
  case (Cons x s)
  then show ?case by (subst like_percent) simp
qed

text \<open>The pattern of a list statement selects exactly the keys with the prefix.\<close>

lemma like_escaped_prefix: "like (escape_like_prefix p @ ''%'') s \<longleftrightarrow> starts_with p s"
proof (induction p arbitrary: s)
  case Nil
  show ?case by (simp add: escape_like_prefix_def like_any)
next
  case (Cons c p)
  have e: "escape_like_prefix (c # p) =
      (if c = CHR 0x5C \<or> c = CHR ''%'' \<or> c = CHR ''_'' then [CHR 0x5C, c] else [c]) @ escape_like_prefix p"
    by (simp add: escape_like_prefix_def)
  have step: "like (escape_like_prefix (c # p) @ ''%'') s
      \<longleftrightarrow> (case s of [] \<Rightarrow> False | x # s' \<Rightarrow> x = c \<and> like (escape_like_prefix p @ ''%'') s')"
  proof (cases "c = CHR 0x5C \<or> c = CHR ''%'' \<or> c = CHR ''_''")
    case True
    then show ?thesis by (simp add: e like_escaped)
  next
    case False
    then show ?thesis by (simp add: e like_plain)
  qed
  show ?case unfolding step using Cons.IH by (auto simp: starts_with_def split: list.split)
qed

section \<open>The tables\<close>

text \<open>A row of \<open>credentials\<close> has the columns of \<open>new_credential\<close>; the user id comes from a join.\<close>

record db =
  t_users :: "user_record list"
  t_user_seq :: int
  t_groups :: "group_record list"
  t_policies :: "policy_record list"
  t_group_members :: "(string \<times> string) list"
  t_user_policies :: "(string \<times> string) list"
  t_group_policies :: "(string \<times> string) list"
  t_credentials :: "new_credential list"
  t_external_principals :: "external_principal_record list"
  t_claimed_token_ids :: "(string \<times> int) list"

definition empty_db :: db where
  "empty_db = \<lparr> t_users = [], t_user_seq = 0, t_groups = [], t_policies = [], t_group_members = [],
     t_user_policies = [], t_group_policies = [], t_credentials = [], t_external_principals = [],
     t_claimed_token_ids = [] \<rparr>"

text \<open>
  A failed statement: an error of the database with its SQLSTATE and the constraint it names, or an error of
  the driver.  When several constraints are violated the database reports one of them; which one is the
  parameter \<open>report\<close>.  Unique indexes are checked when the row is inserted, foreign keys after that.
\<close>

datatype sqlx_error = Database string "string option" | DriverError string

type_synonym 'a sql_statement = "db \<Rightarrow> (sqlx_error + 'a) \<times> db"
type_synonym report = "string list \<Rightarrow> string"

definition violate :: "string \<Rightarrow> report \<Rightarrow> (bool \<times> string) list \<Rightarrow> sqlx_error + unit" where
  "violate code report checks = (let names = map snd (filter fst checks) in
     if names = [] then Ok () else Err (Database code (Some (report names))))"

definition insert_row :: "report \<Rightarrow> (bool \<times> string) list \<Rightarrow> (bool \<times> string) list \<Rightarrow> 'a \<Rightarrow> (db \<Rightarrow> db) \<Rightarrow> 'a sql_statement" where
  "insert_row report uniques foreign_keys result add d =
     (case and_then (violate ''23505'' report uniques) (\<lambda>_. violate ''23503'' report foreign_keys) of
        Inl e \<Rightarrow> (Err e, d)
      | Inr _ \<Rightarrow> (Ok result, add d))"

text \<open>The keyset page of a list statement.\<close>

definition keyset :: "('a \<Rightarrow> string) \<Rightarrow> string \<Rightarrow> string \<Rightarrow> int \<Rightarrow> 'a list \<Rightarrow> 'a list" where
  "keyset key pattern after limit rows =
     take (nat limit) (sort_key key (filter (\<lambda>r. like pattern (key r) \<and> after < key r) rows))"

type_synonym 'a list_statement = "string \<Rightarrow> string \<Rightarrow> int \<Rightarrow> db \<Rightarrow> 'a list"

section \<open>users\<close>

definition has_user :: "db \<Rightarrow> string \<Rightarrow> bool" where
  "has_user d username = list_ex (\<lambda>u. ur_username u = username) (t_users d)"

definition has_group :: "db \<Rightarrow> string \<Rightarrow> bool" where
  "has_group d i = list_ex (\<lambda>g. gr_id g = i) (t_groups d)"

definition has_policy :: "db \<Rightarrow> string \<Rightarrow> bool" where
  "has_policy d name = list_ex (\<lambda>p. pr_name p = name) (t_policies d)"

definition user_row :: "int \<Rightarrow> new_user \<Rightarrow> user_record" where
  "user_row uid u = \<lparr> ur_username = nu_username u, ur_user_id = uid, ur_creation_date = nu_creation_date u,
     ur_friendly_name = nu_friendly_name u, ur_email = nu_email u, ur_source = nu_source u,
     ur_external_id = nu_external_id u, ur_encrypted_password = nu_encrypted_password u \<rparr>"

text \<open>Nulls are distinct in a unique index.\<close>

definition taken :: "('a \<Rightarrow> 'b option) \<Rightarrow> 'a list \<Rightarrow> 'b option \<Rightarrow> bool" where
  "taken column rows v = (case v of None \<Rightarrow> False | Some x \<Rightarrow> list_ex (\<lambda>r. column r = Some x) rows)"

definition users_unique :: "db \<Rightarrow> user_record \<Rightarrow> (bool \<times> string) list" where
  "users_unique d row = [(has_user d (ur_username row), ''users_pkey''),
     (list_ex (\<lambda>u. ur_user_id u = ur_user_id row) (t_users d), ''users_user_id_key''),
     (taken ur_email (t_users d) (ur_email row), ''users_email_key''),
     (taken ur_external_id (t_users d) (ur_external_id row), ''users_external_id_key'')]"

text \<open>The identity column draws from its sequence before anything is checked, and a failure does not give it back.\<close>

definition next_user_id :: "db \<Rightarrow> db" where
  "next_user_id d = d\<lparr> t_user_seq := t_user_seq d + 1 \<rparr>"

definition INSERT_USER :: "report \<Rightarrow> new_user \<Rightarrow> user_record sql_statement" where
  "INSERT_USER report u d = (let d = next_user_id d; row = user_row (t_user_seq d) u in
     insert_row report (users_unique d row) [] row (\<lambda>d. d\<lparr> t_users := t_users d @ [row] \<rparr>) d)"

definition BOOTSTRAP_INSERT_USER :: "report \<Rightarrow> new_user \<Rightarrow> nat sql_statement" where
  "BOOTSTRAP_INSERT_USER report u d = (let d = next_user_id d; row = user_row (t_user_seq d) u in
     if has_user d (ur_username row) then (Ok 0, d)
     else insert_row report (users_unique d row) [] 1 (\<lambda>d. d\<lparr> t_users := t_users d @ [row] \<rparr>) d)"

definition SELECT_USER :: "string \<Rightarrow> db \<Rightarrow> user_record list" where
  "SELECT_USER username d = filter (\<lambda>u. ur_username u = username) (t_users d)"

definition SELECT_USER_BY_ID :: "int \<Rightarrow> db \<Rightarrow> user_record list" where
  "SELECT_USER_BY_ID uid d = filter (\<lambda>u. ur_user_id u = uid) (t_users d)"

definition SELECT_USER_BY_EMAIL :: "string \<Rightarrow> db \<Rightarrow> user_record list" where
  "SELECT_USER_BY_EMAIL email d = filter (\<lambda>u. ur_email u = Some email) (t_users d)"

definition SELECT_USER_BY_EXTERNAL_ID :: "string \<Rightarrow> db \<Rightarrow> user_record list" where
  "SELECT_USER_BY_EXTERNAL_ID x d = filter (\<lambda>u. ur_external_id u = Some x) (t_users d)"

definition LIST_USERS :: "user_record list_statement" where
  "LIST_USERS pattern after limit d = keyset ur_username pattern after limit (t_users d)"

definition SELECT_USER_EXISTS :: "string \<Rightarrow> db \<Rightarrow> int list" where
  "SELECT_USER_EXISTS username d = map (\<lambda>_. 1) (filter (\<lambda>u. ur_username u = username) (t_users d))"

text \<open>A delete removes what references the deleted keys: every foreign key is \<open>ON DELETE CASCADE\<close>.\<close>

definition DELETE_USER :: "string \<Rightarrow> nat sql_statement" where
  "DELETE_USER username d = (let gone = map ur_username (SELECT_USER username d) in
     (Ok (length gone), d\<lparr> t_users := filter (\<lambda>u. ur_username u \<notin> set gone) (t_users d),
        t_group_members := filter (\<lambda>(_, u). u \<notin> set gone) (t_group_members d),
        t_user_policies := filter (\<lambda>(u, _). u \<notin> set gone) (t_user_policies d),
        t_credentials := filter (\<lambda>c. nc_username c \<notin> set gone) (t_credentials d),
        t_external_principals := filter (\<lambda>p. er_username p \<notin> set gone) (t_external_principals d) \<rparr>))"

definition UPDATE_USER_FRIENDLY_NAME :: "string \<Rightarrow> string \<Rightarrow> nat sql_statement" where
  "UPDATE_USER_FRIENDLY_NAME username friendly_name d =
     (Ok (length (SELECT_USER username d)),
      d\<lparr> t_users := map (\<lambda>u. if ur_username u = username then u\<lparr> ur_friendly_name := Some friendly_name \<rparr> else u) (t_users d) \<rparr>)"

section \<open>groups\<close>

definition group_row :: "new_group \<Rightarrow> group_record" where
  "group_row g = \<lparr> gr_id = ng_id g, gr_description = ng_description g, gr_creation_date = ng_creation_date g \<rparr>"

definition add_group_row :: "group_record \<Rightarrow> db \<Rightarrow> db" where
  "add_group_row row d = d\<lparr> t_groups := t_groups d @ [row] \<rparr>"

definition INSERT_GROUP :: "report \<Rightarrow> new_group \<Rightarrow> group_record sql_statement" where
  "INSERT_GROUP report g d =
     insert_row report [(has_group d (ng_id g), ''groups_pkey'')] [] (group_row g) (add_group_row (group_row g)) d"

definition BOOTSTRAP_INSERT_GROUP :: "new_group \<Rightarrow> nat sql_statement" where
  "BOOTSTRAP_INSERT_GROUP g d = (if has_group d (ng_id g) then (Ok 0, d) else (Ok 1, add_group_row (group_row g) d))"

definition SELECT_GROUP :: "string \<Rightarrow> db \<Rightarrow> group_record list" where
  "SELECT_GROUP i d = filter (\<lambda>g. gr_id g = i) (t_groups d)"

definition SELECT_GROUP_EXISTS :: "string \<Rightarrow> db \<Rightarrow> int list" where
  "SELECT_GROUP_EXISTS i d = map (\<lambda>_. 1) (filter (\<lambda>g. gr_id g = i) (t_groups d))"

definition DELETE_GROUP :: "string \<Rightarrow> nat sql_statement" where
  "DELETE_GROUP i d = (let gone = map gr_id (SELECT_GROUP i d) in
     (Ok (length gone), d\<lparr> t_groups := filter (\<lambda>g. gr_id g \<notin> set gone) (t_groups d),
        t_group_members := filter (\<lambda>(g, _). g \<notin> set gone) (t_group_members d),
        t_group_policies := filter (\<lambda>(g, _). g \<notin> set gone) (t_group_policies d) \<rparr>))"

definition LIST_GROUPS :: "group_record list_statement" where
  "LIST_GROUPS pattern after limit d = keyset gr_id pattern after limit (t_groups d)"

section \<open>policies\<close>

definition policy_row :: "new_policy \<Rightarrow> policy_record" where
  "policy_row p = \<lparr> pr_name = np_name p, pr_creation_date = np_creation_date p, pr_statement = np_statement p,
     pr_acl = np_acl p \<rparr>"

definition add_policy_row :: "policy_record \<Rightarrow> db \<Rightarrow> db" where
  "add_policy_row row d = d\<lparr> t_policies := t_policies d @ [row] \<rparr>"

definition INSERT_POLICY :: "report \<Rightarrow> new_policy \<Rightarrow> policy_record sql_statement" where
  "INSERT_POLICY report p d =
     insert_row report [(has_policy d (np_name p), ''policies_pkey'')] [] (policy_row p) (add_policy_row (policy_row p)) d"

definition BOOTSTRAP_INSERT_POLICY :: "new_policy \<Rightarrow> nat sql_statement" where
  "BOOTSTRAP_INSERT_POLICY p d =
     (if has_policy d (np_name p) then (Ok 0, d) else (Ok 1, add_policy_row (policy_row p) d))"

definition SELECT_POLICY :: "string \<Rightarrow> db \<Rightarrow> policy_record list" where
  "SELECT_POLICY name d = filter (\<lambda>p. pr_name p = name) (t_policies d)"

text \<open>\<open>UPDATE ... RETURNING\<close>: the rows it changed, as they are now.\<close>

definition UPDATE_POLICY :: "new_policy \<Rightarrow> policy_record list sql_statement" where
  "UPDATE_POLICY p d = (let change = (\<lambda>r. r\<lparr> pr_creation_date := np_creation_date p, pr_statement := np_statement p,
        pr_acl := np_acl p \<rparr>) in
     (Ok (map change (SELECT_POLICY (np_name p) d)),
      d\<lparr> t_policies := map (\<lambda>r. if pr_name r = np_name p then change r else r) (t_policies d) \<rparr>))"

definition DELETE_POLICY :: "string \<Rightarrow> nat sql_statement" where
  "DELETE_POLICY name d = (let gone = map pr_name (SELECT_POLICY name d) in
     (Ok (length gone), d\<lparr> t_policies := filter (\<lambda>p. pr_name p \<notin> set gone) (t_policies d),
        t_user_policies := filter (\<lambda>(_, p). p \<notin> set gone) (t_user_policies d),
        t_group_policies := filter (\<lambda>(_, p). p \<notin> set gone) (t_group_policies d) \<rparr>))"

definition LIST_POLICIES :: "policy_record list_statement" where
  "LIST_POLICIES pattern after limit d = keyset pr_name pattern after limit (t_policies d)"

section \<open>group_members, user_policies, group_policies\<close>

text \<open>\<open>ON CONFLICT DO NOTHING\<close>: a pair that is there affects no row and meets no foreign key.\<close>

definition INSERT_MEMBERSHIP :: "report \<Rightarrow> string \<Rightarrow> string \<Rightarrow> nat sql_statement" where
  "INSERT_MEMBERSHIP report group_id username d =
     (if (group_id, username) \<in> set (t_group_members d) then (Ok 0, d)
      else insert_row report [] [(\<not> has_group d group_id, ''group_members_group_fk''),
             (\<not> has_user d username, ''group_members_user_fk'')] 1
           (\<lambda>d. d\<lparr> t_group_members := t_group_members d @ [(group_id, username)] \<rparr>) d)"

definition DELETE_MEMBERSHIP :: "string \<Rightarrow> string \<Rightarrow> nat sql_statement" where
  "DELETE_MEMBERSHIP group_id username d =
     (Ok (length (filter (\<lambda>x. x = (group_id, username)) (t_group_members d))),
      d\<lparr> t_group_members := filter (\<lambda>x. x \<noteq> (group_id, username)) (t_group_members d) \<rparr>)"

definition INSERT_USER_POLICY :: "report \<Rightarrow> string \<Rightarrow> string \<Rightarrow> nat sql_statement" where
  "INSERT_USER_POLICY report username policy d =
     (if (username, policy) \<in> set (t_user_policies d) then (Ok 0, d)
      else insert_row report [] [(\<not> has_user d username, ''user_policies_user_fk''),
             (\<not> has_policy d policy, ''user_policies_policy_fk'')] 1
           (\<lambda>d. d\<lparr> t_user_policies := t_user_policies d @ [(username, policy)] \<rparr>) d)"

definition DELETE_USER_POLICY :: "string \<Rightarrow> string \<Rightarrow> nat sql_statement" where
  "DELETE_USER_POLICY username policy d =
     (Ok (length (filter (\<lambda>x. x = (username, policy)) (t_user_policies d))),
      d\<lparr> t_user_policies := filter (\<lambda>x. x \<noteq> (username, policy)) (t_user_policies d) \<rparr>)"

definition INSERT_GROUP_POLICY :: "report \<Rightarrow> string \<Rightarrow> string \<Rightarrow> nat sql_statement" where
  "INSERT_GROUP_POLICY report group_id policy d =
     (if (group_id, policy) \<in> set (t_group_policies d) then (Ok 0, d)
      else insert_row report [] [(\<not> has_group d group_id, ''group_policies_group_fk''),
             (\<not> has_policy d policy, ''group_policies_policy_fk'')] 1
           (\<lambda>d. d\<lparr> t_group_policies := t_group_policies d @ [(group_id, policy)] \<rparr>) d)"

definition DELETE_GROUP_POLICY :: "string \<Rightarrow> string \<Rightarrow> nat sql_statement" where
  "DELETE_GROUP_POLICY group_id policy d =
     (Ok (length (filter (\<lambda>x. x = (group_id, policy)) (t_group_policies d))),
      d\<lparr> t_group_policies := filter (\<lambda>x. x \<noteq> (group_id, policy)) (t_group_policies d) \<rparr>)"

text \<open>The rows of one table a list of keys joins with, once for every match.\<close>

definition join_rows :: "('a \<Rightarrow> string) \<Rightarrow> string list \<Rightarrow> 'a list \<Rightarrow> 'a list" where
  "join_rows key names rows = concat (map (\<lambda>n. filter (\<lambda>r. key r = n) rows) names)"

definition members_of :: "string \<Rightarrow> db \<Rightarrow> string list" where
  "members_of group_id d = map snd (filter (\<lambda>(g, _). g = group_id) (t_group_members d))"

definition groups_of :: "string \<Rightarrow> db \<Rightarrow> string list" where
  "groups_of username d = map fst (filter (\<lambda>(_, u). u = username) (t_group_members d))"

definition direct_policies :: "string \<Rightarrow> db \<Rightarrow> string list" where
  "direct_policies username d = map snd (filter (\<lambda>(u, _). u = username) (t_user_policies d))"

definition policies_of_group :: "string \<Rightarrow> db \<Rightarrow> string list" where
  "policies_of_group group_id d = map snd (filter (\<lambda>(g, _). g = group_id) (t_group_policies d))"

definition LIST_GROUP_MEMBERS :: "string \<Rightarrow> user_record list_statement" where
  "LIST_GROUP_MEMBERS group_id pattern after limit d =
     keyset ur_username pattern after limit (join_rows ur_username (members_of group_id d) (t_users d))"

definition LIST_USER_GROUPS :: "string \<Rightarrow> group_record list_statement" where
  "LIST_USER_GROUPS username pattern after limit d =
     keyset gr_id pattern after limit (join_rows gr_id (groups_of username d) (t_groups d))"

definition LIST_USER_POLICIES :: "string \<Rightarrow> policy_record list_statement" where
  "LIST_USER_POLICIES username pattern after limit d =
     keyset pr_name pattern after limit (join_rows pr_name (direct_policies username d) (t_policies d))"

definition LIST_GROUP_POLICIES :: "string \<Rightarrow> policy_record list_statement" where
  "LIST_GROUP_POLICIES group_id pattern after limit d =
     keyset pr_name pattern after limit (join_rows pr_name (policies_of_group group_id d) (t_policies d))"

text \<open>The inner table: direct attachments, and for each membership the attachments of its group; \<open>UNION\<close>
  removes what is there twice.\<close>

definition LIST_EFFECTIVE_USER_POLICIES :: "string \<Rightarrow> policy_record list_statement" where
  "LIST_EFFECTIVE_USER_POLICIES username pattern after limit d =
     (let a = remdups (direct_policies username d
                @ concat (map (\<lambda>(g, p). map (\<lambda>_. p) (filter (\<lambda>m. m = g) (groups_of username d))) (t_group_policies d)))
      in keyset pr_name pattern after limit (join_rows pr_name a (t_policies d)))"

section \<open>credentials, external_principals, claimed_token_ids\<close>

definition join_user :: "db \<Rightarrow> new_credential \<Rightarrow> credential_record list" where
  "join_user d c = map (\<lambda>u. \<lparr> cr_access_key_id = nc_access_key_id c, cr_username = nc_username c,
       cr_user_id = ur_user_id u, cr_secret_ciphertext = nc_secret_ciphertext c,
       cr_creation_date = nc_creation_date c \<rparr>) (filter (\<lambda>u. ur_username u = nc_username c) (t_users d))"

definition credential_rows :: "db \<Rightarrow> credential_record list" where
  "credential_rows d = concat (map (join_user d) (t_credentials d))"

definition has_key :: "db \<Rightarrow> string \<Rightarrow> bool" where
  "has_key d access_key_id = list_ex (\<lambda>c. nc_access_key_id c = access_key_id) (t_credentials d)"

definition add_credential_row :: "new_credential \<Rightarrow> db \<Rightarrow> db" where
  "add_credential_row c d = d\<lparr> t_credentials := t_credentials d @ [c] \<rparr>"

definition INSERT_CREDENTIAL :: "report \<Rightarrow> new_credential \<Rightarrow> credential_record list sql_statement" where
  "INSERT_CREDENTIAL report c d = insert_row report [(has_key d (nc_access_key_id c), ''credentials_pkey'')]
     [(\<not> has_user d (nc_username c), ''credentials_user_fk'')] (join_user d c) (add_credential_row c) d"

definition BOOTSTRAP_INSERT_CREDENTIAL :: "report \<Rightarrow> new_credential \<Rightarrow> nat sql_statement" where
  "BOOTSTRAP_INSERT_CREDENTIAL report c d = (if has_key d (nc_access_key_id c) then (Ok 0, d)
     else insert_row report [] [(\<not> has_user d (nc_username c), ''credentials_user_fk'')] 1 (add_credential_row c) d)"

definition SELECT_CREDENTIAL :: "string \<Rightarrow> db \<Rightarrow> credential_record list" where
  "SELECT_CREDENTIAL access_key_id d = filter (\<lambda>c. cr_access_key_id c = access_key_id) (credential_rows d)"

definition SELECT_USER_CREDENTIAL :: "string \<Rightarrow> string \<Rightarrow> db \<Rightarrow> credential_record list" where
  "SELECT_USER_CREDENTIAL access_key_id username d =
     filter (\<lambda>c. cr_access_key_id c = access_key_id \<and> cr_username c = username) (credential_rows d)"

definition DELETE_CREDENTIAL :: "string \<Rightarrow> string \<Rightarrow> nat sql_statement" where
  "DELETE_CREDENTIAL access_key_id username d = (let hit = (\<lambda>c. nc_access_key_id c = access_key_id \<and> nc_username c = username) in
     (Ok (length (filter hit (t_credentials d))), d\<lparr> t_credentials := filter (\<lambda>c. \<not> hit c) (t_credentials d) \<rparr>))"

definition LIST_USER_CREDENTIALS :: "string \<Rightarrow> credential_record list_statement" where
  "LIST_USER_CREDENTIALS username pattern after limit d =
     keyset cr_access_key_id pattern after limit (filter (\<lambda>c. cr_username c = username) (credential_rows d))"

definition INSERT_EXTERNAL_PRINCIPAL :: "report \<Rightarrow> string \<Rightarrow> string \<Rightarrow> nat sql_statement" where
  "INSERT_EXTERNAL_PRINCIPAL report i username d =
     insert_row report [(list_ex (\<lambda>p. er_id p = i) (t_external_principals d), ''external_principals_pkey'')]
       [(\<not> has_user d username, ''external_principals_user_fk'')] 1
       (\<lambda>d. d\<lparr> t_external_principals := t_external_principals d @ [\<lparr> er_id = i, er_username = username \<rparr>] \<rparr>) d"

definition DELETE_EXTERNAL_PRINCIPAL :: "string \<Rightarrow> string \<Rightarrow> nat sql_statement" where
  "DELETE_EXTERNAL_PRINCIPAL i username d = (let hit = (\<lambda>p. er_id p = i \<and> er_username p = username) in
     (Ok (length (filter hit (t_external_principals d))),
      d\<lparr> t_external_principals := filter (\<lambda>p. \<not> hit p) (t_external_principals d) \<rparr>))"

definition SELECT_EXTERNAL_PRINCIPAL :: "string \<Rightarrow> db \<Rightarrow> external_principal_record list" where
  "SELECT_EXTERNAL_PRINCIPAL i d = filter (\<lambda>p. er_id p = i) (t_external_principals d)"

definition LIST_USER_EXTERNAL_PRINCIPALS :: "string \<Rightarrow> external_principal_record list_statement" where
  "LIST_USER_EXTERNAL_PRINCIPALS username pattern after limit d =
     keyset er_id pattern after limit (filter (\<lambda>p. er_username p = username) (t_external_principals d))"

definition INSERT_TOKEN_ID :: "report \<Rightarrow> string \<Rightarrow> int \<Rightarrow> nat sql_statement" where
  "INSERT_TOKEN_ID report token_id expires d =
     insert_row report [(list_ex (\<lambda>(t, _). t = token_id) (t_claimed_token_ids d), ''claimed_token_ids_pkey'')] [] 1
       (\<lambda>d. d\<lparr> t_claimed_token_ids := t_claimed_token_ids d @ [(token_id, expires)] \<rparr>) d"

definition DELETE_EXPIRED_TOKEN_IDS :: "int \<Rightarrow> nat sql_statement" where
  "DELETE_EXPIRED_TOKEN_IDS now d =
     (Ok (length (filter (\<lambda>(_, e). e \<le> now) (t_claimed_token_ids d))),
      d\<lparr> t_claimed_token_ids := filter (\<lambda>(_, e). \<not> e \<le> now) (t_claimed_token_ids d) \<rparr>)"

text \<open>A statement that fails leaves every row in place.\<close>

lemma insert_row_Err: "insert_row report us fs r add d = (Err e, d') \<Longrightarrow> d' = d"
  by (auto simp: insert_row_def split: sum.splits)

lemma insert_row_cases:
  obtains (unique) name where "insert_row report us fs r add d = (Err (Database ''23505'' (Some name)), d)"
    "name = report (map snd (filter fst us))" "map snd (filter fst us) \<noteq> []"
  | (foreign) name where "insert_row report us fs r add d = (Err (Database ''23503'' (Some name)), d)"
    "name = report (map snd (filter fst fs))" "map snd (filter fst fs) \<noteq> []" "\<forall>(b, _) \<in> set us. \<not> b"
  | (stored) "insert_row report us fs r add d = (Ok r, add d)" "\<forall>(b, _) \<in> set us. \<not> b" "\<forall>(b, _) \<in> set fs. \<not> b"
proof (cases "filter fst us = []")
  case us: True
  show thesis
  proof (cases "filter fst fs = []")
    case True
    with us show thesis by (intro stored) (auto simp: insert_row_def violate_def filter_empty_conv)
  next
    case False
    with us show thesis by (intro foreign) (auto simp: insert_row_def violate_def filter_empty_conv Let_def)
  qed
next
  case False
  then show thesis by (intro unique) (auto simp: insert_row_def violate_def Let_def)
qed

end
