(* ===== verification/Pg_Store.thy ===== *)
theory Pg_Store
  imports Pg_Sql
begin

text \<open>
  The PostgreSQL store, \<open>lakefs-authz/src/store/pg\<close>: the mapping of database errors (\<open>convert.rs\<close>), the
  helpers that run a statement (\<open>mod.rs\<close>), every operation of the storage traits, and the bootstrap
  transaction.  Every operation is one statement, so it is atomic; the statements are those of \<open>Pg_Sql\<close>.
\<close>

section \<open>convert.rs\<close>

datatype violation = UniqueViolation string | ForeignKeyViolation string

definition violation_of :: "sqlx_error \<Rightarrow> violation option" where
  "violation_of error = (case error of
     Database code constraint \<Rightarrow>
       (if code = ''23505'' then Some (UniqueViolation (unwrap_or [] constraint))
        else if code = ''23503'' then Some (ForeignKeyViolation (unwrap_or [] constraint))
        else None)
   | DriverError _ \<Rightarrow> None)"

text \<open>The database: whether a statement reaches it, the constraint it names, the text of an error.\<close>

record pg_env =
  pg_down :: "string option"
  pg_report :: report
  pg_display :: "sqlx_error \<Rightarrow> string"

definition backend :: "pg_env \<Rightarrow> sqlx_error \<Rightarrow> store_error" where
  "backend env error = SBackend (pg_display env error)"

definition map_error :: "pg_env \<Rightarrow> (string \<Rightarrow> store_error) \<Rightarrow> (string \<Rightarrow> store_error) \<Rightarrow> sqlx_error \<Rightarrow> store_error" where
  "map_error env unique foreign_key error = (case violation_of error of
     Some (UniqueViolation constraint) \<Rightarrow> unique constraint
   | Some (ForeignKeyViolation constraint) \<Rightarrow> foreign_key constraint
   | None \<Rightarrow> backend env error)"

definition map_unique :: "pg_env \<Rightarrow> (string \<Rightarrow> store_error) \<Rightarrow> sqlx_error \<Rightarrow> store_error" where
  "map_unique env unique error = (case violation_of error of
     Some (UniqueViolation constraint) \<Rightarrow> unique constraint
   | _ \<Rightarrow> backend env error)"

definition user_conflict :: "new_user \<Rightarrow> string \<Rightarrow> store_error" where
  "user_conflict user constraint =
     (if ends_with ''_email_key'' constraint then SAlreadyExists ''user with email'' (unwrap_or [] (nu_email user))
      else if ends_with ''_external_id_key'' constraint
        then SAlreadyExists ''user with external id'' (unwrap_or [] (nu_external_id user))
      else SAlreadyExists ''user'' (nu_username user))"

text \<open>The references are not empty; the first one answers for a constraint that names none of them.\<close>

definition missing_from_constraint :: "(string \<times> string) list \<Rightarrow> string \<Rightarrow> store_error" where
  "missing_from_constraint references constraint =
     (case List.find (\<lambda>(entity, _). ends_with (''_'' @ entity @ ''_fk'') constraint) references of
        Some (entity, i) \<Rightarrow> SNotFound entity i
      | None \<Rightarrow> SNotFound (fst (hd references)) (snd (hd references)))"

definition credential_error :: "pg_env \<Rightarrow> new_credential \<Rightarrow> sqlx_error \<Rightarrow> store_error" where
  "credential_error env c = map_error env (\<lambda>_. SAlreadyExists ''credentials'' (nc_access_key_id c))
     (missing_from_constraint [(''user'', nc_username c)])"

section \<open>Running statements\<close>

definition fetch_all :: "pg_env \<Rightarrow> (db \<Rightarrow> 'a list) \<Rightarrow> db \<Rightarrow> sqlx_error + 'a list" where
  "fetch_all env statement d = (case pg_down env of Some m \<Rightarrow> Err (DriverError m) | None \<Rightarrow> Ok (statement d))"

definition execute :: "pg_env \<Rightarrow> 'a sql_statement \<Rightarrow> 'a sql_statement" where
  "execute env statement d = (case pg_down env of Some m \<Rightarrow> (Err (DriverError m), d) | None \<Rightarrow> statement d)"

text \<open>\<open>fetch_optional\<close> of the driver is the first row.\<close>

definition first_row :: "'a list \<Rightarrow> 'a option" where
  "first_row rows = (case rows of [] \<Rightarrow> None | r # _ \<Rightarrow> Some r)"

definition like_pattern :: "page_query \<Rightarrow> string" where
  "like_pattern q = escape_like_prefix (q_prefix q) @ ''%''"

definition pg_exists :: "pg_env \<Rightarrow> (string \<Rightarrow> db \<Rightarrow> int list) \<Rightarrow> string \<Rightarrow> string \<Rightarrow> db \<Rightarrow> unit store_result" where
  "pg_exists env statement entity i d =
     and_then (map_err (backend env) (fetch_all env (statement i) d)) (\<lambda>rows.
       and_then (ok_or (SNotFound entity i) (first_row rows)) (\<lambda>_. Ok ()))"

definition user_exists :: "pg_env \<Rightarrow> string \<Rightarrow> db \<Rightarrow> unit store_result" where
  "user_exists env = pg_exists env SELECT_USER_EXISTS ''user''"

definition group_exists :: "pg_env \<Rightarrow> string \<Rightarrow> db \<Rightarrow> unit store_result" where
  "group_exists env = pg_exists env SELECT_GROUP_EXISTS ''group''"

definition fetch_optional :: "pg_env \<Rightarrow> (db \<Rightarrow> 'a list) \<Rightarrow> db \<Rightarrow> 'a option store_result" where
  "fetch_optional env statement d = map_ok first_row (map_err (backend env) (fetch_all env statement d))"

definition fetch_one :: "pg_env \<Rightarrow> (db \<Rightarrow> 'a list) \<Rightarrow> string \<Rightarrow> string \<Rightarrow> db \<Rightarrow> 'a store_result" where
  "fetch_one env statement entity i d = and_then (fetch_optional env statement d) (ok_or (SNotFound entity i))"

definition execute_one :: "pg_env \<Rightarrow> nat sql_statement \<Rightarrow> string \<Rightarrow> string \<Rightarrow> db \<Rightarrow> unit store_result \<times> db" where
  "execute_one env statement entity i d = (case execute env statement d of
     (Inl e, d') \<Rightarrow> (Err (backend env e), d')
   | (Inr affected, d') \<Rightarrow> (if affected = 0 then Err (SNotFound entity i) else Ok (), d'))"

definition fetch_page :: "pg_env \<Rightarrow> 'a list_statement \<Rightarrow> page_query \<Rightarrow> ('a \<Rightarrow> string) \<Rightarrow> db \<Rightarrow> 'a page_of store_result" where
  "fetch_page env statement q key d =
     and_then (map_err (backend env) (fetch_all env (statement (like_pattern q) (q_after q) (fetch_limit q)) d))
       (\<lambda>rows. Ok (from_overfetch rows (q_limit q) key))"

definition fetch_owned_page :: "pg_env \<Rightarrow> 'a list_statement \<Rightarrow> page_query \<Rightarrow> ('a \<Rightarrow> string) \<Rightarrow> (db \<Rightarrow> unit store_result)
    \<Rightarrow> db \<Rightarrow> 'a page_of store_result" where
  "fetch_owned_page env statement q key owner d =
     and_then (fetch_page env statement q key d) (\<lambda>page.
       if po_items page = [] then and_then (owner d) (\<lambda>_. Ok page) else Ok page)"

text \<open>A statement whose errors a caller maps.\<close>

definition mapped :: "(sqlx_error \<Rightarrow> store_error) \<Rightarrow> ('a \<Rightarrow> 'b) \<Rightarrow> (sqlx_error + 'a) \<times> db \<Rightarrow> 'b store_result \<times> db" where
  "mapped f g r = (map_ok g (map_err f (fst r)), snd r)"

type_synonym 'a pg_update = "db \<Rightarrow> 'a store_result \<times> db"

section \<open>users.rs\<close>

definition pg_insert_membership :: "pg_env \<Rightarrow> string \<Rightarrow> string \<Rightarrow> nat pg_update" where
  "pg_insert_membership env group_id username d =
     mapped (map_error env (\<lambda>_. SAlreadyExists ''group membership'' username)
         (missing_from_constraint [(''user'', username), (''group'', group_id)])) (\<lambda>n. n)
       (execute env (INSERT_MEMBERSHIP (pg_report env) group_id username) d)"

definition pg_create_user :: "pg_env \<Rightarrow> new_user \<Rightarrow> user_record pg_update" where
  "pg_create_user env user d = mapped (map_unique env (user_conflict user)) (\<lambda>row. row)
     (execute env (INSERT_USER (pg_report env) user) d)"

definition pg_get_user :: "pg_env \<Rightarrow> string \<Rightarrow> db \<Rightarrow> user_record store_result" where
  "pg_get_user env username = fetch_one env (SELECT_USER username) ''user'' username"

definition pg_find_user_by_id :: "pg_env \<Rightarrow> int \<Rightarrow> db \<Rightarrow> user_record option store_result" where
  "pg_find_user_by_id env uid = fetch_optional env (SELECT_USER_BY_ID uid)"

definition pg_find_user_by_email :: "pg_env \<Rightarrow> string \<Rightarrow> db \<Rightarrow> user_record option store_result" where
  "pg_find_user_by_email env email = fetch_optional env (SELECT_USER_BY_EMAIL email)"

definition pg_find_user_by_external_id :: "pg_env \<Rightarrow> string \<Rightarrow> db \<Rightarrow> user_record option store_result" where
  "pg_find_user_by_external_id env x = fetch_optional env (SELECT_USER_BY_EXTERNAL_ID x)"

definition pg_delete_user :: "pg_env \<Rightarrow> string \<Rightarrow> unit pg_update" where
  "pg_delete_user env username = execute_one env (DELETE_USER username) ''user'' username"

definition pg_list_users :: "pg_env \<Rightarrow> page_query \<Rightarrow> db \<Rightarrow> user_record page_of store_result" where
  "pg_list_users env q = fetch_page env LIST_USERS q ur_username"

definition pg_set_friendly_name :: "pg_env \<Rightarrow> string \<Rightarrow> string \<Rightarrow> unit pg_update" where
  "pg_set_friendly_name env username friendly_name =
     execute_one env (UPDATE_USER_FRIENDLY_NAME username friendly_name) ''user'' username"

definition pg_add_membership :: "pg_env \<Rightarrow> string \<Rightarrow> string \<Rightarrow> unit pg_update" where
  "pg_add_membership env group_id username d =
     (case pg_insert_membership env group_id username d of (r, d') \<Rightarrow> (map_ok (\<lambda>_. ()) r, d'))"

definition pg_remove_membership :: "pg_env \<Rightarrow> string \<Rightarrow> string \<Rightarrow> unit pg_update" where
  "pg_remove_membership env group_id username =
     execute_one env (DELETE_MEMBERSHIP group_id username) ''group membership'' username"

definition pg_list_group_members :: "pg_env \<Rightarrow> string \<Rightarrow> page_query \<Rightarrow> db \<Rightarrow> user_record page_of store_result" where
  "pg_list_group_members env group_id q =
     fetch_owned_page env (LIST_GROUP_MEMBERS group_id) q ur_username (group_exists env group_id)"

definition pg_list_user_groups :: "pg_env \<Rightarrow> string \<Rightarrow> page_query \<Rightarrow> db \<Rightarrow> group_record page_of store_result" where
  "pg_list_user_groups env username q =
     fetch_owned_page env (LIST_USER_GROUPS username) q gr_id (user_exists env username)"

section \<open>groups.rs\<close>

definition pg_create_group :: "pg_env \<Rightarrow> new_group \<Rightarrow> group_record pg_update" where
  "pg_create_group env g d = mapped (map_unique env (\<lambda>_. SAlreadyExists ''group'' (ng_id g))) (\<lambda>row. row)
     (execute env (INSERT_GROUP (pg_report env) g) d)"

definition pg_get_group :: "pg_env \<Rightarrow> string \<Rightarrow> db \<Rightarrow> group_record store_result" where
  "pg_get_group env group_id = fetch_one env (SELECT_GROUP group_id) ''group'' group_id"

definition pg_delete_group :: "pg_env \<Rightarrow> string \<Rightarrow> unit pg_update" where
  "pg_delete_group env group_id = execute_one env (DELETE_GROUP group_id) ''group'' group_id"

definition pg_list_groups :: "pg_env \<Rightarrow> page_query \<Rightarrow> db \<Rightarrow> group_record page_of store_result" where
  "pg_list_groups env q = fetch_page env LIST_GROUPS q gr_id"

section \<open>policies.rs\<close>

definition pg_insert_user_policy :: "pg_env \<Rightarrow> string \<Rightarrow> string \<Rightarrow> nat pg_update" where
  "pg_insert_user_policy env username policy d =
     mapped (map_error env (\<lambda>_. SAlreadyExists ''policy attachment'' policy)
         (missing_from_constraint [(''user'', username), (''policy'', policy)])) (\<lambda>n. n)
       (execute env (INSERT_USER_POLICY (pg_report env) username policy) d)"

definition pg_insert_group_policy :: "pg_env \<Rightarrow> string \<Rightarrow> string \<Rightarrow> nat pg_update" where
  "pg_insert_group_policy env group_id policy d =
     mapped (map_error env (\<lambda>_. SAlreadyExists ''policy attachment'' policy)
         (missing_from_constraint [(''group'', group_id), (''policy'', policy)])) (\<lambda>n. n)
       (execute env (INSERT_GROUP_POLICY (pg_report env) group_id policy) d)"

definition pg_create_policy :: "pg_env \<Rightarrow> new_policy \<Rightarrow> policy_record pg_update" where
  "pg_create_policy env p d = mapped (map_unique env (\<lambda>_. SAlreadyExists ''policy'' (np_name p))) (\<lambda>row. row)
     (execute env (INSERT_POLICY (pg_report env) p) d)"

definition pg_get_policy :: "pg_env \<Rightarrow> string \<Rightarrow> db \<Rightarrow> policy_record store_result" where
  "pg_get_policy env name = fetch_one env (SELECT_POLICY name) ''policy'' name"

definition pg_update_policy :: "pg_env \<Rightarrow> new_policy \<Rightarrow> policy_record pg_update" where
  "pg_update_policy env p d = (case execute env (UPDATE_POLICY p) d of
     (Inl e, d') \<Rightarrow> (Err (backend env e), d')
   | (Inr rows, d') \<Rightarrow> (ok_or (SNotFound ''policy'' (np_name p)) (first_row rows), d'))"

definition pg_delete_policy :: "pg_env \<Rightarrow> string \<Rightarrow> unit pg_update" where
  "pg_delete_policy env name = execute_one env (DELETE_POLICY name) ''policy'' name"

definition pg_list_policies :: "pg_env \<Rightarrow> page_query \<Rightarrow> db \<Rightarrow> policy_record page_of store_result" where
  "pg_list_policies env q = fetch_page env LIST_POLICIES q pr_name"

definition pg_attach_policy_to_user :: "pg_env \<Rightarrow> string \<Rightarrow> string \<Rightarrow> unit pg_update" where
  "pg_attach_policy_to_user env username policy d =
     (case pg_insert_user_policy env username policy d of (r, d') \<Rightarrow> (map_ok (\<lambda>_. ()) r, d'))"

definition pg_detach_policy_from_user :: "pg_env \<Rightarrow> string \<Rightarrow> string \<Rightarrow> unit pg_update" where
  "pg_detach_policy_from_user env username policy =
     execute_one env (DELETE_USER_POLICY username policy) ''policy attachment'' policy"

definition pg_list_user_policies :: "pg_env \<Rightarrow> string \<Rightarrow> page_query \<Rightarrow> db \<Rightarrow> policy_record page_of store_result" where
  "pg_list_user_policies env username q =
     fetch_owned_page env (LIST_USER_POLICIES username) q pr_name (user_exists env username)"

definition pg_list_effective_user_policies ::
    "pg_env \<Rightarrow> string \<Rightarrow> page_query \<Rightarrow> db \<Rightarrow> policy_record page_of store_result" where
  "pg_list_effective_user_policies env username q =
     fetch_owned_page env (LIST_EFFECTIVE_USER_POLICIES username) q pr_name (user_exists env username)"

definition pg_attach_policy_to_group :: "pg_env \<Rightarrow> string \<Rightarrow> string \<Rightarrow> unit pg_update" where
  "pg_attach_policy_to_group env group_id policy d =
     (case pg_insert_group_policy env group_id policy d of (r, d') \<Rightarrow> (map_ok (\<lambda>_. ()) r, d'))"

definition pg_detach_policy_from_group :: "pg_env \<Rightarrow> string \<Rightarrow> string \<Rightarrow> unit pg_update" where
  "pg_detach_policy_from_group env group_id policy =
     execute_one env (DELETE_GROUP_POLICY group_id policy) ''policy attachment'' policy"

definition pg_list_group_policies :: "pg_env \<Rightarrow> string \<Rightarrow> page_query \<Rightarrow> db \<Rightarrow> policy_record page_of store_result" where
  "pg_list_group_policies env group_id q =
     fetch_owned_page env (LIST_GROUP_POLICIES group_id) q pr_name (group_exists env group_id)"

section \<open>credentials.rs, external.rs and tokens.rs\<close>

text \<open>\<open>fetch_one\<close> of the driver on the inserted row: no row is an error of the driver.\<close>

definition pg_create_credential :: "pg_env \<Rightarrow> new_credential \<Rightarrow> credential_record pg_update" where
  "pg_create_credential env c d = (case execute env (INSERT_CREDENTIAL (pg_report env) c) d of (r, d') \<Rightarrow>
     (map_err (credential_error env c) (and_then r (\<lambda>rows. ok_or (DriverError ''RowNotFound'') (first_row rows))), d'))"

definition pg_get_credential :: "pg_env \<Rightarrow> string \<Rightarrow> db \<Rightarrow> credential_record store_result" where
  "pg_get_credential env access_key_id = fetch_one env (SELECT_CREDENTIAL access_key_id) ''credentials'' access_key_id"

definition pg_get_user_credential :: "pg_env \<Rightarrow> string \<Rightarrow> string \<Rightarrow> db \<Rightarrow> credential_record store_result" where
  "pg_get_user_credential env username access_key_id =
     fetch_one env (SELECT_USER_CREDENTIAL access_key_id username) ''credentials'' access_key_id"

definition pg_delete_credential :: "pg_env \<Rightarrow> string \<Rightarrow> string \<Rightarrow> unit pg_update" where
  "pg_delete_credential env username access_key_id =
     execute_one env (DELETE_CREDENTIAL access_key_id username) ''credentials'' access_key_id"

definition pg_list_user_credentials ::
    "pg_env \<Rightarrow> string \<Rightarrow> page_query \<Rightarrow> db \<Rightarrow> credential_record page_of store_result" where
  "pg_list_user_credentials env username q =
     fetch_owned_page env (LIST_USER_CREDENTIALS username) q cr_access_key_id (user_exists env username)"

definition pg_create_external_principal :: "pg_env \<Rightarrow> string \<Rightarrow> string \<Rightarrow> unit pg_update" where
  "pg_create_external_principal env username i d =
     mapped (map_error env (\<lambda>_. SAlreadyExists ''external principal'' i) (missing_from_constraint [(''user'', username)]))
       (\<lambda>_. ()) (execute env (INSERT_EXTERNAL_PRINCIPAL (pg_report env) i username) d)"

definition pg_delete_external_principal :: "pg_env \<Rightarrow> string \<Rightarrow> string \<Rightarrow> unit pg_update" where
  "pg_delete_external_principal env username i =
     execute_one env (DELETE_EXTERNAL_PRINCIPAL i username) ''external principal'' i"

definition pg_get_external_principal :: "pg_env \<Rightarrow> string \<Rightarrow> db \<Rightarrow> external_principal_record store_result" where
  "pg_get_external_principal env i = fetch_one env (SELECT_EXTERNAL_PRINCIPAL i) ''external principal'' i"

definition pg_list_user_external_principals ::
    "pg_env \<Rightarrow> string \<Rightarrow> page_query \<Rightarrow> db \<Rightarrow> external_principal_record page_of store_result" where
  "pg_list_user_external_principals env username q =
     fetch_owned_page env (LIST_USER_EXTERNAL_PRINCIPALS username) q er_id (user_exists env username)"

definition pg_claim_token_id :: "pg_env \<Rightarrow> string \<Rightarrow> int \<Rightarrow> unit pg_update" where
  "pg_claim_token_id env token_id expires d = mapped (map_unique env (\<lambda>_. SAlreadyExists ''token id'' token_id)) (\<lambda>_. ())
     (execute env (INSERT_TOKEN_ID (pg_report env) token_id expires) d)"

definition pg_delete_expired_token_ids :: "pg_env \<Rightarrow> int \<Rightarrow> nat pg_update" where
  "pg_delete_expired_token_ids env now d = mapped (backend env) (\<lambda>n. n) (execute env (DELETE_EXPIRED_TOKEN_IDS now) d)"

definition pg_ping :: "pg_env \<Rightarrow> db \<Rightarrow> unit store_result" where
  "pg_ping env d = map_ok (\<lambda>_. ()) (map_err (backend env) (fetch_all env (\<lambda>_. [1 :: int]) d))"

section \<open>The bootstrap transaction\<close>

definition affected :: "nat store_result \<times> db \<Rightarrow> bool store_result \<times> db" where
  "affected r = (map_ok (\<lambda>n. n > 0) (fst r), snd r)"

text \<open>No row inserted: the existing row is read in the same transaction.\<close>

definition or_existing :: "nat store_result \<times> db \<Rightarrow> (db \<Rightarrow> 'a store_result) \<Rightarrow> 'a option store_result \<times> db" where
  "or_existing r existing = (case r of
     (Inl e, d) \<Rightarrow> (Err e, d)
   | (Inr n, d) \<Rightarrow> (if n > 0 then Ok None else map_ok Some (existing d), d))"

definition pg_writer :: "pg_env \<Rightarrow> db writer" where
  "pg_writer env = \<lparr>
     bw_policy = (\<lambda>p d. affected (mapped (backend env) (\<lambda>n. n) (execute env (BOOTSTRAP_INSERT_POLICY p) d))),
     bw_group = (\<lambda>g d. affected (mapped (backend env) (\<lambda>n. n) (execute env (BOOTSTRAP_INSERT_GROUP g) d))),
     bw_user = (\<lambda>u d. or_existing (mapped (map_unique env (user_conflict u)) (\<lambda>n. n)
         (execute env (BOOTSTRAP_INSERT_USER (pg_report env) u) d)) (pg_get_user env (nu_username u))),
     bw_membership = (\<lambda>g u d. affected (pg_insert_membership env g u d)),
     bw_user_policy = (\<lambda>u p d. affected (pg_insert_user_policy env u p d)),
     bw_group_policy = (\<lambda>g p d. affected (pg_insert_group_policy env g p d)),
     bw_credential = (\<lambda>c d. or_existing (mapped (credential_error env c) (\<lambda>n. n)
         (execute env (BOOTSTRAP_INSERT_CREDENTIAL (pg_report env) c) d)) (pg_get_credential env (nc_access_key_id c))) \<rparr>"

text \<open>
  The transaction is dropped when the run fails, which rolls every row back; the sequence of the identity
  column is not part of a transaction.
\<close>

definition pg_apply_bootstrap :: "pg_env \<Rightarrow> bootstrap_plan \<Rightarrow> bootstrap_report pg_update" where
  "pg_apply_bootstrap env plan d = (case pg_down env of
     Some m \<Rightarrow> (Err (backend env (DriverError m)), d)
   | None \<Rightarrow> (case apply_plan (pg_writer env) plan d of
       (Inl e, d') \<Rightarrow> (Err e, d\<lparr> t_user_seq := t_user_seq d' \<rparr>)
     | (Inr report, d') \<Rightarrow> (Ok report, d')))"

fun pg_run_op :: "pg_env \<Rightarrow> mem_op \<Rightarrow> db \<Rightarrow> db" where
  "pg_run_op env (CreateUser u) d = snd (pg_create_user env u d)"
| "pg_run_op env (DeleteUser u) d = snd (pg_delete_user env u d)"
| "pg_run_op env (SetFriendlyName u n) d = snd (pg_set_friendly_name env u n d)"
| "pg_run_op env (CreateGroup g) d = snd (pg_create_group env g d)"
| "pg_run_op env (DeleteGroup g) d = snd (pg_delete_group env g d)"
| "pg_run_op env (CreatePolicy p) d = snd (pg_create_policy env p d)"
| "pg_run_op env (UpdatePolicy p) d = snd (pg_update_policy env p d)"
| "pg_run_op env (DeletePolicy p) d = snd (pg_delete_policy env p d)"
| "pg_run_op env (AddMembership g u) d = snd (pg_add_membership env g u d)"
| "pg_run_op env (RemoveMembership g u) d = snd (pg_remove_membership env g u d)"
| "pg_run_op env (AttachToUser u p) d = snd (pg_attach_policy_to_user env u p d)"
| "pg_run_op env (DetachFromUser u p) d = snd (pg_detach_policy_from_user env u p d)"
| "pg_run_op env (AttachToGroup g p) d = snd (pg_attach_policy_to_group env g p d)"
| "pg_run_op env (DetachFromGroup g p) d = snd (pg_detach_policy_from_group env g p d)"
| "pg_run_op env (CreateCredential c) d = snd (pg_create_credential env c d)"
| "pg_run_op env (DeleteCredential u c) d = snd (pg_delete_credential env u c d)"
| "pg_run_op env (CreateExternalPrincipal u p) d = snd (pg_create_external_principal env u p d)"
| "pg_run_op env (DeleteExternalPrincipal u p) d = snd (pg_delete_external_principal env u p d)"
| "pg_run_op env (ClaimTokenId t e) d = snd (pg_claim_token_id env t e d)"
| "pg_run_op env (DeleteExpiredTokenIds now) d = snd (pg_delete_expired_token_ids env now d)"

end
