(* ===== verification/Pg_Refine.thy ===== *)
theory Pg_Refine
  imports Pg_Store
begin

text \<open>
  The PostgreSQL store refines the in-memory store.  \<open>store_of\<close> reads the tables as the ordered maps and sets of
  \<open>Mem_Store\<close>; under the primary keys and foreign keys of the schema every read gives the same answer and
  every write the same change, apart from the numbers of the identity sequence, which failed inserts use up.
  The transaction of the bootstrap is a \<open>BootstrapWriter\<close> in the sense of the locale of \<open>Boot_Plan\<close>.
\<close>

lemma option_eqI: "(\<And>r. x = Some r \<longleftrightarrow> y = Some r) \<Longrightarrow> x = y"
  by (cases x; cases y) auto

section \<open>Tables as ordered maps and sets\<close>

definition table_map :: "('a \<Rightarrow> string) \<Rightarrow> 'a list \<Rightarrow> (string, 'a) btree" where
  "table_map key rows = map (\<lambda>r. (key r, r)) (sort_key key rows)"

lemma set_table_map: "set (table_map key rows) = (\<lambda>r. (key r, r)) ` set rows"
  by (simp add: table_map_def)

lemma sorted_keys_strict:
  assumes "distinct (map key rows)"
  shows "sorted_wrt (<) (map key (sort_key key rows))"
  using assms by (simp add: strict_sorted_iff distinct_map)

lemma bt_ok_table: "distinct (map key rows) \<Longrightarrow> bt_ok (table_map key rows)"
  using sorted_keys_strict [of key rows] by (simp add: bt_ok_def table_map_def o_def)

lemma get_table:
  "distinct (map key rows) \<Longrightarrow> bt_get (table_map key rows) k = Some r \<longleftrightarrow> r \<in> set rows \<and> key r = k"
  by (auto simp: bt_get_iff [OF bt_ok_table] set_table_map)

lemma get_table_None:
  "distinct (map key rows) \<Longrightarrow> bt_get (table_map key rows) k = None \<longleftrightarrow> k \<notin> key ` set rows"
  by (auto simp: get_table image_iff not_Some_eq [symmetric])

lemma table_eqI:
  assumes "distinct (map key rows)" "bt_ok m" "\<And>k r. bt_get m k = Some r \<longleftrightarrow> r \<in> set rows \<and> key r = k"
  shows "table_map key rows = m"
proof (rule sorted_keys_unique)
  show "sorted_wrt (<) (map fst (table_map key rows))" using bt_ok_table [OF assms(1)] by (simp add: bt_ok_def)
  show "sorted_wrt (<) (map fst m)" using assms(2) by (simp add: bt_ok_def)
  show "set (table_map key rows) = set m"
    using assms(3) by (auto simp: set_table_map bt_get_iff [OF assms(2)])
qed

lemma table_add:
  assumes "distinct (map key rows)" "key r \<notin> key ` set rows"
  shows "table_map key (rows @ [r]) = bt_insert (key r) r (table_map key rows)"
  using assms by (intro table_eqI) (auto simp: bt_ok_insert bt_ok_table bt_get_insert get_table image_iff)

lemma table_retain:
  assumes "distinct (map key rows)"
  shows "table_map key (filter p rows) = bt_retain (\<lambda>_. p) (table_map key rows)"
  using assms
  by (intro table_eqI) (auto simp: bt.inv_retain bt_ok_table bt_get_retain opt_filter_Some_iff get_table distinct_map_filter)

lemma table_remove:
  assumes "distinct (map key rows)"
  shows "table_map key (filter (\<lambda>r. key r \<noteq> k) rows) = bt_remove k (table_map key rows)"
  by (simp add: table_map_def filter_sort [symmetric] bt_remove_def filter_map o_def)

lemma table_modify:
  assumes "distinct (map key rows)" "\<And>r. key (f r) = key r"
  shows "table_map key (map (\<lambda>r. if key r = k then f r else r) rows) = bt_modify k f (table_map key rows)"
proof (rule table_eqI)
  have keys: "map key (map (\<lambda>r. if key r = k then f r else r) rows) = map key rows" using assms(2) by simp
  show "distinct (map key (map (\<lambda>r. if key r = k then f r else r) rows))" unfolding keys by (rule assms(1))
  show "bt_ok (bt_modify k f (table_map key rows))" by (simp add: bt.inv_modify bt_ok_table assms(1))
  fix k' r
  have mo: "map_option f (bt_get (table_map key rows) k) = Some r \<longleftrightarrow> (\<exists>x \<in> set rows. key x = k \<and> f x = r)"
    using get_table [OF assms(1), of k] by auto
  show "bt_get (bt_modify k f (table_map key rows)) k' = Some r
      \<longleftrightarrow> r \<in> set (map (\<lambda>r. if key r = k then f r else r) rows) \<and> key r = k'"
    using assms(2) by (auto simp: bt.get_modify bt_ok_table assms(1) get_table mo image_iff)
qed

lemma sort_eqI: "distinct xs \<Longrightarrow> bs_ok s \<Longrightarrow> set s = set xs \<Longrightarrow> sort xs = s"
  by (rule bs_ok_unique) (simp_all add: bs_ok_def strict_sorted_iff)

lemma bs_ok_sort: "distinct xs \<Longrightarrow> bs_ok (sort xs)"
  by (simp add: bs_ok_def strict_sorted_iff)

lemma sort_add: "distinct xs \<Longrightarrow> x \<notin> set xs \<Longrightarrow> sort (xs @ [x]) = bs_insert x (sort xs)"
  by (rule sort_eqI) (auto simp: bs_ok_insert bs_ok_sort set_bs_insert)

lemma sort_filter: "sort (filter p xs) = filter p (sort xs)"
  by (simp add: filter_sort)

text \<open>The page of a list statement is the page over the ordered map of the rows.\<close>

lemma page_of_keyset:
  "from_overfetch (keyset key (like_pattern q) (q_after q) (fetch_limit q) rows) (q_limit q) key
     = page_sorted (table_map key rows) q"
proof -
  let ?p = "\<lambda>k. starts_with (q_prefix q) k \<and> q_after q < k"
  have rows: "filter (\<lambda>(k, _). ?p k) (table_map key rows) = map (\<lambda>r. (key r, r)) (filter (\<lambda>r. ?p (key r)) (sort_key key rows))"
    by (simp add: table_map_def filter_map o_def)
  have "keyset key (like_pattern q) (q_after q) (fetch_limit q) rows
      = take (nat (fetch_limit q)) (filter (\<lambda>r. ?p (key r)) (sort_key key rows))"
    by (simp add: keyset_def like_pattern_def like_escaped_prefix filter_sort)
  moreover have "page_map snd (from_overfetch (map (\<lambda>r. (key r, r)) R) l fst) = from_overfetch R l key" for R :: "'a list" and l
    by (auto simp: from_overfetch_def page_map_def take_map last_map o_def Let_def)
  ultimately show ?thesis by (simp add: page_sorted_def rows take_map Let_def)
qed

section \<open>The abstraction\<close>

definition store_of :: "db \<Rightarrow> inner" where
  "store_of d = \<lparr> in_users = table_map ur_username (t_users d), in_next_user_id = t_user_seq d,
     in_groups = table_map gr_id (t_groups d), in_policies = table_map pr_name (t_policies d),
     in_group_members = sort (t_group_members d), in_user_policies = sort (t_user_policies d),
     in_group_policies = sort (t_group_policies d), in_credentials = table_map cr_access_key_id (credential_rows d),
     in_external_principals = table_map er_id (t_external_principals d),
     in_claimed_token_ids = sort_key fst (t_claimed_token_ids d) \<rparr>"

text \<open>The primary keys, and the foreign key the join of a credential needs.\<close>

definition pg_keys :: "db \<Rightarrow> bool" where
  "pg_keys d \<longleftrightarrow> distinct (map ur_username (t_users d)) \<and> distinct (map gr_id (t_groups d))
     \<and> distinct (map pr_name (t_policies d)) \<and> distinct (t_group_members d) \<and> distinct (t_user_policies d)
     \<and> distinct (t_group_policies d) \<and> distinct (map nc_access_key_id (t_credentials d))
     \<and> distinct (map er_id (t_external_principals d)) \<and> distinct (map fst (t_claimed_token_ids d))"

definition pg_creds :: "db \<Rightarrow> bool" where
  "pg_creds d \<longleftrightarrow> (\<forall>c \<in> set (t_credentials d). has_user d (nc_username c))"

definition pg_ok :: "db \<Rightarrow> bool" where
  "pg_ok d \<longleftrightarrow> pg_keys d \<and> pg_creds d \<and> wf_inner (store_of d)"

lemma pg_keysD:
  assumes "pg_keys d"
  shows "distinct (map ur_username (t_users d))" "distinct (map gr_id (t_groups d))"
    "distinct (map pr_name (t_policies d))" "distinct (t_group_members d)" "distinct (t_user_policies d)"
    "distinct (t_group_policies d)" "distinct (map nc_access_key_id (t_credentials d))"
    "distinct (map er_id (t_external_principals d))" "distinct (map fst (t_claimed_token_ids d))"
  using assms by (simp_all add: pg_keys_def)

lemma pg_okD:
  assumes "pg_ok d"
  shows "pg_keys d" "pg_creds d" "wf_inner (store_of d)"
  using assms by (simp_all add: pg_ok_def)

lemma pg_ok_empty: "pg_ok empty_db"
proof -
  have "store_of empty_db = empty_inner"
    by (simp add: store_of_def empty_db_def empty_inner_def table_map_def credential_rows_def)
  then show ?thesis by (simp add: pg_ok_def pg_keys_def pg_creds_def wf_empty) (simp add: empty_db_def)
qed

text \<open>Joins with the users: one row for each credential.\<close>

lemma filter_key_single:
  "distinct (map key rows) \<Longrightarrow> r \<in> set rows \<Longrightarrow> filter (\<lambda>x. key x = key r) rows = [r]"
proof (induction rows)
  case (Cons a rows)
  then show ?case by (cases "a = r") (auto simp: filter_empty_conv image_iff)
qed simp

definition cred_row :: "user_record list \<Rightarrow> new_credential \<Rightarrow> credential_record" where
  "cred_row us c = \<lparr> cr_access_key_id = nc_access_key_id c, cr_username = nc_username c,
     cr_user_id = ur_user_id (hd (filter (\<lambda>u. ur_username u = nc_username c) us)),
     cr_secret_ciphertext = nc_secret_ciphertext c, cr_creation_date = nc_creation_date c \<rparr>"

lemma join_user_single:
  assumes "distinct (map ur_username (t_users d))" "has_user d (nc_username c)"
  shows "join_user d c = [cred_row (t_users d) c]"
proof -
  obtain u where u: "u \<in> set (t_users d)" "ur_username u = nc_username c"
    using assms(2) by (auto simp: has_user_def list_ex_iff)
  with filter_key_single [OF assms(1) u(1)] show ?thesis by (simp add: join_user_def cred_row_def)
qed

lemma credential_rows_eq:
  assumes "pg_keys d" "pg_creds d"
  shows "credential_rows d = map (cred_row (t_users d)) (t_credentials d)"
proof -
  have "map (join_user d) (t_credentials d) = map (\<lambda>c. [cred_row (t_users d) c]) (t_credentials d)"
    using assms join_user_single [OF pg_keysD(1) [OF assms(1)]] by (simp add: pg_creds_def)
  then show ?thesis unfolding credential_rows_def by (simp only: concat_map_singleton)
qed

lemma cred_row_sel [simp]:
  "cr_access_key_id (cred_row us c) = nc_access_key_id c" "cr_username (cred_row us c) = nc_username c"
  by (simp_all add: cred_row_def)

lemma distinct_credential_rows:
  "pg_keys d \<Longrightarrow> pg_creds d \<Longrightarrow> distinct (map cr_access_key_id (credential_rows d))"
  using pg_keysD(7) [of d] by (simp add: credential_rows_eq o_def)

text \<open>The tables other than users and credentials play no part in the join.\<close>

lemma credential_rows_upd [simp]:
  "credential_rows (d\<lparr> t_user_seq := n \<rparr>) = credential_rows d"
  "credential_rows (d\<lparr> t_groups := g \<rparr>) = credential_rows d"
  "credential_rows (d\<lparr> t_policies := p \<rparr>) = credential_rows d"
  "credential_rows (d\<lparr> t_group_members := gm \<rparr>) = credential_rows d"
  "credential_rows (d\<lparr> t_user_policies := up \<rparr>) = credential_rows d"
  "credential_rows (d\<lparr> t_group_policies := gp \<rparr>) = credential_rows d"
  "credential_rows (d\<lparr> t_external_principals := ep \<rparr>) = credential_rows d"
  "credential_rows (d\<lparr> t_claimed_token_ids := ct \<rparr>) = credential_rows d"
  by (simp_all add: credential_rows_def join_user_def [abs_def])

text \<open>What \<open>store_of\<close> makes of the tables, under the keys.\<close>

lemma store_sel:
  "in_users (store_of d) = table_map ur_username (t_users d)" "in_next_user_id (store_of d) = t_user_seq d"
  "in_groups (store_of d) = table_map gr_id (t_groups d)" "in_policies (store_of d) = table_map pr_name (t_policies d)"
  "in_group_members (store_of d) = sort (t_group_members d)" "in_user_policies (store_of d) = sort (t_user_policies d)"
  "in_group_policies (store_of d) = sort (t_group_policies d)"
  "in_credentials (store_of d) = table_map cr_access_key_id (credential_rows d)"
  "in_external_principals (store_of d) = table_map er_id (t_external_principals d)"
  "in_claimed_token_ids (store_of d) = sort_key fst (t_claimed_token_ids d)"
  by (simp_all add: store_of_def)

lemma store_get:
  assumes "pg_keys d"
  shows "bt_get (in_users (store_of d)) k = Some u \<longleftrightarrow> u \<in> set (t_users d) \<and> ur_username u = k"
    and "bt_get (in_groups (store_of d)) k = Some g \<longleftrightarrow> g \<in> set (t_groups d) \<and> gr_id g = k"
    and "bt_get (in_policies (store_of d)) k = Some p \<longleftrightarrow> p \<in> set (t_policies d) \<and> pr_name p = k"
    and "bt_get (in_external_principals (store_of d)) k = Some e \<longleftrightarrow> e \<in> set (t_external_principals d) \<and> er_id e = k"
  using pg_keysD [OF assms] by (simp_all add: store_sel get_table)

lemma store_has:
  assumes "pg_keys d"
  shows "has_user d k \<longleftrightarrow> bt_get (in_users (store_of d)) k \<noteq> None"
    and "has_group d k \<longleftrightarrow> bt_get (in_groups (store_of d)) k \<noteq> None"
    and "has_policy d k \<longleftrightarrow> bt_get (in_policies (store_of d)) k \<noteq> None"
  using pg_keysD [OF assms]
  by (auto simp: store_sel get_table_None has_user_def has_group_def has_policy_def list_ex_iff)

lemma store_credential:
  assumes "pg_keys d" "pg_creds d"
  shows "bt_get (in_credentials (store_of d)) k = Some r \<longleftrightarrow> r \<in> set (credential_rows d) \<and> cr_access_key_id r = k"
    and "has_key d k \<longleftrightarrow> bt_get (in_credentials (store_of d)) k \<noteq> None"
  using distinct_credential_rows [OF assms]
  by (auto simp: store_sel get_table get_table_None has_key_def list_ex_iff credential_rows_eq [OF assms] image_image)

lemma store_tokens:
  assumes "pg_keys d"
  shows "bt_ok (in_claimed_token_ids (store_of d))"
    and "bt_get (in_claimed_token_ids (store_of d)) t = Some e \<longleftrightarrow> (t, e) \<in> set (t_claimed_token_ids d)"
proof -
  show ok: "bt_ok (in_claimed_token_ids (store_of d))"
    using sorted_keys_strict [OF pg_keysD(9) [OF assms]] by (simp add: bt_ok_def store_sel)
  show "bt_get (in_claimed_token_ids (store_of d)) t = Some e \<longleftrightarrow> (t, e) \<in> set (t_claimed_token_ids d)"
    by (simp add: bt_get_iff [OF ok]) (simp add: store_sel)
qed

section \<open>Reads\<close>

text \<open>The database answers, and names a violated constraint when it reports a violation.\<close>

definition report_ok :: "report \<Rightarrow> bool" where
  "report_ok report \<longleftrightarrow> (\<forall>names. names \<noteq> [] \<longrightarrow> report names \<in> set names)"

definition pg_up :: "pg_env \<Rightarrow> bool" where
  "pg_up env \<longleftrightarrow> pg_down env = None \<and> report_ok (pg_report env)"

lemma pg_up_runs:
  assumes "pg_up env"
  shows "fetch_all env statement d = Ok (statement d)" "execute env write d = write d"
  using assms by (simp_all add: pg_up_def fetch_all_def execute_def)

lemma fetch_page_eq:
  "pg_up env \<Longrightarrow> statement (like_pattern q) (q_after q) (fetch_limit q) d
       = keyset key (like_pattern q) (q_after q) (fetch_limit q) rows
     \<Longrightarrow> fetch_page env statement q key d = Ok (page_sorted (table_map key rows) q)"
  by (simp add: fetch_page_def pg_up_runs page_of_keyset)

lemma first_row_find:
  assumes "\<And>r r'. r \<in> set rows \<Longrightarrow> r' \<in> set rows \<Longrightarrow> p r \<Longrightarrow> p r' \<Longrightarrow> r = r'"
  shows "first_row (filter p rows) = Some r \<longleftrightarrow> r \<in> set rows \<and> p r"
proof
  assume "first_row (filter p rows) = Some r"
  then obtain rs where f: "filter p rows = r # rs" by (auto simp: first_row_def split: list.splits)
  have "r \<in> set (filter p rows)" unfolding f by simp
  then show "r \<in> set rows \<and> p r" by simp
next
  assume r: "r \<in> set rows \<and> p r"
  then obtain r' rs where f: "filter p rows = r' # rs" by (cases "filter p rows") (auto simp: filter_empty_conv)
  then have "r' \<in> set rows \<and> p r'" using set_filter [of p rows] by auto
  then show "first_row (filter p rows) = Some r" using assms r f by (auto simp: first_row_def)
qed

lemma key_unique:
  "distinct (map key rows) \<Longrightarrow> r \<in> set rows \<Longrightarrow> r' \<in> set rows \<Longrightarrow> key r = key r' \<Longrightarrow> r = r'"
  by (simp add: distinct_map inj_on_def)

lemma first_row_key:
  assumes "distinct (map key rows)"
  shows "first_row (filter (\<lambda>r. key r = k) rows) = bt_get (table_map key rows) k"
proof -
  have "first_row (filter (\<lambda>r. key r = k) rows) = Some r \<longleftrightarrow> bt_get (table_map key rows) k = Some r" for r
    unfolding get_table [OF assms] by (rule first_row_find) (auto dest: key_unique [OF assms])
  then show ?thesis by (rule option_eqI)
qed

lemma fetch_one_eq: "pg_up env \<Longrightarrow> fetch_one env statement entity i d = ok_or (SNotFound entity i) (first_row (statement d))"
  by (simp add: fetch_one_def fetch_optional_def pg_up_runs)

lemma fetch_optional_eq: "pg_up env \<Longrightarrow> fetch_optional env statement d = Ok (first_row (statement d))"
  by (simp add: fetch_optional_def pg_up_runs)

lemma owner_checks:
  assumes "pg_up env" "pg_keys d"
  shows "user_exists env u d = require_user (store_of d) u" "group_exists env g d = require_group (store_of d) g"
proof -
  have *: "and_then (ok_or e (first_row (map f (filter p xs)))) (\<lambda>_. Ok ()) = (if list_ex p xs then Ok () else Err e)"
    for f :: "'a \<Rightarrow> int" and p xs and e :: store_error
    by (induction xs) (auto simp: first_row_def)
  show "user_exists env u d = require_user (store_of d) u"
    using store_has(1) [OF assms(2), of u]
    by (simp add: user_exists_def pg_exists_def pg_up_runs [OF assms(1)] SELECT_USER_EXISTS_def * require_user_def
        require_row_def has_user_def)
  show "group_exists env g d = require_group (store_of d) g"
    using store_has(2) [OF assms(2), of g]
    by (simp add: group_exists_def pg_exists_def pg_up_runs [OF assms(1)] SELECT_GROUP_EXISTS_def * require_group_def
        require_row_def has_group_def)
qed

lemma point_reads:
  assumes "pg_up env" "pg_ok d"
  shows "pg_get_user env u d = get_user (store_of d) u" "pg_get_group env g d = get_group (store_of d) g"
    and "pg_get_policy env p d = get_policy (store_of d) p"
    and "pg_get_credential env a d = get_credential (store_of d) a"
    and "pg_get_external_principal env i d = get_external_principal (store_of d) i"
  using pg_keysD [OF pg_okD(1) [OF assms(2)]] distinct_credential_rows [OF pg_okD(1,2) [OF assms(2)]]
  by (simp_all add: pg_get_user_def get_user_def pg_get_group_def get_group_def pg_get_policy_def get_policy_def
      pg_get_credential_def get_credential_def pg_get_external_principal_def get_external_principal_def
      fetch_one_eq [OF assms(1)] SELECT_USER_def SELECT_GROUP_def SELECT_POLICY_def SELECT_CREDENTIAL_def
      SELECT_EXTERNAL_PRINCIPAL_def first_row_key store_sel)

lemma user_credential_read:
  assumes "pg_up env" "pg_ok d"
  shows "pg_get_user_credential env u a d = get_user_credential (store_of d) u a"
proof -
  note dc = distinct_credential_rows [OF pg_okD(1,2) [OF assms(2)]]
  have "first_row (filter (\<lambda>c. cr_access_key_id c = a \<and> cr_username c = u) (credential_rows d)) = Some r
     \<longleftrightarrow> opt_filter (\<lambda>c. cr_username c = u) (bt_get (in_credentials (store_of d)) a) = Some r" for r
    unfolding opt_filter_Some_iff store_sel get_table [OF dc]
    by (subst first_row_find) (auto dest: key_unique [OF dc])
  then have "first_row (filter (\<lambda>c. cr_access_key_id c = a \<and> cr_username c = u) (credential_rows d))
     = opt_filter (\<lambda>c. cr_username c = u) (bt_get (in_credentials (store_of d)) a)" by (rule option_eqI)
  then show ?thesis
    by (simp add: pg_get_user_credential_def get_user_credential_def fetch_one_eq [OF assms(1)] SELECT_USER_CREDENTIAL_def)
qed

text \<open>A column that is unique over the rows: the first row of the table, or of the map, is the one row.\<close>

lemma find_unique_row:
  assumes "pg_keys d" "\<And>u u'. u \<in> set (t_users d) \<Longrightarrow> u' \<in> set (t_users d) \<Longrightarrow> p u \<Longrightarrow> p u' \<Longrightarrow> u = u'"
  shows "first_row (filter p (t_users d)) = List.find p (bt_values (in_users (store_of d)))"
proof -
  have vals: "set (bt_values (in_users (store_of d))) = set (t_users d)"
    by (simp add: bt_values_def store_sel table_map_def)
  have "first_row (filter p (t_users d)) = Some u \<longleftrightarrow> List.find p (bt_values (in_users (store_of d))) = Some u" for u
  proof -
    have "first_row (filter p (t_users d)) = Some u \<longleftrightarrow> u \<in> set (t_users d) \<and> p u"
      using assms(2) by (intro first_row_find)
    moreover have "List.find p (bt_values (in_users (store_of d))) = Some u \<longleftrightarrow> u \<in> set (bt_values (in_users (store_of d))) \<and> p u"
      using assms(2) by (intro find_Some_iff_unique) (simp only: vals)
    ultimately show ?thesis by (simp only: vals)
  qed
  then show ?thesis by (rule option_eqI)
qed

lemma user_columns_unique:
  assumes "pg_ok d" "u \<in> set (t_users d)" "u' \<in> set (t_users d)"
  shows "ur_user_id u = ur_user_id u' \<Longrightarrow> u = u'"
    and "ur_email u = Some e \<Longrightarrow> ur_email u' = Some e \<Longrightarrow> u = u'"
    and "ur_external_id u = Some x \<Longrightarrow> ur_external_id u' = Some x \<Longrightarrow> u = u'"
proof -
  note get = store_get(1) [OF pg_okD(1) [OF assms(1)]]
  have g: "bt_get (in_users (store_of d)) (ur_username u) = Some u"
      "bt_get (in_users (store_of d)) (ur_username u') = Some u'" using assms(2,3) by (simp_all add: get)
  have same: "ur_username u = ur_username u' \<Longrightarrow> u = u'" using g by (metis option.inject)
  have uq: "wf_unique (store_of d)" using pg_okD(3) [OF assms(1)] by (rule wf_inner_parts)
  have uq': "ur_username u \<noteq> ur_username u' \<Longrightarrow> ur_user_id u \<noteq> ur_user_id u' \<and> (ur_email u = ur_email u' \<longrightarrow> ur_email u = None)
      \<and> (ur_external_id u = ur_external_id u' \<longrightarrow> ur_external_id u = None)"
    using uq g unfolding wf_unique_def by blast
  show "ur_user_id u = ur_user_id u' \<Longrightarrow> u = u'" using uq' same by blast
  show "ur_email u = Some e \<Longrightarrow> ur_email u' = Some e \<Longrightarrow> u = u'"
    using uq' same by (cases "ur_username u = ur_username u'") auto
  show "ur_external_id u = Some x \<Longrightarrow> ur_external_id u' = Some x \<Longrightarrow> u = u'"
    using uq' same by (cases "ur_username u = ur_username u'") auto
qed

lemma user_lookups:
  assumes "pg_up env" "pg_ok d"
  shows "pg_find_user_by_id env uid d = find_user_by_id (store_of d) uid"
    and "pg_find_user_by_email env email d = find_user_by_email (store_of d) email"
    and "pg_find_user_by_external_id env x d = find_user_by_external_id (store_of d) x"
proof -
  note row = find_unique_row [OF pg_okD(1) [OF assms(2)]] and uq = user_columns_unique [OF assms(2)]
  have "first_row (filter (\<lambda>u. ur_user_id u = uid) (t_users d))
      = List.find (\<lambda>u. ur_user_id u = uid) (bt_values (in_users (store_of d)))" by (rule row) (auto dest: uq(1))
  then show "pg_find_user_by_id env uid d = find_user_by_id (store_of d) uid"
    by (simp add: pg_find_user_by_id_def find_user_by_id_def fetch_optional_eq [OF assms(1)] SELECT_USER_BY_ID_def)
  have "first_row (filter (\<lambda>u. ur_email u = Some email) (t_users d))
      = List.find (\<lambda>u. ur_email u = Some email) (bt_values (in_users (store_of d)))" by (rule row) (auto dest: uq(2))
  then show "pg_find_user_by_email env email d = find_user_by_email (store_of d) email"
    by (simp add: pg_find_user_by_email_def find_user_by_email_def fetch_optional_eq [OF assms(1)] SELECT_USER_BY_EMAIL_def)
  have "first_row (filter (\<lambda>u. ur_external_id u = Some x) (t_users d))
      = List.find (\<lambda>u. ur_external_id u = Some x) (bt_values (in_users (store_of d)))" by (rule row) (auto dest: uq(3))
  then show "pg_find_user_by_external_id env x d = find_user_by_external_id (store_of d) x"
    by (simp add: pg_find_user_by_external_id_def find_user_by_external_id_def fetch_optional_eq [OF assms(1)]
        SELECT_USER_BY_EXTERNAL_ID_def)
qed

text \<open>A list that belongs to a user or a group: without the owner there are no rows.\<close>

lemma owned_page_eq:
  assumes "pg_up env" "owner d = check"
    and "statement (like_pattern q) (q_after q) (fetch_limit q) d
      = keyset key (like_pattern q) (q_after q) (fetch_limit q) rows"
    and "check \<noteq> Ok () \<Longrightarrow> rows = []"
  shows "fetch_owned_page env statement q key owner d = and_then check (\<lambda>_. Ok (page_sorted (table_map key rows) q))"
proof -
  have page: "fetch_page env statement q key d = Ok (page_sorted (table_map key rows) q)"
    using assms(1,3) by (rule fetch_page_eq [where statement = statement])
  show ?thesis
  proof (cases check)
    case (Inl e)
    then have "po_items (page_sorted (table_map key rows) q) = []"
      using assms(4) by (simp add: page_sorted_def from_overfetch_def page_map_def table_map_def Let_def)
    then show ?thesis using Inl assms(2) by (simp add: fetch_owned_page_def page)
  next
    case (Inr u)
    then show ?thesis using assms(2) by (simp add: fetch_owned_page_def page)
  qed
qed

lemma join_rows_eq:
  assumes "distinct (map key rows)" "set names \<subseteq> key ` set rows"
  shows "join_rows key names rows = map (\<lambda>n. the (bt_get (table_map key rows) n)) names"
proof -
  have "filter (\<lambda>r. key r = n) rows = [the (bt_get (table_map key rows) n)]" if n: "n \<in> set names" for n
  proof -
    obtain r where r: "r \<in> set rows" "key r = n" using n assms(2) by auto
    then show ?thesis
      using filter_key_single [OF assms(1) r(1)] get_table [OF assms(1), of n r] by simp
  qed
  then have "map (\<lambda>n. filter (\<lambda>r. key r = n) rows) names = map (\<lambda>n. [the (bt_get (table_map key rows) n)]) names" by simp
  then show ?thesis unfolding join_rows_def by (simp only: concat_map_singleton)
qed

lemma join_table:
  assumes "distinct (map key rows)" "distinct names'" "set names' \<subseteq> key ` set rows" "bs_ok names" "set names = set names'"
  shows "table_map key (join_rows key names' rows) = map (\<lambda>n. (n, the (bt_get (table_map key rows) n))) names"
proof -
  let ?f = "\<lambda>n. the (bt_get (table_map key rows) n)"
  have key: "key (?f n) = n" if n: "n \<in> set names'" for n
  proof -
    obtain r where r: "r \<in> set rows" "key r = n" using n assms(3) by auto
    with get_table [OF assms(1), of n r] show ?thesis by simp
  qed
  note rows = join_rows_eq [OF assms(1,3)]
  have keys: "map key (map ?f names') = names'" using key by (simp add: map_idI)
  show ?thesis
  proof (rule table_eqI)
    show "distinct (map key (join_rows key names' rows))" unfolding rows keys by (rule assms(2))
    show ok: "bt_ok (map (\<lambda>n. (n, ?f n)) names)" using assms(4) by (simp add: bt_ok_def bs_ok_def o_def)
    fix k r
    show "bt_get (map (\<lambda>n. (n, ?f n)) names) k = Some r \<longleftrightarrow> r \<in> set (join_rows key names' rows) \<and> key r = k"
      unfolding bt_get_iff [OF ok] rows using key assms(5) by auto
  qed
qed

lemma map_filter_map: "List.map_filter f (map g xs) = List.map_filter (\<lambda>x. f (g x)) xs"
  by (induction xs) (auto simp: List.map_filter_simps split: option.splits)

lemma names_of_pairs:
  "distinct xs \<Longrightarrow> distinct (map snd (filter (\<lambda>(a, _). a = k) xs))"
  "distinct xs \<Longrightarrow> distinct (map fst (filter (\<lambda>(_, b). b = k) xs))"
  by (auto simp: distinct_map inj_on_def)

lemma bs_of_pairs:
  assumes "distinct xs"
  shows "bs_ok (map snd (filter (\<lambda>(a, _). a = k) (sort xs)))" "bs_ok (map fst (filter (\<lambda>(_, b). b = k) (sort xs)))"
  using bs_ok_sort [OF assms] sorted_snd_filter [of "sort xs" k] sorted_fst_filter [of "sort xs" k]
  by (simp_all add: bs_ok_def)

text \<open>The references of the schema, as the rows of the tables have them.\<close>

lemma references:
  assumes "pg_ok d"
  shows "(g, u) \<in> set (t_group_members d) \<Longrightarrow> g \<in> gr_id ` set (t_groups d) \<and> u \<in> ur_username ` set (t_users d)"
    and "(u, p) \<in> set (t_user_policies d) \<Longrightarrow> u \<in> ur_username ` set (t_users d) \<and> p \<in> pr_name ` set (t_policies d)"
    and "(g, p) \<in> set (t_group_policies d) \<Longrightarrow> g \<in> gr_id ` set (t_groups d) \<and> p \<in> pr_name ` set (t_policies d)"
    and "e \<in> set (t_external_principals d) \<Longrightarrow> er_username e \<in> ur_username ` set (t_users d)"
proof -
  note k = pg_keysD [OF pg_okD(1) [OF assms]]
  have refs: "wf_refs (store_of d)" using pg_okD(3) [OF assms] by (rule wf_inner_parts)
  note none = get_table_None [OF k(1)] get_table_None [OF k(2)] get_table_None [OF k(3)] get_table [OF k(8)]
  show "(g, u) \<in> set (t_group_members d) \<Longrightarrow> g \<in> gr_id ` set (t_groups d) \<and> u \<in> ur_username ` set (t_users d)"
    "(u, p) \<in> set (t_user_policies d) \<Longrightarrow> u \<in> ur_username ` set (t_users d) \<and> p \<in> pr_name ` set (t_policies d)"
    "(g, p) \<in> set (t_group_policies d) \<Longrightarrow> g \<in> gr_id ` set (t_groups d) \<and> p \<in> pr_name ` set (t_policies d)"
    "e \<in> set (t_external_principals d) \<Longrightarrow> er_username e \<in> ur_username ` set (t_users d)"
    using refs unfolding wf_refs_def store_sel none by (fastforce simp: none)+
qed

lemma missing_owner:
  assumes "pg_keys d"
  shows "require_user (store_of d) u \<noteq> Ok () \<longleftrightarrow> u \<notin> ur_username ` set (t_users d)"
    and "require_group (store_of d) g \<noteq> Ok () \<longleftrightarrow> g \<notin> gr_id ` set (t_groups d)"
  using get_table_None [OF pg_keysD(1) [OF assms], of u] get_table_None [OF pg_keysD(2) [OF assms], of g]
  by (simp_all add: res_simps store_sel)

lemma owner_page:
  assumes "pg_up env" "pg_keys d" "\<And>pat af lim. statement pat af lim d = keyset key pat af lim rows"
  shows "(require_user (store_of d) u \<noteq> Ok () \<Longrightarrow> rows = []) \<Longrightarrow>
      fetch_owned_page env statement q key (user_exists env u) d
        = and_then (require_user (store_of d) u) (\<lambda>_. Ok (page_sorted (table_map key rows) q))"
    and "(require_group (store_of d) g \<noteq> Ok () \<Longrightarrow> rows = []) \<Longrightarrow>
      fetch_owned_page env statement q key (group_exists env g) d
        = and_then (require_group (store_of d) g) (\<lambda>_. Ok (page_sorted (table_map key rows) q))"
  using assms owner_checks [OF assms(1,2)] by (intro owned_page_eq; simp)+

lemma in_join_names:
  "n \<in> set (members_of g d) \<longleftrightarrow> (g, n) \<in> set (t_group_members d)"
  "n \<in> set (groups_of u d) \<longleftrightarrow> (n, u) \<in> set (t_group_members d)"
  "n \<in> set (direct_policies u d) \<longleftrightarrow> (u, n) \<in> set (t_user_policies d)"
  "n \<in> set (policies_of_group g d) \<longleftrightarrow> (g, n) \<in> set (t_group_policies d)"
  by (force simp: members_of_def groups_of_def direct_policies_def policies_of_group_def)+

lemma join_rows_Nil: "(\<And>n. n \<notin> set names) \<Longrightarrow> join_rows key names rows = []"
  by (cases names) (auto simp: join_rows_def)

text \<open>A list over a join: the names the join picks, and the ordered set of the in-memory store with the same names.\<close>

lemma joined_rows:
  assumes "distinct (map key rows)" "distinct names'" "\<forall>n \<in> set names'. n \<in> key ` set rows" "bs_ok names" "set names = set names'"
  shows "List.map_filter (\<lambda>n. map_option (Pair n) (bt_get (table_map key rows) n)) names = table_map key (join_rows key names' rows)"
proof -
  have sub: "set names' \<subseteq> key ` set rows" using assms(3) by blast
  have "bt_get (table_map key rows) n \<noteq> None" if "n \<in> set names" for n
    using sub that assms(5) get_table_None [OF assms(1), of n] by auto
  then have "List.map_filter (\<lambda>n. map_option (Pair n) (bt_get (table_map key rows) n)) names
      = map (\<lambda>n. (n, the (bt_get (table_map key rows) n))) names" by (rule map_filter_named)
  then show ?thesis using join_table [OF assms(1,2) sub assms(4,5)] by simp
qed

lemma whole_lists:
  assumes "pg_up env"
  shows "pg_list_users env q d = list_users (store_of d) q" "pg_list_groups env q d = list_groups (store_of d) q"
    and "pg_list_policies env q d = list_policies (store_of d) q"
  using fetch_page_eq [OF assms, of LIST_USERS q d ur_username "t_users d"]
    fetch_page_eq [OF assms, of LIST_GROUPS q d gr_id "t_groups d"]
    fetch_page_eq [OF assms, of LIST_POLICIES q d pr_name "t_policies d"]
  by (simp_all add: pg_list_users_def pg_list_groups_def pg_list_policies_def LIST_USERS_def LIST_GROUPS_def
      LIST_POLICIES_def list_users_def list_groups_def list_policies_def page_btree_def store_sel)

lemma membership_lists:
  assumes "pg_up env" "pg_ok d"
  shows "pg_list_group_members env g q d = list_group_members (store_of d) g q"
    and "pg_list_user_groups env u q d = list_user_groups (store_of d) u q"
proof -
  note ok = pg_okD(1) [OF assms(2)] and k = pg_keysD [OF pg_okD(1) [OF assms(2)]]
  note refs = references [OF assms(2)] and owner = owner_checks [OF assms(1) ok] and missing = missing_owner [OF ok]
  have m: "List.map_filter (\<lambda>n. map_option (Pair n) (bt_get (table_map ur_username (t_users d)) n))
        (map snd (filter (\<lambda>(x, _). x = g) (sort (t_group_members d))))
      = table_map ur_username (join_rows ur_username (members_of g d) (t_users d))"
    using refs(1) by (intro joined_rows k bs_of_pairs) (auto simp: members_of_def names_of_pairs k(4))
  have "require_group (store_of d) g \<noteq> Ok () \<Longrightarrow> join_rows ur_username (members_of g d) (t_users d) = []"
    using refs(1) unfolding missing by (intro join_rows_Nil) (auto simp: in_join_names)
  then have page: "fetch_owned_page env (LIST_GROUP_MEMBERS g) q ur_username (group_exists env g) d
      = and_then (require_group (store_of d) g) (\<lambda>_. Ok (page_sorted (table_map ur_username (join_rows ur_username (members_of g d) (t_users d))) q))"
    by (intro owner_page assms ok) (simp_all add: LIST_GROUP_MEMBERS_def)
  show "pg_list_group_members env g q d = list_group_members (store_of d) g q"
    using m by (simp add: page pg_list_group_members_def list_group_members_def store_sel map_filter_map case_prod_unfold Let_def)
  have n: "List.map_filter (\<lambda>n. map_option (Pair n) (bt_get (table_map gr_id (t_groups d)) n))
        (map fst (filter (\<lambda>(_, x). x = u) (sort (t_group_members d))))
      = table_map gr_id (join_rows gr_id (groups_of u d) (t_groups d))"
    using refs(1) by (intro joined_rows k bs_of_pairs) (auto simp: groups_of_def names_of_pairs k(4))
  have "require_user (store_of d) u \<noteq> Ok () \<Longrightarrow> join_rows gr_id (groups_of u d) (t_groups d) = []"
    using refs(1) unfolding missing by (intro join_rows_Nil) (auto simp: in_join_names)
  then have page: "fetch_owned_page env (LIST_USER_GROUPS u) q gr_id (user_exists env u) d
      = and_then (require_user (store_of d) u) (\<lambda>_. Ok (page_sorted (table_map gr_id (join_rows gr_id (groups_of u d) (t_groups d))) q))"
    by (intro owner_page assms ok) (simp_all add: LIST_USER_GROUPS_def)
  show "pg_list_user_groups env u q d = list_user_groups (store_of d) u q"
    using n by (simp add: page pg_list_user_groups_def list_user_groups_def store_sel map_filter_map case_prod_unfold Let_def)
qed

lemma attachment_lists:
  assumes "pg_up env" "pg_ok d"
  shows "pg_list_user_policies env u q d = list_user_policies (store_of d) u q"
    and "pg_list_group_policies env g q d = list_group_policies (store_of d) g q"
proof -
  note ok = pg_okD(1) [OF assms(2)] and k = pg_keysD [OF pg_okD(1) [OF assms(2)]]
  note refs = references [OF assms(2)] and owner = owner_checks [OF assms(1) ok] and missing = missing_owner [OF ok]
  have m: "policies_named (store_of d) (map snd (filter (\<lambda>(x, _). x = u) (sort (t_user_policies d))))
      = table_map pr_name (join_rows pr_name (direct_policies u d) (t_policies d))"
    unfolding policies_named_def store_sel
    using refs(2) by (intro joined_rows k bs_of_pairs) (auto simp: direct_policies_def names_of_pairs k(5))
  have "require_user (store_of d) u \<noteq> Ok () \<Longrightarrow> join_rows pr_name (direct_policies u d) (t_policies d) = []"
    using refs(2) unfolding missing by (intro join_rows_Nil) (auto simp: in_join_names)
  then have page: "fetch_owned_page env (LIST_USER_POLICIES u) q pr_name (user_exists env u) d
      = and_then (require_user (store_of d) u) (\<lambda>_. Ok (page_sorted (table_map pr_name (join_rows pr_name (direct_policies u d) (t_policies d))) q))"
    by (intro owner_page assms ok) (simp_all add: LIST_USER_POLICIES_def)
  show "pg_list_user_policies env u q d = list_user_policies (store_of d) u q"
    using m by (simp add: page pg_list_user_policies_def list_user_policies_def store_sel)
  have n: "policies_named (store_of d) (map snd (filter (\<lambda>(x, _). x = g) (sort (t_group_policies d))))
      = table_map pr_name (join_rows pr_name (policies_of_group g d) (t_policies d))"
    unfolding policies_named_def store_sel
    using refs(3) by (intro joined_rows k bs_of_pairs) (auto simp: policies_of_group_def names_of_pairs k(6))
  have "require_group (store_of d) g \<noteq> Ok () \<Longrightarrow> join_rows pr_name (policies_of_group g d) (t_policies d) = []"
    using refs(3) unfolding missing by (intro join_rows_Nil) (auto simp: in_join_names)
  then have page: "fetch_owned_page env (LIST_GROUP_POLICIES g) q pr_name (group_exists env g) d
      = and_then (require_group (store_of d) g) (\<lambda>_. Ok (page_sorted (table_map pr_name (join_rows pr_name (policies_of_group g d) (t_policies d))) q))"
    by (intro owner_page assms ok) (simp_all add: LIST_GROUP_POLICIES_def)
  show "pg_list_group_policies env g q d = list_group_policies (store_of d) g q"
    using n by (simp add: page pg_list_group_policies_def list_group_policies_def store_sel)
qed

text \<open>The authorization decision: the join of the statement and the sets of the in-memory store.\<close>

lemma effective_list:
  assumes "pg_up env" "pg_ok d"
  shows "pg_list_effective_user_policies env u q d = list_effective_user_policies (store_of d) u q"
proof -
  note ok = pg_okD(1) [OF assms(2)] and k = pg_keysD [OF pg_okD(1) [OF assms(2)]]
  note refs = references [OF assms(2)] and owner = owner_checks [OF assms(1) ok] and missing = missing_owner [OF ok]
  define a where "a = remdups (direct_policies u d
      @ concat (map (\<lambda>(g, p). map (\<lambda>_. p) (filter (\<lambda>m. m = g) (groups_of u d))) (t_group_policies d)))"
  have a: "p \<in> set a \<longleftrightarrow> (u, p) \<in> set (t_user_policies d)
      \<or> (\<exists>g. (g, u) \<in> set (t_group_members d) \<and> (g, p) \<in> set (t_group_policies d))" for p
    by (auto simp: a_def in_join_names)
  have stmt: "LIST_EFFECTIVE_USER_POLICIES u pat af lim d = keyset pr_name pat af lim (join_rows pr_name a (t_policies d))"
    for pat af lim by (simp add: LIST_EFFECTIVE_USER_POLICIES_def a_def)
  have m: "policies_named (store_of d) (effective_names (store_of d) u) = table_map pr_name (join_rows pr_name a (t_policies d))"
    unfolding policies_named_def store_sel
  proof (intro joined_rows k bs_ok_effective_names)
    show "distinct a" by (simp add: a_def)
    show "\<forall>n \<in> set a. n \<in> pr_name ` set (t_policies d)" using refs(2,3) a by blast
    show "set (effective_names (store_of d) u) = set a" using a by (auto simp: set_effective_names store_sel)
  qed
  have "join_rows pr_name a (t_policies d) = []" if "require_user (store_of d) u \<noteq> Ok ()"
  proof -
    have "u \<notin> ur_username ` set (t_users d)" using that unfolding missing .
    then have "p \<notin> set a" for p using refs(1) [of _ u] refs(2) [of u p] by (auto simp: a)
    then show ?thesis by (rule join_rows_Nil)
  qed
  then have page: "fetch_owned_page env (LIST_EFFECTIVE_USER_POLICIES u) q pr_name (user_exists env u) d
      = and_then (require_user (store_of d) u) (\<lambda>_. Ok (page_sorted (table_map pr_name (join_rows pr_name a (t_policies d))) q))"
    by (intro owner_page assms ok) (simp_all add: stmt)
  show ?thesis
    by (simp add: page pg_list_effective_user_policies_def list_effective_user_policies_def m)
qed

lemma owned_row_lists:
  assumes "pg_up env" "pg_ok d"
  shows "pg_list_user_credentials env u q d = list_user_credentials (store_of d) u q"
    and "pg_list_user_external_principals env u q d = list_user_external_principals (store_of d) u q"
proof -
  note ok = pg_okD(1) [OF assms(2)] and k = pg_keysD [OF pg_okD(1) [OF assms(2)]]
  note dc = distinct_credential_rows [OF pg_okD(1,2) [OF assms(2)]]
  note owner = owner_checks [OF assms(1) ok] and missing = missing_owner [OF ok]
  have "filter (\<lambda>c. cr_username c = u) (credential_rows d) = []" if r: "require_user (store_of d) u \<noteq> Ok ()"
  proof -
    have "nc_username c \<noteq> u" if "c \<in> set (t_credentials d)" for c
      using pg_okD(2) [OF assms(2)] r that unfolding missing pg_creds_def has_user_def list_ex_iff by (metis imageI)
    then show ?thesis by (auto simp: filter_empty_conv credential_rows_eq [OF pg_okD(1,2) [OF assms(2)]])
  qed
  then have page: "fetch_owned_page env (LIST_USER_CREDENTIALS u) q cr_access_key_id (user_exists env u) d
      = and_then (require_user (store_of d) u) (\<lambda>_. Ok (page_sorted (table_map cr_access_key_id (filter (\<lambda>c. cr_username c = u) (credential_rows d))) q))"
    by (intro owner_page assms ok) (simp_all add: LIST_USER_CREDENTIALS_def)
  show "pg_list_user_credentials env u q d = list_user_credentials (store_of d) u q"
    by (simp add: page pg_list_user_credentials_def list_user_credentials_def store_sel table_retain [OF dc] bt_retain_def)
  have "filter (\<lambda>p. er_username p = u) (t_external_principals d) = []" if "require_user (store_of d) u \<noteq> Ok ()"
    using references(4) [OF assms(2)] that unfolding missing by (auto simp: filter_empty_conv)
  then have page: "fetch_owned_page env (LIST_USER_EXTERNAL_PRINCIPALS u) q er_id (user_exists env u) d
      = and_then (require_user (store_of d) u) (\<lambda>_. Ok (page_sorted (table_map er_id (filter (\<lambda>p. er_username p = u) (t_external_principals d))) q))"
    by (intro owner_page assms ok) (simp_all add: LIST_USER_EXTERNAL_PRINCIPALS_def)
  show "pg_list_user_external_principals env u q d = list_user_external_principals (store_of d) u q"
    by (simp add: page pg_list_user_external_principals_def list_user_external_principals_def store_sel table_retain [OF k(8)]
        bt_retain_def)
qed

end
