(* ===== verification/Pg_Writes.thy ===== *)
theory Pg_Writes
  imports Pg_Refine
begin

text \<open>
  The writes of the PostgreSQL store against those of the in-memory store: every operation answers alike and
  changes the tables as the in-memory operation changes the maps.  The answers are compared by value, the
  errors by their HTTP status: when several constraints are violated at once the database chooses the one it
  names.  Identity values differ only in the numbers failed inserts have used up.
\<close>

definition same_answer :: "'a store_result \<Rightarrow> 'a store_result \<Rightarrow> bool" where
  "same_answer a b \<longleftrightarrow> (case a of
     Inr x \<Rightarrow> b = Ok x
   | Inl e \<Rightarrow> (case b of Inl e' \<Rightarrow> status_code (api_of_store e) = status_code (api_of_store e') | Inr _ \<Rightarrow> False))"

definition simulates :: "'a store_result \<times> db \<Rightarrow> 'a store_result \<times> inner \<Rightarrow> bool" where
  "simulates p m \<longleftrightarrow> same_answer (fst p) (fst m) \<and> pg_keys (snd p) \<and> pg_creds (snd p)
     \<and> in_next_user_id (snd m) \<le> t_user_seq (snd p)
     \<and> store_of (snd p) = (snd m)\<lparr> in_next_user_id := t_user_seq (snd p) \<rparr>"

lemma same_answer_simps [simp]:
  "same_answer (Ok x) b \<longleftrightarrow> b = Ok x"
  "same_answer (Err e) (Err e') \<longleftrightarrow> status_code (api_of_store e) = status_code (api_of_store e')"
  "\<not> same_answer (Err e) (Ok x)"
  by (simp_all add: same_answer_def)

lemma same_answer_refl: "same_answer a a"
  by (cases a) simp_all

lemma status_simps [simp]:
  "status_code (api_not_found e i) = 404" "status_code (api_already_exists e i) = 409"
  by (simp_all add: api_not_found_def api_already_exists_def)

lemma store_next: "(store_of d)\<lparr> in_next_user_id := t_user_seq d \<rparr> = store_of d"
  by (simp add: store_of_def)

lemma simulates_keep:
  "pg_ok d \<Longrightarrow> same_answer a b \<Longrightarrow> simulates (a, d) (b, store_of d)"
  using pg_okD [of d] by (simp add: simulates_def store_next) (simp add: store_sel)

lemma simulatesI:
  assumes "pg_keys d'" "pg_creds d'" "same_answer a b" "store_of d' = s'\<lparr> in_next_user_id := t_user_seq d' \<rparr>"
    "in_next_user_id s' \<le> t_user_seq d'"
  shows "simulates (a, d') (b, s')"
  using assms by (simp add: simulates_def)

text \<open>The invariant of the in-memory store does not depend on an unused number of the sequence.\<close>

lemma wf_raise_next:
  "wf_inner s \<Longrightarrow> in_next_user_id s \<le> n \<Longrightarrow> wf_inner (s\<lparr> in_next_user_id := n \<rparr>)"
  unfolding wf_inner_def wf_shape_def wf_keys_def wf_refs_def wf_unique_def
  by simp (metis order_trans)

lemma simulates_ok:
  assumes "simulates p m" "wf_inner (snd m)"
  shows "pg_ok (snd p)"
  using assms wf_raise_next [OF assms(2)] by (simp add: simulates_def pg_ok_def)

section \<open>Groups and policies\<close>

lemma insert_row_nil: "insert_row report [] [] r add d = (Ok r, add d)"
  by (simp add: insert_row_def violate_def)

lemma insert_row_unique:
  "insert_row report [(b, name)] fs r add d =
     (if b then (Err (Database ''23505'' (Some (report [name]))), d) else insert_row report [] fs r add d)"
  by (simp add: insert_row_def violate_def Let_def)

lemma insert_row_foreign:
  "insert_row report [] [(b, name)] r add d =
     (if b then (Err (Database ''23503'' (Some (report [name]))), d) else (Ok r, add d))"
  by (simp add: insert_row_def violate_def Let_def)

lemma violation_codes [simp]:
  "violation_of (Database ''23505'' (Some c)) = Some (UniqueViolation c)"
  "violation_of (Database ''23503'' (Some c)) = Some (ForeignKeyViolation c)"
  by (simp_all add: violation_of_def)

lemma not_None_iff: "x \<noteq> None \<longleftrightarrow> (\<exists>y. x = Some y)"
  by (cases x) auto

lemma has_iff:
  "has_user d u \<longleftrightarrow> u \<in> ur_username ` set (t_users d)" "has_group d g \<longleftrightarrow> g \<in> gr_id ` set (t_groups d)"
  "has_policy d p \<longleftrightarrow> p \<in> pr_name ` set (t_policies d)" "has_key d k \<longleftrightarrow> k \<in> nc_access_key_id ` set (t_credentials d)"
  by (auto simp: has_user_def has_group_def has_policy_def has_key_def list_ex_iff)

lemma sim_create_group:
  assumes "pg_up env" "pg_ok d"
  shows "simulates (pg_create_group env g d) (create_group g (store_of d))"
proof (cases "has_group d (ng_id g)")
  case True
  then have "bt_get (in_groups (store_of d)) (ng_id g) \<noteq> None" using store_has(2) [OF pg_okD(1) [OF assms(2)]] by blast
  then show ?thesis using True assms
    by (simp add: pg_create_group_def create_group_def insert_group_def mapped_def pg_up_runs INSERT_GROUP_def
        insert_row_unique map_unique_def simulates_keep)
next
  case False
  note k = pg_keysD [OF pg_okD(1) [OF assms(2)]]
  have none: "bt_get (in_groups (store_of d)) (ng_id g) = None" using False store_has(2) [OF pg_okD(1) [OF assms(2)]] by blast
  let ?r = "group_row g"
  have fresh: "gr_id ?r \<notin> gr_id ` set (t_groups d)" using False by (simp add: has_iff group_row_def)
  have pg: "pg_create_group env g d = (Ok ?r, add_group_row ?r d)" using False assms
    by (simp add: pg_create_group_def mapped_def pg_up_runs INSERT_GROUP_def insert_row_unique insert_row_nil)
  have mem: "create_group g (store_of d)
      = (Ok ?r, (store_of d)\<lparr> in_groups := bt_insert (gr_id ?r) ?r (in_groups (store_of d)) \<rparr>)"
    using none by (simp add: create_group_def insert_group_def group_row_def Let_def)
  show ?thesis unfolding pg mem
  proof (rule simulatesI)
    show "pg_keys (add_group_row ?r d)" using pg_okD(1) [OF assms(2)] fresh by (simp add: pg_keys_def add_group_row_def)
    show "pg_creds (add_group_row ?r d)" using pg_okD(2) [OF assms(2)] by (simp add: pg_creds_def add_group_row_def has_user_def)
    show "store_of (add_group_row ?r d) = (store_of d)\<lparr> in_groups := bt_insert (gr_id ?r) ?r (in_groups (store_of d)) \<rparr>
        \<lparr> in_next_user_id := t_user_seq (add_group_row ?r d) \<rparr>"
      using table_add [OF k(2) fresh] by (simp add: store_of_def add_group_row_def)
  qed (simp_all add: store_sel add_group_row_def)
qed

lemma sim_create_policy:
  assumes "pg_up env" "pg_ok d"
  shows "simulates (pg_create_policy env p d) (create_policy p (store_of d))"
proof (cases "has_policy d (np_name p)")
  case True
  then have "bt_get (in_policies (store_of d)) (np_name p) \<noteq> None" using store_has(3) [OF pg_okD(1) [OF assms(2)]] by blast
  then show ?thesis using True assms
    by (simp add: pg_create_policy_def create_policy_def insert_policy_def mapped_def pg_up_runs INSERT_POLICY_def
        insert_row_unique map_unique_def simulates_keep)
next
  case False
  note k = pg_keysD [OF pg_okD(1) [OF assms(2)]]
  have none: "bt_get (in_policies (store_of d)) (np_name p) = None" using False store_has(3) [OF pg_okD(1) [OF assms(2)]] by blast
  let ?r = "policy_row p"
  have fresh: "pr_name ?r \<notin> pr_name ` set (t_policies d)" using False by (simp add: has_iff policy_row_def)
  have pg: "pg_create_policy env p d = (Ok ?r, add_policy_row ?r d)" using False assms
    by (simp add: pg_create_policy_def mapped_def pg_up_runs INSERT_POLICY_def insert_row_unique insert_row_nil)
  have mem: "create_policy p (store_of d)
      = (Ok ?r, (store_of d)\<lparr> in_policies := bt_insert (pr_name ?r) ?r (in_policies (store_of d)) \<rparr>)"
    using none by (simp add: create_policy_def insert_policy_def policy_row_def Let_def)
  show ?thesis unfolding pg mem
  proof (rule simulatesI)
    show "pg_keys (add_policy_row ?r d)" using pg_okD(1) [OF assms(2)] fresh by (simp add: pg_keys_def add_policy_row_def)
    show "pg_creds (add_policy_row ?r d)" using pg_okD(2) [OF assms(2)] by (simp add: pg_creds_def add_policy_row_def has_user_def)
    show "store_of (add_policy_row ?r d) = (store_of d)\<lparr> in_policies := bt_insert (pr_name ?r) ?r (in_policies (store_of d)) \<rparr>
        \<lparr> in_next_user_id := t_user_seq (add_policy_row ?r d) \<rparr>"
      using table_add [OF k(3) fresh] by (simp add: store_of_def add_policy_row_def)
  qed (simp_all add: store_sel add_policy_row_def)
qed

text \<open>The keys a delete or update addresses: one row or none.\<close>

lemma selected_keys:
  assumes "distinct (map key rows)"
  shows "map key (filter (\<lambda>r. key r = k) rows) = (if k \<in> key ` set rows then [k] else [])"
proof (cases "k \<in> key ` set rows")
  case True
  then obtain r where "r \<in> set rows" "key r = k" by auto
  then show ?thesis using filter_key_single [OF assms, of r] by auto
next
  case False
  then show ?thesis by (auto simp: filter_empty_conv)
qed

lemma selected_count:
  "distinct (map key rows) \<Longrightarrow> length (filter (\<lambda>r. key r = k) rows) = (if k \<in> key ` set rows then 1 else 0)"
  using selected_keys [of key rows k] by (metis length_map list.size(3) One_nat_def length_Cons)

lemma table_missing:
  "distinct (map key rows) \<Longrightarrow> bt_get (table_map key rows) k = None \<longleftrightarrow> k \<notin> key ` set rows"
  by (rule get_table_None)

lemma sim_delete_group:
  assumes "pg_up env" "pg_ok d"
  shows "simulates (pg_delete_group env g d) (delete_group g (store_of d))"
proof (cases "g \<in> gr_id ` set (t_groups d)")
  case False
  note k = pg_keysD [OF pg_okD(1) [OF assms(2)]]
  have "filter (\<lambda>x. gr_id x = g) (t_groups d) = []" using False by (auto simp: filter_empty_conv)
  moreover have "bt_get (in_groups (store_of d)) g = None" using False by (simp add: store_sel table_missing k)
  moreover have "d\<lparr> t_groups := t_groups d, t_group_members := t_group_members d, t_group_policies := t_group_policies d \<rparr> = d"
    by simp
  ultimately show ?thesis using assms
    by (simp add: pg_delete_group_def delete_group_def execute_one_def pg_up_runs DELETE_GROUP_def SELECT_GROUP_def
        simulates_keep)
next
  case True
  note k = pg_keysD [OF pg_okD(1) [OF assms(2)]]
  let ?d = "d\<lparr> t_groups := filter (\<lambda>x. gr_id x \<noteq> g) (t_groups d),
        t_group_members := filter (\<lambda>(x, _). x \<noteq> g) (t_group_members d),
        t_group_policies := filter (\<lambda>(x, _). x \<noteq> g) (t_group_policies d) \<rparr>"
  have pg: "pg_delete_group env g d = (Ok (), ?d)"
    using True assms by (simp add: pg_delete_group_def execute_one_def pg_up_runs DELETE_GROUP_def SELECT_GROUP_def
        selected_keys k selected_count)
  have get: "bt_get (in_groups (store_of d)) g \<noteq> None" using True by (simp add: store_sel table_missing k)
  have mem: "delete_group g (store_of d)
      = (Ok (), cascade_delete_group g ((store_of d)\<lparr> in_groups := bt_remove g (in_groups (store_of d)) \<rparr>))"
    using get by (simp add: delete_group_def)
  show ?thesis unfolding pg mem
  proof (rule simulatesI)
    show "pg_keys ?d" using k by (simp add: pg_keys_def distinct_map_filter)
    show "pg_creds ?d" using pg_okD(2) [OF assms(2)] by (simp add: pg_creds_def has_user_def)
    show "store_of ?d = (cascade_delete_group g ((store_of d)\<lparr> in_groups := bt_remove g (in_groups (store_of d)) \<rparr>))
        \<lparr> in_next_user_id := t_user_seq ?d \<rparr>"
      using table_remove [OF k(2), of g] by (simp add: store_of_def cascade_delete_group_def sort_filter)
  qed (simp_all add: store_sel cascade_delete_group_def)
qed

lemma sim_delete_policy:
  assumes "pg_up env" "pg_ok d"
  shows "simulates (pg_delete_policy env p d) (delete_policy p (store_of d))"
proof (cases "p \<in> pr_name ` set (t_policies d)")
  case False
  note k = pg_keysD [OF pg_okD(1) [OF assms(2)]]
  have "filter (\<lambda>x. pr_name x = p) (t_policies d) = []" using False by (auto simp: filter_empty_conv)
  moreover have "bt_get (in_policies (store_of d)) p = None" using False by (simp add: store_sel table_missing k)
  ultimately show ?thesis using assms
    by (simp add: pg_delete_policy_def delete_policy_def execute_one_def pg_up_runs DELETE_POLICY_def SELECT_POLICY_def
        simulates_keep)
next
  case True
  note k = pg_keysD [OF pg_okD(1) [OF assms(2)]]
  let ?d = "d\<lparr> t_policies := filter (\<lambda>x. pr_name x \<noteq> p) (t_policies d),
        t_user_policies := filter (\<lambda>(_, x). x \<noteq> p) (t_user_policies d),
        t_group_policies := filter (\<lambda>(_, x). x \<noteq> p) (t_group_policies d) \<rparr>"
  let ?s = "cascade_delete_policy p ((store_of d)\<lparr> in_policies := bt_remove p (in_policies (store_of d)) \<rparr>)"
  have pg: "pg_delete_policy env p d = (Ok (), ?d)"
    using True assms by (simp add: pg_delete_policy_def execute_one_def pg_up_runs DELETE_POLICY_def SELECT_POLICY_def
        selected_keys k selected_count)
  have get: "bt_get (in_policies (store_of d)) p \<noteq> None" using True by (simp add: store_sel table_missing k)
  then have mem: "delete_policy p (store_of d) = (Ok (), ?s)" by (simp add: delete_policy_def)
  show ?thesis unfolding pg mem
  proof (rule simulatesI)
    show "pg_keys ?d" using k by (simp add: pg_keys_def distinct_map_filter)
    show "pg_creds ?d" using pg_okD(2) [OF assms(2)] by (simp add: pg_creds_def has_user_def)
    show "store_of ?d = ?s\<lparr> in_next_user_id := t_user_seq ?d \<rparr>"
      using table_remove [OF k(3), of p] by (simp add: store_of_def cascade_delete_policy_def sort_filter)
  qed (simp_all add: store_sel cascade_delete_policy_def)
qed

lemma sim_update_policy:
  assumes "pg_up env" "pg_ok d"
  shows "simulates (pg_update_policy env p d) (update_policy p (store_of d))"
proof (cases "bt_get (in_policies (store_of d)) (np_name p)")
  case None
  note k = pg_keysD [OF pg_okD(1) [OF assms(2)]]
  have miss: "np_name p \<notin> pr_name ` set (t_policies d)" using None by (simp add: store_sel table_missing k)
  have ne: "pr_name x \<noteq> np_name p" if "x \<in> set (t_policies d)" for x using imageI [OF that, of pr_name] miss by metis
  then have "filter (\<lambda>x. pr_name x = np_name p) (t_policies d) = []" by (simp add: filter_empty_conv)
  moreover have "map (\<lambda>r. if pr_name r = np_name p then f r else r) (t_policies d) = t_policies d" for f
    using ne by (intro map_idI) simp
  ultimately show ?thesis using assms None
    by (simp add: pg_update_policy_def update_policy_def pg_up_runs UPDATE_POLICY_def SELECT_POLICY_def Let_def
        first_row_def simulates_keep)
next
  case (Some slot)
  note k = pg_keysD [OF pg_okD(1) [OF assms(2)]]
  let ?f = "\<lambda>r. r\<lparr> pr_creation_date := np_creation_date p, pr_statement := np_statement p, pr_acl := np_acl p \<rparr>"
  let ?d = "d\<lparr> t_policies := map (\<lambda>r. if pr_name r = np_name p then ?f r else r) (t_policies d) \<rparr>"
  let ?s = "(store_of d)\<lparr> in_policies := bt_modify (np_name p) (\<lambda>_. ?f slot) (in_policies (store_of d)) \<rparr>"
  have slot: "slot \<in> set (t_policies d)" "pr_name slot = np_name p"
    using Some by (simp_all add: store_get(3) [OF pg_okD(1) [OF assms(2)]])
  have pg: "pg_update_policy env p d = (Ok (?f slot), ?d)"
    using filter_key_single [OF k(3) slot(1)] assms slot(2)
    by (simp add: pg_update_policy_def pg_up_runs UPDATE_POLICY_def SELECT_POLICY_def Let_def first_row_def)
  have mem: "update_policy p (store_of d) = (Ok (?f slot), ?s)" using Some by (simp add: update_policy_def Let_def)
  have "map (\<lambda>r. if pr_name r = np_name p then ?f r else r) (t_policies d)
      = map (\<lambda>r. if pr_name r = np_name p then ?f slot else r) (t_policies d)"
    using key_unique [OF k(3) _ slot(1)] slot(2) by (intro map_cong) auto
  moreover have "bt_modify (np_name p) ?f (table_map pr_name (t_policies d))
      = bt_modify (np_name p) (\<lambda>_. ?f slot) (table_map pr_name (t_policies d))"
    using key_unique [OF k(3) _ slot(1)] slot(2) unfolding bt_modify_def
    by (intro map_cong) (auto simp: set_table_map)
  ultimately have tab: "table_map pr_name (map (\<lambda>r. if pr_name r = np_name p then ?f r else r) (t_policies d))
      = bt_modify (np_name p) (\<lambda>_. ?f slot) (table_map pr_name (t_policies d))"
    using table_modify [OF k(3), of ?f "np_name p"] by simp
  have names: "map pr_name (map (\<lambda>r. if pr_name r = np_name p then ?f r else r) (t_policies d)) = map pr_name (t_policies d)"
    by simp
  show ?thesis unfolding pg mem
  proof (rule simulatesI)
    have "distinct (map pr_name (t_policies ?d))" using names k(3) by (simp del: map_map)
    then show "pg_keys ?d" using k by (simp add: pg_keys_def)
    show "pg_creds ?d" using pg_okD(2) [OF assms(2)] by (simp add: pg_creds_def has_user_def)
    show "store_of ?d = ?s\<lparr> in_next_user_id := t_user_seq ?d \<rparr>" using tab by (simp add: store_of_def)
  qed (simp_all add: store_sel)
qed

section \<open>Memberships and attachments\<close>

text \<open>An error of the two foreign keys names one of the references, and is a 404.\<close>

lemma missing_is_not_found: "\<exists>e i. missing_from_constraint refs c = SNotFound e i"
  by (auto simp: missing_from_constraint_def split: option.splits prod.splits)

lemma missing_status: "status_code (api_of_store (missing_from_constraint refs c)) = 404"
  using missing_is_not_found [of refs c] by auto

lemma insert_row_two_foreign:
  "insert_row report [] [(b, x), (c, y)] r add d =
     (if b \<or> c then (Err (Database ''23503'' (Some (report ((if b then [x] else []) @ (if c then [y] else []))))), d)
      else (Ok r, add d))"
  by (simp add: insert_row_def violate_def Let_def)

lemma checked_fails:
  assumes "c1 \<noteq> Ok () \<or> c2 \<noteq> Ok ()" "\<And>e. c1 = Err e \<Longrightarrow> \<exists>k i. e = SNotFound k i" "\<And>e. c2 = Err e \<Longrightarrow> \<exists>k i. e = SNotFound k i"
  shows "\<exists>k i. checked c1 c2 s s' = (Err (SNotFound k i), s)"
  using assms by (cases c1; cases c2) (auto simp: checked_def)

lemma require_Err:
  "require_user s u = Err e \<Longrightarrow> \<exists>k i. e = SNotFound k i" "require_group s g = Err e \<Longrightarrow> \<exists>k i. e = SNotFound k i"
  "require_policy s p = Err e \<Longrightarrow> \<exists>k i. e = SNotFound k i"
  by (auto simp: require_user_def require_group_def require_policy_def require_row_def split: if_splits)

lemma checked_ok: "c1 = Ok () \<Longrightarrow> c2 = Ok () \<Longrightarrow> checked c1 c2 s s' = (Ok (), s')"
  by (simp add: checked_def)

lemma require_has:
  assumes "pg_keys d"
  shows "require_user (store_of d) u = Ok () \<longleftrightarrow> has_user d u" "require_group (store_of d) g = Ok () \<longleftrightarrow> has_group d g"
    "require_policy (store_of d) p = Ok () \<longleftrightarrow> has_policy d p"
  by (simp_all add: res_simps store_has [OF assms])

text \<open>
  A pair that is there: both references are, and nothing changes.  A pair that is not: it is added when both
  references are there.
\<close>

lemma sim_pair:
  assumes "pg_ok d" "c1 = Ok () \<longleftrightarrow> b1" "c2 = Ok () \<longleftrightarrow> b2"
    and "\<And>e. c1 = Err e \<Longrightarrow> \<exists>k i. e = SNotFound k i" "\<And>e. c2 = Err e \<Longrightarrow> \<exists>k i. e = SNotFound k i"
    and "there \<Longrightarrow> b1 \<and> b2" "there \<Longrightarrow> s' = store_of d"
    and "pg = (if there then (Ok (0 :: nat), d) else if b1 \<and> b2 then (Ok 1, d') else (Err (SNotFound ek ei), d))"
    and "\<not> there \<Longrightarrow> pg_keys d' \<and> pg_creds d' \<and> store_of d' = s'" "in_next_user_id s' = t_user_seq d'" "t_user_seq d' = t_user_seq d"
  shows "simulates (map_ok (\<lambda>_. ()) (fst pg), snd pg) (checked c1 c2 (store_of d) s')
    \<and> simulates (affected pg) (insert_pair_if_missing c1 c2 (\<not> there) (store_of d) s')"
proof (cases "there")
  case True
  then have "pg = (Ok 0, d)" "checked c1 c2 (store_of d) s' = (Ok (), store_of d)"
    "insert_pair_if_missing c1 c2 (\<not> there) (store_of d) s' = (Ok False, store_of d)"
    using assms(2,3,6,7,8) by (simp_all add: checked_ok insert_pair_if_missing_def)
  then show ?thesis by (simp add: simulates_keep [OF assms(1)] affected_def)
next
  case False
  show ?thesis
  proof (cases "b1 \<and> b2")
    case True
    then have pg: "pg = (Ok 1, d')" and m: "checked c1 c2 (store_of d) s' = (Ok (), s')"
      "insert_pair_if_missing c1 c2 (\<not> there) (store_of d) s' = (Ok True, s')"
      using False assms(2,3,8) by (simp_all add: checked_ok insert_pair_if_missing_def)
    have s': "s'\<lparr> in_next_user_id := t_user_seq d' \<rparr> = s'" using assms(10) by (metis inner.surjective inner.update_convs(2) inner.select_convs(2))
    show ?thesis unfolding pg m affected_def fst_conv snd_conv
      using assms(9) [OF False] assms(10) by (intro conjI simulatesI) (simp_all add: s')
  next
    case b: False
    then obtain k i where m: "checked c1 c2 (store_of d) s' = (Err (SNotFound k i), store_of d)"
      using checked_fails [of c1 c2 "store_of d" s'] assms(2-5) by blast
    then have "insert_pair_if_missing c1 c2 (\<not> there) (store_of d) s' = (Err (SNotFound k i), store_of d)"
      by (auto simp: checked_def insert_pair_if_missing_def split: sum.splits)
    moreover have "pg = (Err (SNotFound ek ei), d)" using False b assms(8) by simp
    ultimately show ?thesis by (simp add: m simulates_keep [OF assms(1)] affected_def)
  qed
qed

lemma sim_add_membership:
  assumes "pg_up env" "pg_ok d"
  shows "simulates (pg_add_membership env g u d) (add_membership g u (store_of d))"
    and "simulates (affected (pg_insert_membership env g u d)) (mem_insert_membership_if_missing g u (store_of d))"
proof -
  note ok = pg_okD(1) [OF assms(2)] and k = pg_keysD [OF pg_okD(1) [OF assms(2)]]
  let ?d = "d\<lparr> t_group_members := t_group_members d @ [(g, u)] \<rparr>"
  define names where "names = (if has_group d g then [] else [''group_members_group_fk''])
      @ (if has_user d u then [] else [''group_members_user_fk''])"
  obtain ek ei where e: "missing_from_constraint [(''user'', u), (''group'', g)] (pg_report env names) = SNotFound ek ei"
    using missing_is_not_found by blast
  have pg: "pg_insert_membership env g u d = (if (g, u) \<in> set (t_group_members d) then (Ok 0, d)
      else if has_group d g \<and> has_user d u then (Ok 1, ?d) else (Err (SNotFound ek ei), d))"
    by (simp add: pg_insert_membership_def pg_up_runs [OF assms(1)] INSERT_MEMBERSHIP_def insert_row_two_foreign mapped_def
        map_error_def e [symmetric] names_def)
  have refs: "has_group d g \<and> has_user d u" if "(g, u) \<in> set (t_group_members d)"
    using references(1) [OF assms(2) that] by (simp add: has_iff)
  have same: "(store_of d)\<lparr> in_group_members := bs_insert (g, u) (in_group_members (store_of d)) \<rparr> = store_of d"
    if "(g, u) \<in> set (t_group_members d)"
    using that by (simp add: store_of_def bs_insert_present bs_ok_sort k)
  have add: "pg_keys ?d \<and> pg_creds ?d
      \<and> store_of ?d = (store_of d)\<lparr> in_group_members := bs_insert (g, u) (in_group_members (store_of d)) \<rparr>"
    if "(g, u) \<notin> set (t_group_members d)"
    using that k pg_okD(2) [OF assms(2)] by (simp add: pg_keys_def pg_creds_def has_user_def store_of_def sort_add)
  have "pg_add_membership env g u d = (map_ok (\<lambda>_. ()) (fst (pg_insert_membership env g u d)), snd (pg_insert_membership env g u d))"
    by (simp add: pg_add_membership_def case_prod_unfold)
  moreover have "mem_insert_membership_if_missing g u (store_of d) = insert_pair_if_missing
      (require_group (store_of d) g) (require_user (store_of d) u) ((g, u) \<notin> set (t_group_members d)) (store_of d)
      ((store_of d)\<lparr> in_group_members := bs_insert (g, u) (in_group_members (store_of d)) \<rparr>)"
    by (simp add: mem_insert_membership_if_missing_def bs_contains_iff store_sel(5-7))
  ultimately show "simulates (pg_add_membership env g u d) (add_membership g u (store_of d))"
    "simulates (affected (pg_insert_membership env g u d)) (mem_insert_membership_if_missing g u (store_of d))"
    unfolding add_membership_def
    using sim_pair [OF assms(2) require_has(2) [OF ok] require_has(1) [OF ok] require_Err(2) require_Err(1) refs same pg add]
    by (simp_all add: store_sel)
qed

lemma sim_attach_policy_to_user:
  assumes "pg_up env" "pg_ok d"
  shows "simulates (pg_attach_policy_to_user env u p d) (attach_policy_to_user u p (store_of d))"
    and "simulates (affected (pg_insert_user_policy env u p d)) (mem_insert_user_policy_if_missing u p (store_of d))"
proof -
  note ok = pg_okD(1) [OF assms(2)] and k = pg_keysD [OF pg_okD(1) [OF assms(2)]]
  let ?d = "d\<lparr> t_user_policies := t_user_policies d @ [(u, p)] \<rparr>"
  define names where "names = (if has_user d u then [] else [''user_policies_user_fk''])
      @ (if has_policy d p then [] else [''user_policies_policy_fk''])"
  obtain ek ei where e: "missing_from_constraint [(''user'', u), (''policy'', p)] (pg_report env names) = SNotFound ek ei"
    using missing_is_not_found by blast
  have pg: "pg_insert_user_policy env u p d = (if (u, p) \<in> set (t_user_policies d) then (Ok 0, d)
      else if has_user d u \<and> has_policy d p then (Ok 1, ?d) else (Err (SNotFound ek ei), d))"
    by (simp add: pg_insert_user_policy_def pg_up_runs [OF assms(1)] INSERT_USER_POLICY_def insert_row_two_foreign mapped_def
        map_error_def e [symmetric] names_def)
  have refs: "has_user d u \<and> has_policy d p" if "(u, p) \<in> set (t_user_policies d)"
    using references(2) [OF assms(2) that] by (simp add: has_iff)
  have same: "(store_of d)\<lparr> in_user_policies := bs_insert (u, p) (in_user_policies (store_of d)) \<rparr> = store_of d"
    if "(u, p) \<in> set (t_user_policies d)"
    using that by (simp add: store_of_def bs_insert_present bs_ok_sort k)
  have add: "pg_keys ?d \<and> pg_creds ?d
      \<and> store_of ?d = (store_of d)\<lparr> in_user_policies := bs_insert (u, p) (in_user_policies (store_of d)) \<rparr>"
    if "(u, p) \<notin> set (t_user_policies d)"
    using that k pg_okD(2) [OF assms(2)] by (simp add: pg_keys_def pg_creds_def has_user_def store_of_def sort_add)
  have "pg_attach_policy_to_user env u p d
      = (map_ok (\<lambda>_. ()) (fst (pg_insert_user_policy env u p d)), snd (pg_insert_user_policy env u p d))"
    by (simp add: pg_attach_policy_to_user_def case_prod_unfold)
  moreover have "mem_insert_user_policy_if_missing u p (store_of d) = insert_pair_if_missing
      (require_user (store_of d) u) (require_policy (store_of d) p) ((u, p) \<notin> set (t_user_policies d)) (store_of d)
      ((store_of d)\<lparr> in_user_policies := bs_insert (u, p) (in_user_policies (store_of d)) \<rparr>)"
    by (simp add: mem_insert_user_policy_if_missing_def bs_contains_iff store_sel(5-7))
  ultimately show "simulates (pg_attach_policy_to_user env u p d) (attach_policy_to_user u p (store_of d))"
    "simulates (affected (pg_insert_user_policy env u p d)) (mem_insert_user_policy_if_missing u p (store_of d))"
    unfolding attach_policy_to_user_def
    using sim_pair [OF assms(2) require_has(1) [OF ok] require_has(3) [OF ok] require_Err(1) require_Err(3) refs same pg add]
    by (simp_all add: store_sel)
qed

lemma sim_attach_policy_to_group:
  assumes "pg_up env" "pg_ok d"
  shows "simulates (pg_attach_policy_to_group env g p d) (attach_policy_to_group g p (store_of d))"
    and "simulates (affected (pg_insert_group_policy env g p d)) (mem_insert_group_policy_if_missing g p (store_of d))"
proof -
  note ok = pg_okD(1) [OF assms(2)] and k = pg_keysD [OF pg_okD(1) [OF assms(2)]]
  let ?d = "d\<lparr> t_group_policies := t_group_policies d @ [(g, p)] \<rparr>"
  define names where "names = (if has_group d g then [] else [''group_policies_group_fk''])
      @ (if has_policy d p then [] else [''group_policies_policy_fk''])"
  obtain ek ei where e: "missing_from_constraint [(''group'', g), (''policy'', p)] (pg_report env names) = SNotFound ek ei"
    using missing_is_not_found by blast
  have pg: "pg_insert_group_policy env g p d = (if (g, p) \<in> set (t_group_policies d) then (Ok 0, d)
      else if has_group d g \<and> has_policy d p then (Ok 1, ?d) else (Err (SNotFound ek ei), d))"
    by (simp add: pg_insert_group_policy_def pg_up_runs [OF assms(1)] INSERT_GROUP_POLICY_def insert_row_two_foreign mapped_def
        map_error_def e [symmetric] names_def)
  have refs: "has_group d g \<and> has_policy d p" if "(g, p) \<in> set (t_group_policies d)"
    using references(3) [OF assms(2) that] by (simp add: has_iff)
  have same: "(store_of d)\<lparr> in_group_policies := bs_insert (g, p) (in_group_policies (store_of d)) \<rparr> = store_of d"
    if "(g, p) \<in> set (t_group_policies d)"
    using that by (simp add: store_of_def bs_insert_present bs_ok_sort k)
  have add: "pg_keys ?d \<and> pg_creds ?d
      \<and> store_of ?d = (store_of d)\<lparr> in_group_policies := bs_insert (g, p) (in_group_policies (store_of d)) \<rparr>"
    if "(g, p) \<notin> set (t_group_policies d)"
    using that k pg_okD(2) [OF assms(2)] by (simp add: pg_keys_def pg_creds_def has_user_def store_of_def sort_add)
  have "pg_attach_policy_to_group env g p d
      = (map_ok (\<lambda>_. ()) (fst (pg_insert_group_policy env g p d)), snd (pg_insert_group_policy env g p d))"
    by (simp add: pg_attach_policy_to_group_def case_prod_unfold)
  moreover have "mem_insert_group_policy_if_missing g p (store_of d) = insert_pair_if_missing
      (require_group (store_of d) g) (require_policy (store_of d) p) ((g, p) \<notin> set (t_group_policies d)) (store_of d)
      ((store_of d)\<lparr> in_group_policies := bs_insert (g, p) (in_group_policies (store_of d)) \<rparr>)"
    by (simp add: mem_insert_group_policy_if_missing_def bs_contains_iff store_sel(5-7))
  ultimately show "simulates (pg_attach_policy_to_group env g p d) (attach_policy_to_group g p (store_of d))"
    "simulates (affected (pg_insert_group_policy env g p d)) (mem_insert_group_policy_if_missing g p (store_of d))"
    unfolding attach_policy_to_group_def
    using sim_pair [OF assms(2) require_has(2) [OF ok] require_has(3) [OF ok] require_Err(2) require_Err(3) refs same pg add]
    by (simp_all add: store_sel)
qed

text \<open>A delete of one pair.\<close>

lemma pair_count: "distinct xs \<Longrightarrow> length (filter (\<lambda>y. y = x) xs) = (if x \<in> set xs then 1 else 0)"
  by (induction xs) (auto simp: filter_empty_conv)

lemma sim_remove_pairs:
  assumes "pg_up env" "pg_ok d"
  shows "simulates (pg_remove_membership env g u d) (remove_membership g u (store_of d))"
    and "simulates (pg_detach_policy_from_user env u p d) (detach_policy_from_user u p (store_of d))"
    and "simulates (pg_detach_policy_from_group env g p d) (detach_policy_from_group g p (store_of d))"
proof -
  note k = pg_keysD [OF pg_okD(1) [OF assms(2)]] and cr = pg_okD(2) [OF assms(2)]
  have nop: "filter (\<lambda>y. y \<noteq> x) xs = xs" if "x \<notin> set xs" for x :: "string \<times> string" and xs
    using that by (auto simp: filter_id_conv)
  show "simulates (pg_remove_membership env g u d) (remove_membership g u (store_of d))"
  proof (cases "(g, u) \<in> set (t_group_members d)")
    case True
    then show ?thesis using k cr
      by (simp add: pg_remove_membership_def remove_membership_def execute_one_def pg_up_runs [OF assms(1)] DELETE_MEMBERSHIP_def
          pair_count bs_contains_iff store_sel simulates_def pg_keys_def pg_creds_def has_user_def store_of_def sort_filter bs_remove_def)
  next
    case False
    then show ?thesis
      by (simp add: pg_remove_membership_def remove_membership_def execute_one_def pg_up_runs [OF assms(1)] DELETE_MEMBERSHIP_def
          pair_count k nop bs_contains_iff store_sel) (simp add: simulates_keep [OF assms(2)])
  qed
  show "simulates (pg_detach_policy_from_user env u p d) (detach_policy_from_user u p (store_of d))"
  proof (cases "(u, p) \<in> set (t_user_policies d)")
    case True
    then show ?thesis using k cr
      by (simp add: pg_detach_policy_from_user_def detach_policy_from_user_def execute_one_def pg_up_runs [OF assms(1)] DELETE_USER_POLICY_def
          pair_count bs_contains_iff store_sel simulates_def pg_keys_def pg_creds_def has_user_def store_of_def sort_filter bs_remove_def)
  next
    case False
    then show ?thesis
      by (simp add: pg_detach_policy_from_user_def detach_policy_from_user_def execute_one_def pg_up_runs [OF assms(1)] DELETE_USER_POLICY_def
          pair_count k nop bs_contains_iff store_sel) (simp add: simulates_keep [OF assms(2)])
  qed
  show "simulates (pg_detach_policy_from_group env g p d) (detach_policy_from_group g p (store_of d))"
  proof (cases "(g, p) \<in> set (t_group_policies d)")
    case True
    then show ?thesis using k cr
      by (simp add: pg_detach_policy_from_group_def detach_policy_from_group_def execute_one_def pg_up_runs [OF assms(1)] DELETE_GROUP_POLICY_def
          pair_count bs_contains_iff store_sel simulates_def pg_keys_def pg_creds_def has_user_def store_of_def sort_filter bs_remove_def)
  next
    case False
    then show ?thesis
      by (simp add: pg_detach_policy_from_group_def detach_policy_from_group_def execute_one_def pg_up_runs [OF assms(1)] DELETE_GROUP_POLICY_def
          pair_count k nop bs_contains_iff store_sel) (simp add: simulates_keep [OF assms(2)])
  qed
qed

section \<open>Token ids\<close>

lemma pairs_eqI:
  assumes "distinct (map fst xs)" "bt_ok m" "set m = set xs"
  shows "sort_key fst xs = m"
proof (rule sorted_keys_unique)
  show "sorted_wrt (<) (map fst (sort_key fst xs))" by (rule sorted_keys_strict [OF assms(1)])
  show "sorted_wrt (<) (map fst m)" using assms(2) by (simp add: bt_ok_def)
qed (simp add: assms(3))

lemma bt_ok_pairs: "distinct (map fst xs) \<Longrightarrow> bt_ok (sort_key fst xs)"
  using sorted_keys_strict [of fst xs] by (simp add: bt_ok_def)

lemma set_bt_insert_fresh: "bt_get m k = None \<Longrightarrow> bt_ok m \<Longrightarrow> set (bt_insert k v m) = insert (k, v) (set m)"
proof -
  assume none: "bt_get m k = None" and ok: "bt_ok m"
  have notin: "(k, v') \<notin> set m" for v' using none bt_get_iff [OF ok, of k v'] by simp
  have "(k', v') \<in> set (bt_insert k v m) \<longleftrightarrow> (k', v') \<in> insert (k, v) (set m)" for k' v'
    using notin unfolding bt_get_iff [OF bt_ok_insert [OF ok], symmetric] bt_get_insert [OF ok]
    by (auto simp: bt_get_iff [OF ok])
  then show ?thesis by auto
qed

lemma sim_claim_token_id:
  assumes "pg_up env" "pg_ok d"
  shows "simulates (pg_claim_token_id env t e d) (claim_token_id t e (store_of d))"
proof -
  note ok = pg_okD(1) [OF assms(2)] and k = pg_keysD [OF pg_okD(1) [OF assms(2)]]
  let ?b = "list_ex (\<lambda>(x, _). x = t) (t_claimed_token_ids d)"
  have b: "?b \<longleftrightarrow> bt_get (in_claimed_token_ids (store_of d)) t \<noteq> None"
    using store_tokens(2) [OF ok] by (auto simp: list_ex_iff not_None_iff)
  show ?thesis
  proof (cases ?b)
    case True
    then have "bt_get (in_claimed_token_ids (store_of d)) t \<noteq> None" using b by simp
    then show ?thesis using True
      by (simp add: pg_claim_token_id_def claim_token_id_def pg_up_runs [OF assms(1)] INSERT_TOKEN_ID_def insert_row_unique
          mapped_def map_unique_def simulates_keep [OF assms(2)])
  next
    case False
    let ?d = "d\<lparr> t_claimed_token_ids := t_claimed_token_ids d @ [(t, e)] \<rparr>"
    have none: "bt_get (in_claimed_token_ids (store_of d)) t = None" using False b by simp
    have fresh: "t \<notin> fst ` set (t_claimed_token_ids d)" using False by (auto simp: list_ex_iff)
    have pg: "pg_claim_token_id env t e d = (Ok (), ?d)" using False
      by (simp add: pg_claim_token_id_def pg_up_runs [OF assms(1)] INSERT_TOKEN_ID_def insert_row_unique insert_row_nil mapped_def)
    have mem: "claim_token_id t e (store_of d)
        = (Ok (), (store_of d)\<lparr> in_claimed_token_ids := bt_insert t e (in_claimed_token_ids (store_of d)) \<rparr>)"
      using none by (simp add: claim_token_id_def)
    have tab: "sort_key fst (t_claimed_token_ids d @ [(t, e)]) = bt_insert t e (sort_key fst (t_claimed_token_ids d))"
    proof (rule pairs_eqI)
      have none': "bt_get (sort_key fst (t_claimed_token_ids d)) t = None" using none by (simp add: store_sel)
      show "set (bt_insert t e (sort_key fst (t_claimed_token_ids d))) = set (t_claimed_token_ids d @ [(t, e)])"
        using set_bt_insert_fresh [OF none' bt_ok_pairs [OF k(9)]] by simp
    qed (use fresh k in \<open>simp_all add: bt_ok_insert bt_ok_pairs\<close>)
    show ?thesis unfolding pg mem
    proof (rule simulatesI)
      show "pg_keys ?d" using k fresh by (simp add: pg_keys_def)
      show "pg_creds ?d" using pg_okD(2) [OF assms(2)] by (simp add: pg_creds_def has_user_def)
      show "store_of ?d = (store_of d)\<lparr> in_claimed_token_ids := bt_insert t e (in_claimed_token_ids (store_of d)) \<rparr>
          \<lparr> in_next_user_id := t_user_seq ?d \<rparr>" using tab by (simp add: store_of_def)
    qed (simp_all add: store_sel)
  qed
qed

lemma sim_delete_expired:
  assumes "pg_up env" "pg_ok d"
  shows "simulates (pg_delete_expired_token_ids env now d) (delete_expired_token_ids now (store_of d))"
proof -
  note ok = pg_okD(1) [OF assms(2)] and k = pg_keysD [OF pg_okD(1) [OF assms(2)]]
  let ?xs = "t_claimed_token_ids d"
  let ?d = "d\<lparr> t_claimed_token_ids := filter (\<lambda>(_, e). \<not> e \<le> now) ?xs \<rparr>"
  have kept: "bt_retain (\<lambda>_ expires. expires > now) (sort_key fst ?xs) = sort_key fst (filter (\<lambda>(_, e). \<not> e \<le> now) ?xs)"
    by (simp add: bt_retain_def filter_sort not_le)
  have count: "length ?xs - length (filter (\<lambda>(_, e). \<not> e \<le> now) ?xs) = length (filter (\<lambda>(_, e). e \<le> now) ?xs)"
    using sum_length_filter_compl [of "\<lambda>(_, e). e \<le> now" ?xs] by (simp add: case_prod_unfold)
  have pg: "pg_delete_expired_token_ids env now d = (Ok (length (filter (\<lambda>(_, e). e \<le> now) ?xs)), ?d)"
    by (simp add: pg_delete_expired_token_ids_def pg_up_runs [OF assms(1)] DELETE_EXPIRED_TOKEN_IDS_def mapped_def)
  have mem: "delete_expired_token_ids now (store_of d) = (Ok (length (filter (\<lambda>(_, e). e \<le> now) ?xs)),
      (store_of d)\<lparr> in_claimed_token_ids := sort_key fst (filter (\<lambda>(_, e). \<not> e \<le> now) ?xs) \<rparr>)"
    by (simp add: delete_expired_token_ids_def store_sel kept count Let_def)
  show ?thesis unfolding pg mem
    using k pg_okD(2) [OF assms(2)]
    by (intro simulatesI) (simp_all add: pg_keys_def pg_creds_def has_user_def store_of_def distinct_map_filter)
qed

end
