(* ===== verification/Pg_Owned.thy ===== *)
theory Pg_Owned
  imports Pg_Writes
begin

text \<open>
  The writes of the PostgreSQL store on what belongs to a user, and on the users themselves: external
  principals, credentials and their join with the users, the identity sequence, and the cascade of a deleted
  user.  Together with \<open>Pg_Writes\<close> this is every write of the storage traits, so a run of writes from
  the empty tables is a run of the in-memory store, step by step.
\<close>

section \<open>External principals and credentials\<close>

text \<open>
  A row with a unique key and a reference: when the key is taken and the reference is missing as well, the
  database reports the key and the in-memory store the reference.  Everywhere else the answers agree, and the
  rows always do.
\<close>

definition conflict_hides_missing :: "'a store_result \<times> db \<Rightarrow> 'a store_result \<times> inner \<Rightarrow> db \<Rightarrow> bool" where
  "conflict_hides_missing p m d \<longleftrightarrow> snd p = d \<and> snd m = store_of d
     \<and> (\<exists>e. fst p = Err e \<and> is_already_exists e) \<and> (\<exists>e. fst m = Err e \<and> is_not_found e)"

lemma missing_user:
  assumes "pg_keys d" "\<not> has_user d u"
  shows "require_user (store_of d) u = Err (SNotFound ''user'' u)" "bt_get (in_users (store_of d)) u = None"
  using assms store_has(1) [OF assms(1), of u] by (simp_all add: require_user_def require_row_def)

lemma missing_user_error: "missing_from_constraint [(''user'', u)] c = SNotFound ''user'' u"
  by (simp add: missing_from_constraint_def split: option.splits prod.splits)

lemma has_principal:
  assumes "pg_keys d"
  shows "list_ex (\<lambda>p. er_id p = i) (t_external_principals d) \<longleftrightarrow> bt_get (in_external_principals (store_of d)) i \<noteq> None"
  using get_table_None [OF pg_keysD(8) [OF assms], of i] by (auto simp: list_ex_iff store_sel)

lemma pg_create_external_principal_eq:
  assumes "pg_up env"
  shows "pg_create_external_principal env u i d =
    (if list_ex (\<lambda>p. er_id p = i) (t_external_principals d) then (Err (SAlreadyExists ''external principal'' i), d)
     else if \<not> has_user d u then (Err (SNotFound ''user'' u), d)
     else (Ok (), d\<lparr> t_external_principals := t_external_principals d @ [\<lparr> er_id = i, er_username = u \<rparr>] \<rparr>))"
  by (simp add: pg_create_external_principal_def pg_up_runs [OF assms] INSERT_EXTERNAL_PRINCIPAL_def insert_row_unique
      insert_row_foreign mapped_def map_error_def missing_user_error)

lemma sim_create_external_principal:
  assumes "pg_up env" "pg_ok d"
  shows "if \<not> has_user d u \<and> list_ex (\<lambda>p. er_id p = i) (t_external_principals d)
    then conflict_hides_missing (pg_create_external_principal env u i d) (create_external_principal u i (store_of d)) d
    else simulates (pg_create_external_principal env u i d) (create_external_principal u i (store_of d))"
proof -
  note ok = pg_okD(1) [OF assms(2)] and k = pg_keysD [OF pg_okD(1) [OF assms(2)]]
  let ?b = "list_ex (\<lambda>p. er_id p = i) (t_external_principals d)"
  note b = has_principal [OF ok, of i] and pg = pg_create_external_principal_eq [OF assms(1), of u i d]
  consider (gone) "\<not> has_user d u" | (taken) "has_user d u" "?b" | (fresh) "has_user d u" "\<not> ?b" by blast
  then show ?thesis
  proof cases
    case gone
    then have "create_external_principal u i (store_of d) = (Err (SNotFound ''user'' u), store_of d)"
      using missing_user [OF ok] by (simp add: create_external_principal_def)
    then show ?thesis using gone
      by (simp add: pg simulates_keep [OF assms(2)] conflict_hides_missing_def is_already_exists_def is_not_found_def)
  next
    case taken
    then have "bt_get (in_external_principals (store_of d)) i \<noteq> None" using b by simp
    then show ?thesis using taken
      by (simp add: pg create_external_principal_def require_has(1) [OF ok, THEN iffD2] simulates_keep [OF assms(2)])
  next
    case fresh
    let ?r = "\<lparr> er_id = i, er_username = u \<rparr>"
    have new: "er_id ?r \<notin> er_id ` set (t_external_principals d)" using fresh(2) by (auto simp: list_ex_iff)
    have none: "bt_get (in_external_principals (store_of d)) i = None" using fresh(2) b by simp
    have mem: "create_external_principal u i (store_of d) = (Ok (), (store_of d)
        \<lparr> in_external_principals := bt_insert i ?r (in_external_principals (store_of d)) \<rparr>)"
      using fresh none by (simp add: create_external_principal_def require_has(1) [OF ok, THEN iffD2])
    show ?thesis unfolding mem using fresh k pg_okD(2) [OF assms(2)] new table_add [OF k(8) new]
      by (simp add: pg) (intro simulatesI; simp add: pg_keys_def pg_creds_def has_user_def store_of_def)
  qed
qed

lemma sim_delete_external_principal:
  assumes "pg_up env" "pg_ok d"
  shows "simulates (pg_delete_external_principal env u i d) (delete_external_principal u i (store_of d))"
proof -
  note ok = pg_okD(1) [OF assms(2)] and k = pg_keysD [OF pg_okD(1) [OF assms(2)]]
  let ?hit = "\<lambda>p. er_id p = i \<and> er_username p = u" and ?xs = "t_external_principals d"
  have get: "bt_get (in_external_principals (store_of d)) i = Some p \<longleftrightarrow> p \<in> set ?xs \<and> er_id p = i" for p
    by (rule store_get(4) [OF ok])
  have pg: "pg_delete_external_principal env u i d = (if filter ?hit ?xs = [] then Err (SNotFound ''external principal'' i) else Ok (),
      d\<lparr> t_external_principals := filter (\<lambda>p. \<not> ?hit p) ?xs \<rparr>)"
    by (simp add: pg_delete_external_principal_def execute_one_def pg_up_runs [OF assms(1)] DELETE_EXTERNAL_PRINCIPAL_def Let_def)
  show ?thesis
  proof (cases "\<exists>p \<in> set ?xs. ?hit p")
    case False
    then have "filter ?hit ?xs = []" "filter (\<lambda>p. \<not> ?hit p) ?xs = ?xs"
      "\<not> is_some_and (\<lambda>p. er_username p = u) (bt_get (in_external_principals (store_of d)) i)"
      by (auto simp: filter_empty_conv filter_id_conv is_some_and_iff get)
    then show ?thesis by (simp add: pg delete_external_principal_def simulates_keep [OF assms(2)])
  next
    case True
    then obtain p where p: "p \<in> set ?xs" "er_id p = i" "er_username p = u" by auto
    then have some: "is_some_and (\<lambda>p. er_username p = u) (bt_get (in_external_principals (store_of d)) i)"
      by (auto simp: is_some_and_iff get)
    have hit: "?hit q \<longleftrightarrow> er_id q = i" if "q \<in> set ?xs" for q using p key_unique [OF k(8) that p(1)] by auto
    then have same: "filter (\<lambda>p. \<not> ?hit p) ?xs = filter (\<lambda>q. er_id q \<noteq> i) ?xs" by (intro filter_cong) auto
    have ne: "filter ?hit ?xs \<noteq> []" using p by (auto simp: filter_empty_conv)
    show ?thesis using some ne k pg_okD(2) [OF assms(2)]
      unfolding pg same by (simp add: delete_external_principal_def)
        (intro simulatesI; simp add: pg_keys_def pg_creds_def has_user_def store_of_def distinct_map_filter table_remove k)
  qed
qed

text \<open>A credential row joins with its user in the tables after a write as it did before.\<close>

lemma credential_rows_add:
  "credential_rows (add_credential_row c d) = credential_rows d @ join_user d c"
  by (simp add: credential_rows_def add_credential_row_def join_user_def [abs_def])

lemma pg_create_credential_eq:
  assumes "pg_up env"
  shows "pg_create_credential env c d =
    (if has_key d (nc_access_key_id c) then (Err (SAlreadyExists ''credentials'' (nc_access_key_id c)), d)
     else if \<not> has_user d (nc_username c) then (Err (SNotFound ''user'' (nc_username c)), d)
     else (map_err (credential_error env c) (ok_or (DriverError ''RowNotFound'') (first_row (join_user d c))),
       add_credential_row c d))"
  by (simp add: pg_create_credential_def pg_up_runs [OF assms] INSERT_CREDENTIAL_def insert_row_unique
      insert_row_foreign mapped_def credential_error_def map_error_def missing_user_error)

lemma sim_create_credential:
  assumes "pg_up env" "pg_ok d"
  shows "if \<not> has_user d (nc_username c) \<and> has_key d (nc_access_key_id c)
    then conflict_hides_missing (pg_create_credential env c d) (create_credential c (store_of d)) d
    else simulates (pg_create_credential env c d) (create_credential c (store_of d))"
proof -
  note ok = pg_okD(1) [OF assms(2)] and cr = pg_okD(2) [OF assms(2)] and k = pg_keysD [OF pg_okD(1) [OF assms(2)]]
  note b = store_credential(2) [OF ok cr, of "nc_access_key_id c"] and pg = pg_create_credential_eq [OF assms(1), of c d]
  consider (gone) "\<not> has_user d (nc_username c)" | (taken) "has_user d (nc_username c)" "has_key d (nc_access_key_id c)"
    | (fresh) "has_user d (nc_username c)" "\<not> has_key d (nc_access_key_id c)" by blast
  then show ?thesis
  proof cases
    case gone
    then have "create_credential c (store_of d) = (Err (SNotFound ''user'' (nc_username c)), store_of d)"
      using missing_user [OF ok] by (simp add: create_credential_def insert_credential_def)
    then show ?thesis using gone
      by (simp add: pg simulates_keep [OF assms(2)] conflict_hides_missing_def is_already_exists_def is_not_found_def)
  next
    case taken
    then obtain u where "bt_get (in_users (store_of d)) (nc_username c) = Some u" using store_has(1) [OF ok] by auto
    then show ?thesis using taken b
      by (simp add: pg create_credential_def insert_credential_def simulates_keep [OF assms(2)])
  next
    case fresh
    let ?r = "cred_row (t_users d) c"
    obtain u where u: "bt_get (in_users (store_of d)) (nc_username c) = Some u" using store_has(1) [OF ok] fresh by auto
    then have "u \<in> set (t_users d)" "ur_username u = nc_username c" by (simp_all add: store_get(1) [OF ok])
    then have uid: "ur_user_id (hd (filter (\<lambda>x. ur_username x = nc_username c) (t_users d))) = ur_user_id u"
      using filter_key_single [OF k(1)] by fastforce
    have none: "bt_get (in_credentials (store_of d)) (nc_access_key_id c) = None" using fresh(2) b by simp
    have mem: "create_credential c (store_of d) = (Ok ?r, (store_of d)
        \<lparr> in_credentials := bt_insert (cr_access_key_id ?r) ?r (in_credentials (store_of d)) \<rparr>)"
      using u none by (simp add: create_credential_def insert_credential_def cred_row_def uid Let_def)
    have join: "join_user d c = [?r]" by (rule join_user_single [OF k(1) fresh(1)])
    have new: "cr_access_key_id ?r \<notin> cr_access_key_id ` set (credential_rows d)"
      using fresh(2) by (auto simp: credential_rows_eq [OF ok cr] has_key_def list_ex_iff)
    have pgv: "pg_create_credential env c d = (Ok ?r, add_credential_row c d)"
      using fresh by (simp add: pg join first_row_def)
    have key: "nc_access_key_id c \<notin> nc_access_key_id ` set (t_credentials d)" using fresh(2) by (simp add: has_iff)
    have "simulates (Ok ?r, add_credential_row c d) (Ok ?r, (store_of d)
        \<lparr> in_credentials := bt_insert (cr_access_key_id ?r) ?r (in_credentials (store_of d)) \<rparr>)"
    proof (rule simulatesI)
      show "pg_keys (add_credential_row c d)" using k key by (simp add: pg_keys_def add_credential_row_def)
      show "pg_creds (add_credential_row c d)"
        using cr fresh(1) by (simp add: pg_creds_def add_credential_row_def has_user_def)
      have "store_of (add_credential_row c d)
          = (store_of d)\<lparr> in_credentials := table_map cr_access_key_id (credential_rows d @ [?r]) \<rparr>"
        by (simp add: store_of_def credential_rows_add join) (simp add: add_credential_row_def)
      then show "store_of (add_credential_row c d) = (store_of d)
          \<lparr> in_credentials := bt_insert (cr_access_key_id ?r) ?r (in_credentials (store_of d)) \<rparr>
          \<lparr> in_next_user_id := t_user_seq (add_credential_row c d) \<rparr>"
        unfolding table_add [OF distinct_credential_rows [OF ok cr] new]
        by (simp add: store_sel) (simp add: store_of_def add_credential_row_def)
    qed (simp_all add: store_sel add_credential_row_def)
    then show ?thesis using fresh by (simp add: pgv mem)
  qed
qed

lemma sim_delete_credential:
  assumes "pg_up env" "pg_ok d"
  shows "simulates (pg_delete_credential env u i d) (delete_credential u i (store_of d))"
proof -
  note ok = pg_okD(1) [OF assms(2)] and cr = pg_okD(2) [OF assms(2)] and k = pg_keysD [OF pg_okD(1) [OF assms(2)]]
  let ?hit = "\<lambda>c. nc_access_key_id c = i \<and> nc_username c = u" and ?xs = "t_credentials d"
  let ?d = "d\<lparr> t_credentials := filter (\<lambda>c. \<not> ?hit c) ?xs \<rparr>"
  have get: "bt_get (in_credentials (store_of d)) i = Some r \<longleftrightarrow> (\<exists>c \<in> set ?xs. nc_access_key_id c = i \<and> r = cred_row (t_users d) c)" for r
    by (auto simp: store_credential(1) [OF ok cr] credential_rows_eq [OF ok cr])
  have pg: "pg_delete_credential env u i d
      = (if filter ?hit ?xs = [] then Err (SNotFound ''credentials'' i) else Ok (), ?d)"
    by (simp add: pg_delete_credential_def execute_one_def pg_up_runs [OF assms(1)] DELETE_CREDENTIAL_def Let_def)
  show ?thesis
  proof (cases "\<exists>c \<in> set ?xs. ?hit c")
    case False
    then have "filter ?hit ?xs = []" "filter (\<lambda>c. \<not> ?hit c) ?xs = ?xs"
      "\<not> is_some_and (\<lambda>c. cr_username c = u) (bt_get (in_credentials (store_of d)) i)"
      by (auto simp: filter_empty_conv filter_id_conv is_some_and_iff get)
    then show ?thesis by (simp add: pg delete_credential_def simulates_keep [OF assms(2)])
  next
    case True
    then obtain c where c: "c \<in> set ?xs" "nc_access_key_id c = i" "nc_username c = u" by auto
    then have some: "is_some_and (\<lambda>c. cr_username c = u) (bt_get (in_credentials (store_of d)) i)"
      by (auto simp: is_some_and_iff get)
    have hit: "?hit x \<longleftrightarrow> nc_access_key_id x = i" if "x \<in> set ?xs" for x using c key_unique [OF k(7) that c(1)] by auto
    then have same: "filter (\<lambda>c. \<not> ?hit c) ?xs = filter (\<lambda>x. nc_access_key_id x \<noteq> i) ?xs" by (intro filter_cong) auto
    have ne: "filter ?hit ?xs \<noteq> []" using c by (auto simp: filter_empty_conv)
    have keys: "pg_keys ?d" using k by (simp add: pg_keys_def distinct_map_filter)
    have creds: "pg_creds ?d" using cr by (simp add: pg_creds_def has_user_def)
    have rows: "credential_rows ?d = filter (\<lambda>r. cr_access_key_id r \<noteq> i) (credential_rows d)"
      unfolding credential_rows_eq [OF keys creds] credential_rows_eq [OF ok cr] by (simp add: same [simplified] filter_map o_def)
    have st: "store_of ?d = (store_of d)\<lparr> in_credentials := bt_remove i (in_credentials (store_of d)) \<rparr>"
      using rows table_remove [OF distinct_credential_rows [OF ok cr], of i] by (simp add: store_of_def)
    show ?thesis using some ne keys creds st
      by (simp add: pg delete_credential_def) (intro simulatesI; simp add: store_sel; simp add: store_of_def)
  qed
qed

section \<open>Users\<close>

lemma store_users: "bt_values (in_users (store_of d)) = sort_key ur_username (t_users d)"
  by (simp add: store_sel bt_values_def table_map_def o_def)

lemma taken_iff:
  fixes col :: "user_record \<Rightarrow> string option"
  shows "opt_filter (\<lambda>x. list_ex (\<lambda>u. col u = Some x) (sort_key key rows)) v = None \<longleftrightarrow> \<not> taken col rows v"
  by (cases v) (auto simp: taken_def list_ex_iff)

text \<open>The in-memory store refuses exactly what the unique indexes refuse; an id of the sequence is never taken.\<close>

definition user_refused :: "new_user \<Rightarrow> db \<Rightarrow> bool" where
  "user_refused u d \<longleftrightarrow> has_user d (nu_username u) \<or> taken ur_email (t_users d) (nu_email u)
     \<or> taken ur_external_id (t_users d) (nu_external_id u)"

lemma mem_insert_user:
  assumes "pg_keys d"
  shows "\<not> user_refused u d \<Longrightarrow> insert_user u (store_of d)
      = (Ok (user_row (t_user_seq d + 1) u), (store_of d)\<lparr> in_next_user_id := t_user_seq d + 1,
          in_users := bt_insert (nu_username u) (user_row (t_user_seq d + 1) u) (in_users (store_of d)) \<rparr>)"
    and "user_refused u d \<Longrightarrow> \<exists>e i. insert_user u (store_of d) = (Err (SAlreadyExists e i), store_of d)"
proof -
  have get: "bt_get (in_users (store_of d)) k = None \<longleftrightarrow> \<not> has_user d k" for k using store_has(1) [OF assms, of k] by simp
  note defs = insert_user_def store_users contains_key_iff get Let_def
  note t = taken_iff [where col = ur_email and key = ur_username and rows = "t_users d"] taken_iff [where col = ur_external_id and key = ur_username and rows = "t_users d"]
  have row: "user_record_of n u = user_row n u" for n by (simp add: user_record_of_def user_row_def)
  show "insert_user u (store_of d)
      = (Ok (user_row (t_user_seq d + 1) u), (store_of d)\<lparr> in_next_user_id := t_user_seq d + 1,
          in_users := bt_insert (nu_username u) (user_row (t_user_seq d + 1) u) (in_users (store_of d)) \<rparr>)"
    if "\<not> user_refused u d"
    using that t(1) [of "nu_email u"] t(2) [of "nu_external_id u"] by (simp add: user_refused_def defs row store_sel(2))
  show "\<exists>e i. insert_user u (store_of d) = (Err (SAlreadyExists e i), store_of d)" if "user_refused u d"
    using that t(1) [of "nu_email u"] t(2) [of "nu_external_id u"] by (auto simp: user_refused_def defs split: option.splits)
qed

lemma unused_id:
  assumes "pg_ok d"
  shows "\<not> list_ex (\<lambda>u. ur_user_id u = t_user_seq d + 1) (t_users d)"
proof
  assume "list_ex (\<lambda>u. ur_user_id u = t_user_seq d + 1) (t_users d)"
  then obtain u where u: "u \<in> set (t_users d)" "ur_user_id u = t_user_seq d + 1" by (auto simp: list_ex_iff)
  then have "bt_get (in_users (store_of d)) (ur_username u) = Some u" by (simp add: store_get(1) [OF pg_okD(1) [OF assms]])
  then have "ur_user_id u \<le> in_next_user_id (store_of d)"
    using wf_inner_parts(4) [OF pg_okD(3) [OF assms]] unfolding wf_unique_def by blast
  then show False using u by (simp add: store_sel)
qed

lemma user_conflict_409: "\<exists>e i. user_conflict u c = SAlreadyExists e i"
  by (simp add: user_conflict_def)

lemma next_user_id_facts:
  assumes "pg_ok d"
  shows "pg_keys (next_user_id d)" "pg_creds (next_user_id d)"
    "store_of (next_user_id d) = (store_of d)\<lparr> in_next_user_id := t_user_seq d + 1 \<rparr>"
    "t_user_seq (next_user_id d) = t_user_seq d + 1"
  using pg_okD(1,2) [OF assms]
  by (simp_all add: next_user_id_def pg_keys_def pg_creds_def has_user_def store_of_def)

lemma INSERT_USER_cases:
  assumes "pg_ok d"
  obtains (refused) c where "user_refused u d" "INSERT_USER report u d = (Err (Database ''23505'' (Some c)), next_user_id d)"
  | (stored) "\<not> user_refused u d" "INSERT_USER report u d
      = (Ok (user_row (t_user_seq d + 1) u), (next_user_id d)\<lparr> t_users := t_users d @ [user_row (t_user_seq d + 1) u] \<rparr>)"
proof -
  let ?r = "user_row (t_user_seq d + 1) u"
  have same: "t_users (next_user_id d) = t_users d" "t_user_seq (next_user_id d) = t_user_seq d + 1"
    "\<And>n. has_user (next_user_id d) n = has_user d n" by (simp_all add: next_user_id_def has_user_def)
  have un: "(\<forall>(b, _) \<in> set (users_unique (next_user_id d) ?r). \<not> b) \<longleftrightarrow> \<not> user_refused u d"
    using unused_id [OF assms] by (simp add: users_unique_def user_refused_def same user_row_def)
  have ins: "INSERT_USER report u d = insert_row report (users_unique (next_user_id d) ?r) [] ?r
      (\<lambda>d. d\<lparr> t_users := t_users d @ [?r] \<rparr>) (next_user_id d)"
    by (simp add: INSERT_USER_def Let_def same)
  show thesis
  proof (cases rule: insert_row_cases [of report "users_unique (next_user_id d) ?r" "[]" ?r
        "\<lambda>d. d\<lparr> t_users := t_users d @ [?r] \<rparr>" "next_user_id d"])
    case (unique name)
    then have "\<exists>(b, _) \<in> set (users_unique (next_user_id d) ?r). b" by (fastforce simp: filter_empty_conv)
    then have "user_refused u d" using un by auto
    then show thesis using unique(1) by (intro refused) (simp_all add: ins)
  next
    case stored
    then show thesis using un by (intro that(2)) (simp_all add: ins same)
  qed simp
qed

lemma sim_create_user:
  assumes "pg_up env" "pg_ok d"
  shows "simulates (pg_create_user env u d) (create_user u (store_of d))"
proof -
  note ok = pg_okD(1) [OF assms(2)] and cr = pg_okD(2) [OF assms(2)] and k = pg_keysD [OF pg_okD(1) [OF assms(2)]]
  show ?thesis
  proof (cases rule: INSERT_USER_cases [OF assms(2), of u "pg_report env"])
    case (1 c)
    obtain e i where e: "user_conflict u c = SAlreadyExists e i" using user_conflict_409 by blast
    obtain e' i' where m: "insert_user u (store_of d) = (Err (SAlreadyExists e' i'), store_of d)"
      using mem_insert_user(2) [OF ok 1(1)] by blast
    show ?thesis using 1(2) next_user_id_facts [OF assms(2)]
      by (simp add: pg_create_user_def create_user_def pg_up_runs [OF assms(1)] mapped_def map_unique_def e m)
        (intro simulatesI; simp add: store_sel)
  next
    case 2
    let ?r = "user_row (t_user_seq d + 1) u"
    let ?d = "(next_user_id d)\<lparr> t_users := t_users d @ [?r] \<rparr>"
    have new: "ur_username ?r \<notin> ur_username ` set (t_users d)"
      using 2(1) by (simp add: user_refused_def has_iff user_row_def)
    have join: "join_user ?d c = join_user d c" if "c \<in> set (t_credentials d)" for c
      using that cr new by (auto simp: join_user_def pg_creds_def has_iff)
    then have rows: "credential_rows ?d = credential_rows d"
      by (simp add: credential_rows_def next_user_id_def cong: map_cong)
    have pg: "pg_create_user env u d = (Ok ?r, ?d)"
      using 2(2) by (simp add: pg_create_user_def pg_up_runs [OF assms(1)] mapped_def)
    show ?thesis unfolding pg create_user_def mem_insert_user(1) [OF ok 2(1)]
    proof (rule simulatesI)
      show "pg_keys ?d" using k new by (simp add: pg_keys_def next_user_id_def)
      show "pg_creds ?d" using cr by (auto simp: pg_creds_def has_user_def next_user_id_def)
      show "store_of ?d = (store_of d)\<lparr> in_next_user_id := t_user_seq d + 1,
          in_users := bt_insert (nu_username u) ?r (in_users (store_of d)) \<rparr>\<lparr> in_next_user_id := t_user_seq ?d \<rparr>"
        using table_add [OF k(1) new] rows
        by (simp add: store_of_def next_user_id_def user_row_def)
    qed (simp_all add: next_user_id_def)
  qed
qed

text \<open>A selected row leaves with its references, as \<open>cascade_delete_user\<close> does.\<close>

lemma sim_delete_user:
  assumes "pg_up env" "pg_ok d"
  shows "simulates (pg_delete_user env u d) (delete_user u (store_of d))"
proof (cases "u \<in> ur_username ` set (t_users d)")
  case False
  note k = pg_keysD [OF pg_okD(1) [OF assms(2)]]
  have none: "SELECT_USER u d = []" using False by (auto simp: SELECT_USER_def filter_empty_conv)
  have "bt_get (in_users (store_of d)) u = None" using False by (simp add: store_sel table_missing k)
  moreover have "DELETE_USER u d = (Ok 0, d)" by (simp add: DELETE_USER_def none Let_def)
  ultimately show ?thesis using assms
    by (simp add: pg_delete_user_def delete_user_def execute_one_def pg_up_runs simulates_keep)
next
  case True
  note ok = pg_okD(1) [OF assms(2)] and cr = pg_okD(2) [OF assms(2)] and k = pg_keysD [OF pg_okD(1) [OF assms(2)]]
  let ?d = "d\<lparr> t_users := filter (\<lambda>x. ur_username x \<noteq> u) (t_users d),
        t_group_members := filter (\<lambda>(_, x). x \<noteq> u) (t_group_members d),
        t_user_policies := filter (\<lambda>(x, _). x \<noteq> u) (t_user_policies d),
        t_credentials := filter (\<lambda>c. nc_username c \<noteq> u) (t_credentials d),
        t_external_principals := filter (\<lambda>p. er_username p \<noteq> u) (t_external_principals d) \<rparr>"
  have pg: "pg_delete_user env u d = (Ok (), ?d)"
    using True by (simp add: pg_delete_user_def execute_one_def pg_up_runs [OF assms(1)] DELETE_USER_def SELECT_USER_def
        selected_keys k selected_count)
  have mem: "delete_user u (store_of d)
      = (Ok (), cascade_delete_user u ((store_of d)\<lparr> in_users := bt_remove u (in_users (store_of d)) \<rparr>))"
    using True by (simp add: delete_user_def store_sel table_missing k)
  have keys: "pg_keys ?d" using k by (simp add: pg_keys_def distinct_map_filter)
  have creds: "pg_creds ?d" using cr unfolding pg_creds_def has_user_def list_ex_iff by simp metis
  have join: "cred_row (t_users ?d) c = cred_row (t_users d) c" if "nc_username c \<noteq> u" for c
  proof -
    have "filter (\<lambda>x. ur_username x \<noteq> u \<and> ur_username x = nc_username c) (t_users d)
        = filter (\<lambda>x. ur_username x = nc_username c) (t_users d)" using that by (intro filter_cong) auto
    then show ?thesis by (simp add: cred_row_def conj_commute)
  qed
  have "map (cred_row (t_users ?d)) (t_credentials ?d) = map (cred_row (t_users d)) (t_credentials ?d)"
    using join by (intro map_cong) auto
  then have rows: "credential_rows ?d = filter (\<lambda>r. cr_username r \<noteq> u) (credential_rows d)"
    unfolding credential_rows_eq [OF keys creds] credential_rows_eq [OF ok cr] by (simp add: filter_map o_def)
  show ?thesis unfolding pg mem
  proof (rule simulatesI [OF keys creds])
    show "store_of ?d = (cascade_delete_user u ((store_of d)\<lparr> in_users := bt_remove u (in_users (store_of d)) \<rparr>))
        \<lparr> in_next_user_id := t_user_seq ?d \<rparr>"
      using table_remove [OF k(1), of u] rows table_retain [OF distinct_credential_rows [OF ok cr], of "\<lambda>r. cr_username r \<noteq> u"]
        table_retain [OF k(8), of "\<lambda>p. er_username p \<noteq> u"]
      by (simp add: store_of_def cascade_delete_user_def sort_filter)
  qed (simp_all add: store_sel cascade_delete_user_def)
qed

lemma sim_set_friendly_name:
  assumes "pg_up env" "pg_ok d"
  shows "simulates (pg_set_friendly_name env u n d) (set_friendly_name u n (store_of d))"
proof -
  note ok = pg_okD(1) [OF assms(2)] and cr = pg_okD(2) [OF assms(2)] and k = pg_keysD [OF pg_okD(1) [OF assms(2)]]
  let ?f = "\<lambda>x. x\<lparr> ur_friendly_name := Some n \<rparr>"
  let ?d = "d\<lparr> t_users := map (\<lambda>x. if ur_username x = u then ?f x else x) (t_users d) \<rparr>"
  have names: "map ur_username (t_users ?d) = map ur_username (t_users d)" by simp
  have pg: "pg_set_friendly_name env u n d = (if u \<in> ur_username ` set (t_users d) then Ok () else Err (SNotFound ''user'' u), ?d)"
    by (simp add: pg_set_friendly_name_def execute_one_def pg_up_runs [OF assms(1)] UPDATE_USER_FRIENDLY_NAME_def
        SELECT_USER_def selected_count k)
  show ?thesis
  proof (cases "u \<in> ur_username ` set (t_users d)")
    case False
    then have "ur_username x \<noteq> u" if "x \<in> set (t_users d)" for x using imageI [OF that, of ur_username] by metis
    then have "map (\<lambda>x. if ur_username x = u then ?f x else x) (t_users d) = t_users d" by (intro map_idI) simp
    then have "?d = d" by simp
    moreover have "bt_get (in_users (store_of d)) u = None" using False by (simp add: store_sel table_missing k)
    ultimately show ?thesis using False unfolding pg by (simp add: set_friendly_name_def simulates_keep [OF assms(2)])
  next
    case True
    have "ur_username ` set (t_users ?d) = ur_username ` set (t_users d)" using names by (metis set_map)
    then have has: "has_user ?d x = has_user d x" for x unfolding has_iff by (rule arg_cong)
    have sel: "filter (\<lambda>x. ur_username x = m) (t_users ?d)
        = map (\<lambda>x. if ur_username x = u then ?f x else x) (filter (\<lambda>x. ur_username x = m) (t_users d))" for m
      by (auto simp: filter_map o_def intro!: arg_cong [where f = "map _"] filter_cong)
    have "join_user ?d = join_user d" by (rule ext) (simp only: join_user_def sel, simp add: o_def)
    then have rows: "credential_rows ?d = credential_rows d" by (simp add: credential_rows_def)
    have mem: "set_friendly_name u n (store_of d)
        = (Ok (), (store_of d)\<lparr> in_users := bt_modify u ?f (in_users (store_of d)) \<rparr>)"
      using True by (simp add: set_friendly_name_def store_sel table_missing k)
    have pgv: "pg_set_friendly_name env u n d = (Ok (), ?d)" using True by (simp add: pg)
    show ?thesis unfolding pgv mem
    proof (rule simulatesI)
      have "distinct (map ur_username (t_users ?d))" unfolding names by (rule k)
      then show "pg_keys ?d" using k by (simp add: pg_keys_def)
      show "pg_creds ?d" unfolding pg_creds_def has using cr by (simp add: pg_creds_def)
      show "store_of ?d = (store_of d)\<lparr> in_users := bt_modify u ?f (in_users (store_of d)) \<rparr>
          \<lparr> in_next_user_id := t_user_seq ?d \<rparr>"
        using table_modify [OF k(1), of ?f u] rows by (simp add: store_of_def)
    qed (simp_all add: store_sel)
  qed
qed

end
