(* ===== verification/Pg_Run.thy ===== *)
theory Pg_Run
  imports Pg_Owned
begin

text \<open>
  Runs over the PostgreSQL store: a sequence of writes, each against a database that answers or one that is
  down, and the bootstrap transaction.  Every write is a write of the in-memory store on the rows, so the
  tables always satisfy the constraints of the schema; the bootstrap transaction is a \<open>BootstrapWriter\<close> that
  honours the contract of \<open>Boot_Plan\<close>, so its run is idempotent.
\<close>

section \<open>Sequences of writes\<close>

text \<open>The rows after a write are those of the in-memory write; only the sequence may have moved further.\<close>

definition follows :: "db \<Rightarrow> inner \<Rightarrow> bool" where
  "follows d s \<longleftrightarrow> pg_ok d \<and> store_of d = s\<lparr> in_next_user_id := t_user_seq d \<rparr> \<and> in_next_user_id s \<le> t_user_seq d"

lemma simulates_follows: "simulates p m \<Longrightarrow> wf_inner (snd m) \<Longrightarrow> follows (snd p) (snd m)"
  using simulates_ok [of p m] by (simp add: follows_def simulates_def)

lemma follows_same: "pg_ok d \<Longrightarrow> follows d (store_of d)"
  by (simp add: follows_def store_next store_sel)

lemma conflict_follows: "conflict_hides_missing p m d \<Longrightarrow> pg_ok d \<Longrightarrow> follows (snd p) (snd m)"
  by (simp add: conflict_hides_missing_def follows_same)

lemmas sim_writes = sim_create_user sim_delete_user sim_set_friendly_name sim_create_group sim_delete_group
  sim_create_policy sim_update_policy sim_delete_policy sim_add_membership(1) sim_attach_policy_to_user(1)
  sim_attach_policy_to_group(1) sim_remove_pairs sim_delete_credential sim_delete_external_principal
  sim_claim_token_id sim_delete_expired

lemma run_op_follows:
  assumes "pg_up env" "pg_ok d"
  shows "follows (pg_run_op env op d) (run_op op (store_of d))"
proof -
  have wf: "wf_inner (run_op op (store_of d))" by (rule wf_run_op [OF pg_okD(3) [OF assms(2)]])
  note sim = simulates_follows [OF sim_writes(1) [OF assms]] simulates_follows [OF sim_writes(2) [OF assms]]
    simulates_follows [OF sim_writes(3) [OF assms]] simulates_follows [OF sim_writes(4) [OF assms]]
    simulates_follows [OF sim_writes(5) [OF assms]] simulates_follows [OF sim_writes(6) [OF assms]]
    simulates_follows [OF sim_writes(7) [OF assms]] simulates_follows [OF sim_writes(8) [OF assms]]
    simulates_follows [OF sim_writes(9) [OF assms]] simulates_follows [OF sim_writes(10) [OF assms]]
    simulates_follows [OF sim_writes(11) [OF assms]] simulates_follows [OF sim_writes(12) [OF assms]]
    simulates_follows [OF sim_writes(13) [OF assms]] simulates_follows [OF sim_writes(14) [OF assms]]
    simulates_follows [OF sim_writes(15) [OF assms]] simulates_follows [OF sim_writes(16) [OF assms]]
    simulates_follows [OF sim_writes(17) [OF assms]] simulates_follows [OF sim_writes(18) [OF assms]]
  have cred: "wf_inner (snd (create_credential c (store_of d))) \<Longrightarrow>
      follows (snd (pg_create_credential env c d)) (snd (create_credential c (store_of d)))" for c
    using sim_create_credential [OF assms, of c] by (auto split: if_splits intro: conflict_follows assms simulates_follows)
  have princ: "wf_inner (snd (create_external_principal u i (store_of d))) \<Longrightarrow>
      follows (snd (pg_create_external_principal env u i d)) (snd (create_external_principal u i (store_of d)))" for u i
    using sim_create_external_principal [OF assms, of u i]
    by (auto split: if_splits intro: conflict_follows assms simulates_follows)
  show ?thesis using wf by (cases op) (simp_all add: sim cred princ)
qed

text \<open>A statement that does not reach the database changes nothing.\<close>

lemma down_execute: "pg_down env = Some m \<Longrightarrow> execute env write d = (Err (DriverError m), d)"
  by (simp add: execute_def)

lemma down_unchanged:
  assumes "pg_down env = Some m"
  shows "pg_run_op env op d = d"
  by (cases op) (simp_all add: pg_create_user_def pg_delete_user_def pg_set_friendly_name_def pg_create_group_def
      pg_delete_group_def pg_create_policy_def pg_update_policy_def pg_delete_policy_def pg_add_membership_def
      pg_insert_membership_def pg_remove_membership_def pg_attach_policy_to_user_def pg_insert_user_policy_def
      pg_detach_policy_from_user_def pg_attach_policy_to_group_def pg_insert_group_policy_def
      pg_detach_policy_from_group_def pg_create_credential_def pg_delete_credential_def
      pg_create_external_principal_def pg_delete_external_principal_def pg_claim_token_id_def
      pg_delete_expired_token_ids_def execute_one_def mapped_def down_execute [OF assms])

definition pg_works :: "pg_env \<Rightarrow> bool" where
  "pg_works env \<longleftrightarrow> pg_down env \<noteq> None \<or> report_ok (pg_report env)"

lemma pg_ok_run_op: "pg_works env \<Longrightarrow> pg_ok d \<Longrightarrow> pg_ok (pg_run_op env op d)"
  using down_unchanged [of env] run_op_follows [of env d op]
  by (cases "pg_down env") (auto simp: pg_works_def pg_up_def follows_def)

section \<open>The bootstrap transaction honours the contract\<close>

text \<open>An entry that is in place moves at most the sequence.\<close>

definition pg_idle :: "db \<Rightarrow> db \<Rightarrow> bool" where
  "pg_idle d d' \<longleftrightarrow> d' = d\<lparr> t_user_seq := t_user_seq d' \<rparr>"

lemma pg_idle_refl: "pg_idle d d"
  by (simp add: pg_idle_def)

lemma pg_idle_trans: "pg_idle d d' \<Longrightarrow> pg_idle d' d'' \<Longrightarrow> pg_idle d d''"
proof -
  assume "pg_idle d d'" "pg_idle d' d''"
  then have "d'' = d\<lparr> t_user_seq := t_user_seq d' \<rparr>\<lparr> t_user_seq := t_user_seq d'' \<rparr>" by (metis pg_idle_def)
  then show "pg_idle d d''" by (simp add: pg_idle_def)
qed

lemma pg_idle_next: "pg_idle d (next_user_id d)"
  by (simp add: pg_idle_def next_user_id_def)

definition pg_grow :: "db \<Rightarrow> db \<Rightarrow> bool" where
  "pg_grow d d' \<longleftrightarrow> mem_grow (store_of d) (store_of d')"

lemma grow_next: "mem_grow s (s'\<lparr> in_next_user_id := n \<rparr>) \<longleftrightarrow> mem_grow s s'"
  by (simp add: mem_grow_def)

lemma has_next:
  "mem_has_policy p (s\<lparr> in_next_user_id := n \<rparr>) = mem_has_policy p s"
  "mem_has_group g (s\<lparr> in_next_user_id := n \<rparr>) = mem_has_group g s"
  "mem_has_user u (s\<lparr> in_next_user_id := n \<rparr>) = mem_has_user u s"
  "mem_has_membership x (s\<lparr> in_next_user_id := n \<rparr>) = mem_has_membership x s"
  "mem_has_user_policy x (s\<lparr> in_next_user_id := n \<rparr>) = mem_has_user_policy x s"
  "mem_has_group_policy x (s\<lparr> in_next_user_id := n \<rparr>) = mem_has_group_policy x s"
  "mem_has_credential c (s\<lparr> in_next_user_id := n \<rparr>) = mem_has_credential c s"
  by (simp_all add: mem_has_policy_def mem_has_group_def mem_has_user_def mem_has_membership_def mem_has_user_policy_def
      mem_has_group_policy_def mem_has_credential_def)

text \<open>A step that simulates an in-memory step honours the contract the in-memory step honours.\<close>

definition pg_inv :: "pg_env \<Rightarrow> db \<Rightarrow> bool" where
  "pg_inv env d \<longleftrightarrow> pg_up env \<and> pg_ok d"

lemma lifted_step:
  assumes mem: "insert_if_missing mstep present mem_grow wf_inner (=)"
    and sim: "\<And>x d. pg_inv env d \<Longrightarrow> simulates (step x d) (mstep x (store_of d))"
    and idle: "\<And>x d d'. pg_inv env d \<Longrightarrow> step x d = (Ok False, d') \<Longrightarrow> pg_idle d d'"
    and seq: "\<And>x s n. present x (s\<lparr> in_next_user_id := n \<rparr>) = present x s"
  shows "insert_if_missing step (\<lambda>x d. present x (store_of d)) pg_grow (pg_inv env) pg_idle"
proof unfold_locales
  fix x d d' b
  assume ok: "pg_inv env d"
  have wfd: "wf_inner (store_of d)" using ok by (simp add: pg_inv_def pg_ok_def)
  note wf = insert_if_missing.step_inv [OF mem wfd, of x]
  show "pg_inv env (snd (step x d))" using simulates_ok [OF sim [OF ok] wf] ok by (simp add: pg_inv_def)
  show "present x (store_of d') \<and> pg_grow d d'" if s: "step x d = (Ok b, d')"
  proof -
    obtain s' where m: "mstep x (store_of d) = (Ok b, s')" "store_of d' = s'\<lparr> in_next_user_id := t_user_seq d' \<rparr>"
      using sim [OF ok, of x] s by (cases "mstep x (store_of d)") (simp add: simulates_def)
    show ?thesis
      using insert_if_missing.step_creates [OF mem wfd m(1)] unfolding m(2) pg_grow_def seq grow_next .
  qed
  show "\<exists>d'. step x d = (Ok False, d') \<and> pg_idle d d'" if p: "present x (store_of d)"
  proof -
    obtain s' where m: "mstep x (store_of d) = (Ok False, s')"
      using insert_if_missing.step_present [OF mem wfd p] by auto
    obtain d' where "step x d = (Ok False, d')"
      using sim [OF ok, of x] m by (cases "step x d"; cases "fst (step x d)") (auto simp: simulates_def)
    then show ?thesis using idle [OF ok] by blast
  qed
next
  fix x d d'
  show "present x (store_of d')" if "pg_grow d d'" "present x (store_of d)"
    using insert_if_missing.present_grow [OF mem] that unfolding pg_grow_def by blast
qed (auto simp: pg_grow_def intro: mem_grow_refl mem_grow_trans pg_idle_refl pg_idle_trans)

lemma simulates_map:
  "simulates p m \<Longrightarrow> simulates (map_ok f (fst p), snd p) (map_prod (map_ok f) id m)"
  by (cases p; cases m; cases "fst p"; cases "fst m") (auto simp: simulates_def)

lemma pg_writer_sel:
  "bw_membership (pg_writer env) g u d = affected (pg_insert_membership env g u d)"
  "bw_user_policy (pg_writer env) u p d = affected (pg_insert_user_policy env u p d)"
  "bw_group_policy (pg_writer env) g p d = affected (pg_insert_group_policy env g p d)"
  by (simp_all add: pg_writer_def)

lemma boot_policy_group:
  assumes "pg_up env"
  shows "bw_policy (pg_writer env) p d
      = (if has_policy d (np_name p) then (Ok False, d) else (map_ok (\<lambda>_. True) (fst (pg_create_policy env p d)), snd (pg_create_policy env p d)))"
    and "bw_group (pg_writer env) g d
      = (if has_group d (ng_id g) then (Ok False, d) else (map_ok (\<lambda>_. True) (fst (pg_create_group env g d)), snd (pg_create_group env g d)))"
  by (simp_all add: pg_writer_def affected_def mapped_def pg_up_runs [OF assms] BOOTSTRAP_INSERT_POLICY_def
      BOOTSTRAP_INSERT_GROUP_def pg_create_policy_def pg_create_group_def INSERT_POLICY_def INSERT_GROUP_def
      insert_row_unique insert_row_nil)

lemma sim_boot_policy: "pg_inv env d \<Longrightarrow> simulates (bw_policy (pg_writer env) p d) (mem_insert_policy_if_missing p (store_of d))"
  using simulates_map [OF sim_create_policy [of env d p]] store_has(3) [of d "np_name p"]
  by (auto simp: pg_inv_def boot_policy_group mem_insert_policy_if_missing_def create_policy_def pg_okD simulates_keep)

lemma sim_boot_group: "pg_inv env d \<Longrightarrow> simulates (bw_group (pg_writer env) g d) (mem_insert_group_if_missing g (store_of d))"
  using simulates_map [OF sim_create_group [of env d g]] store_has(2) [of d "ng_id g"]
  by (auto simp: pg_inv_def boot_policy_group mem_insert_group_if_missing_def create_group_def pg_okD simulates_keep)

text \<open>A user entry: the sequence is drawn from before the conflict is found.\<close>

lemma pg_ok_next: "pg_ok d \<Longrightarrow> pg_ok (next_user_id d)"
  using next_user_id_facts [of d] wf_raise_next [OF pg_okD(3), of d "t_user_seq d + 1"]
  by (simp add: pg_ok_def store_sel)

lemma boot_user:
  "BOOTSTRAP_INSERT_USER report u d = (if has_user d (nu_username u) then (Ok 0, next_user_id d)
     else (map_ok (\<lambda>_. 1) (fst (INSERT_USER report u d)), snd (INSERT_USER report u d)))"
  by (simp add: BOOTSTRAP_INSERT_USER_def INSERT_USER_def insert_row_def Let_def user_row_def has_user_def next_user_id_def
      split: sum.splits)

lemma boot_user_step:
  assumes "pg_inv env d"
  shows "user_step (pg_writer env) u d = (case bt_get (in_users (store_of d)) (nu_username u) of
       Some r \<Rightarrow> (if same_identity_as u r then Ok False else Err (SWrongIdentity ''user'' (nu_username u)), next_user_id d)
     | None \<Rightarrow> (map_ok (\<lambda>_. True) (fst (pg_create_user env u d)), snd (pg_create_user env u d)))"
proof -
  have up: "pg_up env" and ok: "pg_ok d" using assms by (simp_all add: pg_inv_def)
  note has = store_has(1) [OF pg_okD(1) [OF ok], of "nu_username u"]
  have got: "pg_get_user env x (next_user_id d) = get_user (store_of d) x" for x
    using point_reads(1) [OF up pg_ok_next [OF ok]] next_user_id_facts(3) [OF ok] by (simp add: get_user_def)
  show ?thesis
  proof (cases "bt_get (in_users (store_of d)) (nu_username u)")
    case None
    then have "\<not> has_user d (nu_username u)" using has by simp
    then show ?thesis using None
      by (cases "INSERT_USER (pg_report env) u d"; cases "fst (INSERT_USER (pg_report env) u d)")
        (simp_all add: user_step_def pg_writer_def or_existing_def mapped_def pg_up_runs [OF up] boot_user pg_create_user_def)
  next
    case (Some r)
    then have "has_user d (nu_username u)" using has by simp
    then show ?thesis using Some got [of "nu_username u"]
      by (simp add: user_step_def pg_writer_def or_existing_def mapped_def pg_up_runs [OF up] boot_user get_user_def)
  qed
qed

lemma sim_boot_user: "pg_inv env d \<Longrightarrow> simulates (user_step (pg_writer env) u d) (user_step mem_writer u (store_of d))"
proof -
  assume inv: "pg_inv env d"
  then have up: "pg_up env" and ok: "pg_ok d" by (simp_all add: pg_inv_def)
  show ?thesis unfolding boot_user_step [OF inv] user_step_mem
    using simulates_map [OF sim_create_user [OF up ok, of u]] next_user_id_facts [OF ok]
    by (auto simp: create_user_def split: option.split intro!: simulatesI) (simp_all add: store_sel)
qed

lemma boot_credential_step:
  assumes "pg_inv env d"
  shows "credential_step (pg_writer env) c d = (case bt_get (in_credentials (store_of d)) (nc_access_key_id c) of
       Some r \<Rightarrow> (if cr_username r = nc_username c then Ok False
         else Err (SWrongIdentity ''credentials'' (nc_access_key_id c)), d)
     | None \<Rightarrow> (map_ok (\<lambda>_. True) (fst (pg_create_credential env c d)), snd (pg_create_credential env c d)))"
proof -
  have up: "pg_up env" and ok: "pg_keys d" and cr: "pg_creds d" using assms by (simp_all add: pg_inv_def pg_ok_def)
  note has = store_credential(2) [OF ok cr, of "nc_access_key_id c"]
  show ?thesis
  proof (cases "bt_get (in_credentials (store_of d)) (nc_access_key_id c)")
    case None
    then have key: "\<not> has_key d (nc_access_key_id c)" using has by simp
    have run: "BOOTSTRAP_INSERT_CREDENTIAL (pg_report env) c d = (if has_user d (nc_username c)
        then (Ok 1, add_credential_row c d)
        else (Err (Database ''23503'' (Some (pg_report env [''credentials_user_fk'']))), d))"
      using key by (simp add: BOOTSTRAP_INSERT_CREDENTIAL_def insert_row_foreign)
    show ?thesis using None key join_user_single [OF pg_keysD(1) [OF ok], of c]
      by (simp add: credential_step_def pg_writer_def or_existing_def mapped_def pg_up_runs [OF up] run
          pg_create_credential_eq [OF up] first_row_def credential_error_def map_error_def missing_user_error)
  next
    case (Some r)
    then have "has_key d (nc_access_key_id c)" using has by simp
    moreover have "pg_get_credential env (nc_access_key_id c) d = Ok r"
      using Some assms by (simp add: point_reads(4) [OF up] pg_inv_def get_credential_def)
    ultimately show ?thesis using Some
      by (simp add: credential_step_def pg_writer_def or_existing_def mapped_def pg_up_runs [OF up] BOOTSTRAP_INSERT_CREDENTIAL_def)
  qed
qed

lemma sim_boot_credential:
  "pg_inv env d \<Longrightarrow> simulates (credential_step (pg_writer env) c d) (credential_step mem_writer c (store_of d))"
proof -
  assume inv: "pg_inv env d"
  then have up: "pg_up env" and ok: "pg_ok d" by (simp_all add: pg_inv_def)
  note has = store_credential(2) [OF pg_okD(1,2) [OF ok], of "nc_access_key_id c"]
  show ?thesis
  proof (cases "bt_get (in_credentials (store_of d)) (nc_access_key_id c)")
    case None
    then have "simulates (pg_create_credential env c d) (create_credential c (store_of d))"
      using sim_create_credential [OF up ok, of c] has by simp
    from simulates_map [OF this, of "\<lambda>_. True"] None show ?thesis
      by (simp add: boot_credential_step [OF inv] credential_step_mem create_credential_def)
  next
    case (Some r)
    then show ?thesis by (simp add: boot_credential_step [OF inv] credential_step_mem simulates_keep [OF ok])
  qed
qed

section \<open>The steps of the transaction\<close>

lemma pg_policy_step:
  "insert_if_missing (bw_policy (pg_writer env)) (\<lambda>p d. mem_has_policy p (store_of d)) pg_grow (pg_inv env) pg_idle"
  by (rule lifted_step [OF mem_policy_step sim_boot_policy _ has_next(1)])
    (auto simp: pg_inv_def boot_policy_group pg_idle_refl map_ok_def split: if_splits sum.splits)

lemma pg_group_step:
  "insert_if_missing (bw_group (pg_writer env)) (\<lambda>g d. mem_has_group g (store_of d)) pg_grow (pg_inv env) pg_idle"
  by (rule lifted_step [OF mem_group_step sim_boot_group _ has_next(2)])
    (auto simp: pg_inv_def boot_policy_group pg_idle_refl map_ok_def split: if_splits sum.splits)

lemma pg_user_step:
  "insert_if_missing (user_step (pg_writer env)) (\<lambda>u d. mem_has_user u (store_of d)) pg_grow (pg_inv env) pg_idle"
  by (rule lifted_step [OF mem_user_step sim_boot_user _ has_next(3)])
    (auto simp: boot_user_step pg_idle_next map_ok_def split: if_splits option.splits sum.splits)

lemma pg_credential_step:
  "insert_if_missing (credential_step (pg_writer env)) (\<lambda>c d. mem_has_credential c (store_of d)) pg_grow (pg_inv env) pg_idle"
  by (rule lifted_step [OF mem_credential_step sim_boot_credential _ has_next(7)])
    (auto simp: boot_credential_step pg_idle_refl map_ok_def split: if_splits option.splits sum.splits)

text \<open>A pair: no row affected means nothing was written.\<close>

lemma affected_none:
  assumes "affected (mapped f (\<lambda>n. n) (if there then (Ok 0, d) else insert_row report us fs 1 add d)) = (Ok False, d')"
  shows "d' = d"
proof (cases "there")
  case True
  then show ?thesis using assms by (simp add: affected_def mapped_def)
next
  case False
  then show ?thesis using assms
    by (cases rule: insert_row_cases [of report us fs "1 :: nat" add d]) (auto simp: affected_def mapped_def)
qed

lemma pg_pair_idle:
  assumes "pg_inv env d"
  shows "affected (pg_insert_membership env g u d) = (Ok False, d') \<Longrightarrow> pg_idle d d'"
    and "affected (pg_insert_user_policy env u p d) = (Ok False, d') \<Longrightarrow> pg_idle d d'"
    and "affected (pg_insert_group_policy env g p d) = (Ok False, d') \<Longrightarrow> pg_idle d d'"
  using assms
  by (auto simp: pg_inv_def pg_insert_membership_def pg_insert_user_policy_def pg_insert_group_policy_def pg_up_runs
      INSERT_MEMBERSHIP_def INSERT_USER_POLICY_def INSERT_GROUP_POLICY_def pg_idle_refl dest!: affected_none)

lemma pg_membership_step: "insert_if_missing (\<lambda>(g, u). bw_membership (pg_writer env) g u)
    (\<lambda>x d. mem_has_membership x (store_of d)) pg_grow (pg_inv env) pg_idle"
  by (rule lifted_step [OF mem_membership_step _ _ has_next(4)])
    (auto simp: pg_writer_sel pg_inv_def intro: sim_add_membership(2) pg_pair_idle(1))

lemma pg_user_policy_step: "insert_if_missing (\<lambda>(u, p). bw_user_policy (pg_writer env) u p)
    (\<lambda>x d. mem_has_user_policy x (store_of d)) pg_grow (pg_inv env) pg_idle"
  by (rule lifted_step [OF mem_user_policy_step _ _ has_next(5)])
    (auto simp: pg_writer_sel pg_inv_def intro: sim_attach_policy_to_user(2) pg_pair_idle(2))

lemma pg_group_policy_step: "insert_if_missing (\<lambda>(g, p). bw_group_policy (pg_writer env) g p)
    (\<lambda>x d. mem_has_group_policy x (store_of d)) pg_grow (pg_inv env) pg_idle"
  by (rule lifted_step [OF mem_group_policy_step _ _ has_next(6)])
    (auto simp: pg_writer_sel pg_inv_def intro: sim_attach_policy_to_group(2) pg_pair_idle(3))

interpretation pg_boot: bootstrap_writer "pg_writer env" "pg_inv env" pg_grow pg_idle
    "\<lambda>p d. mem_has_policy p (store_of d)" "\<lambda>g d. mem_has_group g (store_of d)" "\<lambda>u d. mem_has_user u (store_of d)"
    "\<lambda>x d. mem_has_membership x (store_of d)" "\<lambda>x d. mem_has_user_policy x (store_of d)"
    "\<lambda>x d. mem_has_group_policy x (store_of d)" "\<lambda>c d. mem_has_credential c (store_of d)" for env
  by (rule bootstrap_writer.intro)
    (rule pg_policy_step pg_group_step pg_user_step pg_membership_step pg_user_policy_step pg_group_policy_step
      pg_credential_step)+

text \<open>The bootstrap transaction: all or nothing, and idempotent.\<close>

lemma pg_apply_bootstrap_Ok:
  "pg_down env = None \<Longrightarrow> pg_apply_bootstrap env plan d = (Ok r, d') \<longleftrightarrow> apply_plan (pg_writer env) plan d = (Ok r, d')"
  by (auto simp: pg_apply_bootstrap_def split: prod.splits sum.splits)

lemma pg_apply_bootstrap_Err: "pg_apply_bootstrap env plan d = (Err e, d') \<Longrightarrow> pg_idle d d'"
  by (auto simp: pg_apply_bootstrap_def pg_idle_def split: prod.splits sum.splits option.splits)

lemma pg_bootstrap_idempotent:
  assumes "pg_up env" "pg_ok d" "pg_apply_bootstrap env plan d = (Ok r, d')"
  shows "\<exists>d''. pg_apply_bootstrap env plan d' = (Ok (skipped_report plan), d'') \<and> pg_idle d' d''"
    and "pg_ok d'" "pg_grow d d'"
proof -
  have up: "pg_down env = None" "pg_inv env d" using assms(1,2) by (simp_all add: pg_up_def pg_inv_def)
  note run = assms(3) [unfolded pg_apply_bootstrap_Ok [OF up(1)]]
  show "\<exists>d''. pg_apply_bootstrap env plan d' = (Ok (skipped_report plan), d'') \<and> pg_idle d' d''"
    unfolding pg_apply_bootstrap_Ok [OF up(1)] by (rule pg_boot.apply_plan_twice [OF up(2) run])
  show "pg_ok d'" "pg_grow d d'" using pg_boot.apply_plan_creates(1,2) [OF up(2) run] by (simp_all add: pg_inv_def)
qed

section \<open>Reachable tables\<close>

text \<open>The sequence only moves forward, also in a run that fails.\<close>

lemma plan_loop_keeps: "(\<And>x w. P w \<Longrightarrow> P (snd (f x w))) \<Longrightarrow> P w \<Longrightarrow> P (snd (plan_loop f b xs r w))"
proof (induction xs arbitrary: r w)
  case (Cons x xs)
  obtain a w' where r: "f x w = (a, w')" by force
  then have "P w'" using Cons.prems(1) [OF Cons.prems(2), of x] by simp
  then show ?case using Cons.IH [OF Cons.prems(1)] r by (cases a) simp_all
qed simp

lemma then_loop_keeps: "P (snd m) \<Longrightarrow> (\<And>r w. P w \<Longrightarrow> P (snd (k r w))) \<Longrightarrow> P (snd (then_loop m k))"
  by (auto simp: then_loop_def split: prod.split sum.split)

lemma execute_keeps: "P d \<Longrightarrow> P (snd (write d)) \<Longrightarrow> P (snd (execute env write d))"
  by (simp add: execute_def split: option.split)

lemma insert_row_keeps: "P d \<Longrightarrow> P (add d) \<Longrightarrow> P (snd (insert_row report us fs r add d))"
  by (simp add: insert_row_def split: sum.split)

lemma seq_keeps:
  fixes n :: int
  assumes "n \<le> t_user_seq d"
  shows "n \<le> t_user_seq (snd (bw_policy (pg_writer env) p d))" "n \<le> t_user_seq (snd (bw_group (pg_writer env) g d))"
    "n \<le> t_user_seq (snd (user_step (pg_writer env) u d))"
    "n \<le> t_user_seq (snd (affected (pg_insert_membership env gid name d)))"
    "n \<le> t_user_seq (snd (affected (pg_insert_user_policy env name pid d)))"
    "n \<le> t_user_seq (snd (affected (pg_insert_group_policy env gid pid d)))"
    "n \<le> t_user_seq (snd (credential_step (pg_writer env) c d))"
proof -
  have row: "n \<le> t_user_seq (snd (insert_row rep us fs r add e))" if "n \<le> t_user_seq e" "n \<le> t_user_seq (add e)"
    for rep us fs and r :: nat and add e
    using that by (rule insert_row_keeps)
  have run: "n \<le> t_user_seq (snd (execute env stmt d))" if "n \<le> t_user_seq (snd (stmt d))" for stmt :: "nat sql_statement"
    using assms that by (rule execute_keeps)
  have snds: "snd (mapped f h x) = snd x" "snd (affected y) = snd y" for f h
    and x :: "(sqlx_error + nat) \<times> db" and y :: "nat store_result \<times> db"
    by (simp_all add: mapped_def affected_def)
  have user: "n \<le> t_user_seq (snd (BOOTSTRAP_INSERT_USER rep u d))" for rep
    using assms by (simp add: BOOTSTRAP_INSERT_USER_def Let_def next_user_id_def row)
  have cred: "n \<le> t_user_seq (snd (BOOTSTRAP_INSERT_CREDENTIAL rep c d))" for rep
    using assms by (simp add: BOOTSTRAP_INSERT_CREDENTIAL_def add_credential_row_def row)
  have pairs: "n \<le> t_user_seq (snd (INSERT_MEMBERSHIP rep gid name d))"
    "n \<le> t_user_seq (snd (INSERT_USER_POLICY rep name pid d))" "n \<le> t_user_seq (snd (INSERT_GROUP_POLICY rep gid pid d))" for rep
    using assms by (simp_all add: INSERT_MEMBERSHIP_def INSERT_USER_POLICY_def INSERT_GROUP_POLICY_def row)
  have plain: "n \<le> t_user_seq (snd (BOOTSTRAP_INSERT_POLICY p d))" "n \<le> t_user_seq (snd (BOOTSTRAP_INSERT_GROUP g d))"
    using assms by (simp_all add: BOOTSTRAP_INSERT_POLICY_def BOOTSTRAP_INSERT_GROUP_def add_policy_row_def add_group_row_def)
  show "n \<le> t_user_seq (snd (bw_policy (pg_writer env) p d))" "n \<le> t_user_seq (snd (bw_group (pg_writer env) g d))"
    by (simp_all add: pg_writer_def snds run plain)
  show "n \<le> t_user_seq (snd (affected (pg_insert_membership env gid name d)))"
    "n \<le> t_user_seq (snd (affected (pg_insert_user_policy env name pid d)))"
    "n \<le> t_user_seq (snd (affected (pg_insert_group_policy env gid pid d)))"
    by (simp_all add: snds pg_insert_membership_def pg_insert_user_policy_def pg_insert_group_policy_def run pairs)
  have "n \<le> t_user_seq (snd (bw_user (pg_writer env) u d))" "n \<le> t_user_seq (snd (bw_credential (pg_writer env) c d))"
    using run [where stmt = "BOOTSTRAP_INSERT_USER (pg_report env) u", OF user]
      run [where stmt = "BOOTSTRAP_INSERT_CREDENTIAL (pg_report env) c", OF cred]
    by (auto simp: pg_writer_def or_existing_def mapped_def split: prod.split sum.split)
  then show "n \<le> t_user_seq (snd (user_step (pg_writer env) u d))" "n \<le> t_user_seq (snd (credential_step (pg_writer env) c d))"
    by (auto simp: user_step_def credential_step_def split: prod.split sum.split option.split)
qed

lemma apply_plan_seq: "n \<le> t_user_seq d \<Longrightarrow> n \<le> t_user_seq (snd (apply_plan (pg_writer env) plan d))"
  unfolding apply_plan_def
  by (intro then_loop_keeps [where P = "\<lambda>e. n \<le> t_user_seq e"] plan_loop_keeps [where P = "\<lambda>e. n \<le> t_user_seq e"])
    (auto simp: pg_writer_sel intro: seq_keeps)

lemma pg_ok_seq: "pg_ok d \<Longrightarrow> t_user_seq d \<le> n \<Longrightarrow> pg_ok (d\<lparr> t_user_seq := n \<rparr>)"
proof -
  assume ok: "pg_ok d" and n: "t_user_seq d \<le> n"
  have "store_of (d\<lparr> t_user_seq := n \<rparr>) = (store_of d)\<lparr> in_next_user_id := n \<rparr>" by (simp add: store_of_def)
  moreover have "wf_inner ((store_of d)\<lparr> in_next_user_id := n \<rparr>)"
    by (rule wf_raise_next) (use ok n in \<open>simp_all add: pg_ok_def store_sel\<close>)
  ultimately show ?thesis using ok by (simp add: pg_ok_def pg_keys_def pg_creds_def has_user_def)
qed

lemma pg_ok_bootstrap:
  assumes "pg_works env" "pg_ok d"
  shows "pg_ok (snd (pg_apply_bootstrap env plan d))"
proof (cases "pg_down env")
  case None
  then have up: "pg_up env" using assms(1) by (simp add: pg_works_def pg_up_def)
  obtain r d' where run: "apply_plan (pg_writer env) plan d = (r, d')" by force
  show ?thesis
  proof (cases r)
    case (Inl e)
    have "t_user_seq d \<le> t_user_seq d'" using apply_plan_seq [of "t_user_seq d" d env plan] run by simp
    then show ?thesis using None run Inl pg_ok_seq [OF assms(2)] by (simp add: pg_apply_bootstrap_def)
  next
    case (Inr rep)
    then have "pg_apply_bootstrap env plan d = (Ok rep, d')" using None run by (simp add: pg_apply_bootstrap_def)
    then show ?thesis using pg_bootstrap_idempotent(2) [OF up assms(2)] by simp
  qed
qed (simp add: pg_apply_bootstrap_def assms(2))

text \<open>
  The tables a server can meet: those of the migration, then any writes and bootstrap runs, each against a
  database that answers or one that is down.
\<close>

inductive pg_reachable :: "db \<Rightarrow> bool" where
  init: "pg_reachable empty_db"
| step: "pg_reachable d \<Longrightarrow> pg_works env \<Longrightarrow> pg_reachable (pg_run_op env op d)"
| boot: "pg_reachable d \<Longrightarrow> pg_works env \<Longrightarrow> pg_reachable (snd (pg_apply_bootstrap env plan d))"

lemma pg_reachable_ok: "pg_reachable d \<Longrightarrow> pg_ok d"
  by (induction rule: pg_reachable.induct) (simp_all add: pg_ok_empty pg_ok_run_op pg_ok_bootstrap)

end
