(* ===== verification/Store_Trait.thy ===== *)
theory Store_Trait
  imports Mem_Spec Boot_Plan
begin

text \<open>
  The storage contract of \<open>lakefs-authz/src/store/traits.rs\<close>: the operations a server asks of its store, as a
  record over the state of the store.  A handler holds an \<open>Arc<dyn Store>\<close>; here it takes the record.  Reads
  give the state first, as the operations of the in-memory store do.
\<close>

record 's store_trait =
  so_create_user :: "new_user \<Rightarrow> 's \<Rightarrow> user_record store_result \<times> 's"
  so_get_user :: "'s \<Rightarrow> string \<Rightarrow> user_record store_result"
  so_find_user_by_id :: "'s \<Rightarrow> int \<Rightarrow> user_record option store_result"
  so_find_user_by_email :: "'s \<Rightarrow> string \<Rightarrow> user_record option store_result"
  so_find_user_by_external_id :: "'s \<Rightarrow> string \<Rightarrow> user_record option store_result"
  so_delete_user :: "string \<Rightarrow> 's \<Rightarrow> unit store_result \<times> 's"
  so_list_users :: "'s \<Rightarrow> page_query \<Rightarrow> user_record page_of store_result"
  so_set_friendly_name :: "string \<Rightarrow> string \<Rightarrow> 's \<Rightarrow> unit store_result \<times> 's"
  so_create_group :: "new_group \<Rightarrow> 's \<Rightarrow> group_record store_result \<times> 's"
  so_get_group :: "'s \<Rightarrow> string \<Rightarrow> group_record store_result"
  so_delete_group :: "string \<Rightarrow> 's \<Rightarrow> unit store_result \<times> 's"
  so_list_groups :: "'s \<Rightarrow> page_query \<Rightarrow> group_record page_of store_result"
  so_create_policy :: "new_policy \<Rightarrow> 's \<Rightarrow> policy_record store_result \<times> 's"
  so_get_policy :: "'s \<Rightarrow> string \<Rightarrow> policy_record store_result"
  so_update_policy :: "new_policy \<Rightarrow> 's \<Rightarrow> policy_record store_result \<times> 's"
  so_delete_policy :: "string \<Rightarrow> 's \<Rightarrow> unit store_result \<times> 's"
  so_list_policies :: "'s \<Rightarrow> page_query \<Rightarrow> policy_record page_of store_result"
  so_add_membership :: "string \<Rightarrow> string \<Rightarrow> 's \<Rightarrow> unit store_result \<times> 's"
  so_remove_membership :: "string \<Rightarrow> string \<Rightarrow> 's \<Rightarrow> unit store_result \<times> 's"
  so_list_group_members :: "'s \<Rightarrow> string \<Rightarrow> page_query \<Rightarrow> user_record page_of store_result"
  so_list_user_groups :: "'s \<Rightarrow> string \<Rightarrow> page_query \<Rightarrow> group_record page_of store_result"
  so_attach_policy_to_user :: "string \<Rightarrow> string \<Rightarrow> 's \<Rightarrow> unit store_result \<times> 's"
  so_detach_policy_from_user :: "string \<Rightarrow> string \<Rightarrow> 's \<Rightarrow> unit store_result \<times> 's"
  so_list_user_policies :: "'s \<Rightarrow> string \<Rightarrow> page_query \<Rightarrow> policy_record page_of store_result"
  so_list_effective_user_policies :: "'s \<Rightarrow> string \<Rightarrow> page_query \<Rightarrow> policy_record page_of store_result"
  so_attach_policy_to_group :: "string \<Rightarrow> string \<Rightarrow> 's \<Rightarrow> unit store_result \<times> 's"
  so_detach_policy_from_group :: "string \<Rightarrow> string \<Rightarrow> 's \<Rightarrow> unit store_result \<times> 's"
  so_list_group_policies :: "'s \<Rightarrow> string \<Rightarrow> page_query \<Rightarrow> policy_record page_of store_result"
  so_create_credential :: "new_credential \<Rightarrow> 's \<Rightarrow> credential_record store_result \<times> 's"
  so_get_credential :: "'s \<Rightarrow> string \<Rightarrow> credential_record store_result"
  so_get_user_credential :: "'s \<Rightarrow> string \<Rightarrow> string \<Rightarrow> credential_record store_result"
  so_delete_credential :: "string \<Rightarrow> string \<Rightarrow> 's \<Rightarrow> unit store_result \<times> 's"
  so_list_user_credentials :: "'s \<Rightarrow> string \<Rightarrow> page_query \<Rightarrow> credential_record page_of store_result"
  so_create_external_principal :: "string \<Rightarrow> string \<Rightarrow> 's \<Rightarrow> unit store_result \<times> 's"
  so_delete_external_principal :: "string \<Rightarrow> string \<Rightarrow> 's \<Rightarrow> unit store_result \<times> 's"
  so_get_external_principal :: "'s \<Rightarrow> string \<Rightarrow> external_principal_record store_result"
  so_list_user_external_principals :: "'s \<Rightarrow> string \<Rightarrow> page_query \<Rightarrow> external_principal_record page_of store_result"
  so_claim_token_id :: "string \<Rightarrow> int \<Rightarrow> 's \<Rightarrow> unit store_result \<times> 's"
  so_delete_expired_token_ids :: "int \<Rightarrow> 's \<Rightarrow> nat store_result \<times> 's"
  so_ping :: "'s \<Rightarrow> unit store_result"
  so_apply_bootstrap :: "bootstrap_plan \<Rightarrow> 's \<Rightarrow> bootstrap_report store_result \<times> 's"

text \<open>\<open>MemStore\<close> as a \<open>Store\<close>; it is available unless a test marks it otherwise.\<close>

definition mem_impl :: "inner store_trait" where
  "mem_impl = \<lparr> so_create_user = create_user, so_get_user = get_user, so_find_user_by_id =
     find_user_by_id, so_find_user_by_email = find_user_by_email, so_find_user_by_external_id =
     find_user_by_external_id, so_delete_user = delete_user, so_list_users = list_users, so_set_friendly_name
     = set_friendly_name, so_create_group = create_group, so_get_group = get_group, so_delete_group =
     delete_group, so_list_groups = list_groups, so_create_policy = create_policy, so_get_policy = get_policy,
     so_update_policy = update_policy, so_delete_policy = delete_policy, so_list_policies = list_policies,
     so_add_membership = add_membership, so_remove_membership = remove_membership, so_list_group_members =
     list_group_members, so_list_user_groups = list_user_groups, so_attach_policy_to_user =
     attach_policy_to_user, so_detach_policy_from_user = detach_policy_from_user, so_list_user_policies =
     list_user_policies, so_list_effective_user_policies = list_effective_user_policies,
     so_attach_policy_to_group = attach_policy_to_group, so_detach_policy_from_group =
     detach_policy_from_group, so_list_group_policies = list_group_policies, so_create_credential =
     create_credential, so_get_credential = get_credential, so_get_user_credential = get_user_credential,
     so_delete_credential = delete_credential, so_list_user_credentials = list_user_credentials,
     so_create_external_principal = create_external_principal, so_delete_external_principal =
     delete_external_principal, so_get_external_principal = get_external_principal,
     so_list_user_external_principals = list_user_external_principals, so_claim_token_id = claim_token_id,
     so_delete_expired_token_ids = delete_expired_token_ids, so_ping = (\<lambda>s. ping \<lparr> ms_inner =
     s, ms_unavailable = False \<rparr>), so_apply_bootstrap = apply_bootstrap \<rparr>"

lemma mem_impl_sel [simp]:
  "so_create_user mem_impl = create_user"
  "so_get_user mem_impl = get_user"
  "so_find_user_by_id mem_impl = find_user_by_id"
  "so_find_user_by_email mem_impl = find_user_by_email"
  "so_find_user_by_external_id mem_impl = find_user_by_external_id"
  "so_delete_user mem_impl = delete_user"
  "so_list_users mem_impl = list_users"
  "so_set_friendly_name mem_impl = set_friendly_name"
  "so_create_group mem_impl = create_group"
  "so_get_group mem_impl = get_group"
  "so_delete_group mem_impl = delete_group"
  "so_list_groups mem_impl = list_groups"
  "so_create_policy mem_impl = create_policy"
  "so_get_policy mem_impl = get_policy"
  "so_update_policy mem_impl = update_policy"
  "so_delete_policy mem_impl = delete_policy"
  "so_list_policies mem_impl = list_policies"
  "so_add_membership mem_impl = add_membership"
  "so_remove_membership mem_impl = remove_membership"
  "so_list_group_members mem_impl = list_group_members"
  "so_list_user_groups mem_impl = list_user_groups"
  "so_attach_policy_to_user mem_impl = attach_policy_to_user"
  "so_detach_policy_from_user mem_impl = detach_policy_from_user"
  "so_list_user_policies mem_impl = list_user_policies"
  "so_list_effective_user_policies mem_impl = list_effective_user_policies"
  "so_attach_policy_to_group mem_impl = attach_policy_to_group"
  "so_detach_policy_from_group mem_impl = detach_policy_from_group"
  "so_list_group_policies mem_impl = list_group_policies"
  "so_create_credential mem_impl = create_credential"
  "so_get_credential mem_impl = get_credential"
  "so_get_user_credential mem_impl = get_user_credential"
  "so_delete_credential mem_impl = delete_credential"
  "so_list_user_credentials mem_impl = list_user_credentials"
  "so_create_external_principal mem_impl = create_external_principal"
  "so_delete_external_principal mem_impl = delete_external_principal"
  "so_get_external_principal mem_impl = get_external_principal"
  "so_list_user_external_principals mem_impl = list_user_external_principals"
  "so_claim_token_id mem_impl = claim_token_id"
  "so_delete_expired_token_ids mem_impl = delete_expired_token_ids"
  "so_ping mem_impl s = Ok ()"
  "so_apply_bootstrap mem_impl = apply_bootstrap"
  by (simp_all add: mem_impl_def ping_def)

end
