(* ===== verification/Token.thy ===== *)
theory Token
  imports Validate
begin

text \<open>
  Bearer tokens: \<open>lakefs-auth-core/src/auth/token.rs\<close> and \<open>auth/middleware.rs\<close>.  The \<open>jsonwebtoken\<close> crate is
  a parameter: \<open>encode\<close> signs claims with a key, \<open>decode\<close> tells whether a token passes a validation.
  The clock, the random id of a token and the handler behind the middleware are parameters too.
\<close>

definition INTERNAL_AUDIENCE :: string where "INTERNAL_AUDIENCE = ''auth-client''"
definition INTERNAL_SUBJECT :: string where "INTERNAL_SUBJECT = ''_lakefs-internal''"
definition LEEWAY_SECONDS :: int where "LEEWAY_SECONDS = 60"

record internal_claims =
  ic_jti :: string
  ic_aud :: "string list"
  ic_sub :: string
  ic_iat :: int
  ic_exp :: int

definition saturating_add_i64 :: "int \<Rightarrow> int \<Rightarrow> int" where
  "saturating_add_i64 a b = max i64_min (min i64_max (a + b))"

text \<open>The time to live is a \<open>Duration\<close>, whose seconds are a \<open>u64\<close>.\<close>

definition expires_at :: "int \<Rightarrow> nat \<Rightarrow> int" where
  "expires_at issued_at ttl =
     saturating_add_i64 issued_at (if int ttl \<le> i64_max then int ttl else i64_max div 2)"

definition internal_claims_at :: "string \<Rightarrow> int \<Rightarrow> nat \<Rightarrow> internal_claims" where
  "internal_claims_at jti now ttl = \<lparr> ic_jti = jti, ic_aud = [INTERNAL_AUDIENCE], ic_sub = INTERNAL_SUBJECT,
     ic_iat = now, ic_exp = expires_at now ttl \<rparr>"

definition mint_internal_token ::
    "('k \<Rightarrow> internal_claims \<Rightarrow> string + string) \<Rightarrow> string \<Rightarrow> int \<Rightarrow> 'k \<Rightarrow> nat \<Rightarrow> string + string" where
  "mint_internal_token encode jti now key ttl = encode key (internal_claims_at jti now ttl)"

section \<open>The verifier\<close>

record validation =
  val_algorithm :: string
  val_audience :: "string list"
  val_required :: "string list"
  val_leeway :: int

record token_verifier =
  tv_static_token :: "string option"
  tv_decoding_key :: "string option"
  tv_validation :: validation
  tv_disabled :: bool

datatype verifier_config_error = NothingConfigured

definition new_verifier :: "string option \<Rightarrow> string option \<Rightarrow> bool \<Rightarrow> verifier_config_error + token_verifier" where
  "new_verifier secret_key api_token disabled =
    (let static_token = Option.bind api_token non_blank;
         decoding_key = (if static_token \<noteq> None then None else Option.bind secret_key non_blank)
     in if \<not> disabled \<and> static_token = None \<and> decoding_key = None then Err NothingConfigured
        else Ok \<lparr> tv_static_token = static_token, tv_decoding_key = decoding_key,
                  tv_validation = \<lparr> val_algorithm = ''HS256'', val_audience = [INTERNAL_AUDIENCE],
                    val_required = [''exp'', ''aud''], val_leeway = LEEWAY_SECONDS \<rparr>,
                  tv_disabled = disabled \<rparr>)"

definition verifier_mode :: "token_verifier \<Rightarrow> string" where
  "verifier_mode v = (if tv_disabled v then ''disabled''
     else if tv_static_token v \<noteq> None then ''static token'' else ''shared secret (HS256)'')"

definition verify :: "(string \<Rightarrow> validation \<Rightarrow> string \<Rightarrow> bool) \<Rightarrow> token_verifier \<Rightarrow> string \<Rightarrow> api_error + unit" where
  "verify decode v bearer =
    (if tv_disabled v then Ok ()
     else if tv_static_token v = Some bearer then Ok ()
     else if is_some_and (\<lambda>key. decode key (tv_validation v) bearer) (tv_decoding_key v) then Ok ()
     else Err (Unauthorized ''invalid bearer token''))"

section \<open>The middleware\<close>

definition bearer_token :: "string \<Rightarrow> string option" where
  "bearer_token header = (case split_once CHR '' '' header of None \<Rightarrow> None
     | Some (scheme, rest) \<Rightarrow>
         if \<not> eq_ignore_ascii_case scheme ''bearer'' then None
         else let token = trim rest in if token \<noteq> [] then Some token else None)"

text \<open>
  \<open>header\<close> is the value of \<open>Authorization\<close> when there is one and it is text; \<open>next\<close> the rest of the server.
\<close>

definition require_auth :: "(string \<Rightarrow> validation \<Rightarrow> string \<Rightarrow> bool) \<Rightarrow> token_verifier \<Rightarrow> string option
    \<Rightarrow> (api_error + 'r) \<Rightarrow> api_error + 'r" where
  "require_auth decode v header next_run = (case Option.bind header bearer_token of
     None \<Rightarrow> (if tv_disabled v then next_run else Err (Unauthorized ''missing bearer token''))
   | Some token \<Rightarrow> (case verify decode v token of
       Inr _ \<Rightarrow> next_run
     | Inl e \<Rightarrow> Err e))"

section \<open>Properties\<close>

lemma expires_at_range: "i64_min \<le> expires_at i t \<and> expires_at i t \<le> i64_max"
  by (simp add: expires_at_def saturating_add_i64_def i64_min_def i64_max_def)

lemma expires_at_mono:
  assumes "i64_min \<le> i" "i \<le> i64_max"
  shows "i \<le> expires_at i t"
  using assms by (auto simp: expires_at_def saturating_add_i64_def i64_min_def i64_max_def)

lemma expires_at_exact:
  "i64_min \<le> i \<Longrightarrow> i + int t \<le> i64_max \<Longrightarrow> int t \<le> i64_max \<Longrightarrow> expires_at i t = i + int t"
  by (auto simp: expires_at_def saturating_add_i64_def i64_min_def i64_max_def)

lemma new_verifier_cases:
  assumes "new_verifier secret_key api_token disabled = Ok v"
  shows "tv_static_token v = Option.bind api_token non_blank"
    and "tv_static_token v \<noteq> None \<Longrightarrow> tv_decoding_key v = None"
    and "tv_static_token v = None \<Longrightarrow> tv_decoding_key v = Option.bind secret_key non_blank"
    and "tv_disabled v = disabled"
    and "\<not> disabled \<Longrightarrow> tv_static_token v \<noteq> None \<or> tv_decoding_key v \<noteq> None"
    and "tv_validation v = \<lparr> val_algorithm = ''HS256'', val_audience = [INTERNAL_AUDIENCE],
           val_required = [''exp'', ''aud''], val_leeway = LEEWAY_SECONDS \<rparr>"
  using assms by (auto simp: new_verifier_def Let_def split: if_splits)

lemma verify_iff:
  "verify decode v bearer = Ok u \<longleftrightarrow> tv_disabled v \<or> tv_static_token v = Some bearer
     \<or> (\<exists>key. tv_decoding_key v = Some key \<and> decode key (tv_validation v) bearer)"
  by (auto simp: verify_def is_some_and_iff)

lemma verify_status: "verify decode v bearer = Err e \<Longrightarrow> status_code e = 401"
  by (auto simp: verify_def split: if_splits)

lemma static_token_only:
  assumes "new_verifier secret_key (Some token) False = Ok v" "trim token \<noteq> []"
  shows "verify decode v bearer = Ok u \<longleftrightarrow> bearer = trim token"
proof -
  have "tv_static_token v = Some (trim token)"
    using new_verifier_cases(1) [OF assms(1)] assms(2) by (simp add: non_blank_Some_iff)
  then show ?thesis
    using new_verifier_cases(2,4) [OF assms(1)] by (auto simp: verify_iff)
qed

lemma bearer_token_Some_iff:
  "bearer_token h = Some t \<longleftrightarrow> (\<exists>scheme rest. h = scheme @ CHR '' '' # rest \<and> CHR '' '' \<notin> set scheme
     \<and> eq_ignore_ascii_case scheme ''bearer'' \<and> t = trim rest \<and> t \<noteq> [])"
proof (cases "split_once CHR '' '' h")
  case None
  then have "CHR '' '' \<notin> set h" by (simp add: split_once_None_iff)
  with None show ?thesis by (auto simp: bearer_token_def)
next
  case (Some p)
  obtain a b where p: "p = (a, b)" by force
  with Some have "(\<exists>rest. h = scheme @ CHR '' '' # rest \<and> CHR '' '' \<notin> set scheme \<and> Q scheme rest) \<longleftrightarrow> scheme = a \<and> Q a b"
    for scheme Q by (metis Pair_inject option.inject split_once_Some_iff)
  note this [of _ "\<lambda>scheme rest. eq_ignore_ascii_case scheme ''bearer'' \<and> t = trim rest \<and> t \<noteq> []"]
  with Some p show ?thesis by (auto simp: bearer_token_def Let_def)
qed

lemma require_auth_runs_iff:
  assumes "\<not> tv_disabled v"
  shows "require_auth decode v header (Ok r) = Ok r'
    \<longleftrightarrow> r' = r \<and> (\<exists>h t. header = Some h \<and> bearer_token h = Some t \<and> verify decode v t = Ok ())"
  using assms by (auto simp: require_auth_def split: option.splits sum.splits bind_splits)

text \<open>Nothing of the handler is seen without an accepted token.\<close>

lemma require_auth_closed:
  assumes "\<not> tv_disabled v" "\<And>h t. header = Some h \<Longrightarrow> bearer_token h = Some t \<Longrightarrow> verify decode v t \<noteq> Ok ()"
  shows "\<exists>e. require_auth decode v header next_run = Err e \<and> status_code e = 401"
  using assms by (cases "Option.bind header bearer_token")
    (auto simp: require_auth_def bind_eq_Some_conv verify_status split: sum.splits)

end
