(* ===== verification/Service.thy ===== *)
theory Service
  imports Store_Trait Token "HOL-Library.Multiset"
begin

text \<open>
  The service layer of the authorization server, \<open>lakefs-authz/src/service.rs\<close>, over any
  store: the first argument is the store, the state is the store's.  The environment holds the secret box and what the code
  takes from outside: the clock, random bytes, \<open>serde_json\<close>, \<open>jiff\<close> and base64.
\<close>

record env =
  env_now :: int
  env_from_second :: "int \<Rightarrow> int option"
  env_parse_list :: "string \<Rightarrow> string + string list"
  env_statement_json :: "statement \<Rightarrow> string option"
  env_secrets :: secret_box
  env_nonce :: "u8 list"
  env_random :: "nat \<Rightarrow> nat"
  env_random_bytes :: "u8 list"
  env_base64 :: "u8 list \<Rightarrow> string"

type_synonym ('s, 'a) handler = "'s \<Rightarrow> (api_error + 'a) \<times> 's"

definition MIN_UNIX_SECONDS :: int where "MIN_UNIX_SECONDS = - 62135596800"

definition from_unix :: "env \<Rightarrow> string \<Rightarrow> int \<Rightarrow> api_error + int" where
  "from_unix env field seconds =
    (let invalid = Invalid (field @ '' is not a valid unix timestamp: '' @ show_int seconds)
     in if seconds < MIN_UNIX_SECONDS then Err invalid else ok_or invalid (env_from_second env seconds))"

definition create_or_existing :: "'r store_result \<Rightarrow> 'r store_result \<Rightarrow> ('r \<Rightarrow> bool) \<Rightarrow> api_error + 'r" where
  "create_or_existing created reread same = (case created of
     Inr row \<Rightarrow> Ok row
   | Inl conflict \<Rightarrow>
      (if is_already_exists conflict then (case reread of
          Inr existing \<Rightarrow> (if same existing then Ok existing else Err (api_of_store conflict))
        | Inl (SNotFound _ _) \<Rightarrow> Err (api_of_store conflict)
        | Inl e \<Rightarrow> Err (api_of_store e))
       else Err (api_of_store conflict)))"

section \<open>Wire forms\<close>

definition user_to_wire :: "user_record \<Rightarrow> user" where
  "user_to_wire r = \<lparr> u_username = ur_username r, u_creation_date = ur_creation_date r,
     u_friendly_name = ur_friendly_name r, u_email = ur_email r, u_source = ur_source r,
     u_encrypted_password = ur_encrypted_password r, u_external_id = ur_external_id r \<rparr>"

definition group_to_wire :: "group_record \<Rightarrow> group" where
  "group_to_wire r = \<lparr> g_id = Some (gr_id r), g_name = gr_id r, g_description = gr_description r,
     g_creation_date = gr_creation_date r \<rparr>"

definition policy_to_wire :: "policy_record \<Rightarrow> policy" where
  "policy_to_wire r = \<lparr> p_name = pr_name r, p_creation_date = Some (pr_creation_date r),
     p_statement = pr_statement r, p_acl = pr_acl r \<rparr>"

definition credentials_to_wire :: "credential_record \<Rightarrow> credentials" where
  "credentials_to_wire r = \<lparr> c_access_key_id = cr_access_key_id r, c_creation_date = cr_creation_date r \<rparr>"

definition with_secret :: "credential_record \<Rightarrow> string \<Rightarrow> credentials_with_secret" where
  "with_secret r secret = \<lparr> cs_access_key_id = cr_access_key_id r, cs_secret_access_key = secret,
     cs_creation_date = cr_creation_date r, cs_user_id = cr_user_id r, cs_user_name = Some (cr_username r) \<rparr>"

definition principal_to_wire :: "external_principal_record \<Rightarrow> external_principal" where
  "principal_to_wire r = \<lparr> ep_user_id = er_username r, ep_id = er_id r \<rparr>"

section \<open>Creates that may repeat\<close>

definition same_if_given :: "'a option \<Rightarrow> 'a option \<Rightarrow> bool" where
  "same_if_given requested existing \<longleftrightarrow> requested = None \<or> requested = existing"

definition same_user :: "new_user \<Rightarrow> user_record \<Rightarrow> bool" where
  "same_user requested existing \<longleftrightarrow>
     same_if_given (nu_friendly_name requested) (ur_friendly_name existing)
     \<and> same_if_given (nu_email requested) (ur_email existing)
     \<and> same_if_given (nu_source requested) (ur_source existing)
     \<and> same_if_given (nu_external_id requested) (ur_external_id existing)
     \<and> (case nu_encrypted_password requested of None \<Rightarrow> True
        | Some password \<Rightarrow> ur_encrypted_password existing = Some password)"

definition user_fields_of :: "user_creation \<Rightarrow> user_fields" where
  "user_fields_of body = \<lparr> uf_friendly_name = uc_friendly_name body, uf_email = uc_email body,
     uf_source = uc_source body, uf_external_id = uc_external_id body,
     uf_encrypted_password = uc_encrypted_password body \<rparr>"

text \<open>A create against the store, then the decision from the re-read.\<close>

definition create_row :: "('s \<Rightarrow> 'r store_result \<times> 's) \<Rightarrow> ('s \<Rightarrow> 'r store_result) \<Rightarrow> ('r \<Rightarrow> bool) \<Rightarrow> ('s, 'r) handler" where
  "create_row create reread same s = (case create s of
     (created, s') \<Rightarrow> (create_or_existing created (reread s') same, s'))"

definition svc_create_user :: "'s store_trait \<Rightarrow> env \<Rightarrow> user_creation \<Rightarrow> ('s, user) handler" where
  "svc_create_user st env body s =
    (if uc_invite body = Some True
     then (Err (Invalid ''invitations are not supported; create the user without invite''), s)
     else case new_user_validated (uc_username body) (user_fields_of body) (env_now env) of
       Inl e \<Rightarrow> (Err e, s)
     | Inr requested \<Rightarrow>
         map_prod (map_ok user_to_wire) id
           (create_row (so_create_user st requested) (\<lambda>s. so_get_user st s (nu_username requested)) (same_user requested) s))"

definition svc_create_group :: "'s store_trait \<Rightarrow> env \<Rightarrow> group_creation \<Rightarrow> ('s, group) handler" where
  "svc_create_group st env body s = (case new_group_validated (gc_id body) (gc_description body) (env_now env) of
     Inl e \<Rightarrow> (Err e, s)
   | Inr requested \<Rightarrow>
       map_prod (map_ok group_to_wire) id
         (create_row (so_create_group st requested) (\<lambda>s. so_get_group st s (ng_id requested))
           (\<lambda>existing. same_if_given (ng_description requested) (gr_description existing)) s))"

definition canonical_statements :: "env \<Rightarrow> statement list \<Rightarrow> string list" where
  "canonical_statements env statements =
     sort (map (\<lambda>st. unwrap_or [] (env_statement_json env (st\<lparr> st_action := sort (st_action st) \<rparr>))) statements)"

definition same_policy :: "env \<Rightarrow> new_policy \<Rightarrow> policy_record \<Rightarrow> bool" where
  "same_policy env requested existing \<longleftrightarrow>
     canonical_statements env (np_statement requested) = canonical_statements env (pr_statement existing)
     \<and> same_if_given (np_acl requested) (pr_acl existing)"

definition validated_policy :: "env \<Rightarrow> string \<Rightarrow> policy \<Rightarrow> int \<Rightarrow> string option \<Rightarrow> api_error + new_policy" where
  "validated_policy env name body fallback_creation_date fallback_acl =
    and_then (case p_creation_date body of
        Some seconds \<Rightarrow> from_unix env ''creation_date'' seconds
      | None \<Rightarrow> Ok fallback_creation_date)
      (\<lambda>creation_date. new_policy_validated (env_parse_list env) name (p_statement body)
         (opt_or (p_acl body) fallback_acl) creation_date)"

definition svc_create_policy :: "'s store_trait \<Rightarrow> env \<Rightarrow> policy \<Rightarrow> ('s, policy) handler" where
  "svc_create_policy st env body s = (case validated_policy env (p_name body) body (env_now env) None of
     Inl e \<Rightarrow> (Err e, s)
   | Inr requested \<Rightarrow>
       map_prod (map_ok policy_to_wire) id
         (create_row (so_create_policy st requested) (\<lambda>s. so_get_policy st s (p_name body)) (same_policy env requested) s))"

definition svc_update_policy :: "'s store_trait \<Rightarrow> env \<Rightarrow> string \<Rightarrow> policy \<Rightarrow> ('s, policy) handler" where
  "svc_update_policy st env name body s = (case validate_entity_id ''policy'' name of
     Inl e \<Rightarrow> (Err e, s)
   | Inr _ \<Rightarrow> (case so_get_policy st s name of
       Inl e \<Rightarrow> (Err (api_of_store e), s)
     | Inr existing \<Rightarrow> (case validated_policy env name body (pr_creation_date existing) (pr_acl existing) of
         Inl e \<Rightarrow> (Err e, s)
       | Inr record \<Rightarrow> (case so_update_policy st record s of
           (updated, s') \<Rightarrow> (map_ok policy_to_wire (map_err api_of_store updated), s')))))"

section \<open>Credentials and token ids\<close>

definition zip_opt :: "'a option \<Rightarrow> 'b option \<Rightarrow> ('a \<times> 'b) option" where
  "zip_opt a b = (case (a, b) of (Some x, Some y) \<Rightarrow> Some (x, y) | _ \<Rightarrow> None)"

definition crypto_display :: "crypto_error \<Rightarrow> string" where
  "crypto_display e = (case e of TooShort \<Rightarrow> ''ciphertext is too short''
     | UnsupportedVersion v \<Rightarrow> ''unsupported ciphertext version '' @ show_nat (unat v)
     | Decrypt \<Rightarrow> ''decryption failed'' | Encrypt \<Rightarrow> ''encryption failed''
     | NotUtf8 \<Rightarrow> ''decrypted value is not valid UTF-8'')"

definition svc_create_credentials :: "'s store_trait \<Rightarrow> env \<Rightarrow> string \<Rightarrow> string option \<Rightarrow> string option
    \<Rightarrow> ('s, credentials_with_secret) handler" where
  "svc_create_credentials st env username access_key secret_key s =
    (let (access_key_id, secret_access_key) =
        (case zip_opt (Option.bind access_key non_blank) (Option.bind secret_key non_blank) of
           Some (access, secret) \<Rightarrow> (access, secret)
         | None \<Rightarrow> (new_access_key_id (env_random env),
                   new_secret_access_key (env_base64 env) (env_random_bytes env)))
     in case new_credential_sealed (env_secrets env) (env_nonce env) username access_key_id secret_access_key (env_now env) of
        Inl e \<Rightarrow> (Err (Internal (''encrypt credentials secret: '' @ crypto_display e)), s)
      | Inr record \<Rightarrow> (case so_create_credential st record s of
          (created, s') \<Rightarrow> (map_ok (\<lambda>r. with_secret r secret_access_key) (map_err api_of_store created), s')))"

definition svc_credentials_with_secret :: "'s store_trait \<Rightarrow> env \<Rightarrow> 's \<Rightarrow> string \<Rightarrow> api_error + credentials_with_secret" where
  "svc_credentials_with_secret st env s access_key_id =
    and_then (map_err api_of_store (so_get_credential st s access_key_id)) (\<lambda>record.
      map_ok (with_secret record)
        (map_err (\<lambda>e. Internal (''decrypt credentials secret for '' @ access_key_id @ '': '' @ crypto_display e))
          (open_str (env_secrets env) (cr_secret_ciphertext record))))"

definition svc_claim_token_id :: "'s store_trait \<Rightarrow> env \<Rightarrow> claim_token_id \<Rightarrow> ('s, unit) handler" where
  "svc_claim_token_id st env body s =
    (if ct_token_id body = [] then (Err (Invalid ''token_id must not be empty''), s)
     else case from_unix env ''expires_at'' (ct_expires_at body) of
       Inl e \<Rightarrow> (Err e, s)
     | Inr expires \<Rightarrow> (case so_claim_token_id st (ct_token_id body) expires s of
         (Inr _, s') \<Rightarrow> (Ok (), s')
       | (Inl (SAlreadyExists _ _), s') \<Rightarrow> (Err (Invalid ''token id was already claimed''), s')
       | (Inl e, s') \<Rightarrow> (Err (api_of_store e), s')))"

section \<open>The contract behind a repeatable create\<close>

locale row_store =
  fixes create :: "'n \<Rightarrow> 'r update"
    and get :: "inner \<Rightarrow> string \<Rightarrow> 'r store_result"
    and key :: "'n \<Rightarrow> string"
  assumes create_stores: "wf_inner s \<Longrightarrow> create n s = (Ok r, s') \<Longrightarrow> get s' (key n) = Ok r"
    and create_taken: "get s (key n) = Ok r \<Longrightarrow> \<exists>e. create n s = (Err e, s)"
    and create_conflict: "create n s = (Err e, s') \<Longrightarrow> s' = s \<and> is_already_exists e"
    and get_fails: "get s k = Err e \<Longrightarrow> is_not_found e"
begin

lemma create_row_Ok:
  assumes "wf_inner s" "create_row (create n) (\<lambda>s. get s (key n)) same s = (Ok r, s')"
  shows "get s' (key n) = Ok r" and "create n s = (Ok r, s') \<or> s' = s \<and> same r"
proof -
  obtain res s1 where c: "create n s = (res, s1)" by force
  show "get s' (key n) = Ok r" "create n s = (Ok r, s') \<or> s' = s \<and> same r"
    using assms(2) c create_stores [OF assms(1)] create_conflict [of n s]
    by (cases res; auto simp: create_row_def create_or_existing_def split: if_splits sum.splits store_error.splits)+
qed

lemma create_row_repeat:
  assumes "get s (key n) = Ok r" "same r"
  shows "create_row (create n) (\<lambda>s. get s (key n)) same s = (Ok r, s)"
proof -
  obtain e where c: "create n s = (Err e, s)" using create_taken [OF assms(1)] by blast
  then have "is_already_exists e" using create_conflict by blast
  with c assms show ?thesis by (simp add: create_row_def create_or_existing_def)
qed

lemma create_row_Err:
  assumes "create_row (create n) (\<lambda>s. get s (key n)) same s = (Err e, s')"
  shows "s' = s \<and> status_code e = 409 \<and> (\<forall>r. get s (key n) = Ok r \<longrightarrow> \<not> same r)"
proof -
  obtain res s1 where c: "create n s = (res, s1)" by force
  show ?thesis
    using assms c create_conflict [of n s] get_fails [of s "key n"]
    by (cases res)
      (auto simp: create_row_def create_or_existing_def is_not_found_def is_already_exists_def
        status_of_store_error api_already_exists_def split: if_splits sum.splits store_error.splits)
qed

end

lemma wf_get_users: "wf_inner s \<Longrightarrow> bt_ok (in_users s)"
  by (rule wf_shape_of)

interpretation users: row_store create_user get_user nu_username
proof unfold_locales
  fix s n r s'
  assume "wf_inner s" "create_user n s = (Ok r, s')"
  then show "get_user s' (nu_username n) = Ok r" using wf_shape_of(1) [of s]
    by (cases rule: insert_user_cases [of n s]) (auto simp: create_user_def get_user_def bt_simps)
next
  fix s n e s'
  assume "create_user n s = (Err e, s')"
  then show "s' = s \<and> is_already_exists e"
    by (auto simp: create_user_def insert_user_def is_already_exists_def Let_def split: if_splits option.splits)
qed (auto simp: create_user_def insert_user_def get_user_def is_not_found_def res_simps)

interpretation groups: row_store create_group get_group ng_id
  by unfold_locales
    (auto simp: create_group_def insert_group_def get_group_def is_not_found_def is_already_exists_def Let_def
      bt_simps wf_shape_of res_simps split: if_splits)

interpretation policies: row_store create_policy get_policy np_name
  by unfold_locales
    (auto simp: create_policy_def insert_policy_def get_policy_def is_not_found_def is_already_exists_def Let_def
      bt_simps wf_shape_of res_simps split: if_splits)

section \<open>Properties of the service\<close>

lemma from_unix_Ok: "from_unix env f x = Ok t \<longleftrightarrow> MIN_UNIX_SECONDS \<le> x \<and> env_from_second env x = Some t"
  by (auto simp: from_unix_def Let_def res_simps not_less)

lemma from_unix_Err: "from_unix env f x = Err e \<Longrightarrow> status_code e = 400"
  by (auto simp: from_unix_def Let_def res_simps split: if_splits)

lemma create_row_store: "snd (create_row f g same s) = snd (f s)"
  by (simp add: create_row_def split: prod.split)

lemma wf_svc_create_user: "wf_inner s \<Longrightarrow> wf_inner (snd (svc_create_user mem_impl env body s))"
  by (auto simp: svc_create_user_def create_row_store create_user_def wf_preserved split: sum.splits)

lemma wf_svc_create_group: "wf_inner s \<Longrightarrow> wf_inner (snd (svc_create_group mem_impl env body s))"
  by (auto simp: svc_create_group_def create_row_store create_group_def wf_preserved split: sum.splits)

lemma wf_svc_create_policy: "wf_inner s \<Longrightarrow> wf_inner (snd (svc_create_policy mem_impl env body s))"
  by (auto simp: svc_create_policy_def create_row_store create_policy_def wf_preserved split: sum.splits)

lemma wf_svc_update_policy: "wf_inner s \<Longrightarrow> wf_inner (snd (svc_update_policy mem_impl env n body s))"
  using wf_update_policy [of s]
  by (auto simp: svc_update_policy_def split: sum.splits prod.splits) (metis snd_conv)

lemma wf_svc_create_credentials: "wf_inner s \<Longrightarrow> wf_inner (snd (svc_create_credentials mem_impl env u a k s))"
  using wf_insert_credential [of s]
  by (auto simp: svc_create_credentials_def create_credential_def Let_def split: sum.splits prod.splits) (metis snd_conv)

lemma wf_svc_claim_token_id: "wf_inner s \<Longrightarrow> wf_inner (snd (svc_claim_token_id mem_impl env body s))"
  using wf_claim_token_id [of s]
  by (auto simp: svc_claim_token_id_def split: sum.splits prod.splits store_error.splits) (metis snd_conv)+

lemmas wf_service = wf_svc_create_user wf_svc_create_group wf_svc_create_policy wf_svc_update_policy
  wf_svc_create_credentials wf_svc_claim_token_id

text \<open>A repeated create answers the stored row and changes nothing, at any later time of day.\<close>

lemma same_user_created: "create_user n s = (Ok r, s') \<Longrightarrow> same_user n r"
  by (cases rule: insert_user_cases [of n s])
    (auto simp: create_user_def same_user_def same_if_given_def user_record_of_def split: option.splits)

lemma same_user_date: "same_user (n\<lparr> nu_creation_date := t \<rparr>) r = same_user n r"
  by (simp add: same_user_def)

lemma new_user_validated_date:
  "new_user_validated x fs t = Ok n \<Longrightarrow> new_user_validated x fs t' = Ok (n\<lparr> nu_creation_date := t' \<rparr>)"
  by (auto simp: new_user_validated_def res_simps)

lemma svc_create_user_repeat:
  assumes "wf_inner s" "svc_create_user mem_impl env body s = (Ok u, s')"
  shows "svc_create_user mem_impl env' body s' = (Ok u, s')"
proof -
  obtain n where n: "new_user_validated (uc_username body) (user_fields_of body) (env_now env) = Ok n"
    and inv: "uc_invite body \<noteq> Some True"
    using assms(2) by (auto simp: svc_create_user_def split: if_splits sum.splits)
  then obtain r where r: "create_row (create_user n) (\<lambda>s. get_user s (nu_username n)) (same_user n) s = (Ok r, s')"
      "u = user_to_wire r"
    using assms(2)
    by (cases "create_row (create_user n) (\<lambda>s. get_user s (nu_username n)) (same_user n) s") (auto simp: svc_create_user_def res_simps)
  let ?n = "n\<lparr> nu_creation_date := env_now env' \<rparr>"
  have "same_user ?n r"
    using users.create_row_Ok(2) [OF assms(1) r(1)] same_user_created [of n s r s'] unfolding same_user_date by blast
  moreover have "get_user s' (nu_username ?n) = Ok r" using users.create_row_Ok(1) [OF assms(1) r(1)] by simp
  ultimately have "create_row (create_user ?n) (\<lambda>s. get_user s (nu_username ?n)) (same_user ?n) s' = (Ok r, s')"
    by (intro users.create_row_repeat)
  then show ?thesis
    using new_user_validated_date [OF n, of "env_now env'"] inv r(2) by (simp add: svc_create_user_def)
qed

lemma svc_create_user_conflict:
  assumes "svc_create_user mem_impl env body s = (Err e, s')"
  shows "s' = s \<and> (status_code e = 400 \<or> status_code e = 409)"
proof (cases "uc_invite body = Some True")
  case False
  show ?thesis
  proof (cases "new_user_validated (uc_username body) (user_fields_of body) (env_now env)")
    case (Inl e')
    then show ?thesis using assms False
      by (auto simp: svc_create_user_def new_user_validated_def and_then_Err_iff dest: validate_entity_id_status)
  next
    case (Inr n)
    then show ?thesis using assms False users.create_row_Err [of n "same_user n" s]
      by (cases "create_row (create_user n) (\<lambda>s. get_user s (nu_username n)) (same_user n) s")
        (auto simp: svc_create_user_def map_ok_Err_iff)
  qed
qed (use assms in \<open>auto simp: svc_create_user_def\<close>)

text \<open>An update keeps the values the body leaves out.\<close>

lemma validated_policy_Ok:
  "validated_policy env name body t acl = Ok n \<Longrightarrow> np_name n = name \<and> np_statement n = p_statement body
     \<and> np_acl n = opt_or (p_acl body) acl \<and> (p_creation_date body = None \<longrightarrow> np_creation_date n = t)"
  by (auto simp: validated_policy_def new_policy_validated_def res_simps)

lemma svc_update_policy_spec:
  assumes "wf_inner s" "svc_update_policy mem_impl env name body s = (Ok p, s')"
  obtains old new where "bt_get (in_policies s) name = Some old" "bt_get (in_policies s') name = Some new"
    "p = policy_to_wire new" "pr_statement new = p_statement body"
    "pr_acl new = opt_or (p_acl body) (pr_acl old)"
    "p_creation_date body = None \<Longrightarrow> pr_creation_date new = pr_creation_date old"
    "\<And>k. k \<noteq> name \<Longrightarrow> bt_get (in_policies s') k = bt_get (in_policies s) k"
proof -
  obtain old where old: "bt_get (in_policies s) name = Some old"
    using assms(2) by (auto simp: svc_update_policy_def get_policy_def res_simps split: sum.splits)
  then obtain rec where rec: "validated_policy env name body (pr_creation_date old) (pr_acl old) = Ok rec"
    using assms(2) by (auto simp: svc_update_policy_def get_policy_def split: sum.splits)
  let ?new = "old\<lparr> pr_creation_date := np_creation_date rec, pr_statement := np_statement rec, pr_acl := np_acl rec \<rparr>"
  have name: "np_name rec = name" using validated_policy_Ok [OF rec] by simp
  have s': "s' = s\<lparr> in_policies := bt_modify name (\<lambda>_. ?new) (in_policies s) \<rparr>" and p: "p = policy_to_wire ?new"
    using assms(2) old rec name
    by (auto simp: svc_update_policy_def get_policy_def update_policy_def Let_def split: sum.splits)
  show thesis
    using validated_policy_Ok [OF rec] old wf_shape_of(3) [OF assms(1)]
    by (intro that [of old ?new]) (simp_all add: s' p bt_simps)
qed

text \<open>Sealing on create and opening on lookup are inverse.\<close>

lemma svc_credentials_round_trip:
  assumes "wf_inner s" "aead_ok (env_secrets env)" "length (env_nonce env) = NONCE_LEN"
    and "svc_create_credentials mem_impl env username access_key secret_key s = (Ok c, s')"
    and "str_ok (cs_secret_access_key c)"
  shows "svc_credentials_with_secret mem_impl env s' (cs_access_key_id c) = Ok c"
proof -
  obtain a k where ak: "(case zip_opt (Option.bind access_key non_blank) (Option.bind secret_key non_blank) of
           Some (access, secret) \<Rightarrow> (access, secret)
         | None \<Rightarrow> (new_access_key_id (env_random env),
                   new_secret_access_key (env_base64 env) (env_random_bytes env))) = (a, k)"
    by force
  obtain n where n: "new_credential_sealed (env_secrets env) (env_nonce env) username a k (env_now env) = Ok n"
    using assms(4) unfolding svc_create_credentials_def Let_def ak by (auto split: sum.splits)
  obtain r where r: "create_credential n s = (Ok r, s')" "c = with_secret r k"
    using assms(4) n unfolding svc_create_credentials_def Let_def ak
    by (cases "create_credential n s") (auto simp: res_simps)
  have stored: "bt_get (in_credentials s') (cr_access_key_id r) = Some r" "cr_secret_ciphertext r = nc_secret_ciphertext n"
    using r(1) wf_shape_of(7) [OF assms(1)]
    by (auto simp: create_credential_def insert_credential_def Let_def bt_simps split: option.splits if_splits)
  have "seal_str (env_secrets env) (env_nonce env) k = Ok (nc_secret_ciphertext n)"
    using n by (auto simp: new_credential_sealed_def res_simps)
  then have "open_str (env_secrets env) (cr_secret_ciphertext r) = Ok k"
    unfolding stored(2) using assms(2,3,5) r(2) by (intro open_str_seal_str) (auto simp: with_secret_def)
  with stored(1) r(2) show ?thesis
    by (simp add: svc_credentials_with_secret_def get_credential_def with_secret_def)
qed

lemma claim_end:
  "(case p of (Inr _, s') \<Rightarrow> (Ok (), s')
           | (Inl (SAlreadyExists _ _), s') \<Rightarrow> (Err (Invalid ''token id was already claimed''), s')
           | (Inl e, s') \<Rightarrow> (Err (api_of_store e), s'))
   = (case fst p of Inr _ \<Rightarrow> Ok () | Inl (SAlreadyExists _ _) \<Rightarrow> Err (Invalid ''token id was already claimed'')
        | Inl e \<Rightarrow> Err (api_of_store e), snd p)"
  by (auto split: prod.split sum.split store_error.split)

text \<open>A token id is accepted once: while its row is kept every further claim is a 400.\<close>

lemma svc_claim_token_id_once:
  assumes "wf_inner s" "svc_claim_token_id mem_impl env body s = (Ok u, s')" "env_from_second env (ct_expires_at body) = Some e"
    and "list_all (keeps_claim e) ops" "ct_token_id again = ct_token_id body"
  shows "\<exists>m. fst (svc_claim_token_id mem_impl env2 again (fold run_op ops s')) = Err (Invalid m)"
proof -
  have ne: "ct_token_id body \<noteq> []" and c: "claim_token_id (ct_token_id body) e s = (Ok (), s')"
    using assms(2,3)
    by (auto simp: svc_claim_token_id_def from_unix_def Let_def split: if_splits sum.splits prod.splits store_error.splits)
  show ?thesis
  proof (cases "from_unix env2 ''expires_at'' (ct_expires_at again)")
    case (Inl err)
    then obtain m where "err = Invalid m" by (auto simp: from_unix_def Let_def res_simps split: if_splits)
    with Inl ne assms(5) show ?thesis by (simp add: svc_claim_token_id_def)
  next
    case (Inr e2)
    have "fst (claim_token_id (ct_token_id again) e2 (fold run_op ops s')) = Err (SAlreadyExists ''token id'' (ct_token_id again))"
      unfolding assms(5) by (rule claim_once [OF assms(1) c assms(4)])
    with Inr ne assms(5) show ?thesis
      by (cases "claim_token_id (ct_token_id again) e2 (fold run_op ops s')") (simp add: svc_claim_token_id_def)
  qed
qed

text \<open>
  The comparison of policies counts repeated statements: it compares sorted lists, not sets.
\<close>

lemma length_canonical [simp]: "length (canonical_statements env ss) = length ss"
  by (simp add: canonical_statements_def)

lemma canonical_permutation: "mset ss = mset ts \<Longrightarrow> canonical_statements env ss = canonical_statements env ts"
proof -
  assume "mset ss = mset ts"
  then have "sorted_list_of_multiset (mset (map f ss)) = sorted_list_of_multiset (mset (map f ts))"
    for f :: "statement \<Rightarrow> string" by simp
  then show ?thesis unfolding canonical_statements_def sorted_list_of_multiset_mset .
qed

lemma same_policy_repeated_statement:
  assumes "pr_statement existing = [st]" "np_statement requested = [st, st]"
  shows "\<not> same_policy env requested existing"
  using assms by (auto simp: same_policy_def dest: arg_cong [of _ _ length])

end
