(* ===== verification/Handlers.thy ===== *)
theory Handlers
  imports Service
begin

text \<open>
  The HTTP surface of the authorization server: the handlers (\<open>lakefs-authz/src/handlers\<close>), the route
  table and routers (\<open>lakefs-authz/src/routes.rs\<close>), and their assembly (\<open>build_router\<close> of \<open>app.rs\<close>) with
  the \<open>ApiJson\<close> extractor of \<open>lakefs-auth-core/src/error.rs\<close>.

  A JSON text is represented by the value \<open>serde_json\<close> reads from it.  Of \<open>axum\<close> the model keeps the documented
  matching of a path against a route's template; percent decoding and the answers to an unknown
  path and to an unknown method are parameters.
\<close>

section \<open>Requests and responses\<close>

datatype http_method = GET | HEAD | POST | PUT | DELETE | OPTIONS | PATCH

datatype json_rejection = BytesRejection int string | OtherRejection string

datatype request_body = NoBody | UserCreationBody user_creation | GroupCreationBody group_creation
  | PolicyBody policy | ClaimBody claim_token_id | FriendlyNameBody friendly_name_update
  | Unreadable json_rejection

record http_request =
  rq_method :: http_method
  rq_path :: string
  rq_query :: "(string \<times> string) list"
  rq_body :: request_body
  rq_authorization :: "string option"

datatype payload = EmptyBody | ErrorReply error_body | UserReply user | UsersReply "user list_response"
  | GroupReply group | GroupsReply "group list_response" | PolicyReply policy
  | PoliciesReply "policy list_response" | CredentialsReply credentials
  | CredentialsListReply "credentials list_response" | SecretReply credentials_with_secret
  | PrincipalReply external_principal | PrincipalsReply "external_principal list_response"
  | VersionReply string | TextReply string

record response =
  rs_status :: int
  rs_body :: payload

definition reply :: "int \<Rightarrow> payload \<Rightarrow> response" where
  "reply code body = \<lparr> rs_status = code, rs_body = body \<rparr>"

definition error_reply :: "api_error \<Rightarrow> response" where
  "error_reply e = (case error_response e of (code, body) \<Rightarrow> reply code (ErrorReply body))"

definition query_param :: "http_request \<Rightarrow> string \<Rightarrow> string option" where
  "query_param rq name = map_of (rq_query rq) name"

definition page_of_request :: "http_request \<Rightarrow> page_query" where
  "page_of_request rq = normalize (pagination_of_query (query_param rq))"

text \<open>\<open>ApiJson<T>\<close>: \<open>read\<close> is what \<open>axum::Json::<T>\<close> makes of the body.\<close>

definition api_json :: "(request_body \<Rightarrow> json_rejection + 'a) \<Rightarrow> http_request \<Rightarrow> api_error + 'a" where
  "api_json read rq = (case read (rq_body rq) of
     Inr v \<Rightarrow> Ok v
   | Inl (BytesRejection code body_text) \<Rightarrow> Err (WithStatus code body_text)
   | Inl (OtherRejection body_text) \<Rightarrow> Err (Invalid body_text))"

definition unexpected_json :: "request_body \<Rightarrow> json_rejection + 'a" where
  "unexpected_json b = (case b of Unreadable r \<Rightarrow> Err r
     | _ \<Rightarrow> Err (OtherRejection ''Failed to deserialize the JSON body into the target type''))"

definition read_user_creation :: "request_body \<Rightarrow> json_rejection + user_creation" where
  "read_user_creation b = (case b of UserCreationBody v \<Rightarrow> Ok v | _ \<Rightarrow> unexpected_json b)"
definition read_group_creation :: "request_body \<Rightarrow> json_rejection + group_creation" where
  "read_group_creation b = (case b of GroupCreationBody v \<Rightarrow> Ok v | _ \<Rightarrow> unexpected_json b)"
definition read_policy :: "request_body \<Rightarrow> json_rejection + policy" where
  "read_policy b = (case b of PolicyBody v \<Rightarrow> Ok v | _ \<Rightarrow> unexpected_json b)"
definition read_claim :: "request_body \<Rightarrow> json_rejection + claim_token_id" where
  "read_claim b = (case b of ClaimBody v \<Rightarrow> Ok v | _ \<Rightarrow> unexpected_json b)"
definition read_friendly_name :: "request_body \<Rightarrow> json_rejection + friendly_name_update" where
  "read_friendly_name b = (case b of FriendlyNameBody v \<Rightarrow> Ok v | _ \<Rightarrow> unexpected_json b)"

text \<open>
  How a handler ends: \<open>?\<close> on the store's answer, then a bare status or a JSON body.  A body is read
  before the store is touched.
\<close>

definition respond :: "('a \<Rightarrow> response) \<Rightarrow> (api_error + 'a) \<times> 's \<Rightarrow> (api_error + response) \<times> 's" where
  "respond f r = map_prod (map_ok f) id r"

definition store_read :: "('a \<Rightarrow> payload) \<Rightarrow> 'a store_result \<Rightarrow> ('s, response) handler" where
  "store_read f r s = (map_ok (\<lambda>x. reply 200 (f x)) (map_err api_of_store r), s)"

definition store_update :: "int \<Rightarrow> unit store_result \<times> 's \<Rightarrow> (api_error + response) \<times> 's" where
  "store_update code r = map_prod (\<lambda>x. map_ok (\<lambda>_. reply code EmptyBody) (map_err api_of_store x)) id r"

definition with_body :: "(api_error + 'b) \<Rightarrow> ('b \<Rightarrow> ('s, response) handler) \<Rightarrow> ('s, response) handler" where
  "with_body body f s = (case body of Inl e \<Rightarrow> (Err e, s) | Inr v \<Rightarrow> f v s)"

section \<open>users.rs\<close>

definition single_user :: "user_record option \<Rightarrow> payload" where
  "single_user found = UsersReply (into_response (page_last (case map_option user_to_wire found of
     None \<Rightarrow> [] | Some u \<Rightarrow> [u])))"

definition h_list_users :: "'s store_trait \<Rightarrow> http_request \<Rightarrow> ('s, response) handler" where
  "h_list_users st rq s = (case Option.bind (query_param rq ''id'') non_blank of
     Some i \<Rightarrow> (case parse_i64 i of
         None \<Rightarrow> (Ok (reply 200 (single_user None)), s)
       | Some n \<Rightarrow> store_read single_user (so_find_user_by_id st s n) s)
   | None \<Rightarrow> (case Option.bind (query_param rq ''email'') non_blank of
       Some email \<Rightarrow> store_read single_user (so_find_user_by_email st s email) s
     | None \<Rightarrow> (case Option.bind (query_param rq ''external_id'') non_blank of
         Some external_id \<Rightarrow> store_read single_user (so_find_user_by_external_id st s external_id) s
       | None \<Rightarrow> store_read (\<lambda>p. UsersReply (into_response (page_map user_to_wire p)))
                   (so_list_users st s (page_of_request rq)) s)))"

definition h_create_user :: "'s store_trait \<Rightarrow> env \<Rightarrow> http_request \<Rightarrow> ('s, response) handler" where
  "h_create_user st env rq = with_body (api_json read_user_creation rq) (\<lambda>body s.
     respond (\<lambda>u. reply 201 (UserReply u)) (svc_create_user st env body s))"

definition h_get_user :: "'s store_trait \<Rightarrow> string \<Rightarrow> ('s, response) handler" where
  "h_get_user st username s = store_read (\<lambda>u. UserReply (user_to_wire u)) (so_get_user st s username) s"

definition h_delete_user :: "'s store_trait \<Rightarrow> string \<Rightarrow> ('s, response) handler" where
  "h_delete_user st username s = store_update 204 (so_delete_user st username s)"

definition h_update_password :: "('s, response) handler" where
  "h_update_password s = (Err (NotImplemented ''password authentication is not supported by this server''), s)"

definition h_update_friendly_name :: "'s store_trait \<Rightarrow> string \<Rightarrow> http_request \<Rightarrow> ('s, response) handler" where
  "h_update_friendly_name st username rq = with_body (api_json read_friendly_name rq) (\<lambda>body s.
     store_update 204 (so_set_friendly_name st username (fn_friendly_name body) s))"

section \<open>groups.rs and policies.rs\<close>

definition h_list_groups :: "'s store_trait \<Rightarrow> http_request \<Rightarrow> ('s, response) handler" where
  "h_list_groups st rq s = store_read (\<lambda>p. GroupsReply (into_response (page_map group_to_wire p)))
     (so_list_groups st s (page_of_request rq)) s"

definition h_create_group :: "'s store_trait \<Rightarrow> env \<Rightarrow> http_request \<Rightarrow> ('s, response) handler" where
  "h_create_group st env rq = with_body (api_json read_group_creation rq) (\<lambda>body s.
     respond (\<lambda>g. reply 201 (GroupReply g)) (svc_create_group st env body s))"

definition h_get_group :: "'s store_trait \<Rightarrow> string \<Rightarrow> ('s, response) handler" where
  "h_get_group st group_id s = store_read (\<lambda>g. GroupReply (group_to_wire g)) (so_get_group st s group_id) s"

definition h_delete_group :: "'s store_trait \<Rightarrow> string \<Rightarrow> ('s, response) handler" where
  "h_delete_group st group_id s = store_update 204 (so_delete_group st group_id s)"

definition h_list_policies :: "'s store_trait \<Rightarrow> http_request \<Rightarrow> ('s, response) handler" where
  "h_list_policies st rq s = store_read (\<lambda>p. PoliciesReply (into_response (page_map policy_to_wire p)))
     (so_list_policies st s (page_of_request rq)) s"

definition h_create_policy :: "'s store_trait \<Rightarrow> env \<Rightarrow> http_request \<Rightarrow> ('s, response) handler" where
  "h_create_policy st env rq = with_body (api_json read_policy rq) (\<lambda>body s.
     respond (\<lambda>p. reply 201 (PolicyReply p)) (svc_create_policy st env body s))"

definition h_get_policy :: "'s store_trait \<Rightarrow> string \<Rightarrow> ('s, response) handler" where
  "h_get_policy st name s = store_read (\<lambda>p. PolicyReply (policy_to_wire p)) (so_get_policy st s name) s"

definition h_update_policy :: "'s store_trait \<Rightarrow> env \<Rightarrow> string \<Rightarrow> http_request \<Rightarrow> ('s, response) handler" where
  "h_update_policy st env name rq = with_body (api_json read_policy rq) (\<lambda>body s.
     respond (\<lambda>p. reply 200 (PolicyReply p)) (svc_update_policy st env name body s))"

definition h_delete_policy :: "'s store_trait \<Rightarrow> string \<Rightarrow> ('s, response) handler" where
  "h_delete_policy st name s = store_update 204 (so_delete_policy st name s)"

section \<open>memberships.rs and attachments.rs\<close>

definition h_list_group_members :: "'s store_trait \<Rightarrow> string \<Rightarrow> http_request \<Rightarrow> ('s, response) handler" where
  "h_list_group_members st group_id rq s = store_read (\<lambda>p. UsersReply (into_response (page_map user_to_wire p)))
     (so_list_group_members st s group_id (page_of_request rq)) s"

definition h_list_user_groups :: "'s store_trait \<Rightarrow> string \<Rightarrow> http_request \<Rightarrow> ('s, response) handler" where
  "h_list_user_groups st username rq s = store_read (\<lambda>p. GroupsReply (into_response (page_map group_to_wire p)))
     (so_list_user_groups st s username (page_of_request rq)) s"

definition h_add_membership :: "'s store_trait \<Rightarrow> string \<Rightarrow> string \<Rightarrow> ('s, response) handler" where
  "h_add_membership st group_id username s = store_update 201 (so_add_membership st group_id username s)"

definition h_delete_membership :: "'s store_trait \<Rightarrow> string \<Rightarrow> string \<Rightarrow> ('s, response) handler" where
  "h_delete_membership st group_id username s = store_update 204 (so_remove_membership st group_id username s)"

definition h_list_user_policies :: "'s store_trait \<Rightarrow> string \<Rightarrow> http_request \<Rightarrow> ('s, response) handler" where
  "h_list_user_policies st username rq s = store_read (\<lambda>p. PoliciesReply (into_response (page_map policy_to_wire p)))
     (if lenient_bool (query_param rq ''effective'')
      then so_list_effective_user_policies st s username (page_of_request rq)
      else so_list_user_policies st s username (page_of_request rq)) s"

definition h_attach_policy_to_user :: "'s store_trait \<Rightarrow> string \<Rightarrow> string \<Rightarrow> ('s, response) handler" where
  "h_attach_policy_to_user st username policy s = store_update 201 (so_attach_policy_to_user st username policy s)"

definition h_detach_policy_from_user :: "'s store_trait \<Rightarrow> string \<Rightarrow> string \<Rightarrow> ('s, response) handler" where
  "h_detach_policy_from_user st username policy s = store_update 204 (so_detach_policy_from_user st username policy s)"

definition h_list_group_policies :: "'s store_trait \<Rightarrow> string \<Rightarrow> http_request \<Rightarrow> ('s, response) handler" where
  "h_list_group_policies st group_id rq s = store_read (\<lambda>p. PoliciesReply (into_response (page_map policy_to_wire p)))
     (so_list_group_policies st s group_id (page_of_request rq)) s"

definition h_attach_policy_to_group :: "'s store_trait \<Rightarrow> string \<Rightarrow> string \<Rightarrow> ('s, response) handler" where
  "h_attach_policy_to_group st group_id policy s = store_update 201 (so_attach_policy_to_group st group_id policy s)"

definition h_detach_policy_from_group :: "'s store_trait \<Rightarrow> string \<Rightarrow> string \<Rightarrow> ('s, response) handler" where
  "h_detach_policy_from_group st group_id policy s = store_update 204 (so_detach_policy_from_group st group_id policy s)"

section \<open>credentials.rs, external.rs, tokenid.rs and meta.rs\<close>

definition h_list_user_credentials :: "'s store_trait \<Rightarrow> string \<Rightarrow> http_request \<Rightarrow> ('s, response) handler" where
  "h_list_user_credentials st username rq s =
     store_read (\<lambda>p. CredentialsListReply (into_response (page_map credentials_to_wire p)))
       (so_list_user_credentials st s username (page_of_request rq)) s"

definition h_create_credentials :: "'s store_trait \<Rightarrow> env \<Rightarrow> string \<Rightarrow> http_request \<Rightarrow> ('s, response) handler" where
  "h_create_credentials st env username rq s = respond (\<lambda>c. reply 201 (SecretReply c))
     (svc_create_credentials st env username (query_param rq ''access_key'') (query_param rq ''secret_key'') s)"

definition h_get_credentials_for_user :: "'s store_trait \<Rightarrow> string \<Rightarrow> string \<Rightarrow> ('s, response) handler" where
  "h_get_credentials_for_user st username access_key_id s =
     store_read (\<lambda>c. CredentialsReply (credentials_to_wire c)) (so_get_user_credential st s username access_key_id) s"

definition h_delete_credentials :: "'s store_trait \<Rightarrow> string \<Rightarrow> string \<Rightarrow> ('s, response) handler" where
  "h_delete_credentials st username access_key_id s = store_update 204 (so_delete_credential st username access_key_id s)"

definition h_get_credentials :: "'s store_trait \<Rightarrow> env \<Rightarrow> string \<Rightarrow> ('s, response) handler" where
  "h_get_credentials st env access_key_id s =
     respond (\<lambda>c. reply 200 (SecretReply c)) (svc_credentials_with_secret st env s access_key_id, s)"

definition principal_id_of :: "http_request \<Rightarrow> api_error + string" where
  "principal_id_of rq =
     and_then (ok_or (Invalid ''principalId is required'') (Option.bind (query_param rq ''principalId'') non_blank))
       (\<lambda>i. if has_control i then Err (Invalid ''principalId must not contain control characters'') else Ok i)"

definition h_list_user_external_principals :: "'s store_trait \<Rightarrow> string \<Rightarrow> http_request \<Rightarrow> ('s, response) handler" where
  "h_list_user_external_principals st username rq s =
     store_read (\<lambda>p. PrincipalsReply (into_response (page_map principal_to_wire p)))
       (so_list_user_external_principals st s username (page_of_request rq)) s"

definition h_create_external_principal :: "'s store_trait \<Rightarrow> string \<Rightarrow> http_request \<Rightarrow> ('s, response) handler" where
  "h_create_external_principal st username rq = with_body (principal_id_of rq) (\<lambda>i s.
     store_update 201 (so_create_external_principal st username i s))"

definition h_delete_external_principal :: "'s store_trait \<Rightarrow> string \<Rightarrow> http_request \<Rightarrow> ('s, response) handler" where
  "h_delete_external_principal st username rq = with_body (principal_id_of rq) (\<lambda>i s.
     store_update 204 (so_delete_external_principal st username i s))"

definition h_get_external_principal :: "'s store_trait \<Rightarrow> http_request \<Rightarrow> ('s, response) handler" where
  "h_get_external_principal st rq = with_body (principal_id_of rq) (\<lambda>i s.
     store_read (\<lambda>p. PrincipalReply (principal_to_wire p)) (so_get_external_principal st s i) s)"

definition h_claim_token_id :: "'s store_trait \<Rightarrow> env \<Rightarrow> http_request \<Rightarrow> ('s, response) handler" where
  "h_claim_token_id st env rq = with_body (api_json read_claim rq) (\<lambda>body s.
     respond (\<lambda>_. reply 201 EmptyBody) (svc_claim_token_id st env body s))"

definition h_healthcheck :: response where "h_healthcheck = reply 204 EmptyBody"

definition h_version :: "string \<Rightarrow> ('s, response) handler" where
  "h_version version s = (Ok (reply 200 (VersionReply version)), s)"

definition h_readyz :: "'s store_trait \<Rightarrow> ('s, response) handler" where
  "h_readyz st s = (case so_ping st s of
     Inl _ \<Rightarrow> (Err (Unavailable ''the store does not answer''), s)
   | Inr _ \<Rightarrow> (Ok (reply 200 (TextReply ''ready'')), s))"

section \<open>routes.rs\<close>

definition ROUTE_TABLE :: "(http_method \<times> string) list" where
  "ROUTE_TABLE = [
    (GET, ''/auth/users''),
    (POST, ''/auth/users''),
    (GET, ''/auth/users/{userId}''),
    (DELETE, ''/auth/users/{userId}''),
    (PUT, ''/auth/users/{userId}/password''),
    (PUT, ''/auth/users/{userId}/friendly_name''),
    (GET, ''/auth/groups''),
    (POST, ''/auth/groups''),
    (GET, ''/auth/groups/{groupId}''),
    (DELETE, ''/auth/groups/{groupId}''),
    (GET, ''/auth/policies''),
    (POST, ''/auth/policies''),
    (GET, ''/auth/policies/{policyId}''),
    (PUT, ''/auth/policies/{policyId}''),
    (DELETE, ''/auth/policies/{policyId}''),
    (GET, ''/auth/groups/{groupId}/members''),
    (PUT, ''/auth/groups/{groupId}/members/{userId}''),
    (DELETE, ''/auth/groups/{groupId}/members/{userId}''),
    (GET, ''/auth/users/{userId}/credentials''),
    (POST, ''/auth/users/{userId}/credentials''),
    (GET, ''/auth/users/{userId}/credentials/{accessKeyId}''),
    (DELETE, ''/auth/users/{userId}/credentials/{accessKeyId}''),
    (GET, ''/auth/credentials/{accessKeyId}''),
    (GET, ''/auth/users/{userId}/groups''),
    (GET, ''/auth/users/{userId}/policies''),
    (PUT, ''/auth/users/{userId}/policies/{policyId}''),
    (DELETE, ''/auth/users/{userId}/policies/{policyId}''),
    (GET, ''/auth/groups/{groupId}/policies''),
    (PUT, ''/auth/groups/{groupId}/policies/{policyId}''),
    (DELETE, ''/auth/groups/{groupId}/policies/{policyId}''),
    (POST, ''/auth/tokenid/claim''),
    (GET, ''/auth/users/{userId}/external/principals/ls''),
    (POST, ''/auth/users/{userId}/external/principals''),
    (DELETE, ''/auth/users/{userId}/external/principals''),
    (GET, ''/auth/external/principals''),
    (GET, ''/healthcheck''),
    (GET, ''/config/version'')]"

definition HEALTHCHECK_PATH :: string where "HEALTHCHECK_PATH = ''/healthcheck''"
definition READYZ_PATH :: string where "READYZ_PATH = ''/readyz''"

text \<open>A route: its template and, per method, the handler over the decoded captures.\<close>

type_synonym 's endpoint = "string list \<Rightarrow> http_request \<Rightarrow> ('s, response) handler"
type_synonym 's routes = "(string \<times> (http_method \<times> 's endpoint) list) list"

text \<open>The \<open>Path\<close> extractor: no, one or two captures.\<close>

definition path0 :: "(http_request \<Rightarrow> ('s, response) handler) \<Rightarrow> 's endpoint" where
  "path0 f caps = f"

definition path1 :: "(string \<Rightarrow> http_request \<Rightarrow> ('s, response) handler) \<Rightarrow> 's endpoint" where
  "path1 f caps rq s = (case caps of [a] \<Rightarrow> f a rq s | _ \<Rightarrow> (Err (Internal ''wrong number of path arguments''), s))"

definition path2 :: "(string \<Rightarrow> string \<Rightarrow> http_request \<Rightarrow> ('s, response) handler) \<Rightarrow> 's endpoint" where
  "path2 f caps rq s = (case caps of [a, b] \<Rightarrow> f a b rq s | _ \<Rightarrow> (Err (Internal ''wrong number of path arguments''), s))"

definition protected_router :: "'s store_trait \<Rightarrow> env \<Rightarrow> string \<Rightarrow> 's routes" where
  "protected_router st env version = [
    (''/auth/users'', [(GET, path0 (h_list_users st)), (POST, path0 (h_create_user st env))]),
    (''/auth/users/{userId}'', [(GET, path1 (\<lambda>u rq. h_get_user st u)), (DELETE, path1 (\<lambda>u rq. h_delete_user st u))]),
    (''/auth/users/{userId}/password'', [(PUT, \<lambda>caps rq. h_update_password)]),
    (''/auth/users/{userId}/friendly_name'', [(PUT, path1 (h_update_friendly_name st))]),
    (''/auth/groups'', [(GET, path0 (h_list_groups st)), (POST, path0 (h_create_group st env))]),
    (''/auth/groups/{groupId}'', [(GET, path1 (\<lambda>g rq. h_get_group st g)), (DELETE, path1 (\<lambda>g rq. h_delete_group st g))]),
    (''/auth/policies'', [(GET, path0 (h_list_policies st)), (POST, path0 (h_create_policy st env))]),
    (''/auth/policies/{policyId}'', [(GET, path1 (\<lambda>p rq. h_get_policy st p)), (PUT, path1 (h_update_policy st env)),
       (DELETE, path1 (\<lambda>p rq. h_delete_policy st p))]),
    (''/auth/groups/{groupId}/members'', [(GET, path1 (h_list_group_members st))]),
    (''/auth/groups/{groupId}/members/{userId}'', [(PUT, path2 (\<lambda>g u rq. h_add_membership st g u)),
       (DELETE, path2 (\<lambda>g u rq. h_delete_membership st g u))]),
    (''/auth/users/{userId}/credentials'', [(GET, path1 (h_list_user_credentials st)), (POST, path1 (h_create_credentials st env))]),
    (''/auth/users/{userId}/credentials/{accessKeyId}'', [(GET, path2 (\<lambda>u k rq. h_get_credentials_for_user st u k)),
       (DELETE, path2 (\<lambda>u k rq. h_delete_credentials st u k))]),
    (''/auth/credentials/{accessKeyId}'', [(GET, path1 (\<lambda>k rq. h_get_credentials st env k))]),
    (''/auth/users/{userId}/groups'', [(GET, path1 (h_list_user_groups st))]),
    (''/auth/users/{userId}/policies'', [(GET, path1 (h_list_user_policies st))]),
    (''/auth/users/{userId}/policies/{policyId}'', [(PUT, path2 (\<lambda>u p rq. h_attach_policy_to_user st u p)),
       (DELETE, path2 (\<lambda>u p rq. h_detach_policy_from_user st u p))]),
    (''/auth/groups/{groupId}/policies'', [(GET, path1 (h_list_group_policies st))]),
    (''/auth/groups/{groupId}/policies/{policyId}'', [(PUT, path2 (\<lambda>g p rq. h_attach_policy_to_group st g p)),
       (DELETE, path2 (\<lambda>g p rq. h_detach_policy_from_group st g p))]),
    (''/auth/tokenid/claim'', [(POST, path0 (h_claim_token_id st env))]),
    (''/auth/users/{userId}/external/principals/ls'', [(GET, path1 (h_list_user_external_principals st))]),
    (''/auth/users/{userId}/external/principals'', [(POST, path1 (h_create_external_principal st)),
       (DELETE, path1 (h_delete_external_principal st))]),
    (''/auth/external/principals'', [(GET, path0 (h_get_external_principal st))]),
    (''/config/version'', [(GET, path0 (\<lambda>rq. h_version version))])]"

definition public_router :: "'s routes" where
  "public_router = [(HEALTHCHECK_PATH, [(GET, path0 (\<lambda>rq s. (Ok h_healthcheck, s)))])]"

definition root_router :: "'s store_trait \<Rightarrow> 's routes" where
  "root_router st = [(READYZ_PATH, [(GET, path0 (\<lambda>rq. h_readyz st))])]"

definition operations_of :: "'s routes \<Rightarrow> (http_method \<times> string) list" where
  "operations_of rs = concat (map (\<lambda>(template, methods). map (\<lambda>(m, _). (m, template)) methods) rs)"

section \<open>Matching a path\<close>

text \<open>
  A segment of a template in braces captures any non-empty segment; any other matches itself.
\<close>

definition is_capture :: "string \<Rightarrow> bool" where
  "is_capture t \<longleftrightarrow> starts_with ''{'' t"

fun match_segments :: "string list \<Rightarrow> string list \<Rightarrow> string list option" where
  "match_segments [] [] = Some []"
| "match_segments (t # ts) (x # xs) =
    (if is_capture t then (if x = [] then None else map_option ((#) x) (match_segments ts xs))
     else if t = x then match_segments ts xs else None)"
| "match_segments _ _ = None"

definition match_template :: "string \<Rightarrow> string \<Rightarrow> string list option" where
  "match_template template path = match_segments (split_on CHR ''/'' template) (split_on CHR ''/'' path)"

text \<open>\<open>get\<close> also answers HEAD.\<close>

definition find_method :: "http_method \<Rightarrow> (http_method \<times> 's endpoint) list \<Rightarrow> 's endpoint option" where
  "find_method m methods = (case map_of methods m of
     Some e \<Rightarrow> Some e
   | None \<Rightarrow> (if m = HEAD then map_of methods GET else None))"

definition find_route :: "'s routes \<Rightarrow> string \<Rightarrow> ((http_method \<times> 's endpoint) list \<times> string list) option" where
  "find_route rs path = find_map (\<lambda>(template, methods). map_option (Pair methods) (match_template template path)) rs"

fun decode_all :: "(string \<Rightarrow> string option) \<Rightarrow> string list \<Rightarrow> string list option" where
  "decode_all decode [] = Some []"
| "decode_all decode (x # xs) = Option.bind (decode x) (\<lambda>y. map_option ((#) y) (decode_all decode xs))"

text \<open>What \<open>axum\<close> answers by itself: unknown path, unknown method, captures that are not UTF-8.\<close>

record fallbacks =
  fb_not_found :: response
  fb_method_not_allowed :: response
  fb_bad_path :: response

definition dispatch :: "(string \<Rightarrow> string option) \<Rightarrow> fallbacks \<Rightarrow> 's routes \<Rightarrow> string \<Rightarrow> http_request
    \<Rightarrow> ('s, response) handler" where
  "dispatch decode fb rs path rq s = (case find_route rs path of
     None \<Rightarrow> (Ok (fb_not_found fb), s)
   | Some (methods, caps) \<Rightarrow> (case find_method (rq_method rq) methods of
       None \<Rightarrow> (Ok (fb_method_not_allowed fb), s)
     | Some endpoint \<Rightarrow> (case decode_all decode caps of
         None \<Rightarrow> (Ok (fb_bad_path fb), s)
       | Some args \<Rightarrow> endpoint args rq s)))"

section \<open>build_router\<close>

text \<open>\<open>IntoResponse\<close> of a handler's result.\<close>

definition finish :: "(api_error + response) \<times> 's \<Rightarrow> response \<times> 's" where
  "finish r = map_prod (\<lambda>x. case x of Inl e \<Rightarrow> error_reply e | Inr y \<Rightarrow> y) id r"

record server =
  sv_env :: env
  sv_verifier :: token_verifier
  sv_jwt_ok :: "string \<Rightarrow> validation \<Rightarrow> string \<Rightarrow> bool"
  sv_percent_decode :: "string \<Rightarrow> string option"
  sv_fallbacks :: fallbacks
  sv_version :: string
  sv_base_path :: string

text \<open>
  The middleware around the protected routes: the handler runs on the store only when the bearer
  passes.
\<close>

definition guarded :: "server \<Rightarrow> http_request \<Rightarrow> ('s, response) handler \<Rightarrow> ('s, response) handler" where
  "guarded sv rq next s = (case require_auth (sv_jwt_ok sv) (sv_verifier sv) (rq_authorization rq) (Ok ()) of
     Inl e \<Rightarrow> (Err e, s)
   | Inr _ \<Rightarrow> next s)"

text \<open>The nested routers: \<open>nest\<close> strips the normalised base path, which an empty base path leaves out.\<close>

definition strip_base :: "string \<Rightarrow> string \<Rightarrow> string option" where
  "strip_base base path = (if starts_with base path then Some (drop (length base) path) else None)"

text \<open>The API under its base path, and the readiness probe at the root, outside the base path and the bearer.\<close>

definition serve :: "'s store_trait \<Rightarrow> server \<Rightarrow> http_request \<Rightarrow> 's \<Rightarrow> response \<times> 's" where
  "serve st sv rq s =
     (if find_route (root_router st) (rq_path rq) \<noteq> None
      then finish (dispatch (sv_percent_decode sv) (sv_fallbacks sv) (root_router st) (rq_path rq) rq s)
      else case strip_base (normalize_base_path (sv_base_path sv)) (rq_path rq) of
        None \<Rightarrow> (fb_not_found (sv_fallbacks sv), s)
      | Some path \<Rightarrow>
         (if find_route (public_router :: 's routes) path \<noteq> None
          then finish (dispatch (sv_percent_decode sv) (sv_fallbacks sv) public_router path rq s)
          else finish (guarded sv rq
                 (dispatch (sv_percent_decode sv) (sv_fallbacks sv) (protected_router st (sv_env sv) (sv_version sv)) path rq) s)))"

section \<open>Every request is at most one store operation\<close>

text \<open>The operations that a request can reach: all but the cleanup.\<close>

definition request_op :: "mem_op \<Rightarrow> bool" where
  "request_op op \<longleftrightarrow> (case op of DeleteExpiredTokenIds now \<Rightarrow> False | _ \<Rightarrow> True)"

definition store_step :: "'a update \<Rightarrow> bool" where
  "store_step f \<longleftrightarrow> atomic_update f \<and> (\<exists>op. request_op op \<and> (\<forall>s. snd (f s) = run_op op s))"

text \<open>A handler is transactional when it is one operation of the store or none, and none when it fails.\<close>

definition transactional_at :: "inner \<Rightarrow> (api_error + 'a) \<times> inner \<Rightarrow> bool" where
  "transactional_at s r \<longleftrightarrow> (snd r = s \<or> (\<exists>op. request_op op \<and> snd r = run_op op s)) \<and> (\<forall>e. fst r = Err e \<longrightarrow> snd r = s)"

definition transactional :: "(inner, 'a) handler \<Rightarrow> bool" where
  "transactional h \<longleftrightarrow> (\<forall>s. transactional_at s (h s))"

named_theorems txn \<open>handlers that are transactional, and how they are built\<close>

lemma store_stepI: "atomic_update f \<Longrightarrow> (\<And>s. snd (f s) = run_op op s) \<Longrightarrow> request_op op \<Longrightarrow> store_step f"
  by (auto simp: store_step_def)

lemma store_steps [txn]:
  "store_step (create_user nu)" "store_step (delete_user n)" "store_step (set_friendly_name n m)"
  "store_step (create_group ng)" "store_step (delete_group n)" "store_step (create_policy np)"
  "store_step (update_policy np)" "store_step (delete_policy n)" "store_step (add_membership n m)"
  "store_step (remove_membership n m)" "store_step (attach_policy_to_user n m)"
  "store_step (detach_policy_from_user n m)" "store_step (attach_policy_to_group n m)"
  "store_step (detach_policy_from_group n m)" "store_step (create_credential nc)"
  "store_step (delete_credential n m)" "store_step (create_external_principal n m)"
  "store_step (delete_external_principal n m)" "store_step (claim_token_id n e)"
  by (rule store_stepI, rule atomic_updates, rule run_op.simps [symmetric], simp add: request_op_def)+

text \<open>An answer that follows one store operation and fails whenever the operation did not happen.\<close>

lemma transactional_at_step:
  assumes "store_step f" "f s = (x, s')" "\<And>e. r = Err e \<Longrightarrow> \<exists>e'. x = Err e'"
  shows "transactional_at s (r, s')"
proof -
  obtain op where "request_op op" "s' = run_op op s" using assms(1,2) unfolding store_step_def by (metis snd_conv)
  moreover have "s' = s" if "r = Err e" for e
    using assms(1,2) assms(3) [OF that] unfolding store_step_def atomic_update_def by (metis fst_conv snd_conv)
  ultimately show ?thesis by (auto simp: transactional_at_def)
qed

lemma transactional_at_stay [simp]: "transactional_at s (r, s)"
  by (simp add: transactional_at_def)

lemma transactionalI: "(\<And>s. transactional_at s (h s)) \<Longrightarrow> transactional h"
  by (simp add: transactional_def)

lemma transactionalD: "transactional h \<Longrightarrow> transactional_at s (h s)"
  by (simp add: transactional_def)

lemma transactional_read [txn]: "(\<And>s. snd (h s) = s) \<Longrightarrow> transactional h"
  by (simp add: transactional_def transactional_at_def)

lemma transactional_at_update:
  "store_step f \<Longrightarrow> transactional_at s (store_update c (f s))"
  by (cases "f s") (auto simp: store_update_def map_err_def map_ok_Err_iff split: sum.splits
      intro!: transactional_at_step [of f s])

lemma transactional_update [txn]: "store_step f \<Longrightarrow> transactional (\<lambda>s. store_update c (f s))"
  by (simp add: transactional_def transactional_at_update)

lemma transactional_body [txn]:
  "(\<And>v. transactional (f v)) \<Longrightarrow> transactional (with_body b f)"
  by (cases b) (simp_all add: transactional_def with_body_def)

lemma transactional_respond [txn]: "transactional h \<Longrightarrow> transactional (\<lambda>s. respond f (h s))"
  by (simp add: transactional_def transactional_at_def respond_def map_ok_Err_iff)

lemma transactional_at_create_row:
  assumes "store_step f"
  shows "transactional_at s (map_prod (map_ok g) id (create_row f reread same s))"
proof (cases "f s")
  case (Pair x s')
  show ?thesis unfolding create_row_def Pair
    by (auto intro!: transactional_at_step [OF assms Pair] simp: create_or_existing_def split: sum.splits)
qed

section \<open>The operations of the service\<close>

lemma transactional_svc_create_user [txn]: "transactional (svc_create_user mem_impl env body)"
  by (rule transactionalI)
    (auto simp: svc_create_user_def split: sum.split intro!: transactional_at_create_row store_steps)

lemma transactional_svc_create_group [txn]: "transactional (svc_create_group mem_impl env body)"
  by (rule transactionalI)
    (auto simp: svc_create_group_def split: sum.split intro!: transactional_at_create_row store_steps)

lemma transactional_svc_create_policy [txn]: "transactional (svc_create_policy mem_impl env body)"
  by (rule transactionalI)
    (auto simp: svc_create_policy_def split: sum.split intro!: transactional_at_create_row store_steps)

lemma transactional_svc_update_policy [txn]: "transactional (svc_update_policy mem_impl env n body)"
  by (rule transactionalI)
    (auto simp: svc_update_policy_def map_err_def split: sum.splits prod.split
      intro: transactional_at_step [OF store_steps(7)])

lemma transactional_svc_create_credentials [txn]: "transactional (svc_create_credentials mem_impl env u a k)"
  by (rule transactionalI)
    (auto simp: svc_create_credentials_def Let_def map_err_def split: sum.splits prod.split option.split
      intro: transactional_at_step [OF store_steps(15)])

lemma transactional_svc_claim_token_id [txn]: "transactional (svc_claim_token_id mem_impl env body)"
  by (rule transactionalI)
    (auto simp: svc_claim_token_id_def split: sum.split prod.split store_error.split
      intro: transactional_at_step [OF store_steps(19)])

section \<open>The routers\<close>

lemma transactional_path [txn]:
  "(\<And>rq. transactional (f0 rq)) \<Longrightarrow> transactional (path0 f0 caps rq)"
  "(\<And>a rq. transactional (f1 a rq)) \<Longrightarrow> transactional (path1 f1 caps rq)"
  "(\<And>a b rq. transactional (f2 a b rq)) \<Longrightarrow> transactional (path2 f2 caps rq)"
  by (auto simp: path0_def path1_def path2_def transactional_def split: list.split)

text \<open>The handlers that only read.\<close>

definition reads :: "('s, 'a) handler \<Rightarrow> bool" where
  "reads h \<longleftrightarrow> (\<forall>s. snd (h s) = s)"

lemma reads_transactional [txn]: "reads h \<Longrightarrow> transactional h"
  by (simp add: reads_def transactional_read)

lemma reads_path:
  "(\<And>rq. reads (f0 rq)) \<Longrightarrow> reads (path0 f0 caps rq)"
  "(\<And>a rq. reads (f1 a rq)) \<Longrightarrow> reads (path1 f1 caps rq)"
  "(\<And>a b rq. reads (f2 a b rq)) \<Longrightarrow> reads (path2 f2 caps rq)"
  by (auto simp: path0_def path1_def path2_def reads_def split: list.split)

lemma reads_store_read [simp]: "snd (store_read f r s) = s"
  by (simp add: store_read_def)

lemma snd_with_body: "(\<And>v s. snd (f v s) = s) \<Longrightarrow> snd (with_body b f s) = s"
  by (cases b) (simp_all add: with_body_def)

lemma reading_handlers:
  "reads (h_list_users st rq)" "reads (h_get_user st u)" "reads (h_list_groups st rq)" "reads (h_get_group st g)"
  "reads (h_list_policies st rq)" "reads (h_get_policy st p)" "reads (h_list_group_members st g rq)"
  "reads (h_list_user_groups st u rq)" "reads (h_list_user_policies st u rq)" "reads (h_list_group_policies st g rq)"
  "reads (h_list_user_credentials st u rq)" "reads (h_get_credentials_for_user st u k)" "reads (h_get_credentials st env k)"
  "reads (h_list_user_external_principals st u rq)" "reads (h_get_external_principal st rq)" "reads (h_version v)"
  "reads (\<lambda>s. (Ok h_healthcheck, s))" "reads h_update_password" "reads (h_readyz st)"
  by (auto simp: reads_def h_list_users_def h_get_user_def h_list_groups_def h_get_group_def h_list_policies_def
      h_get_policy_def h_list_group_members_def h_list_user_groups_def h_list_user_policies_def
      h_list_group_policies_def h_list_user_credentials_def h_get_credentials_for_user_def h_get_credentials_def
      h_list_user_external_principals_def h_get_external_principal_def h_version_def h_update_password_def h_readyz_def respond_def
      split: option.split sum.split intro: snd_with_body)

lemma writing_handlers [txn]:
  "transactional (h_create_user mem_impl env rq)" "transactional (h_delete_user mem_impl u)" "transactional (h_update_friendly_name mem_impl u rq)"
  "transactional (h_create_group mem_impl env rq)" "transactional (h_delete_group mem_impl g)" "transactional (h_create_policy mem_impl env rq)"
  "transactional (h_update_policy mem_impl env p rq)" "transactional (h_delete_policy mem_impl p)" "transactional (h_add_membership mem_impl g u)"
  "transactional (h_delete_membership mem_impl g u)" "transactional (h_attach_policy_to_user mem_impl u p)"
  "transactional (h_detach_policy_from_user mem_impl u p)" "transactional (h_attach_policy_to_group mem_impl g p)"
  "transactional (h_detach_policy_from_group mem_impl g p)" "transactional (h_create_credentials mem_impl env u rq)"
  "transactional (h_delete_credentials mem_impl u k)" "transactional (h_create_external_principal mem_impl u rq)"
  "transactional (h_delete_external_principal mem_impl u rq)" "transactional (h_claim_token_id mem_impl env rq)"
  by (simp_all add: h_create_user_def [abs_def] h_delete_user_def [abs_def] h_update_friendly_name_def [abs_def]
      h_create_group_def [abs_def] h_delete_group_def [abs_def] h_create_policy_def [abs_def]
      h_update_policy_def [abs_def] h_delete_policy_def [abs_def] h_add_membership_def [abs_def]
      h_delete_membership_def [abs_def] h_attach_policy_to_user_def [abs_def] h_detach_policy_from_user_def [abs_def]
      h_attach_policy_to_group_def [abs_def] h_detach_policy_from_group_def [abs_def]
      h_create_credentials_def [abs_def] h_delete_credentials_def [abs_def] h_create_external_principal_def [abs_def]
      h_delete_external_principal_def [abs_def] h_claim_token_id_def [abs_def] txn)

definition routes_all :: "(http_method \<Rightarrow> 's endpoint \<Rightarrow> bool) \<Rightarrow> 's routes \<Rightarrow> bool" where
  "routes_all p rs \<longleftrightarrow> (\<forall>r \<in> set rs. \<forall>me \<in> set (snd r). p (fst me) (snd me))"

lemma routes_allD: "routes_all p rs \<Longrightarrow> (t, ms) \<in> set rs \<Longrightarrow> (m, e) \<in> set ms \<Longrightarrow> p m e"
  by (force simp: routes_all_def)

lemma routes_transactional:
  "routes_all (\<lambda>m e. \<forall>caps rq. transactional (e caps rq)) (protected_router mem_impl env version)"
  "routes_all (\<lambda>m e. \<forall>caps rq. transactional (e caps rq)) public_router"
  "routes_all (\<lambda>m e. \<forall>caps rq. transactional (e caps rq)) (root_router mem_impl)"
  by (simp_all add: routes_all_def protected_router_def public_router_def root_router_def transactional_path writing_handlers
      reading_handlers [THEN reads_transactional])

lemma routes_get_reads:
  "routes_all (\<lambda>m e. m \<in> {GET, HEAD} \<longrightarrow> (\<forall>caps rq. reads (e caps rq))) (protected_router mem_impl env version)"
  "routes_all (\<lambda>m e. m \<in> {GET, HEAD} \<longrightarrow> (\<forall>caps rq. reads (e caps rq))) public_router"
  "routes_all (\<lambda>m e. m \<in> {GET, HEAD} \<longrightarrow> (\<forall>caps rq. reads (e caps rq))) (root_router mem_impl)"
  by (simp_all add: routes_all_def protected_router_def public_router_def root_router_def reads_path reading_handlers)

lemma find_method_in: "find_method m ms = Some e \<Longrightarrow> (m, e) \<in> set ms \<or> m = HEAD \<and> (GET, e) \<in> set ms"
  by (auto simp: find_method_def dest: map_of_SomeD split: option.splits if_splits)

lemma find_route_in: "find_route rs path = Some (ms, caps) \<Longrightarrow> \<exists>t. (t, ms) \<in> set rs \<and> match_template t path = Some caps"
  unfolding find_route_def by (drule find_map_SomeD) auto

lemma dispatch_cases:
  obtains (answered) r where "dispatch decode fb rs path rq s = (Ok r, s)"
  | (handled) t ms m e caps args where "find_route rs path = Some (ms, caps)" "(t, ms) \<in> set rs" "(m, e) \<in> set ms"
      "m = rq_method rq \<or> rq_method rq = HEAD \<and> m = GET" "dispatch decode fb rs path rq s = e args rq s"
proof (cases "find_route rs path")
  case None
  then show ?thesis using answered by (simp add: dispatch_def)
next
  case (Some mc)
  then obtain ms caps where r: "find_route rs path = Some (ms, caps)" by (cases mc) auto
  then obtain t where t: "(t, ms) \<in> set rs" by (auto dest: find_route_in)
  show ?thesis
  proof (cases "find_method (rq_method rq) ms")
    case None
    then show ?thesis using answered r by (simp add: dispatch_def)
  next
    case (Some e)
    then obtain m where "(m, e) \<in> set ms" "m = rq_method rq \<or> rq_method rq = HEAD \<and> m = GET"
      by (auto dest: find_method_in)
    then show ?thesis using answered handled [OF r t] r Some
      by (cases "decode_all decode caps") (auto simp: dispatch_def)
  qed
qed

lemma dispatch_transactional:
  assumes "routes_all (\<lambda>m e. \<forall>caps rq. transactional (e caps rq)) rs"
  shows "transactional_at s (dispatch decode fb rs path rq s)"
proof (cases rule: dispatch_cases [of decode fb rs path rq s])
  case (handled t ms m e caps args)
  then have "transactional (e args rq)" using routes_allD [OF assms handled(2,3)] by blast
  then show ?thesis unfolding handled(5) by (rule transactionalD)
qed simp

lemma dispatch_reads:
  assumes "routes_all (\<lambda>m e. m \<in> {GET, HEAD} \<longrightarrow> (\<forall>caps rq. reads (e caps rq))) rs" "rq_method rq \<in> {GET, HEAD}"
  shows "snd (dispatch decode fb rs path rq s) = s"
proof (cases rule: dispatch_cases [of decode fb rs path rq s])
  case (handled t ms m e caps args)
  then have "reads (e args rq)" using routes_allD [OF assms(1) handled(2,3)] assms(2) by auto
  then show ?thesis unfolding handled(5) by (simp add: reads_def)
qed simp

section \<open>The status of an answer\<close>

definition ok_statuses :: "('s, response) handler \<Rightarrow> bool" where
  "ok_statuses h \<longleftrightarrow> (\<forall>s r. fst (h s) = Ok r \<longrightarrow> rs_status r \<in> {200, 201, 204})"

lemma ok_statuses_path:
  "(\<And>rq. ok_statuses (f0 rq)) \<Longrightarrow> ok_statuses (path0 f0 caps rq)"
  "(\<And>a rq. ok_statuses (f1 a rq)) \<Longrightarrow> ok_statuses (path1 f1 caps rq)"
  "(\<And>a b rq. ok_statuses (f2 a b rq)) \<Longrightarrow> ok_statuses (path2 f2 caps rq)"
  by (auto simp: path0_def path1_def path2_def ok_statuses_def split: list.splits)

lemma ok_statuses_body: "(\<And>v. ok_statuses (f v)) \<Longrightarrow> ok_statuses (with_body b f)"
  by (auto simp: ok_statuses_def with_body_def split: sum.splits)

lemma ok_status_ends:
  "fst (store_read f r s) = Ok x \<Longrightarrow> rs_status x = 200"
  "fst (store_update c y) = Ok x \<Longrightarrow> rs_status x = c"
  "fst (respond (\<lambda>a. reply c (g a)) z) = Ok x \<Longrightarrow> rs_status x = c"
  by (auto simp: store_read_def store_update_def respond_def reply_def map_ok_Ok_iff)

lemma ok_statuses_ends:
  "ok_statuses (\<lambda>s. store_update 201 (u s))" "ok_statuses (\<lambda>s. store_update 204 (u s))"
  "ok_statuses (\<lambda>s. respond (\<lambda>a. reply 200 (g a)) (z s))" "ok_statuses (\<lambda>s. respond (\<lambda>a. reply 201 (g a)) (z s))"
  "ok_statuses (\<lambda>s. store_read f (q s) s)"
  by (auto simp: ok_statuses_def dest: ok_status_ends)

lemma ok_statuses_list_users: "ok_statuses (h_list_users mem_impl rq)"
  by (auto simp: ok_statuses_def h_list_users_def reply_def dest: ok_status_ends split: option.splits)

lemmas handler_defs = h_create_user_def [abs_def] h_delete_user_def [abs_def] h_update_friendly_name_def [abs_def]
  h_create_group_def [abs_def] h_delete_group_def [abs_def] h_create_policy_def [abs_def]
  h_update_policy_def [abs_def] h_delete_policy_def [abs_def] h_add_membership_def [abs_def]
  h_delete_membership_def [abs_def] h_attach_policy_to_user_def [abs_def] h_detach_policy_from_user_def [abs_def]
  h_attach_policy_to_group_def [abs_def] h_detach_policy_from_group_def [abs_def]
  h_create_credentials_def [abs_def] h_delete_credentials_def [abs_def] h_create_external_principal_def [abs_def]
  h_delete_external_principal_def [abs_def] h_claim_token_id_def [abs_def]
  h_get_user_def [abs_def] h_list_groups_def [abs_def] h_get_group_def [abs_def]
  h_list_policies_def [abs_def] h_get_policy_def [abs_def] h_list_group_members_def [abs_def]
  h_list_user_groups_def [abs_def] h_list_user_policies_def [abs_def] h_list_group_policies_def [abs_def]
  h_list_user_credentials_def [abs_def] h_get_credentials_for_user_def [abs_def] h_get_credentials_def [abs_def]
  h_list_user_external_principals_def [abs_def] h_get_external_principal_def [abs_def]

lemma ok_statuses_const: "ok_statuses (h_version v)" "ok_statuses (\<lambda>s. (Ok h_healthcheck, s))"
  "ok_statuses h_update_password" "ok_statuses (h_readyz mem_impl)"
  by (simp_all add: ok_statuses_def h_readyz_def h_version_def h_healthcheck_def h_update_password_def reply_def)

lemma routes_ok_statuses:
  "routes_all (\<lambda>m e. \<forall>caps rq. ok_statuses (e caps rq)) (protected_router mem_impl env version)"
  "routes_all (\<lambda>m e. \<forall>caps rq. ok_statuses (e caps rq)) public_router"
  "routes_all (\<lambda>m e. \<forall>caps rq. ok_statuses (e caps rq)) (root_router mem_impl)"
  by (simp_all add: routes_all_def protected_router_def public_router_def root_router_def handler_defs ok_statuses_path
      ok_statuses_list_users ok_statuses_const ok_statuses_body ok_statuses_ends)

section \<open>The routes outside the bearer\<close>

lemma match_literal: "list_all (\<lambda>t. \<not> is_capture t) ts \<Longrightarrow> match_segments ts xs = (if xs = ts then Some [] else None)"
  by (induction ts xs rule: match_segments.induct) auto

lemma single_route:
  assumes "list_all (\<lambda>t. \<not> is_capture t) (split_on CHR ''/'' template)"
  shows "find_route [(template, ms)] path = None \<longleftrightarrow> path \<noteq> template"
proof -
  have "split_on CHR ''/'' path = split_on CHR ''/'' template \<longleftrightarrow> path = template" by (metis join_split_on)
  then show ?thesis by (simp add: find_route_def match_template_def match_literal [OF assms])
qed

lemma public_route: "find_route public_router path = None \<longleftrightarrow> path \<noteq> HEALTHCHECK_PATH"
  unfolding public_router_def by (rule single_route) (simp add: HEALTHCHECK_PATH_def is_capture_def starts_with_def)

lemma root_route: "find_route (root_router st) path = None \<longleftrightarrow> path \<noteq> READYZ_PATH"
  unfolding root_router_def by (rule single_route) (simp add: READYZ_PATH_def is_capture_def starts_with_def)

text \<open>Under a base path nothing is the readiness probe.\<close>

lemma based_path: "normalize_base_path base @ CHR ''/'' # p = READYZ_PATH \<Longrightarrow> CHR ''/'' # p = READYZ_PATH"
proof -
  assume eq: "normalize_base_path base @ CHR ''/'' # p = READYZ_PATH"
  show "CHR ''/'' # p = READYZ_PATH"
  proof (cases "normalize_base_path base")
    case (Cons c cs)
    then have "cs @ CHR ''/'' # p = ''readyz''" using eq by (simp add: READYZ_PATH_def)
    then have "CHR ''/'' \<in> set ''readyz''" by (metis in_set_conv_decomp)
    then show ?thesis by simp
  qed (use eq in simp)
qed

section \<open>The server\<close>

lemma serve_cases:
  obtains (outside) "serve mem_impl sv rq s = (fb_not_found (sv_fallbacks sv), s)"
  | (refused) e where "serve mem_impl sv rq s = (error_reply e, s)"
  | (routed) path rs where
      "rs = public_router \<or> rs = protected_router mem_impl (sv_env sv) (sv_version sv) \<or> rs = root_router mem_impl"
      "serve mem_impl sv rq s = finish (dispatch (sv_percent_decode sv) (sv_fallbacks sv) rs path rq s)"
proof (cases "find_route (root_router mem_impl) (rq_path rq) \<noteq> None")
  case True
  then show ?thesis by (intro routed [of "root_router mem_impl" "rq_path rq"]) (simp_all add: serve_def)
next
  case root: False
  show ?thesis
  proof (cases "strip_base (normalize_base_path (sv_base_path sv)) (rq_path rq)")
    case None
    then show ?thesis using root by (intro outside) (simp add: serve_def)
  next
    case (Some path)
    show ?thesis
    proof (cases "find_route (public_router :: inner routes) path \<noteq> None")
      case True
      then show ?thesis using Some root by (intro routed [of public_router path]) (simp_all add: serve_def)
    next
      case False
      then show ?thesis using Some root refused routed [of "protected_router mem_impl (sv_env sv) (sv_version sv)" path]
        by (cases "require_auth (sv_jwt_ok sv) (sv_verifier sv) (rq_authorization rq) (Ok ())")
          (auto simp: serve_def guarded_def finish_def)
    qed
  qed
qed

lemma finish_simps [simp]: "finish (Err e, s) = (error_reply e, s)" "finish (Ok y, s) = (y, s)"
  by (simp_all add: finish_def)

lemma snd_finish [simp]: "snd (finish r) = snd r"
  by (cases r) (simp add: finish_def)

theorem serve_is_step: "snd (serve mem_impl sv rq s) = s \<or> (\<exists>op. request_op op \<and> snd (serve mem_impl sv rq s) = run_op op s)"
proof (cases rule: serve_cases [of sv rq s])
  case (routed path rs)
  have "transactional_at s (dispatch (sv_percent_decode sv) (sv_fallbacks sv) rs path rq s)"
    using routed(1) dispatch_transactional routes_transactional by metis
  then show ?thesis unfolding routed(2) snd_finish transactional_at_def by blast
qed auto

theorem serve_get: "rq_method rq \<in> {GET, HEAD} \<Longrightarrow> snd (serve mem_impl sv rq s) = s"
proof (cases rule: serve_cases [of sv rq s])
  case (routed path rs)
  assume "rq_method rq \<in> {GET, HEAD}"
  then show ?thesis using dispatch_reads [of rs rq] routes_get_reads routed by auto
qed auto

definition serve_all :: "'s store_trait \<Rightarrow> server \<Rightarrow> http_request list \<Rightarrow> 's \<Rightarrow> 's" where
  "serve_all st sv rqs s = fold (\<lambda>rq s. snd (serve st sv rq s)) rqs s"

theorem serve_reachable: "reachable s \<Longrightarrow> reachable (snd (serve mem_impl sv rq s))"
  using serve_is_step [of sv rq s] by (auto intro: reachable.step)

theorem serve_all_reachable: "reachable s \<Longrightarrow> reachable (serve_all mem_impl sv rqs s)"
  unfolding serve_all_def by (induction rqs arbitrary: s) (auto intro: serve_reachable)

theorem serve_failure:
  assumes "rs_status (fst (serve mem_impl sv rq s)) \<notin> {200, 201, 204}"
  shows "snd (serve mem_impl sv rq s) = s"
proof (cases rule: serve_cases [of sv rq s])
  case (routed path rs)
  let ?d = "dispatch (sv_percent_decode sv) (sv_fallbacks sv) rs path rq s"
  have tx: "transactional_at s ?d" using routed(1) dispatch_transactional routes_transactional by metis
  show ?thesis
  proof (cases "fst ?d")
    case (Inl e)
    with tx routed show ?thesis by (simp add: transactional_at_def)
  next
    case (Inr y)
    then have fy: "fst (finish ?d) = y" by (cases ?d) simp
    show ?thesis
    proof (cases rule: dispatch_cases [of "sv_percent_decode sv" "sv_fallbacks sv" rs path rq s])
      case (handled t ms m e caps args)
      have "routes_all (\<lambda>m e. \<forall>caps rq. ok_statuses (e caps rq)) rs" using routed(1) routes_ok_statuses by metis
      then have "ok_statuses (e args rq)" using routes_allD [OF _ handled(2,3)] by blast
      then have "rs_status y \<in> {200, 201, 204}" using Inr handled(5) by (simp add: ok_statuses_def)
      then show ?thesis using assms fy routed(2) by simp
    qed (simp add: routed)
  qed
qed auto

theorem serve_unauthorized:
  assumes "rq_path rq \<noteq> READYZ_PATH"
    "strip_base (normalize_base_path (sv_base_path sv)) (rq_path rq) = Some path" "path \<noteq> HEALTHCHECK_PATH"
    "\<not> tv_disabled (sv_verifier sv)"
    "\<And>token. Option.bind (rq_authorization rq) bearer_token = Some token
       \<Longrightarrow> verify (sv_jwt_ok sv) (sv_verifier sv) token \<noteq> Ok ()"
  shows "rs_status (fst (serve mem_impl sv rq s)) = 401 \<and> snd (serve mem_impl sv rq s) = s"
proof -
  obtain e where e: "require_auth (sv_jwt_ok sv) (sv_verifier sv) (rq_authorization rq) (Ok ()) = Err e"
      "status_code e = 401"
  proof (cases "Option.bind (rq_authorization rq) bearer_token")
    case None
    then show ?thesis using assms(4) that by (simp add: require_auth_def)
  next
    case (Some token)
    then obtain e where v: "verify (sv_jwt_ok sv) (sv_verifier sv) token = Err e"
      using assms(5) by (cases "verify (sv_jwt_ok sv) (sv_verifier sv) token") auto
    then have "status_code e = 401" by (rule verify_status)
    then show ?thesis using that v Some by (simp add: require_auth_def)
  qed
  then show ?thesis using assms(1-3)
    by (simp add: serve_def root_route public_route guarded_def error_reply_def error_response_def api_status_def reply_def)
qed

section \<open>The route table\<close>

lemma router_operations:
  "operations_of (protected_router (st :: 's store_trait) env version) @ operations_of (public_router :: 's routes) =
   [(GET, ''/auth/users''), (POST, ''/auth/users''), (GET, ''/auth/users/{userId}''), (DELETE, ''/auth/users/{userId}''),
    (PUT, ''/auth/users/{userId}/password''), (PUT, ''/auth/users/{userId}/friendly_name''), (GET, ''/auth/groups''),
    (POST, ''/auth/groups''), (GET, ''/auth/groups/{groupId}''), (DELETE, ''/auth/groups/{groupId}''),
    (GET, ''/auth/policies''), (POST, ''/auth/policies''), (GET, ''/auth/policies/{policyId}''),
    (PUT, ''/auth/policies/{policyId}''), (DELETE, ''/auth/policies/{policyId}''),
    (GET, ''/auth/groups/{groupId}/members''), (PUT, ''/auth/groups/{groupId}/members/{userId}''),
    (DELETE, ''/auth/groups/{groupId}/members/{userId}''), (GET, ''/auth/users/{userId}/credentials''),
    (POST, ''/auth/users/{userId}/credentials''), (GET, ''/auth/users/{userId}/credentials/{accessKeyId}''),
    (DELETE, ''/auth/users/{userId}/credentials/{accessKeyId}''), (GET, ''/auth/credentials/{accessKeyId}''),
    (GET, ''/auth/users/{userId}/groups''), (GET, ''/auth/users/{userId}/policies''),
    (PUT, ''/auth/users/{userId}/policies/{policyId}''), (DELETE, ''/auth/users/{userId}/policies/{policyId}''),
    (GET, ''/auth/groups/{groupId}/policies''), (PUT, ''/auth/groups/{groupId}/policies/{policyId}''),
    (DELETE, ''/auth/groups/{groupId}/policies/{policyId}''), (POST, ''/auth/tokenid/claim''),
    (GET, ''/auth/users/{userId}/external/principals/ls''), (POST, ''/auth/users/{userId}/external/principals''),
    (DELETE, ''/auth/users/{userId}/external/principals''), (GET, ''/auth/external/principals''),
    (GET, ''/config/version''), (GET, ''/healthcheck'')]"
  by (simp add: operations_of_def protected_router_def public_router_def HEALTHCHECK_PATH_def)

theorem route_table_served:
  "set (operations_of (protected_router (st :: 's store_trait) env version) @ operations_of (public_router :: 's routes)) = set ROUTE_TABLE
   \<and> distinct ROUTE_TABLE \<and> length ROUTE_TABLE = 37"
proof (intro conjI)
  show "set (operations_of (protected_router (st :: 's store_trait) env version) @ operations_of (public_router :: 's routes)) = set ROUTE_TABLE"
    unfolding router_operations ROUTE_TABLE_def by (simp only: list.set insert_commute)
  show "distinct ROUTE_TABLE" by code_simp
  show "length ROUTE_TABLE = 37" by code_simp
qed

text \<open>No path matches two templates, so the order of the table does not matter.\<close>

fun overlap :: "string list \<Rightarrow> string list \<Rightarrow> bool" where
  "overlap [] [] \<longleftrightarrow> True"
| "overlap (t # ts) (u # us) \<longleftrightarrow> (is_capture t \<or> is_capture u \<or> t = u) \<and> overlap ts us"
| "overlap _ _ \<longleftrightarrow> False"

lemma match_overlap: "match_segments ts xs = Some a \<Longrightarrow> match_segments us xs = Some b \<Longrightarrow> overlap ts us"
proof (induction ts xs arbitrary: us a b rule: match_segments.induct)
  case (2 t ts x xs)
  then show ?case by (cases us) (auto split: if_splits)
next
  case 1
  then show ?case by (cases us) auto
qed auto

definition all_templates :: "string list" where
  "all_templates = remdups (map snd ROUTE_TABLE)"

lemma templates_disjoint:
  "\<forall>t \<in> set all_templates. \<forall>u \<in> set all_templates. overlap (split_on CHR ''/'' t) (split_on CHR ''/'' u) \<longrightarrow> t = u"
  by code_simp

theorem route_unique:
  assumes "(m, t) \<in> set ROUTE_TABLE" "(m', u) \<in> set ROUTE_TABLE"
    "match_template t path = Some a" "match_template u path = Some b"
  shows "t = u"
proof -
  have "t \<in> set all_templates" "u \<in> set all_templates" using assms(1,2) by (force simp: all_templates_def)+
  then show ?thesis using templates_disjoint assms(3,4) match_overlap unfolding match_template_def by blast
qed
end
