(* ===== verification/Authz_Client.thy ===== *)
theory Authz_Client
  imports Handlers
begin

text \<open>
  The client of the authorization API, \<open>lakefs-authz-client/src/lib.rs\<close>: bearer, retries, the mapping of
  answers to errors, one function per operation, and the find-or-create of a user with its groups.

  What the client calls is a parameter: the transport \<open>ce_send\<close> (\<open>reqwest\<close>) over the state of the other
  side, the timer, the clock and random ids, \<open>jsonwebtoken\<close>'s signing, percent encoding and the URL
  join.  The theory \<open>Client_Server\<close> connects the transport to the server of \<open>Handlers\<close>.
\<close>

definition INTERNAL_TOKEN_TTL :: nat where "INTERNAL_TOKEN_TTL = 5 * 60"
definition RETRY_BASE_DELAY_MS :: nat where "RETRY_BASE_DELAY_MS = 100"
definition MAX_PAGES :: nat where "MAX_PAGES = 20"

datatype 'k client_auth = StaticToken string | InternalJwt 'k | NoAuth

record transport_error =
  te_is_connect :: bool
  te_is_timeout :: bool
  te_is_request :: bool
  te_text :: string

datatype client_error = CConfig string | CTransport transport_error | CBadRequest string | CUnauthorized
  | CNotFound | CAlreadyExists | CNonUnique | CInvalidId string | CPagination cursor_error string
  | CStatus int string | CDecode string

record ensure_user_spec =
  eu_external_id :: string
  eu_username :: string
  eu_email :: "string option"
  eu_friendly_name :: "string option"
  eu_source :: string
  eu_groups :: "string list"

record ensured_user =
  en_user :: user
  en_created :: bool

record 'k authz_client =
  ac_base :: string
  ac_auth :: "'k client_auth"
  ac_max_retries :: nat

record ('s, 'k) client_env =
  ce_send :: "http_request \<Rightarrow> 's \<Rightarrow> (transport_error + response) \<times> 's"
  ce_sleep_ms :: "nat \<Rightarrow> 's \<Rightarrow> 's"
  ce_now :: "'s \<Rightarrow> int"
  ce_jti :: "'s \<Rightarrow> string"
  ce_sign :: "'k \<Rightarrow> internal_claims \<Rightarrow> string + string"
  ce_percent_encode :: "(char \<Rightarrow> bool) \<Rightarrow> string \<Rightarrow> string"
  ce_join :: "string \<Rightarrow> string \<Rightarrow> string option"

text \<open>A call of the client threads the state of the other side; \<open>then_call\<close> is \<open>?\<close> across calls.\<close>

type_synonym ('s, 'a) call = "'s \<Rightarrow> (client_error + 'a) \<times> 's"

definition then_call :: "('s, 'a) call \<Rightarrow> ('a \<Rightarrow> ('s, 'b) call) \<Rightarrow> ('s, 'b) call" where
  "then_call m f s = (case m s of (Inl e, s') \<Rightarrow> (Err e, s') | (Inr x, s') \<Rightarrow> f x s')"

definition pure_call :: "client_error + 'a \<Rightarrow> ('s, 'a) call" where
  "pure_call r s = (r, s)"

section \<open>Sending\<close>

text \<open>\<open>AuthzClient::new\<close> makes the base path end in a slash.\<close>

definition new_client :: "string \<Rightarrow> 'k client_auth \<Rightarrow> nat \<Rightarrow> 'k authz_client" where
  "new_client endpoint auth max_retries =
     \<lparr> ac_base = (if ends_with ''/'' endpoint then endpoint else endpoint @ ''/''), ac_auth = auth,
       ac_max_retries = max_retries \<rparr>"

definition bearer :: "('s, 'k) client_env \<Rightarrow> 'k authz_client \<Rightarrow> 's \<Rightarrow> client_error + string option" where
  "bearer ce ac s = (case ac_auth ac of
     StaticToken token \<Rightarrow> Ok (Some token)
   | InternalJwt key \<Rightarrow> map_ok Some (map_err (\<lambda>err. CConfig (''cannot mint internal token: '' @ err))
       (mint_internal_token (ce_sign ce) (ce_jti ce s) (ce_now ce s) key INTERNAL_TOKEN_TTL))
   | NoAuth \<Rightarrow> Ok None)"

fun idempotent_method :: "http_method \<Rightarrow> bool" where
  "idempotent_method GET = True" | "idempotent_method HEAD = True" | "idempotent_method PUT = True"
| "idempotent_method DELETE = True" | "idempotent_method OPTIONS = True"
| "idempotent_method _ = False"

definition is_server_error :: "response \<Rightarrow> bool" where
  "is_server_error r \<longleftrightarrow> 500 \<le> rs_status r \<and> rs_status r < 600"

definition retryable :: "http_method \<Rightarrow> transport_error + response \<Rightarrow> bool" where
  "retryable m outcome = (case outcome of
     Inr r \<Rightarrow> idempotent_method m \<and> is_server_error r
   | Inl e \<Rightarrow> te_is_connect e \<or> idempotent_method m \<and> (te_is_timeout e \<or> te_is_request e))"

text \<open>\<open>2u32.saturating_pow(attempt - 1)\<close> times the base delay.\<close>

definition retry_delay_ms :: "nat \<Rightarrow> nat" where
  "retry_delay_ms attempt = RETRY_BASE_DELAY_MS * min (2 ^ (attempt - 1)) (2 ^ 32 - 1)"

definition with_bearer :: "string option \<Rightarrow> http_request \<Rightarrow> http_request" where
  "with_bearer token rq = (case token of None \<Rightarrow> rq
     | Some t \<Rightarrow> rq\<lparr> rq_authorization := Some (''Bearer '' @ t) \<rparr>)"

function send_with_retry :: "('s, 'k) client_env \<Rightarrow> 'k authz_client \<Rightarrow> http_request \<Rightarrow> nat \<Rightarrow> ('s, response) call" where
  "send_with_retry ce ac rq attempt s = (case bearer ce ac s of
     Inl e \<Rightarrow> (Err e, s)
   | Inr token \<Rightarrow> (case ce_send ce (with_bearer token rq) s of (outcome, s') \<Rightarrow>
       if retryable (rq_method rq) outcome \<and> attempt < ac_max_retries ac
       then send_with_retry ce ac rq (attempt + 1) (ce_sleep_ms ce (retry_delay_ms (attempt + 1)) s')
       else (map_err CTransport outcome, s')))"
  by pat_completeness auto

termination
  by (relation "measure (\<lambda>(_, ac, _, attempt, _). ac_max_retries ac - attempt)") auto

declare send_with_retry.simps [simp del]

definition send :: "('s, 'k) client_env \<Rightarrow> 'k authz_client \<Rightarrow> http_method \<Rightarrow> string \<Rightarrow> (string \<times> string) list
    \<Rightarrow> request_body \<Rightarrow> ('s, response) call" where
  "send ce ac m path query body s = (case ce_join ce (ac_base ac) path of
     None \<Rightarrow> (Err (CConfig (''invalid path '' @ path)), s)
   | Some url \<Rightarrow> send_with_retry ce ac \<lparr> rq_method = m, rq_path = url, rq_query = query, rq_body = body,
       rq_authorization = None \<rparr> 0 s)"

definition segment :: "('s, 'k) client_env \<Rightarrow> string \<Rightarrow> client_error + string" where
  "segment ce value = map_ok (\<lambda>_. path_segment (ce_percent_encode ce) value)
     (map_err (\<lambda>e. CInvalidId (api_display e)) (validate_entity_id ''entity'' value))"

definition error_message_of :: "response \<Rightarrow> string" where
  "error_message_of r = (case rs_body r of ErrorReply b \<Rightarrow> eb_message b | _ \<Rightarrow> [])"

definition expect_status :: "int \<Rightarrow> response \<Rightarrow> client_error + response" where
  "expect_status expected r =
    (if rs_status r = expected then Ok r
     else Err (if rs_status r = 400 then CBadRequest (error_message_of r)
       else if rs_status r = 401 then CUnauthorized
       else if rs_status r = 404 then CNotFound
       else if rs_status r = 409 then CAlreadyExists
       else CStatus (rs_status r) (error_message_of r)))"

definition decode_json :: "(payload \<Rightarrow> 'a option) \<Rightarrow> response \<Rightarrow> client_error + 'a" where
  "decode_json read r = ok_or (CDecode ''unexpected response body'') (read (rs_body r))"

definition as_user :: "payload \<Rightarrow> user option" where
  "as_user p = (case p of UserReply u \<Rightarrow> Some u | _ \<Rightarrow> None)"
definition as_users :: "payload \<Rightarrow> user list_response option" where
  "as_users p = (case p of UsersReply l \<Rightarrow> Some l | _ \<Rightarrow> None)"
definition as_groups :: "payload \<Rightarrow> group list_response option" where
  "as_groups p = (case p of GroupsReply l \<Rightarrow> Some l | _ \<Rightarrow> None)"
definition as_secret :: "payload \<Rightarrow> credentials_with_secret option" where
  "as_secret p = (case p of SecretReply c \<Rightarrow> Some c | _ \<Rightarrow> None)"
definition as_version :: "payload \<Rightarrow> string option" where
  "as_version p = (case p of VersionReply v \<Rightarrow> Some v | _ \<Rightarrow> None)"

section \<open>The texts of the errors\<close>

text \<open>\<open>debug\<close> is the \<open>{:?}\<close> rendering of a string.\<close>

fun cursor_display :: "(string \<Rightarrow> string) \<Rightarrow> cursor_error \<Rightarrow> string" where
  "cursor_display debug (Repeated c) = ''the server repeated the cursor '' @ debug c"
| "cursor_display debug (TooManyPages n) = ''the listing spans more than '' @ show_nat n @ '' pages''"

fun client_display :: "(string \<Rightarrow> string) \<Rightarrow> client_error \<Rightarrow> string" where
  "client_display debug (CConfig m) = ''invalid client configuration: '' @ m"
| "client_display debug (CTransport e) = ''transport error: '' @ te_text e"
| "client_display debug (CBadRequest m) = ''authorization API rejected the request: '' @ m"
| "client_display debug CUnauthorized = ''authorization API rejected the bearer token''"
| "client_display debug CNotFound = ''not found''"
| "client_display debug CAlreadyExists = ''already exists''"
| "client_display debug CNonUnique = ''more than one user matched the lookup''"
| "client_display debug (CInvalidId m) = ''invalid identifier: '' @ m"
| "client_display debug (CPagination e username) =
     ''pagination did not terminate: '' @ cursor_display debug e @ '' for the groups of '' @ username"
| "client_display debug (CStatus n m) = ''authorization API returned status '' @ show_int n @ '': '' @ m"
| "client_display debug (CDecode m) = ''unexpected response body: '' @ m"

section \<open>The operations\<close>

definition expect_none :: "int \<Rightarrow> ('s, response) call \<Rightarrow> ('s, unit) call" where
  "expect_none expected c = then_call c (\<lambda>r. pure_call (map_ok (\<lambda>_. ()) (expect_status expected r)))"

definition expect_json :: "int \<Rightarrow> (payload \<Rightarrow> 'a option) \<Rightarrow> ('s, response) call \<Rightarrow> ('s, 'a) call" where
  "expect_json expected read c = then_call c (\<lambda>r. pure_call (and_then (expect_status expected r) (decode_json read)))"

text \<open>Paths: the segments are validated and encoded in order, before anything is sent.\<close>

definition with_segments :: "('s, 'k) client_env \<Rightarrow> string list \<Rightarrow> (string list \<Rightarrow> ('s, 'a) call) \<Rightarrow> ('s, 'a) call" where
  "with_segments ce values f s =
    (case foldr (\<lambda>v acc. and_then (segment ce v) (\<lambda>x. map_ok ((#) x) acc)) values (Ok []) of
       Inl e \<Rightarrow> (Err e, s) | Inr segs \<Rightarrow> f segs s)"

definition c_healthcheck :: "('s, 'k) client_env \<Rightarrow> 'k authz_client \<Rightarrow> ('s, unit) call" where
  "c_healthcheck ce ac = expect_none 204 (send ce ac GET ''healthcheck'' [] NoBody)"

definition c_version :: "('s, 'k) client_env \<Rightarrow> 'k authz_client \<Rightarrow> ('s, string) call" where
  "c_version ce ac = expect_json 200 as_version (send ce ac GET ''config/version'' [] NoBody)"

definition c_get_user :: "('s, 'k) client_env \<Rightarrow> 'k authz_client \<Rightarrow> string \<Rightarrow> ('s, user option) call" where
  "c_get_user ce ac username = with_segments ce [username] (\<lambda>segs.
     then_call (send ce ac GET (''auth/users/'' @ hd segs) [] NoBody) (\<lambda>r.
       if rs_status r = 404 then pure_call (Ok None)
       else pure_call (map_ok Some (and_then (expect_status 200 r) (decode_json as_user)))))"

definition c_find_user :: "('s, 'k) client_env \<Rightarrow> 'k authz_client \<Rightarrow> string \<Rightarrow> string \<Rightarrow> ('s, user option) call" where
  "c_find_user ce ac filter_name value =
    (if trim value = [] then pure_call (Ok None)
     else then_call (expect_json 200 as_users (send ce ac GET ''auth/users'' [(filter_name, value), (''amount'', ''2'')] NoBody))
       (\<lambda>list. pure_call (case lr_results list of
          [] \<Rightarrow> Ok None
        | [u] \<Rightarrow> Ok (Some u)
        | _ \<Rightarrow> Err CNonUnique)))"

definition c_find_user_by_external_id ::
    "('s, 'k) client_env \<Rightarrow> 'k authz_client \<Rightarrow> string \<Rightarrow> ('s, user option) call" where
  "c_find_user_by_external_id ce ac external_id = c_find_user ce ac ''external_id'' external_id"

definition c_find_user_by_email :: "('s, 'k) client_env \<Rightarrow> 'k authz_client \<Rightarrow> string \<Rightarrow> ('s, user option) call" where
  "c_find_user_by_email ce ac email = c_find_user ce ac ''email'' email"

definition c_create_user :: "('s, 'k) client_env \<Rightarrow> 'k authz_client \<Rightarrow> user_creation \<Rightarrow> ('s, user) call" where
  "c_create_user ce ac body = expect_json 201 as_user (send ce ac POST ''auth/users'' [] (UserCreationBody body))"

definition c_delete_user :: "('s, 'k) client_env \<Rightarrow> 'k authz_client \<Rightarrow> string \<Rightarrow> ('s, unit) call" where
  "c_delete_user ce ac username = with_segments ce [username] (\<lambda>segs.
     expect_none 204 (send ce ac DELETE (''auth/users/'' @ hd segs) [] NoBody))"

definition c_update_friendly_name ::
    "('s, 'k) client_env \<Rightarrow> 'k authz_client \<Rightarrow> string \<Rightarrow> string \<Rightarrow> ('s, unit) call" where
  "c_update_friendly_name ce ac username friendly_name = with_segments ce [username] (\<lambda>segs.
     expect_none 204 (send ce ac PUT (''auth/users/'' @ hd segs @ ''/friendly_name'') []
       (FriendlyNameBody \<lparr> fn_friendly_name = friendly_name \<rparr>)))"

definition c_add_group_membership ::
    "('s, 'k) client_env \<Rightarrow> 'k authz_client \<Rightarrow> string \<Rightarrow> string \<Rightarrow> ('s, unit) call" where
  "c_add_group_membership ce ac group_id username = with_segments ce [group_id, username] (\<lambda>segs.
     expect_none 201 (send ce ac PUT (''auth/groups/'' @ hd segs @ ''/members/'' @ segs ! 1) [] NoBody))"

definition c_list_user_groups :: "('s, 'k) client_env \<Rightarrow> 'k authz_client \<Rightarrow> string \<Rightarrow> ('s, group list) call" where
  "c_list_user_groups ce ac username = with_segments ce [username] (\<lambda>segs s.
     walk_pages (\<lambda>s after. expect_json 200
         (\<lambda>p. map_option (\<lambda>l. (lr_results l, pg_next_offset (lr_pagination l))) (as_groups p))
         (send ce ac GET (''auth/users/'' @ hd segs @ ''/groups'') [(''after'', after), (''amount'', ''1000'')] NoBody) s)
       (\<lambda>e. CPagination e username) s (new_walk MAX_PAGES) [])"

definition c_create_credentials ::
    "('s, 'k) client_env \<Rightarrow> 'k authz_client \<Rightarrow> string \<Rightarrow> ('s, credentials_with_secret) call" where
  "c_create_credentials ce ac username = with_segments ce [username] (\<lambda>segs.
     expect_json 201 as_secret (send ce ac POST (''auth/users/'' @ hd segs @ ''/credentials'') [] NoBody))"

section \<open>Find or create\<close>

text \<open>The operations the provisioning uses, so that its contract can be stated apart from the transport.\<close>

record 's directory_api =
  da_find_external :: "string \<Rightarrow> ('s, user option) call"
  da_find_email :: "string \<Rightarrow> ('s, user option) call"
  da_create :: "user_creation \<Rightarrow> ('s, user) call"
  da_delete :: "string \<Rightarrow> ('s, unit) call"
  da_rename :: "string \<Rightarrow> string \<Rightarrow> ('s, unit) call"
  da_add_member :: "string \<Rightarrow> string \<Rightarrow> ('s, unit) call"

definition client_api :: "('s, 'k) client_env \<Rightarrow> 'k authz_client \<Rightarrow> 's directory_api" where
  "client_api ce ac = \<lparr> da_find_external = c_find_user_by_external_id ce ac,
     da_find_email = c_find_user_by_email ce ac, da_create = c_create_user ce ac,
     da_delete = c_delete_user ce ac, da_rename = c_update_friendly_name ce ac,
     da_add_member = c_add_group_membership ce ac \<rparr>"

definition user_creation_of :: "ensure_user_spec \<Rightarrow> user_creation" where
  "user_creation_of spec = \<lparr> uc_username = eu_username spec, uc_email = eu_email spec,
     uc_friendly_name = eu_friendly_name spec, uc_source = Some (eu_source spec),
     uc_encrypted_password = None, uc_external_id = Some (eu_external_id spec), uc_invite = None \<rparr>"

definition email_holder :: "'s directory_api \<Rightarrow> ensure_user_spec \<Rightarrow> ('s, user option) call" where
  "email_holder api spec = (case eu_email spec of
     None \<Rightarrow> pure_call (Ok None)
   | Some email \<Rightarrow> then_call (da_find_email api email) (\<lambda>found.
       pure_call (Ok (opt_filter (\<lambda>u. u_external_id u \<noteq> Some (eu_external_id spec)) found))))"

text \<open>Best effort: whatever the delete answers is only logged.\<close>

definition roll_back_create :: "'s directory_api \<Rightarrow> string \<Rightarrow> 's \<Rightarrow> 's" where
  "roll_back_create api username s = snd (da_delete api username s)"

fun join_groups :: "'s directory_api \<Rightarrow> string \<Rightarrow> string list \<Rightarrow> ('s, unit) call" where
  "join_groups api username [] s = (Ok (), s)"
| "join_groups api username (g # gs) s = (case da_add_member api g username s of
     (Inr _, s') \<Rightarrow> join_groups api username gs s'
   | (Inl CAlreadyExists, s') \<Rightarrow> join_groups api username gs s'
   | (Inl CNotFound, s') \<Rightarrow> join_groups api username gs s'
   | (Inl other, s') \<Rightarrow> (Err other, roll_back_create api username s'))"

text \<open>The create, and what a 409 of it leads to: \<open>Inl\<close> ends with a user another login created.\<close>

definition create_or_recover :: "'s directory_api \<Rightarrow> ensure_user_spec \<Rightarrow> ('s, user + user) call" where
  "create_or_recover api spec s = (case da_create api (user_creation_of spec) s of
     (Inr u, s1) \<Rightarrow> (Ok (Inr u), s1)
   | (Inl CAlreadyExists, s1) \<Rightarrow>
       then_call (da_find_external api (eu_external_id spec)) (\<lambda>found. case found of
          Some u \<Rightarrow> pure_call (Ok (Inl u))
        | None \<Rightarrow> then_call (email_holder api spec) (\<lambda>holder. case holder of
            Some _ \<Rightarrow> then_call (da_create api ((user_creation_of spec)\<lparr> uc_email := None \<rparr>)) (\<lambda>u. pure_call (Ok (Inr u)))
          | None \<Rightarrow> pure_call (Err CAlreadyExists))) s1
   | (Inl other, s1) \<Rightarrow> (Err other, s1))"

definition create_user_with_groups :: "'s directory_api \<Rightarrow> ensure_user_spec \<Rightarrow> ('s, ensured_user) call" where
  "create_user_with_groups api spec = then_call (create_or_recover api spec) (\<lambda>r. case r of
     Inl u \<Rightarrow> pure_call (Ok \<lparr> en_user = u, en_created = False \<rparr>)
   | Inr u \<Rightarrow> then_call (join_groups api (u_username u) (eu_groups spec))
       (\<lambda>_. pure_call (Ok \<lparr> en_user = u, en_created = True \<rparr>)))"

definition ensure_user :: "'s directory_api \<Rightarrow> ensure_user_spec \<Rightarrow> ('s, ensured_user) call" where
  "ensure_user api spec = then_call (da_find_external api (eu_external_id spec)) (\<lambda>found. case found of
     Some u \<Rightarrow> pure_call (Ok \<lparr> en_user = u, en_created = False \<rparr>)
   | None \<Rightarrow> create_user_with_groups api spec)"

section \<open>How often a request is sent\<close>

text \<open>The transport instrumented with the requests it was given.\<close>

definition recorded :: "('s, 'k) client_env \<Rightarrow> ('s \<times> http_request list, 'k) client_env" where
  "recorded ce = \<lparr> ce_send = (\<lambda>rq (s, log). case ce_send ce rq s of (r, s') \<Rightarrow> (r, (s', log @ [rq]))),
     ce_sleep_ms = (\<lambda>d (s, log). (ce_sleep_ms ce d s, log)), ce_now = (\<lambda>(s, log). ce_now ce s),
     ce_jti = (\<lambda>(s, log). ce_jti ce s), ce_sign = ce_sign ce, ce_percent_encode = ce_percent_encode ce,
     ce_join = ce_join ce \<rparr>"

lemma send_with_retry_step:
  assumes "send_with_retry (recorded ce) ac rq attempt (s, log) = (r, (s', log'))"
  obtains (unsent) "log' = log"
  | (once) t where "log' = log @ [with_bearer t rq]"
  | (again) t x s1 where "attempt < ac_max_retries ac" "retryable (rq_method rq) x" "fst (ce_send ce (with_bearer t rq) s) = x"
      "send_with_retry (recorded ce) ac rq (attempt + 1) (s1, log @ [with_bearer t rq]) = (r, (s', log'))"
proof (cases "bearer (recorded ce) ac (s, log)")
  case (Inl e)
  then show ?thesis using assms unsent by (simp add: send_with_retry.simps [of _ _ _ attempt])
next
  case (Inr token)
  obtain x s1 where x: "ce_send ce (with_bearer token rq) s = (x, s1)" by force
  then have sent: "ce_send (recorded ce) (with_bearer token rq) (s, log) = (x, (s1, log @ [with_bearer token rq]))"
    by (simp add: recorded_def)
  have sleep: "ce_sleep_ms (recorded ce) d (s1, l) = (ce_sleep_ms ce d s1, l)" for d l
    by (simp add: recorded_def)
  show ?thesis
  proof (cases "retryable (rq_method rq) x \<and> attempt < ac_max_retries ac")
    case True
    then show ?thesis using assms Inr sent sleep x again [of x token]
      by (simp add: send_with_retry.simps [of _ _ _ attempt])
  next
    case False
    then show ?thesis using assms Inr sent once [of token] by (auto simp: send_with_retry.simps [of _ _ _ attempt])
  qed
qed

lemma send_with_retry_bound:
  assumes "send_with_retry (recorded ce) ac rq attempt (s, log) = (r, (s', log'))"
  shows "\<exists>sent. log' = log @ sent \<and> length sent \<le> Suc (ac_max_retries ac - attempt)
    \<and> (\<forall>x \<in> set sent. \<exists>t. x = with_bearer t rq)"
  using assms
proof (induction "ac_max_retries ac - attempt" arbitrary: attempt s log)
  case 0
  from 0(2) show ?case using 0(1) by (cases rule: send_with_retry_step) auto
next
  case (Suc n)
  from Suc.prems show ?case
  proof (cases rule: send_with_retry_step)
    case (again t x s1)
    have n: "n = ac_max_retries ac - (attempt + 1)" using Suc.hyps(2) again(1) by simp
    obtain sent where "log' = (log @ [with_bearer t rq]) @ sent"
        "length sent \<le> Suc (ac_max_retries ac - (attempt + 1))" "\<forall>x \<in> set sent. \<exists>t. x = with_bearer t rq"
      using Suc.hyps(1) [OF n again(4)] by blast
    then show ?thesis using again(1) by (intro exI [of _ "with_bearer t rq # sent"]) auto
  qed auto
qed

lemma send_with_retry_post:
  assumes "rq_method rq = POST" "\<And>rq s e. fst (ce_send ce rq s) = Err e \<Longrightarrow> \<not> te_is_connect e"
    "send_with_retry (recorded ce) ac rq attempt (s, log) = (r, (s', log'))"
  shows "\<exists>sent. log' = log @ sent \<and> length sent \<le> 1"
  using assms(3)
proof (cases rule: send_with_retry_step)
  case (again t x s1)
  then show ?thesis using assms(1,2) by (auto simp: retryable_def split: sum.splits)
qed auto

section \<open>The contract of the user directory\<close>

text \<open>
  What the find-or-create relies on.  \<open>by_external\<close> is the user an external id finds, \<open>members\<close> the group
  memberships; a refused call changes nothing.
\<close>

locale user_directory =
  fixes api :: "'s directory_api"
    and valid :: "'s \<Rightarrow> bool"
    and by_external :: "'s \<Rightarrow> string \<Rightarrow> user option"
    and has_group :: "'s \<Rightarrow> string \<Rightarrow> bool"
    and members :: "'s \<Rightarrow> (string \<times> string) set"
  assumes find_external: "valid s \<Longrightarrow> da_find_external api x s = (Ok (by_external s x), s)"
    and find_email: "valid s \<Longrightarrow> \<exists>r. da_find_email api email s = (Ok r, s)"
    and create_Ok: "valid s \<Longrightarrow> da_create api c s = (Ok u, s') \<Longrightarrow> uc_external_id c = Some x \<Longrightarrow> trim x \<noteq> [] \<Longrightarrow>
      valid s' \<and> by_external s' x = Some u \<and> has_group s' = has_group s \<and> members s' = members s"
    and create_Err: "valid s \<Longrightarrow> da_create api c s = (Err e, s') \<Longrightarrow> s' = s"
    and add_invalid: "\<not> entity_id_ok g \<Longrightarrow> \<exists>m. da_add_member api g n s = (Err (CInvalidId m), s)"
    and add_unknown: "valid s \<Longrightarrow> by_external s x = Some u \<Longrightarrow> entity_id_ok g \<Longrightarrow> \<not> has_group s g \<Longrightarrow>
      da_add_member api g (u_username u) s = (Err CNotFound, s)"
    and add_member: "valid s \<Longrightarrow> by_external s x = Some u \<Longrightarrow> entity_id_ok g \<Longrightarrow> has_group s g \<Longrightarrow>
      \<exists>s'. da_add_member api g (u_username u) s = (Ok (), s') \<and> valid s' \<and> by_external s' = by_external s
        \<and> has_group s' = has_group s \<and> members s' = insert (g, u_username u) (members s)"
    and delete: "valid s \<Longrightarrow> by_external s x = Some u \<Longrightarrow>
      \<exists>s'. da_delete api (u_username u) s = (Ok (), s') \<and> valid s' \<and> by_external s' x = None"
    and rename: "valid s \<Longrightarrow> da_rename api n f s = (r, s') \<Longrightarrow>
      valid s' \<and> map_option u_username (by_external s' x) = map_option u_username (by_external s x)"
begin

lemma ensure_known:
  "valid s \<Longrightarrow> by_external s (eu_external_id spec) = Some u \<Longrightarrow>
     ensure_user api spec s = (Ok \<lparr> en_user = u, en_created = False \<rparr>, s)"
  by (simp add: ensure_user_def then_call_def find_external pure_call_def)

lemma join_groups_all:
  assumes "valid s" "by_external s x = Some u" "list_all entity_id_ok gs"
  shows "\<exists>s'. join_groups api (u_username u) gs s = (Ok (), s') \<and> valid s' \<and> by_external s' = by_external s
    \<and> members s' = members s \<union> {(g, u_username u) | g. g \<in> set gs \<and> has_group s g}"
  using assms
proof (induction gs arbitrary: s)
  case (Cons g gs)
  then have g: "entity_id_ok g" "list_all entity_id_ok gs" by auto
  show ?case
  proof (cases "has_group s g")
    case True
    obtain s1 where s1: "da_add_member api g (u_username u) s = (Ok (), s1)" "valid s1" "by_external s1 = by_external s"
        "has_group s1 = has_group s" "members s1 = insert (g, u_username u) (members s)"
      using add_member [OF Cons.prems(1,2) g(1) True] by blast
    with Cons.IH [of s1] Cons.prems(2) g(2) True show ?thesis by auto
  next
    case False
    have "da_add_member api g (u_username u) s = (Err CNotFound, s)" by (rule add_unknown [OF Cons.prems(1,2) g(1) False])
    with Cons.IH [OF Cons.prems(1,2) g(2)] False show ?thesis by auto
  qed
qed auto

lemma join_groups_invalid:
  assumes "valid s" "by_external s x = Some u" "\<not> list_all entity_id_ok gs"
  shows "\<exists>m s'. join_groups api (u_username u) gs s = (Err (CInvalidId m), s') \<and> valid s' \<and> by_external s' x = None"
  using assms
proof (induction gs arbitrary: s)
  case (Cons g gs)
  show ?case
  proof (cases "entity_id_ok g")
    case True
    then have gs: "\<not> list_all entity_id_ok gs" using Cons.prems(3) by simp
    show ?thesis
    proof (cases "has_group s g")
      case has: True
      obtain s1 where s1: "da_add_member api g (u_username u) s = (Ok (), s1)" "valid s1" "by_external s1 = by_external s"
        using add_member [OF Cons.prems(1,2) True has] by blast
      with Cons.IH [of s1] Cons.prems(2) gs show ?thesis by auto
    next
      case False
      have "da_add_member api g (u_username u) s = (Err CNotFound, s)" by (rule add_unknown [OF Cons.prems(1,2) True False])
      with Cons.IH [OF Cons.prems(1,2) gs] show ?thesis by auto
    qed
  next
    case False
    obtain m where "da_add_member api g (u_username u) s = (Err (CInvalidId m), s)" using add_invalid [OF False] by blast
    moreover obtain s' where "da_delete api (u_username u) s = (Ok (), s')" "valid s'" "by_external s' x = None"
      using delete [OF Cons.prems(1,2)] by blast
    ultimately show ?thesis by (simp add: roll_back_create_def)
  qed
qed simp

text \<open>The create of an unknown identity: a stored user, or a refusal that leaves the directory as it was.\<close>

lemma create_or_recover_cases:
  assumes "valid s" "by_external s (eu_external_id spec) = None" "trim (eu_external_id spec) \<noteq> []"
  obtains (created) u s1 where "create_or_recover api spec s = (Ok (Inr u), s1)" "valid s1"
      "by_external s1 (eu_external_id spec) = Some u" "has_group s1 = has_group s" "members s1 = members s"
  | (refused) e where "create_or_recover api spec s = (Err e, s)"
proof (cases "da_create api (user_creation_of spec) s")
  case (Pair r s1)
  show ?thesis
  proof (cases r)
    case (Inr u)
    then show ?thesis using create_Ok [OF assms(1) Pair [unfolded Inr], of "eu_external_id spec"] assms(3) Pair
      by (intro created [of u s1]) (auto simp: create_or_recover_def user_creation_of_def)
  next
    case (Inl e)
    then have s1: "s1 = s" using create_Err [OF assms(1)] Pair by simp
    show ?thesis
    proof (cases "e = CAlreadyExists")
      case False
      then show ?thesis using Inl Pair s1 by (intro refused [of e]) (auto simp: create_or_recover_def split: client_error.splits)
    next
      case True
      obtain holder where h: "email_holder api spec s = (Ok holder, s)"
      proof (cases "eu_email spec")
        case (Some email)
        obtain r where "da_find_email api email s = (Ok r, s)" using find_email [OF assms(1)] by blast
        then show ?thesis using that Some by (simp add: email_holder_def pure_call_def then_call_def)
      qed (simp add: email_holder_def pure_call_def)
      let ?c = "(user_creation_of spec)\<lparr> uc_email := None \<rparr>"
      show ?thesis
      proof (cases holder)
        case None
        then show ?thesis using Inl Pair s1 True h assms(1,2)
          by (intro refused [of CAlreadyExists]) (simp add: create_or_recover_def then_call_def find_external pure_call_def)
      next
        case (Some v)
        obtain r2 s2 where c2: "da_create api ?c s = (r2, s2)" by force
        have eq: "create_or_recover api spec s = (map_ok Inr r2, s2)"
          using Inl Pair s1 True h assms(1,2) Some c2
          by (cases r2) (simp_all add: create_or_recover_def then_call_def find_external pure_call_def)
        show ?thesis
        proof (cases r2)
          case (Inl e2)
          then show ?thesis using eq create_Err [OF assms(1)] c2 by (intro refused [of e2]) simp
        next
          case (Inr u)
          then show ?thesis using eq create_Ok [OF assms(1) c2 [unfolded Inr], of "eu_external_id spec"] assms(3)
            by (intro created [of u s2]) (auto simp: user_creation_of_def)
        qed
      qed
    qed
  qed
qed

text \<open>A login either ends with the user in the directory, or leaves the identity unknown.\<close>

lemma ensure_user_outcome:
  assumes "valid s" "trim (eu_external_id spec) \<noteq> []" "ensure_user api spec s = (r, s')"
  shows "case r of Inr e \<Rightarrow> valid s' \<and> by_external s' (eu_external_id spec) = Some (en_user e)
    | Inl _ \<Rightarrow> by_external s' (eu_external_id spec) = None"
proof (cases "by_external s (eu_external_id spec)")
  case (Some u)
  then show ?thesis using ensure_known [OF assms(1) Some] assms by auto
next
  case None
  have start: "ensure_user api spec s = create_user_with_groups api spec s"
    using None assms(1) by (simp add: ensure_user_def then_call_def find_external)
  from assms(1) None assms(2) show ?thesis
  proof (cases rule: create_or_recover_cases)
    case (created u s1)
    show ?thesis
    proof (cases "list_all entity_id_ok (eu_groups spec)")
      case True
      obtain s2 where "join_groups api (u_username u) (eu_groups spec) s1 = (Ok (), s2)" "valid s2"
          "by_external s2 = by_external s1"
        using join_groups_all [OF created(2,3) True] by blast
      then show ?thesis using start created assms(3)
        by (auto simp: create_user_with_groups_def then_call_def pure_call_def)
    next
      case False
      obtain m s2 where "join_groups api (u_username u) (eu_groups spec) s1 = (Err (CInvalidId m), s2)"
          "by_external s2 (eu_external_id spec) = None"
        using join_groups_invalid [OF created(2,3) False] by blast
      then show ?thesis using start created assms(3)
        by (auto simp: create_user_with_groups_def then_call_def pure_call_def)
    qed
  next
    case (refused e)
    then show ?thesis using start None assms(3) by (auto simp: create_user_with_groups_def then_call_def)
  qed
qed

lemma ensure_user_again:
  assumes "valid s" "trim (eu_external_id spec) \<noteq> []" "ensure_user api spec s = (Ok e, s')"
  shows "ensure_user api spec s' = (Ok \<lparr> en_user = en_user e, en_created = False \<rparr>, s')"
  using ensure_user_outcome [OF assms] by (auto intro: ensure_known)

text \<open>The memberships of a new user: exactly the requested groups that exist.\<close>

lemma ensure_user_joins:
  assumes "valid s" "trim (eu_external_id spec) \<noteq> []" "ensure_user api spec s = (Ok e, s')" "en_created e"
  shows "members s' = members s \<union> {(g, u_username (en_user e)) | g. g \<in> set (eu_groups spec) \<and> has_group s g}"
proof -
  have None: "by_external s (eu_external_id spec) = None"
    using ensure_known [OF assms(1)] assms(3,4) by (cases "by_external s (eu_external_id spec)") auto
  have start: "ensure_user api spec s = create_user_with_groups api spec s"
    using None assms(1) by (simp add: ensure_user_def then_call_def find_external)
  from assms(1) None assms(2) show ?thesis
  proof (cases rule: create_or_recover_cases)
    case (created u s1)
    have ok: "list_all entity_id_ok (eu_groups spec)"
    proof (rule ccontr)
      assume "\<not> ?thesis"
      then obtain m s2 where "join_groups api (u_username u) (eu_groups spec) s1 = (Err (CInvalidId m), s2)"
        using join_groups_invalid [OF created(2,3)] by blast
      then show False using start created(1) assms(3) by (simp add: create_user_with_groups_def then_call_def)
    qed
    obtain s2 where "join_groups api (u_username u) (eu_groups spec) s1 = (Ok (), s2)"
        "members s2 = members s1 \<union> {(g, u_username u) | g. g \<in> set (eu_groups spec) \<and> has_group s1 g}"
      using join_groups_all [OF created(2,3) ok] by blast
    then show ?thesis using start created assms(3)
      by (auto simp: create_user_with_groups_def then_call_def pure_call_def)
  next
    case (refused e)
    then show ?thesis using start assms(3) by (simp add: create_user_with_groups_def then_call_def)
  qed
qed

text \<open>
  A group name the API cannot address fails the login of a new identity, although a group that does
  not exist is skipped.
\<close>

lemma ensure_user_unaddressable_group:
  assumes "valid s" "trim (eu_external_id spec) \<noteq> []" "by_external s (eu_external_id spec) = None"
    "g \<in> set (eu_groups spec)" "\<not> entity_id_ok g"
  shows "\<exists>e s'. ensure_user api spec s = (Err e, s') \<and> by_external s' (eu_external_id spec) = None"
proof -
  have start: "ensure_user api spec s = create_user_with_groups api spec s"
    using assms(1,3) by (simp add: ensure_user_def then_call_def find_external)
  have bad: "\<not> list_all entity_id_ok (eu_groups spec)" using assms(4,5) by (auto simp: list_all_iff)
  from assms(1,3,2) show ?thesis
  proof (cases rule: create_or_recover_cases)
    case (created u s1)
    obtain m s2 where "join_groups api (u_username u) (eu_groups spec) s1 = (Err (CInvalidId m), s2)"
        "by_external s2 (eu_external_id spec) = None"
      using join_groups_invalid [OF created(2,3) bad] by blast
    then show ?thesis using start created(1) by (auto simp: create_user_with_groups_def then_call_def)
  next
    case (refused e)
    then show ?thesis using start assms(3) by (auto simp: create_user_with_groups_def then_call_def)
  qed
qed

end
end
