(* ===== verification/Boot_File.thy ===== *)
theory Boot_File
  imports Boot_Plan
begin

text \<open>
  The bootstrap file, \<open>lakefs-authz/src/bootstrap.rs\<close>: its entries, their validation with the rules of the
  API, the sealing of the secrets and the run on the store.  The YAML reader is a parameter that gives the
  value of a text; the environment is a lookup, the nonces of the sealed secrets a sequence.
\<close>

definition BOOTSTRAP_VERSION :: nat where "BOOTSTRAP_VERSION = 1"

record policy_spec =
  sp_name :: string
  sp_statement :: "statement list"
  sp_acl :: "string option"

record group_spec =
  sg_id :: string
  sg_description :: "string option"
  sg_policies :: "string list"

record credential_spec =
  sc_access_key_id :: string
  sc_secret_access_key :: "string option"
  sc_secret_access_key_env :: "string option"

record user_spec =
  su_username :: string
  su_email :: "string option"
  su_friendly_name :: "string option"
  su_source :: "string option"
  su_external_id :: "string option"
  su_groups :: "string list"
  su_policies :: "string list"
  su_credentials :: "credential_spec list"

record bootstrap_file =
  bf_version :: "nat option"
  bf_policies :: "policy_spec list"
  bf_groups :: "group_spec list"
  bf_users :: "user_spec list"

definition default_file :: bootstrap_file where
  "default_file = \<lparr> bf_version = None, bf_policies = [], bf_groups = [], bf_users = [] \<rparr>"

datatype boot_error =
    ReadFailed
  | ParseYaml string
  | UnsupportedFileVersion nat
  | InvalidEntry api_error
  | EmptyAccessKey string
  | SecretTwice string
  | SecretMissing string
  | VariableNotSet string string
  | SealSecret crypto_error
  | ApplyFailed store_error

definition resolve_secret :: "(string \<Rightarrow> string option) \<Rightarrow> credential_spec \<Rightarrow> boot_error + string" where
  "resolve_secret env c = (case (sc_secret_access_key c, sc_secret_access_key_env c) of
     (Some _, Some _) \<Rightarrow> Err (SecretTwice (sc_access_key_id c))
   | (Some literal, None) \<Rightarrow> Ok literal
   | (None, Some variable) \<Rightarrow> ok_or (VariableNotSet (sc_access_key_id c) variable) (env variable)
   | (None, None) \<Rightarrow> Err (SecretMissing (sc_access_key_id c)))"

text \<open>\<open>str::lines\<close>: split after each line feed, without the ending and its carriage return.\<close>

definition strip_cr :: "string \<Rightarrow> string" where
  "strip_cr l = (if ends_with [CHR 0x0D] l then butlast l else l)"

definition str_lines :: "string \<Rightarrow> string list" where
  "str_lines s = (let ls = split_on (CHR 0x0A) s in map strip_cr (if last ls = [] then butlast ls else ls))"

definition is_blank_document :: "string \<Rightarrow> bool" where
  "is_blank_document yaml = list_all (\<lambda>line. line = [] \<or> starts_with ''#'' line) (map trim (str_lines yaml))"

section \<open>The entries of the plan\<close>

definition add_policy :: "(string \<Rightarrow> string + string list) \<Rightarrow> int \<Rightarrow> bootstrap_plan \<Rightarrow> policy_spec
    \<Rightarrow> boot_error + bootstrap_plan" where
  "add_policy parse_list now plan p =
     and_then (map_err InvalidEntry (new_policy_validated parse_list (sp_name p) (sp_statement p) (sp_acl p) now))
       (\<lambda>np. Ok (plan\<lparr> bp_policies := bp_policies plan @ [np] \<rparr>))"

definition add_group_policy :: "string \<Rightarrow> bootstrap_plan \<Rightarrow> string \<Rightarrow> boot_error + bootstrap_plan" where
  "add_group_policy group_id plan p =
     and_then (map_err InvalidEntry (validate_entity_id ''policy'' p))
       (\<lambda>_. Ok (plan\<lparr> bp_group_policies := bp_group_policies plan @ [(group_id, p)] \<rparr>))"

definition add_group :: "int \<Rightarrow> bootstrap_plan \<Rightarrow> group_spec \<Rightarrow> boot_error + bootstrap_plan" where
  "add_group now plan g =
     and_then (try_fold (add_group_policy (sg_id g)) plan (sg_policies g)) (\<lambda>plan.
     and_then (map_err InvalidEntry (new_group_validated (sg_id g) (sg_description g) now)) (\<lambda>ng.
       Ok (plan\<lparr> bp_groups := bp_groups plan @ [ng] \<rparr>)))"

definition add_user_group :: "string \<Rightarrow> bootstrap_plan \<Rightarrow> string \<Rightarrow> boot_error + bootstrap_plan" where
  "add_user_group username plan g =
     and_then (map_err InvalidEntry (validate_entity_id ''group'' g))
       (\<lambda>_. Ok (plan\<lparr> bp_memberships := bp_memberships plan @ [(g, username)] \<rparr>))"

definition add_user_policy :: "string \<Rightarrow> bootstrap_plan \<Rightarrow> string \<Rightarrow> boot_error + bootstrap_plan" where
  "add_user_policy username plan p =
     and_then (map_err InvalidEntry (validate_entity_id ''policy'' p))
       (\<lambda>_. Ok (plan\<lparr> bp_user_policies := bp_user_policies plan @ [(username, p)] \<rparr>))"

text \<open>The nonce of a secret is the one drawn for it: the plan's \<open>n\<close>-th credential has the \<open>n\<close>-th nonce.\<close>

definition add_credential :: "secret_box \<Rightarrow> (nat \<Rightarrow> u8 list) \<Rightarrow> (string \<Rightarrow> string option) \<Rightarrow> int \<Rightarrow> string
    \<Rightarrow> bootstrap_plan \<Rightarrow> credential_spec \<Rightarrow> boot_error + bootstrap_plan" where
  "add_credential secrets nonces env now username plan c =
     and_then (ok_or (EmptyAccessKey username) (non_blank (sc_access_key_id c))) (\<lambda>access_key_id.
     and_then (resolve_secret env c) (\<lambda>secret.
     and_then (map_err SealSecret (new_credential_sealed secrets (nonces (length (bp_credentials plan))) username
         access_key_id secret now)) (\<lambda>sealed.
       Ok (plan\<lparr> bp_credentials := bp_credentials plan @ [sealed] \<rparr>))))"

definition spec_fields :: "user_spec \<Rightarrow> user_fields" where
  "spec_fields u = \<lparr> uf_friendly_name = su_friendly_name u, uf_email = su_email u, uf_source = su_source u,
     uf_external_id = su_external_id u, uf_encrypted_password = None \<rparr>"

definition add_user :: "secret_box \<Rightarrow> (nat \<Rightarrow> u8 list) \<Rightarrow> (string \<Rightarrow> string option) \<Rightarrow> int
    \<Rightarrow> bootstrap_plan \<Rightarrow> user_spec \<Rightarrow> boot_error + bootstrap_plan" where
  "add_user secrets nonces env now plan u = (let username = su_username u in
     and_then (try_fold (add_user_group username) plan (su_groups u)) (\<lambda>plan.
     and_then (try_fold (add_user_policy username) plan (su_policies u)) (\<lambda>plan.
     and_then (try_fold (add_credential secrets nonces env now username) plan (su_credentials u)) (\<lambda>plan.
     and_then (map_err InvalidEntry (new_user_validated username (spec_fields u) now)) (\<lambda>nu.
       Ok (plan\<lparr> bp_users := bp_users plan @ [nu] \<rparr>))))))"

definition plan_of_file :: "(string \<Rightarrow> string + string list) \<Rightarrow> secret_box \<Rightarrow> (nat \<Rightarrow> u8 list)
    \<Rightarrow> (string \<Rightarrow> string option) \<Rightarrow> int \<Rightarrow> bootstrap_file \<Rightarrow> boot_error + bootstrap_plan" where
  "plan_of_file parse_list secrets nonces env now file =
     and_then (case bf_version file of
         Some version \<Rightarrow> ensure (version = BOOTSTRAP_VERSION) (UnsupportedFileVersion version)
       | None \<Rightarrow> Ok ()) (\<lambda>_.
     and_then (try_fold (add_policy parse_list now) empty_plan (bf_policies file)) (\<lambda>plan.
     and_then (try_fold (add_group now) plan (bf_groups file)) (\<lambda>plan.
       try_fold (add_user secrets nonces env now) plan (bf_users file))))"

definition read_file :: "(string \<Rightarrow> string + bootstrap_file) \<Rightarrow> string \<Rightarrow> boot_error + bootstrap_file" where
  "read_file parse_yaml yaml =
     (if is_blank_document yaml then Ok default_file else map_err ParseYaml (parse_yaml yaml))"

definition parse_plan_with_env :: "(string \<Rightarrow> string + string list) \<Rightarrow> (string \<Rightarrow> string + bootstrap_file)
    \<Rightarrow> secret_box \<Rightarrow> (nat \<Rightarrow> u8 list) \<Rightarrow> (string \<Rightarrow> string option) \<Rightarrow> int \<Rightarrow> string
    \<Rightarrow> boot_error + bootstrap_plan" where
  "parse_plan_with_env parse_list parse_yaml secrets nonces env now yaml =
     and_then (read_file parse_yaml yaml) (plan_of_file parse_list secrets nonces env now)"

definition load_plan :: "(string \<Rightarrow> string + string list) \<Rightarrow> (string \<Rightarrow> string + bootstrap_file)
    \<Rightarrow> secret_box \<Rightarrow> (nat \<Rightarrow> u8 list) \<Rightarrow> (string \<Rightarrow> string option) \<Rightarrow> int \<Rightarrow> (string \<Rightarrow> string option) \<Rightarrow> string
    \<Rightarrow> boot_error + bootstrap_plan" where
  "load_plan parse_list parse_yaml secrets nonces env now read_to_string path =
     and_then (ok_or ReadFailed (read_to_string path)) (parse_plan_with_env parse_list parse_yaml secrets nonces env now)"

text \<open>\<open>apply\<close> on the in-memory store: an empty plan does not touch it.\<close>

definition apply_boot_file :: "bootstrap_plan \<Rightarrow> inner \<Rightarrow> (boot_error + bootstrap_report) \<times> inner" where
  "apply_boot_file plan s =
     (if plan_is_empty plan then (Ok zero_report, s)
      else case apply_bootstrap plan s of (r, s') \<Rightarrow> (map_err ApplyFailed r, s'))"

section \<open>What a plan holds\<close>

definition policy_of_spec :: "int \<Rightarrow> policy_spec \<Rightarrow> new_policy" where
  "policy_of_spec now p = \<lparr> np_name = sp_name p, np_creation_date = now, np_statement = sp_statement p,
     np_acl = sp_acl p \<rparr>"

definition group_of_spec :: "int \<Rightarrow> group_spec \<Rightarrow> new_group" where
  "group_of_spec now g = \<lparr> ng_id = sg_id g, ng_description = sg_description g, ng_creation_date = now \<rparr>"

definition user_of_spec :: "int \<Rightarrow> user_spec \<Rightarrow> new_user" where
  "user_of_spec now u = \<lparr> nu_username = su_username u, nu_creation_date = now,
     nu_friendly_name = optional_text (su_friendly_name u), nu_email = optional_text (su_email u),
     nu_source = optional_text (su_source u), nu_external_id = optional_text (su_external_id u),
     nu_encrypted_password = None \<rparr>"

text \<open>A credential of the plan is the sealed form of its entry, under the key id without its blanks.\<close>

definition seals :: "secret_box \<Rightarrow> (nat \<Rightarrow> u8 list) \<Rightarrow> (string \<Rightarrow> string option) \<Rightarrow> int \<Rightarrow> string
    \<Rightarrow> credential_spec \<Rightarrow> new_credential \<Rightarrow> bool" where
  "seals secrets nonces env now username c nc \<longleftrightarrow> nc_username nc = username \<and> nc_creation_date nc = now
     \<and> nc_access_key_id nc = trim (sc_access_key_id c) \<and> nc_access_key_id nc \<noteq> []
     \<and> (\<exists>secret i. resolve_secret env c = Ok secret \<and> seal_str secrets (nonces i) secret = Ok (nc_secret_ciphertext nc))"

lemma add_policies_Ok:
  "try_fold (add_policy parse_list now) plan ps = Ok plan' \<longleftrightarrow>
     (\<forall>p \<in> set ps. validate_policy parse_list (sp_name p) (sp_statement p) = Ok ())
     \<and> plan' = plan\<lparr> bp_policies := bp_policies plan @ map (policy_of_spec now) ps \<rparr>"
  by (induction ps arbitrary: plan)
    (auto simp: add_policy_def new_policy_validated_def policy_of_spec_def and_then_Ok_iff map_err_Ok_iff)

lemma add_group_policies_Ok:
  "try_fold (add_group_policy g) plan ps = Ok plan' \<longleftrightarrow> (\<forall>p \<in> set ps. entity_id_ok p)
     \<and> plan' = plan\<lparr> bp_group_policies := bp_group_policies plan @ map (Pair g) ps \<rparr>"
  by (induction ps arbitrary: plan) (auto simp: add_group_policy_def res_simps)

lemma add_memberships_Ok:
  "try_fold (add_user_group u) plan gs = Ok plan' \<longleftrightarrow> (\<forall>g \<in> set gs. entity_id_ok g)
     \<and> plan' = plan\<lparr> bp_memberships := bp_memberships plan @ map (\<lambda>g. (g, u)) gs \<rparr>"
  by (induction gs arbitrary: plan) (auto simp: add_user_group_def res_simps)

lemma add_user_policies_Ok:
  "try_fold (add_user_policy u) plan ps = Ok plan' \<longleftrightarrow> (\<forall>p \<in> set ps. entity_id_ok p)
     \<and> plan' = plan\<lparr> bp_user_policies := bp_user_policies plan @ map (Pair u) ps \<rparr>"
  by (induction ps arbitrary: plan) (auto simp: add_user_policy_def res_simps)

lemma add_groups_Ok:
  "try_fold (add_group now) plan gs = Ok plan' \<longleftrightarrow>
     (\<forall>g \<in> set gs. entity_id_ok (sg_id g) \<and> (\<forall>p \<in> set (sg_policies g). entity_id_ok p))
     \<and> plan' = plan\<lparr> bp_groups := bp_groups plan @ map (group_of_spec now) gs,
         bp_group_policies := bp_group_policies plan @ concat (map (\<lambda>g. map (Pair (sg_id g)) (sg_policies g)) gs) \<rparr>"
  by (induction gs arbitrary: plan)
    (auto simp: add_group_def new_group_validated_def group_of_spec_def add_group_policies_Ok res_simps)

lemma add_credential_Ok:
  assumes "add_credential secrets nonces env now u plan c = Ok plan'"
  shows "\<exists>nc. plan' = plan\<lparr> bp_credentials := bp_credentials plan @ [nc] \<rparr> \<and> seals secrets nonces env now u c nc"
proof -
  obtain secret blob where "trim (sc_access_key_id c) \<noteq> []" "resolve_secret env c = Ok secret"
    "seal_str secrets (nonces (length (bp_credentials plan))) secret = Ok blob"
    "plan' = plan\<lparr> bp_credentials := bp_credentials plan @ [\<lparr> nc_access_key_id = trim (sc_access_key_id c),
       nc_username = u, nc_secret_ciphertext = blob, nc_creation_date = now \<rparr>] \<rparr>"
    using assms by (auto simp: add_credential_def new_credential_sealed_def res_simps non_blank_Some_iff)
  then show ?thesis by (intro exI conjI) (assumption, auto simp: seals_def)
qed

lemma add_credentials_Ok:
  assumes "try_fold (add_credential secrets nonces env now u) plan cs = Ok plan'"
  shows "\<exists>ncs. plan' = plan\<lparr> bp_credentials := bp_credentials plan @ ncs \<rparr>
     \<and> list_all2 (seals secrets nonces env now u) cs ncs"
  using assms
proof (induction cs arbitrary: plan)
  case (Cons c cs)
  then obtain plan1 where c: "add_credential secrets nonces env now u plan c = Ok plan1"
    and cs: "try_fold (add_credential secrets nonces env now u) plan1 cs = Ok plan'" by (auto simp: res_simps)
  obtain nc where "plan1 = plan\<lparr> bp_credentials := bp_credentials plan @ [nc] \<rparr>" "seals secrets nonces env now u c nc"
    using add_credential_Ok [OF c] by blast
  moreover obtain ncs where "plan' = plan1\<lparr> bp_credentials := bp_credentials plan1 @ ncs \<rparr>"
    "list_all2 (seals secrets nonces env now u) cs ncs" using Cons.IH [OF cs] by blast
  ultimately show ?case by (intro exI [of _ "nc # ncs"]) simp
qed (auto intro: exI [of _ "[]"])

text \<open>A user entry and its credential entries are accepted under the rules of the API.\<close>

definition user_spec_ok :: "user_spec \<Rightarrow> bool" where
  "user_spec_ok u \<longleftrightarrow> entity_id_ok (su_username u) \<and> (\<forall>g \<in> set (su_groups u). entity_id_ok g)
     \<and> (\<forall>p \<in> set (su_policies u). entity_id_ok p)"

definition user_credentials :: "user_spec list \<Rightarrow> (string \<times> credential_spec) list" where
  "user_credentials us = concat (map (\<lambda>u. map (Pair (su_username u)) (su_credentials u)) us)"

lemma add_user_Ok:
  assumes "add_user secrets nonces env now plan u = Ok plan'"
  shows "user_spec_ok u \<and> (\<exists>ncs. list_all2 (\<lambda>(u, c). seals secrets nonces env now u c) (user_credentials [u]) ncs
     \<and> plan' = plan\<lparr> bp_users := bp_users plan @ [user_of_spec now u],
        bp_memberships := bp_memberships plan @ map (\<lambda>g. (g, su_username u)) (su_groups u),
        bp_user_policies := bp_user_policies plan @ map (Pair (su_username u)) (su_policies u),
        bp_credentials := bp_credentials plan @ ncs \<rparr>)"
proof -
  obtain p1 p2 p3 where 1: "try_fold (add_user_group (su_username u)) plan (su_groups u) = Ok p1"
    and 2: "try_fold (add_user_policy (su_username u)) p1 (su_policies u) = Ok p2"
    and 3: "try_fold (add_credential secrets nonces env now (su_username u)) p2 (su_credentials u) = Ok p3"
    and 4: "entity_id_ok (su_username u)" "plan' = p3\<lparr> bp_users := bp_users p3 @ [user_of_spec now u] \<rparr>"
    using assms by (auto simp: add_user_def new_user_validated_def user_of_spec_def spec_fields_def Let_def res_simps)
  obtain ncs where "p3 = p2\<lparr> bp_credentials := bp_credentials p2 @ ncs \<rparr>"
    "list_all2 (seals secrets nonces env now (su_username u)) (su_credentials u) ncs"
    using add_credentials_Ok [OF 3] by blast
  with 1 2 4 show ?thesis
    by (auto simp: add_memberships_Ok add_user_policies_Ok user_spec_ok_def user_credentials_def
        list.rel_map intro!: exI [of _ ncs])
qed

lemma add_users_Ok:
  assumes "try_fold (add_user secrets nonces env now) plan us = Ok plan'"
  shows "list_all user_spec_ok us \<and>
    (\<exists>ncs. list_all2 (\<lambda>(u, c). seals secrets nonces env now u c) (user_credentials us) ncs
     \<and> plan' = plan\<lparr> bp_users := bp_users plan @ map (user_of_spec now) us,
        bp_memberships := bp_memberships plan @ concat (map (\<lambda>u. map (\<lambda>g. (g, su_username u)) (su_groups u)) us),
        bp_user_policies := bp_user_policies plan @ concat (map (\<lambda>u. map (Pair (su_username u)) (su_policies u)) us),
        bp_credentials := bp_credentials plan @ ncs \<rparr>)"
  using assms
proof (induction us arbitrary: plan)
  case (Cons u us)
  then obtain plan1 where u: "add_user secrets nonces env now plan u = Ok plan1"
    and us: "try_fold (add_user secrets nonces env now) plan1 us = Ok plan'" by (auto simp: res_simps)
  obtain nc where nc: "list_all2 (\<lambda>(u, c). seals secrets nonces env now u c) (user_credentials [u]) nc"
    and p1: "plan1 = plan\<lparr> bp_users := bp_users plan @ [user_of_spec now u],
        bp_memberships := bp_memberships plan @ map (\<lambda>g. (g, su_username u)) (su_groups u),
        bp_user_policies := bp_user_policies plan @ map (Pair (su_username u)) (su_policies u),
        bp_credentials := bp_credentials plan @ nc \<rparr>" using add_user_Ok [OF u] by blast
  obtain ncs where ncs: "list_all2 (\<lambda>(u, c). seals secrets nonces env now u c) (user_credentials us) ncs"
    and p': "plan' = plan1\<lparr> bp_users := bp_users plan1 @ map (user_of_spec now) us,
        bp_memberships := bp_memberships plan1 @ concat (map (\<lambda>u. map (\<lambda>g. (g, su_username u)) (su_groups u)) us),
        bp_user_policies := bp_user_policies plan1 @ concat (map (\<lambda>u. map (Pair (su_username u)) (su_policies u)) us),
        bp_credentials := bp_credentials plan1 @ ncs \<rparr>" using Cons.IH [OF us] by blast
  have "list_all2 (\<lambda>(u, c). seals secrets nonces env now u c) (user_credentials (u # us)) (nc @ ncs)"
    using list_all2_appendI [OF nc ncs] by (simp add: user_credentials_def)
  moreover have "list_all user_spec_ok (u # us)"
    using add_user_Ok [OF u] Cons.IH [OF us] by simp
  ultimately show ?case by (auto simp: p1 p' intro!: exI [of _ "nc @ ncs"])
qed (auto simp: user_credentials_def intro: exI [of _ "[]"])

text \<open>Everything a plan holds, entry by entry, and that every entry passes the validation of the API.\<close>

lemma plan_of_file_Ok:
  assumes "plan_of_file parse_list secrets nonces env now file = Ok plan"
  shows "bp_policies plan = map (policy_of_spec now) (bf_policies file)"
    and "bp_groups plan = map (group_of_spec now) (bf_groups file)"
    and "bp_users plan = map (user_of_spec now) (bf_users file)"
    and "bp_memberships plan = concat (map (\<lambda>u. map (\<lambda>g. (g, su_username u)) (su_groups u)) (bf_users file))"
    and "bp_user_policies plan = concat (map (\<lambda>u. map (Pair (su_username u)) (su_policies u)) (bf_users file))"
    and "bp_group_policies plan = concat (map (\<lambda>g. map (Pair (sg_id g)) (sg_policies g)) (bf_groups file))"
    and "list_all2 (\<lambda>(u, c). seals secrets nonces env now u c) (user_credentials (bf_users file)) (bp_credentials plan)"
    and "p \<in> set (bf_policies file) \<Longrightarrow> validate_policy parse_list (sp_name p) (sp_statement p) = Ok ()"
    and "g \<in> set (bf_groups file) \<Longrightarrow> entity_id_ok (sg_id g) \<and> list_all entity_id_ok (sg_policies g)"
    and "list_all user_spec_ok (bf_users file)"
proof -
  obtain p1 p2 where 1: "try_fold (add_policy parse_list now) empty_plan (bf_policies file) = Ok p1"
    and 2: "try_fold (add_group now) p1 (bf_groups file) = Ok p2"
    and 3: "try_fold (add_user secrets nonces env now) p2 (bf_users file) = Ok plan"
    using assms by (auto simp: plan_of_file_def and_then_Ok_iff)
  note p1 = 1 [unfolded add_policies_Ok] and p2 = 2 [unfolded add_groups_Ok] and u = add_users_Ok [OF 3]
  then obtain ncs where n: "list_all2 (\<lambda>(u, c). seals secrets nonces env now u c) (user_credentials (bf_users file)) ncs"
    and plan: "plan = p2\<lparr> bp_users := bp_users p2 @ map (user_of_spec now) (bf_users file),
        bp_memberships := bp_memberships p2 @ concat (map (\<lambda>u. map (\<lambda>g. (g, su_username u)) (su_groups u)) (bf_users file)),
        bp_user_policies := bp_user_policies p2 @ concat (map (\<lambda>u. map (Pair (su_username u)) (su_policies u)) (bf_users file)),
        bp_credentials := bp_credentials p2 @ ncs \<rparr>" by blast
  note eqs = plan p2 [THEN conjunct2] p1 [THEN conjunct2] empty_plan_def
  show "bp_policies plan = map (policy_of_spec now) (bf_policies file)"
    and "bp_groups plan = map (group_of_spec now) (bf_groups file)"
    and "bp_users plan = map (user_of_spec now) (bf_users file)"
    and "bp_memberships plan = concat (map (\<lambda>u. map (\<lambda>g. (g, su_username u)) (su_groups u)) (bf_users file))"
    and "bp_user_policies plan = concat (map (\<lambda>u. map (Pair (su_username u)) (su_policies u)) (bf_users file))"
    and "bp_group_policies plan = concat (map (\<lambda>g. map (Pair (sg_id g)) (sg_policies g)) (bf_groups file))"
    and "list_all2 (\<lambda>(u, c). seals secrets nonces env now u c) (user_credentials (bf_users file)) (bp_credentials plan)"
    using n by (simp_all add: eqs)
  show "p \<in> set (bf_policies file) \<Longrightarrow> validate_policy parse_list (sp_name p) (sp_statement p) = Ok ()"
    using p1 by blast
  show "g \<in> set (bf_groups file) \<Longrightarrow> entity_id_ok (sg_id g) \<and> list_all entity_id_ok (sg_policies g)"
    using p2 by (auto simp: list_all_iff)
  show "list_all user_spec_ok (bf_users file)" using u by blast
qed

text \<open>A credential of a plan opens to the secret its entry names.\<close>

lemma seals_open:
  assumes "aead_ok secrets" "\<And>i. length (nonces i) = NONCE_LEN" "seals secrets nonces env now u c nc"
    "resolve_secret env c = Ok secret" "str_ok secret"
  shows "open_str secrets (nc_secret_ciphertext nc) = Ok secret"
  using assms open_str_seal_str [of secrets _ secret] by (auto simp: seals_def)

lemma blank_file_plan:
  "is_blank_document yaml \<Longrightarrow> parse_plan_with_env parse_list parse_yaml secrets nonces env now yaml = Ok empty_plan"
  by (simp add: parse_plan_with_env_def read_file_def plan_of_file_def default_file_def)

lemma apply_empty_file: "apply_boot_file empty_plan s = (Ok zero_report, s)"
  by (simp add: apply_boot_file_def plan_is_empty_iff)

lemma resolve_secret_Ok:
  "resolve_secret env c = Ok secret \<longleftrightarrow>
     (sc_secret_access_key c = Some secret \<and> sc_secret_access_key_env c = None) \<or>
     (sc_secret_access_key c = None \<and> (\<exists>v. sc_secret_access_key_env c = Some v \<and> env v = Some secret))"
  by (auto simp: resolve_secret_def res_simps split: option.splits)

lemma resolve_secret_errors:
  "resolve_secret env c = Err e \<longleftrightarrow>
     (case (sc_secret_access_key c, sc_secret_access_key_env c) of
        (Some _, Some _) \<Rightarrow> e = SecretTwice (sc_access_key_id c)
      | (Some _, None) \<Rightarrow> False
      | (None, Some v) \<Rightarrow> env v = None \<and> e = VariableNotSet (sc_access_key_id c) v
      | (None, None) \<Rightarrow> e = SecretMissing (sc_access_key_id c))"
  by (auto simp: resolve_secret_def res_simps split: option.splits)

lemma wf_apply_boot_file: "wf_inner s \<Longrightarrow> wf_inner (snd (apply_boot_file plan s))"
  using wf_apply_bootstrap [of s plan] by (auto simp: apply_boot_file_def split: prod.splits)

text \<open>A plan applied once more finds everything in place.\<close>

lemma apply_boot_file_idempotent:
  assumes "wf_inner s" "apply_boot_file plan s = (Ok r, s')"
  shows "apply_boot_file plan s' = (Ok (skipped_report plan), s')"
proof (cases "plan_is_empty plan")
  case True
  then show ?thesis
    by (simp add: apply_boot_file_def plan_is_empty_iff skipped_report_def empty_plan_def zero_report_def zero_counts_def)
next
  case False
  with assms have "apply_bootstrap plan s = (Ok r, s')"
    by (auto simp: apply_boot_file_def map_err_Ok_iff split: prod.splits)
  from apply_bootstrap_idempotent [OF assms(1) this] False show ?thesis
    by (simp add: apply_boot_file_def)
qed

end
