(* ===== verification/Authz_Config.thy ===== *)
theory Authz_Config
  imports Handlers Boot_File
begin

text \<open>
  The configuration of the authorization server, \<open>lakefs-authz/src/config.rs\<close>: its flags and what is built
  from them, and the CORS layer of \<open>app.rs\<close>.  The command line is a lookup as in the configuration of the
  authentication server; clap, \<open>humantime\<close> and the header type are parameters.
\<close>



datatype authz_config_error = NoEncryptionSecret | VerifierConfig verifier_config_error

record authz_config =
  az_listen :: string
  az_base_path :: string
  az_secret_key :: "string option"
  az_api_token :: "string option"
  az_encryption_key :: "string option"
  az_disable_auth :: bool
  az_database_url :: string
  az_database_max_connections :: nat
  az_run_migrations :: bool
  az_bootstrap_file :: "string option"
  az_request_timeout :: nat
  az_cors_allow_origins :: "string list"
  az_token_cleanup_interval :: nat
  az_metrics_listen :: "string option"
  az_builder_listen :: "string option"
  az_lakefs_endpoint :: "string option"
  az_log_level :: string
  az_log_format :: string

text \<open>\<open>config.rs\<close> of the shared crate: a secret without its blanks, unless nothing is left.\<close>

definition given_secret :: "string option \<Rightarrow> string option" where
  "given_secret secret = Option.bind secret non_blank"

definition parse_origins :: "(string \<Rightarrow> string + unit) \<Rightarrow> (string \<Rightarrow> string) \<Rightarrow> string \<Rightarrow> string + string list" where
  "parse_origins header_value debug v = (let origins = comma_list v in
     and_then (try_each (\<lambda>origin. if origin \<noteq> ''*''
         then map_err (\<lambda>e. ''origin '' @ debug origin @ '' is not a valid header value: '' @ e) (header_value origin)
         else Ok ()) origins) (\<lambda>_. Ok origins))"

definition authz_verifier :: "authz_config \<Rightarrow> authz_config_error + token_verifier" where
  "authz_verifier c = map_err VerifierConfig
     (new_verifier (given_secret (az_secret_key c)) (given_secret (az_api_token c)) (az_disable_auth c))"

text \<open>The outer option is the panic of a key derivation that cannot fail.\<close>

definition authz_secret_box :: "(u8 list \<Rightarrow> u8 list \<Rightarrow> u8 list \<Rightarrow> nat \<Rightarrow> u8 list option) \<Rightarrow> (u8 list \<Rightarrow> secret_box)
    \<Rightarrow> authz_config \<Rightarrow> authz_config_error + secret_box option" where
  "authz_secret_box hkdf aes256gcm c =
     and_then (ok_or NoEncryptionSecret (opt_or (given_secret (az_encryption_key c)) (given_secret (az_secret_key c))))
       (\<lambda>secret. Ok (derive_box hkdf aes256gcm (as_bytes secret)))"

record router_options =
  ro_base_path :: string
  ro_request_timeout :: nat
  ro_cors_allow_origins :: "string list"

definition router_options_of :: "authz_config \<Rightarrow> router_options" where
  "router_options_of c = \<lparr> ro_base_path = az_base_path c, ro_request_timeout = az_request_timeout c,
     ro_cors_allow_origins = az_cors_allow_origins c \<rparr>"

text \<open>Which origins a browser may call from; every method is allowed and the headers are mirrored.\<close>

datatype cors_origins = AnyOrigin | OriginList "string list"

definition cors_layer :: "(string \<Rightarrow> string + unit) \<Rightarrow> string list \<Rightarrow> cors_origins option" where
  "cors_layer header_value origins = (if origins = [] then None
     else if list_ex (\<lambda>origin. origin = ''*'') origins then Some AnyOrigin
     else Some (OriginList (filter (\<lambda>origin. is_ok (header_value origin)) origins)))"

definition lakefs_endpoint_of :: "authz_config \<Rightarrow> string option" where
  "lakefs_endpoint_of c = Option.bind (az_lakefs_endpoint c) non_blank"

section \<open>Properties\<close>

lemma given_secret_Some: "given_secret s = Some t \<longleftrightarrow> (\<exists>v. s = Some v \<and> non_blank v = Some t)"
  by (auto simp: given_secret_def bind_eq_Some_conv)

lemma given_secret_trimmed: "given_secret s = Some t \<Longrightarrow> non_blank t = Some t"
  by (auto simp: given_secret_Some dest: non_blank_fixed)

text \<open>No origin of an accepted list is dropped by the CORS layer.\<close>

lemma parse_origins_Ok:
  "parse_origins header_value debug v = Ok origins \<longleftrightarrow>
     origins = comma_list v \<and> (\<forall>origin \<in> set origins. origin \<noteq> ''*'' \<longrightarrow> is_ok (header_value origin))"
proof -
  have "map_err f (header_value x) = Ok () \<longleftrightarrow> is_ok (header_value x)" for f x
    by (cases "header_value x") auto
  then show ?thesis by (auto simp: parse_origins_def Let_def and_then_Ok_iff try_each_Ok_iff)
qed

lemma cors_layer_complete:
  assumes "parse_origins header_value debug v = Ok origins" "origins \<noteq> []" "''*'' \<notin> set origins"
  shows "cors_layer header_value origins = Some (OriginList origins)"
proof -
  have "\<forall>origin \<in> set origins. is_ok (header_value origin)" using assms(1,3) by (auto simp: parse_origins_Ok)
  then show ?thesis using assms(2,3) by (auto simp: cors_layer_def list_ex_iff filter_id_conv)
qed

text \<open>Without a static token the verifier checks signatures under the secret, without its blanks.\<close>

lemma authz_verifier_secret:
  assumes "given_secret (az_secret_key c) = Some t" "given_secret (az_api_token c) = None" "\<not> az_disable_auth c"
  shows "\<exists>v. authz_verifier c = Ok v \<and> tv_static_token v = None \<and> tv_decoding_key v = Some t \<and> \<not> tv_disabled v
    \<and> val_audience (tv_validation v) = [INTERNAL_AUDIENCE] \<and> val_algorithm (tv_validation v) = ''HS256''
    \<and> val_required (tv_validation v) = [''exp'', ''aud''] \<and> val_leeway (tv_validation v) = LEEWAY_SECONDS"
  using assms given_secret_trimmed [OF assms(1)] by (simp add: authz_verifier_def new_verifier_def)

lemma authz_verifier_static:
  assumes "given_secret (az_api_token c) = Some t" "\<not> az_disable_auth c"
  shows "\<exists>v. authz_verifier c = Ok v \<and> tv_static_token v = Some t \<and> tv_decoding_key v = None \<and> \<not> tv_disabled v"
  using assms given_secret_trimmed [OF assms(1)] by (simp add: authz_verifier_def new_verifier_def)

lemma authz_verifier_Err:
  "authz_verifier c = Err e \<longleftrightarrow> \<not> az_disable_auth c \<and> given_secret (az_secret_key c) = None
     \<and> given_secret (az_api_token c) = None \<and> e = VerifierConfig NothingConfigured"
proof -
  have "Option.bind (given_secret s) non_blank = given_secret s" for s
    using given_secret_trimmed [of s] by (cases "given_secret s") auto
  then show ?thesis by (auto simp: authz_verifier_def new_verifier_def Let_def)
qed

end
