(* ===== verification/Gob.thy ===== *)
theory Gob
  imports Rust_Str "HOL-Library.Word"
begin

unbundle bit_operations_syntax

text \<open>
  \<open>lakefs-authn/src/lakefs/gob.rs\<close>: Go's \<open>encoding/gob\<close> for the one map shape lakeFS stores in its session
  cookie.  Integers are 64-bit words, an encoder is the bytes it appends, and a read of the \<open>Cursor\<close>
  returns its value with the remaining bytes.  \<open>CapacityOverflow\<close> stands for the panic of
  \<open>Vec::with_capacity\<close> on a count whose allocation exceeds \<open>isize::MAX\<close> bytes.
\<close>

type_synonym u64 = "64 word"

definition MAP_TYPE_ID :: u64 where "MAP_TYPE_ID = 64"
definition LEGACY_MAP_TYPE_ID :: u64 where "LEGACY_MAP_TYPE_ID = 65"
definition STRING_TYPE_ID :: u64 where "STRING_TYPE_ID = 6"
definition INTERFACE_TYPE_ID :: u64 where "INTERFACE_TYPE_ID = 8"
definition WIRE_TYPE_MAP_FIELD :: u64 where "WIRE_TYPE_MAP_FIELD = 3"
definition MAP_TYPE_NAME :: string where "MAP_TYPE_NAME = ''map[interface {}]interface {}''"
definition STRING_TYPE_NAME :: string where "STRING_TYPE_NAME = ''string''"

datatype gob_error =
    Truncated
  | IntegerTooLarge
  | TrailingBytes
  | UnexpectedTypeId int
  | UnexpectedTypeName string
  | Unexpected string
  | GobNotUtf8
  | CapacityOverflow

section \<open>Encoding\<close>

definition to_be_bytes :: "u64 \<Rightarrow> u8 list" where
  "to_be_bytes v = map (\<lambda>i. ucast (drop_bit (8 * i) v)) [7, 6, 5, 4, 3, 2, 1, 0]"

definition encode_uint :: "u64 \<Rightarrow> u8 list" where
  "encode_uint value =
    (if value < 128 then [ucast value]
     else let bytes = to_be_bytes value;
              zeros = length (takeWhile (\<lambda>b. b = 0) bytes);
              first = (if zeros < length bytes then zeros else length bytes - 1);
              significant = drop first bytes
          in of_nat (256 - length significant) # significant)"

definition encode_int :: "u64 \<Rightarrow> u8 list" where
  "encode_int value = encode_uint (if value <s 0 then push_bit 1 (NOT value) OR 1 else push_bit 1 value)"

definition encode_string :: "string \<Rightarrow> u8 list" where
  "encode_string value = encode_uint (of_nat (length value)) @ as_bytes value"

definition message :: "u8 list \<Rightarrow> u8 list" where
  "message body = encode_uint (of_nat (length body)) @ body"

definition encode_interface_string :: "string \<Rightarrow> u8 list" where
  "encode_interface_string value = encode_string STRING_TYPE_NAME @ encode_int STRING_TYPE_ID
     @ message (encode_uint 0 @ encode_string value)"

definition map_value :: "u64 \<Rightarrow> (string \<times> string) list \<Rightarrow> u8 list" where
  "map_value type_id entries = encode_int type_id @ encode_uint 0 @ encode_uint (of_nat (length entries))
     @ concat (map (\<lambda>(k, v). encode_interface_string k @ encode_interface_string v) entries)"

definition map_type_definition :: "u64 \<Rightarrow> u8 list" where
  "map_type_definition type_id = encode_int (- type_id) @ encode_uint (WIRE_TYPE_MAP_FIELD + 1) @ encode_uint 1
     @ encode_uint 2 @ encode_int type_id @ encode_uint 0
     @ encode_uint 1 @ encode_int INTERFACE_TYPE_ID
     @ encode_uint 1 @ encode_int INTERFACE_TYPE_ID @ encode_uint 0 @ encode_uint 0"

definition encode_token_map :: "string \<Rightarrow> u8 list" where
  "encode_token_map token =
     message (map_type_definition MAP_TYPE_ID) @ message (map_value MAP_TYPE_ID [(''token'', token)])"

section \<open>Decoding\<close>

type_synonym 'a read = "u8 list \<Rightarrow> gob_error + 'a \<times> u8 list"

definition take_bytes :: "nat \<Rightarrow> u8 list read" where
  "take_bytes count c = (if length c < count then Err Truncated else Ok (take count c, drop count c))"

definition read_uint :: "u64 read" where
  "read_uint c = and_then (take_bytes 1 c) (\<lambda>(head, c).
     let first = hd head in
     if first < 128 then Ok (ucast first, c)
     else let count = 256 - unat first in
       if count > 8 then Err IntegerTooLarge
       else and_then (take_bytes count c) (\<lambda>(bytes, c).
         Ok (fold (\<lambda>byte value. push_bit 8 value OR ucast byte) bytes 0, c)))"

definition read_int :: "u64 read" where
  "read_int c = and_then (read_uint c) (\<lambda>(raw, c).
     Ok (if raw AND 1 = 1 then NOT (drop_bit 1 raw) else drop_bit 1 raw, c))"

definition read_string :: "string read" where
  "read_string c = and_then (read_uint c) (\<lambda>(len, c). and_then (take_bytes (unat len) c) (\<lambda>(bytes, c).
     case from_utf8 bytes of None \<Rightarrow> Err GobNotUtf8 | Some s \<Rightarrow> Ok (s, c)))"

definition read_message :: "u8 list read" where
  "read_message c = and_then (read_uint c) (\<lambda>(len, c). take_bytes (unat len) c)"

definition expect_uint :: "u64 \<Rightarrow> string \<Rightarrow> unit read" where
  "expect_uint expected what c = and_then (read_uint c) (\<lambda>(v, c).
     if v = expected then Ok ((), c) else Err (Unexpected what))"

definition expect_int :: "u64 \<Rightarrow> string \<Rightarrow> unit read" where
  "expect_int expected what c = and_then (read_int c) (\<lambda>(v, c).
     if v \<noteq> expected then Err (Unexpected what) else Ok ((), c))"

definition read_type_name :: "unit read" where
  "read_type_name c = and_then (read_uint c) (\<lambda>(delta, c).
     if delta = 2 then Ok ((), c)
     else if delta = 1 then and_then (read_string c) (\<lambda>(name, c).
       if name \<noteq> MAP_TYPE_NAME then Err (UnexpectedTypeName name) else expect_uint 1 ''map type has no id'' c)
     else Err (Unexpected ''map type has no id''))"

definition read_type_definition :: "u8 list \<Rightarrow> gob_error + u64" where
  "read_type_definition body = and_then (read_int body) (\<lambda>(announced, c).
     if 0 <=s announced then Err (Unexpected ''first message is not a type definition'')
     else let type_id = - announced in
     if type_id \<noteq> MAP_TYPE_ID \<and> type_id \<noteq> LEGACY_MAP_TYPE_ID then Err (UnexpectedTypeId (sint type_id))
     else and_then (expect_uint (WIRE_TYPE_MAP_FIELD + 1) ''type definition is not a map type'' c) (\<lambda>(_, c).
     and_then (expect_uint 1 ''map type has no common type'' c) (\<lambda>(_, c).
     and_then (read_type_name c) (\<lambda>(_, c).
     and_then (expect_int type_id ''map type id does not match the definition'' c) (\<lambda>(_, c).
     and_then (expect_uint 0 ''common type is not terminated'' c) (\<lambda>(_, c).
     and_then (expect_uint 1 ''map type has no key type'' c) (\<lambda>(_, c).
     and_then (expect_int INTERFACE_TYPE_ID ''map key is not an interface'' c) (\<lambda>(_, c).
     and_then (expect_uint 1 ''map type has no element type'' c) (\<lambda>(_, c).
     and_then (expect_int INTERFACE_TYPE_ID ''map element is not an interface'' c) (\<lambda>(_, c).
     and_then (expect_uint 0 ''map type is not terminated'' c) (\<lambda>(_, c).
     and_then (expect_uint 0 ''wire type is not terminated'' c) (\<lambda>(_, c).
     if c \<noteq> [] then Err TrailingBytes else Ok type_id))))))))))))"

definition read_interface_string :: "string read" where
  "read_interface_string c = and_then (read_string c) (\<lambda>(name, c).
     if name \<noteq> STRING_TYPE_NAME then Err (UnexpectedTypeName name)
     else and_then (expect_int STRING_TYPE_ID ''interface value is not a string'' c) (\<lambda>(_, c).
     and_then (read_message c) (\<lambda>(inner, c).
     and_then (expect_uint 0 ''interface value has no singleton delta'' inner) (\<lambda>(_, inner).
     and_then (read_string inner) (\<lambda>(value, inner).
     if inner \<noteq> [] then Err TrailingBytes else Ok (value, c))))))"

fun read_entries :: "nat \<Rightarrow> (string \<times> string) list read" where
  "read_entries 0 c = Ok ([], c)"
| "read_entries (Suc n) c = and_then (read_interface_string c) (\<lambda>(k, c).
     and_then (read_interface_string c) (\<lambda>(v, c).
     and_then (read_entries n c) (\<lambda>(es, c). Ok ((k, v) # es, c))))"

text \<open>An entry is two \<open>String\<close>s of 24 bytes each.\<close>

definition max_entries :: nat where "max_entries = (2 ^ 63 - 1) div 48"

definition read_map_value :: "u8 list \<Rightarrow> u64 \<Rightarrow> gob_error + (string \<times> string) list" where
  "read_map_value body type_id =
     and_then (expect_int type_id ''value message has a different type id'' body) (\<lambda>(_, c).
     and_then (expect_uint 0 ''singleton delta is missing'' c) (\<lambda>(_, c).
     and_then (read_uint c) (\<lambda>(count, c).
     if unat count > max_entries then Err CapacityOverflow
     else and_then (read_entries (unat count) c) (\<lambda>(entries, c).
     if c \<noteq> [] then Err TrailingBytes else Ok entries))))"

definition decode_string_map :: "u8 list \<Rightarrow> gob_error + (string \<times> string) list" where
  "decode_string_map stream = and_then (read_message stream) (\<lambda>(definition_bytes, c).
     and_then (read_type_definition definition_bytes) (\<lambda>type_id.
     and_then (read_message c) (\<lambda>(value, c).
     and_then (read_map_value value type_id) (\<lambda>entries.
     if c \<noteq> [] then Err TrailingBytes else Ok entries))))"

definition decode_token_map :: "u8 list \<Rightarrow> gob_error + string" where
  "decode_token_map stream = and_then (decode_string_map stream) (\<lambda>entries.
     ok_or (Unexpected ''no token entry in the session map'')
       (map_option snd (List.find (\<lambda>(key, _). key = ''token'') entries)))"

section \<open>Round trips\<close>

lemma take_bytes_append [simp]: "length xs = n \<Longrightarrow> take_bytes n (xs @ ys) = Ok (xs, ys)"
  by (simp add: take_bytes_def)

definition from_be_bytes :: "u8 list \<Rightarrow> u64" where
  "from_be_bytes bytes = fold (\<lambda>byte value. push_bit 8 value OR ucast byte) bytes 0"

lemma low_byte_step: "push_bit 8 (drop_bit 8 x) OR ucast (ucast x :: u8) = (x :: u64)"
  by (rule bit_word_eqI) (auto simp: bit_simps)

lemma from_to_be_bytes: "from_be_bytes (to_be_bytes v) = v"
proof -
  have step: "push_bit 8 (drop_bit (8 + n) v) OR ucast (ucast (drop_bit n v) :: u8) = drop_bit n v" for n
    using low_byte_step [of "drop_bit n v"] by (simp add: add.commute)
  have "drop_bit 64 v = 0" by (rule bit_word_eqI) (auto simp: bit_simps)
  then have top: "ucast (ucast (drop_bit 56 v) :: u8) = drop_bit 56 v"
    using step [of 56] by simp
  show ?thesis
    using step [of 48] step [of 40] step [of 32] step [of 24] step [of 16] step [of 8] step [of 0]
    by (simp add: from_be_bytes_def to_be_bytes_def top)
qed

lemma from_be_bytes_zeros: "from_be_bytes (dropWhile (\<lambda>b. b = 0) bs) = from_be_bytes bs"
  by (induction bs) (auto simp: from_be_bytes_def)

lemma length_to_be_bytes [simp]: "length (to_be_bytes v) = 8"
  by (simp add: to_be_bytes_def)

lemma encode_uint_big:
  assumes "\<not> v < 128"
  obtains sig where "encode_uint v = of_nat (256 - length sig) # sig" "from_be_bytes sig = v"
    "1 \<le> length sig" "length sig \<le> 8"
proof -
  let ?bytes = "to_be_bytes v" and ?sig = "dropWhile (\<lambda>b. b = 0) (to_be_bytes v)"
  have v: "from_be_bytes ?sig = v" by (simp add: from_be_bytes_zeros from_to_be_bytes)
  have ne: "?sig \<noteq> []"
  proof
    assume "?sig = []"
    with v have "v = 0" unfolding from_be_bytes_def by (metis fold_simps(1))
    with assms show False by simp
  qed
  have len: "length ?sig \<le> 8" using length_dropWhile_le [of "\<lambda>b. b = 0" ?bytes] by simp
  have split: "?bytes = takeWhile (\<lambda>b. b = 0) ?bytes @ ?sig" by simp
  have "length ?bytes = length (takeWhile (\<lambda>b. b = 0) ?bytes) + length ?sig"
    by (metis length_append split)
  moreover have "0 < length ?sig" using ne by blast
  ultimately have zeros: "length (takeWhile (\<lambda>b. b = 0) ?bytes) < length ?bytes" by linarith
  have "drop (length (takeWhile (\<lambda>b. b = 0) ?bytes)) ?bytes = ?sig" by (simp add: dropWhile_eq_drop)
  then have "encode_uint v = of_nat (256 - length ?sig) # ?sig"
    using assms zeros unfolding encode_uint_def Let_def by simp
  then show thesis using v ne len by (intro that) (simp_all add: Suc_le_eq)
qed

lemma read_uint_encode [simp]: "read_uint (encode_uint v @ rest) = Ok (v, rest)"
proof (cases "v < 128")
  case True
  then have small: "unat v < 128" by (simp add: word_less_nat_alt)
  have u: "unat (ucast v :: u8) = unat v"
    using small by (simp add: unsigned_ucast_eq take_bit_nat_eq_self)
  have "(ucast v :: u8) < 128" using small u by (simp add: word_less_nat_alt)
  moreover have "(ucast (ucast v :: u8) :: u64) = v"
    using small by (simp add: word_unat_eq_iff unsigned_ucast_eq unsigned_take_bit_eq u take_bit_nat_eq_self)
  ultimately show ?thesis using True by (simp add: encode_uint_def read_uint_def take_bytes_def)
next
  case False
  then obtain sig where sig: "encode_uint v = of_nat (256 - length sig) # sig" "from_be_bytes sig = v"
    "1 \<le> length sig" "length sig \<le> 8" by (rule encode_uint_big)
  let ?h = "of_nat (256 - length sig) :: u8"
  have h: "unat ?h = 256 - length sig" using sig(3) by (simp add: unat_of_nat)
  then have "\<not> ?h < 128" using sig(4) by (simp add: word_less_nat_alt)
  moreover have "256 - unat ?h = length sig" using h sig(4) by simp
  ultimately show ?thesis
    using sig(4) by (simp add: sig(1) read_uint_def take_bytes_def Let_def sig(2) [unfolded from_be_bytes_def])
qed

lemma drop_push_1: "\<not> bit x 63 \<Longrightarrow> drop_bit 1 (push_bit 1 x OR 1) = (x :: u64)"
  "\<not> bit x 63 \<Longrightarrow> drop_bit 1 (push_bit 1 x) = (x :: u64)"
  by (rule bit_word_eqI; case_tac "n = 63"; auto simp: bit_simps simp del: push_bit_Suc drop_bit_Suc)+

lemma signed_less_zero: "(x :: u64) <s 0 \<longleftrightarrow> bit x 63"
  using bit_last_iff [of x] by (simp add: word_sless_alt)

lemma read_int_encode [simp]: "read_int (encode_int v @ rest) = Ok (v, rest)"
proof (cases "v <s 0")
  case True
  then have "\<not> bit (NOT v) 63" by (simp add: signed_less_zero bit_simps)
  then have "drop_bit 1 (push_bit 1 (NOT v) OR 1) = NOT v" by (rule drop_push_1)
  moreover have "(push_bit 1 (NOT v) OR 1) AND 1 = 1"
    by (rule bit_word_eqI) (auto simp: bit_simps simp del: push_bit_Suc)
  ultimately show ?thesis using True by (simp add: encode_int_def read_int_def)
next
  case False
  then have "\<not> bit v 63" by (simp add: signed_less_zero)
  then have "drop_bit 1 (push_bit 1 v) = v" by (rule drop_push_1)
  moreover have "push_bit 1 v AND 1 = 0"
    by (rule bit_word_eqI) (auto simp: bit_simps simp del: push_bit_Suc)
  ultimately show ?thesis using False by (simp add: encode_int_def read_int_def)
qed

lemma unat_of_length [simp]: "n < 2 ^ 64 \<Longrightarrow> unat (of_nat n :: u64) = n"
  by (simp add: unat_of_nat)

lemma read_string_encode [simp]:
  "str_ok v \<Longrightarrow> length v < 2 ^ 64 \<Longrightarrow> read_string (encode_string v @ rest) = Ok (v, rest)"
  by (simp add: read_string_def encode_string_def from_utf8_as_bytes)

lemma read_message_encode [simp]: "length body < 2 ^ 64 \<Longrightarrow> read_message (message body @ rest) = Ok (body, rest)"
  by (simp add: read_message_def message_def)

lemma expect_uint_encode [simp]:
  "expect_uint e what (encode_uint v @ rest) = (if v = e then Ok ((), rest) else Err (Unexpected what))"
  by (simp add: expect_uint_def)

lemma expect_int_encode [simp]:
  "expect_int e what (encode_int v @ rest) = (if v = e then Ok ((), rest) else Err (Unexpected what))"
  by (simp add: expect_int_def)

lemma length_encode_uint: "length (encode_uint v) \<le> 9"
proof (cases "v < 128")
  case False
  then obtain sig where "encode_uint v = of_nat (256 - length sig) # sig" "length sig \<le> 8" by (rule encode_uint_big)
  then show ?thesis by simp
qed (simp add: encode_uint_def)

lemma length_encode_int: "length (encode_int v) \<le> 9"
  by (simp add: encode_int_def length_encode_uint)

lemma length_encode_interface_string: "length (encode_interface_string v) \<le> 60 + length v"
proof -
  have "length (encode_uint a) + length (encode_int b) + length (encode_uint c) + length (encode_uint 0) + length (encode_uint e) \<le> 45" for a b c e
    using length_encode_uint [of a] length_encode_int [of b] length_encode_uint [of c] length_encode_uint [of 0]
      length_encode_uint [of e] by linarith
  from this [of "of_nat (length STRING_TYPE_NAME)" STRING_TYPE_ID
      "of_nat (length (encode_uint 0 @ encode_string v))" "of_nat (length v)"]
  show ?thesis by (simp add: encode_interface_string_def encode_string_def message_def STRING_TYPE_NAME_def)
qed

lemma string_type_name_ok: "str_ok STRING_TYPE_NAME" "length STRING_TYPE_NAME < 2 ^ 64"
  by (simp_all add: STRING_TYPE_NAME_def str_ok_def byte_of_def)

lemma read_interface_string_encode [simp]:
  assumes "str_ok v" "length v < 2 ^ 63"
  shows "read_interface_string (encode_interface_string v @ rest) = Ok (v, rest)"
proof -
  let ?inner = "encode_uint 0 @ encode_string v"
  have "length ?inner < 2 ^ 64"
    using assms(2) length_encode_uint [of 0] length_encode_uint [of "of_nat (length v)"]
    by (simp add: encode_string_def)
  then have "read_message (message ?inner @ rest) = Ok (?inner, rest)" by (rule read_message_encode)
  moreover have "read_string (encode_string v) = Ok (v, [])"
    using read_string_encode [of v "[]"] assms by simp
  moreover have "read_string (encode_string STRING_TYPE_NAME @ r) = Ok (STRING_TYPE_NAME, r)" for r
    using string_type_name_ok by (rule read_string_encode)
  ultimately show ?thesis
    by (simp add: encode_interface_string_def read_interface_string_def)
qed

lemma read_entries_encode:
  assumes "\<And>k v. (k, v) \<in> set es \<Longrightarrow> str_ok k \<and> str_ok v \<and> length k < 2 ^ 63 \<and> length v < 2 ^ 63"
  shows "read_entries (length es)
      (concat (map (\<lambda>(k, v). encode_interface_string k @ encode_interface_string v) es) @ rest) = Ok (es, rest)"
  using assms
proof (induction es)
  case (Cons e es)
  obtain k v where e: "e = (k, v)" by force
  with Cons.prems have "str_ok k" "str_ok v" "length k < 2 ^ 63" "length v < 2 ^ 63" by auto
  moreover have "read_entries (length es)
      (concat (map (\<lambda>(k, v). encode_interface_string k @ encode_interface_string v) es) @ rest) = Ok (es, rest)"
    by (rule Cons.IH) (use Cons.prems in auto)
  ultimately show ?case by (simp add: e)
qed simp

lemma read_map_value_encode:
  assumes "\<And>k v. (k, v) \<in> set es \<Longrightarrow> str_ok k \<and> str_ok v \<and> length k < 2 ^ 63 \<and> length v < 2 ^ 63"
    and "length es \<le> max_entries"
  shows "read_map_value (map_value t es) t = Ok es"
proof -
  have "length es < 2 ^ 64" using assms(2) by (simp add: max_entries_def)
  moreover have "read_entries (length es)
      (concat (map (\<lambda>(k, v). encode_interface_string k @ encode_interface_string v) es)) = Ok (es, [])"
    using read_entries_encode [of es "[]"] assms(1) by simp
  ultimately show ?thesis using assms(2) by (simp add: read_map_value_def map_value_def)
qed

lemma read_type_definition_encode:
  assumes "t = MAP_TYPE_ID \<or> t = LEGACY_MAP_TYPE_ID"
  shows "read_type_definition (map_type_definition t) = Ok t"
proof -
  have "read_type_definition (map_type_definition MAP_TYPE_ID) = Ok MAP_TYPE_ID" by code_simp
  moreover have "read_type_definition (map_type_definition LEGACY_MAP_TYPE_ID) = Ok LEGACY_MAP_TYPE_ID" by code_simp
  ultimately show ?thesis using assms by auto
qed

lemma type_def_length: "length (map_type_definition t) < 2 ^ 64"
proof -
  have "length (map_type_definition t) \<le> 108"
    using length_encode_uint [of "WIRE_TYPE_MAP_FIELD + 1"] length_encode_uint [of 1] length_encode_uint [of 2]
      length_encode_uint [of 0] length_encode_int [of t] length_encode_int [of "- t"] length_encode_int [of INTERFACE_TYPE_ID]
    unfolding map_type_definition_def length_append by linarith
  then show ?thesis by simp
qed

lemmas read_type_message = read_message_encode [OF type_def_length]

lemma decode_string_map_encode:
  assumes "\<And>k v. (k, v) \<in> set es \<Longrightarrow> str_ok k \<and> str_ok v \<and> length k < 2 ^ 63 \<and> length v < 2 ^ 63"
    and "length es \<le> max_entries" "length (map_value MAP_TYPE_ID es) < 2 ^ 64"
  shows "decode_string_map (message (map_type_definition MAP_TYPE_ID) @ message (map_value MAP_TYPE_ID es) @ rest)
      = (if rest = [] then Ok es else Err TrailingBytes)"
proof -
  have msg: "read_message (message (map_value MAP_TYPE_ID es) @ rest) = Ok (map_value MAP_TYPE_ID es, rest)"
    using assms(3) by (rule read_message_encode)
  have "read_map_value (map_value MAP_TYPE_ID es) MAP_TYPE_ID = Ok es"
    using assms(1,2) by (rule read_map_value_encode)
  with msg show ?thesis by (simp add: decode_string_map_def read_type_message read_type_definition_encode)
qed

lemma token_map_length: "length t < 2 ^ 62 \<Longrightarrow> length (map_value MAP_TYPE_ID [(''token'', t)]) < 2 ^ 64"
  using length_encode_int [of MAP_TYPE_ID] length_encode_uint [of 0] length_encode_uint [of 1]
    length_encode_interface_string [of "''token''"] length_encode_interface_string [of t]
  by (simp add: map_value_def)

lemma token_ok: "str_ok ''token''"
  by (simp add: str_ok_def byte_of_def)

lemma decode_string_map_token:
  assumes "str_ok t" "length t < 2 ^ 62"
  shows "decode_string_map (encode_token_map t @ rest) = (if rest = [] then Ok [(''token'', t)] else Err TrailingBytes)"
proof -
  have "1 \<le> max_entries" by (simp add: max_entries_def)
  then show ?thesis
    using decode_string_map_encode [of "[(''token'', t)]" rest] assms token_ok token_map_length [OF assms(2)]
    by (simp add: encode_token_map_def)
qed

lemma decode_encode_token_map:
  assumes "str_ok t" "length t < 2 ^ 62"
  shows "decode_token_map (encode_token_map t) = Ok t"
  using decode_string_map_token [OF assms, of "[]"] by (simp add: decode_token_map_def)

lemma decode_token_map_trailing:
  assumes "str_ok t" "length t < 2 ^ 62" "rest \<noteq> []"
  shows "decode_token_map (encode_token_map t @ rest) = Err TrailingBytes"
  using decode_string_map_token [OF assms(1,2), of rest] assms(3) by (simp add: decode_token_map_def)

text \<open>
  A stream of a few bytes that announces too many entries makes the decoder ask for more memory than
  there is address space, before it looks at the first entry.
\<close>

lemma decode_capacity_overflow:
  assumes "max_entries < unat count"
  shows "decode_token_map (message (map_type_definition MAP_TYPE_ID)
      @ message (encode_int MAP_TYPE_ID @ encode_uint 0 @ encode_uint count)) = Err CapacityOverflow"
proof -
  let ?body = "encode_int MAP_TYPE_ID @ encode_uint 0 @ encode_uint count"
  have "length ?body < 2 ^ 64"
    using length_encode_int [of MAP_TYPE_ID] length_encode_uint [of 0] length_encode_uint [of count] by simp
  then have msg: "read_message (message ?body) = Ok (?body, [])" using read_message_encode [of ?body "[]"] by simp
  have "read_uint (encode_uint count) = Ok (count, [])" using read_uint_encode [of count "[]"] by simp
  then have "read_map_value ?body MAP_TYPE_ID = Err CapacityOverflow" using assms by (simp add: read_map_value_def)
  with msg show ?thesis
    by (simp add: decode_token_map_def decode_string_map_def read_type_message read_type_definition_encode)
qed

end
