(* ===== verification/Cookies.thy ===== *)
theory Cookies
  imports Validate Gob Token
begin

text \<open>
  The cookies of the authentication server: \<open>lakefs-authn/src/lakefs/securecookie.rs\<close> (gorilla's signed
  cookie values), \<open>lakefs/session.rs\<close> (the cookies the server sets) and \<open>lakefs/jwt.rs\<close> (the login token).
  HMAC-SHA256, base64 and the signing of JWTs are parameters.
\<close>

section \<open>securecookie.rs\<close>

definition DEFAULT_MAX_LENGTH :: nat where "DEFAULT_MAX_LENGTH = 4096"
definition DEFAULT_MAX_AGE :: int where "DEFAULT_MAX_AGE = 86400 * 30"
definition MAC_LEN :: nat where "MAC_LEN = 32"

datatype cookie_error = TooLong | NotBase64 | Malformed | BadSignature | BadTimestamp | Expired

text \<open>\<open>cc_mac\<close> is the MAC under the codec's key.\<close>

record cookie_codec =
  cc_mac :: "u8 list \<Rightarrow> u8 list"
  cc_max_length :: nat
  cc_max_age :: int

record base64_url =
  b64_encode :: "u8 list \<Rightarrow> string"
  b64_decode :: "u8 list \<Rightarrow> u8 list option"

definition new_codec :: "(u8 list \<Rightarrow> u8 list \<Rightarrow> u8 list) \<Rightarrow> u8 list \<Rightarrow> cookie_codec" where
  "new_codec hmac_sha256 hash_key = \<lparr> cc_mac = hmac_sha256 hash_key, cc_max_length = DEFAULT_MAX_LENGTH,
     cc_max_age = DEFAULT_MAX_AGE \<rparr>"

definition with_max_length :: "nat \<Rightarrow> cookie_codec \<Rightarrow> cookie_codec" where
  "with_max_length n c = c\<lparr> cc_max_length := n \<rparr>"

abbreviation pipe :: u8 where "pipe \<equiv> 124"

definition encode_at :: "base64_url \<Rightarrow> cookie_codec \<Rightarrow> string \<Rightarrow> u8 list \<Rightarrow> int \<Rightarrow> cookie_error + string" where
  "encode_at b64 c name plain timestamp =
    (let encoded_value = b64_encode b64 plain;
         signed = as_bytes (name @ ''|'' @ show_int timestamp @ ''|'' @ encoded_value);
         mac = cc_mac c signed;
         payload = drop (length name + 1) signed @ [pipe] @ mac;
         out = b64_encode b64 payload
     in if cc_max_length c \<noteq> 0 \<and> length out > cc_max_length c then Err TooLong else Ok out)"

definition decode_at :: "base64_url \<Rightarrow> cookie_codec \<Rightarrow> string \<Rightarrow> string \<Rightarrow> int \<Rightarrow> cookie_error + u8 list" where
  "decode_at b64 c name cookie now =
    (if cc_max_length c \<noteq> 0 \<and> length cookie > cc_max_length c then Err TooLong
     else and_then (ok_or NotBase64 (b64_decode b64 (as_bytes cookie))) (\<lambda>raw.
       case splitn 3 pipe raw of
         [timestamp, encoded_value, mac] \<Rightarrow>
           (let signed = as_bytes name @ [pipe] @ timestamp @ [pipe] @ encoded_value in
            if cc_mac c signed \<noteq> mac then Err BadSignature
            else and_then (ok_or BadTimestamp (Option.bind (from_utf8 timestamp) parse_i64)) (\<lambda>issued.
              if cc_max_age c \<noteq> 0 \<and> issued < now - cc_max_age c then Err Expired
              else ok_or NotBase64 (b64_decode b64 encoded_value)))
       | _ \<Rightarrow> Err Malformed))"

text \<open>
  What base64 with the URL-safe alphabet documents: decoding inverts encoding, and no character of an
  encoded text is a pipe.
\<close>

definition base64_ok :: "base64_url \<Rightarrow> bool" where
  "base64_ok b64 \<longleftrightarrow> (\<forall>x. b64_decode b64 (as_bytes (b64_encode b64 x)) = Some x \<and> CHR ''|'' \<notin> set (b64_encode b64 x))"

lemma pipe_as_bytes: "as_bytes (CHR ''|'' # s) = pipe # as_bytes s"
  by (simp add: as_bytes_def)

lemma unat_numeral_124: "unat pipe = 124"
  by simp

lemma pipe_in_as_bytes: "pipe \<in> set (as_bytes s) \<longleftrightarrow> CHR ''|'' \<in> set s"
proof -
  have "(of_char c :: u8) = pipe \<longleftrightarrow> c = CHR ''|''" for c
  proof
    assume "(of_char c :: u8) = pipe"
    then have "byte_of c = 124" by (metis unat_of_char unat_numeral_124)
    then show "c = CHR ''|''" using of_char_eq_iff [of c "CHR ''|''", where ?'a = nat] by (simp add: byte_of_def)
  qed simp
  then show ?thesis by (auto simp: as_bytes_def image_iff)
qed

lemma show_int_no_pipe: "CHR ''|'' \<notin> set (show_int i)"
  by (auto simp: byte_of_def dest: show_int_chars)

lemma show_int_ok: "str_ok (show_int i)"
  by (rule str_ok_ascii) (auto simp: byte_of_def dest!: show_int_chars)

lemma encode_payload:
  assumes "encode_at b64 c name plain ts = Ok out"
  shows "out = b64_encode b64 (as_bytes (show_int ts) @ [pipe] @ as_bytes (b64_encode b64 plain) @ [pipe]
    @ cc_mac c (as_bytes name @ [pipe] @ as_bytes (show_int ts) @ [pipe] @ as_bytes (b64_encode b64 plain)))"
    and "cc_max_length c = 0 \<or> length out \<le> cc_max_length c"
  using assms by (auto simp: encode_at_def Let_def pipe_as_bytes split: if_splits)

lemma splitn_3:
  assumes "p \<notin> set a" "p \<notin> set b"
  shows "splitn 3 p (a @ p # b @ p # m) = [a, b, m]"
  using assms by (simp add: numeral_3_eq_3 split_once_append)

lemma decode_encode_at:
  assumes "base64_ok b64" "encode_at b64 c name plain ts = Ok out"
    and "i64_min \<le> ts" "ts \<le> i64_max" "cc_max_age c = 0 \<or> now - cc_max_age c \<le> ts"
  shows "decode_at b64 c name out now = Ok plain"
proof -
  let ?t = "as_bytes (show_int ts)" and ?e = "as_bytes (b64_encode b64 plain)"
  let ?m = "cc_mac c (as_bytes name @ [pipe] @ ?t @ [pipe] @ ?e)"
  have raw: "b64_decode b64 (as_bytes out) = Some (?t @ pipe # ?e @ pipe # ?m)"
    using assms(1) encode_payload(1) [OF assms(2)] by (simp add: base64_ok_def)
  have "splitn 3 pipe (?t @ pipe # ?e @ pipe # ?m) = [?t, ?e, ?m]"
    using assms(1) by (intro splitn_3) (auto simp: pipe_in_as_bytes show_int_no_pipe base64_ok_def)
  moreover have "Option.bind (from_utf8 ?t) parse_i64 = Some ts"
    using assms(3,4) by (simp add: from_utf8_as_bytes show_int_ok parse_show_i64)
  ultimately show ?thesis
    using assms(1,5) encode_payload(2) [OF assms(2)] raw by (auto simp: decode_at_def base64_ok_def)
qed

text \<open>A cookie is accepted only with the MAC of its own name, timestamp and value, and within its age.\<close>

lemma decode_at_authentic:
  assumes "decode_at b64 c name cookie now = Ok plain"
  obtains ts enc issued where
    "b64_decode b64 (as_bytes cookie) = Some (ts @ pipe # enc @ pipe # cc_mac c (as_bytes name @ [pipe] @ ts @ [pipe] @ enc))"
    "Option.bind (from_utf8 ts) parse_i64 = Some issued"
    "cc_max_age c = 0 \<or> now - cc_max_age c \<le> issued"
    "b64_decode b64 enc = Some plain"
proof -
  obtain raw where raw: "b64_decode b64 (as_bytes cookie) = Some raw"
    using assms by (auto simp: decode_at_def res_simps split: if_splits)
  with assms obtain ts enc mac where parts: "splitn 3 pipe raw = [ts, enc, mac]"
    by (auto simp: decode_at_def split: if_splits list.splits)
  have "raw = ts @ pipe # enc @ pipe # mac"
    using join_splitn [of 3 pipe raw] parts by simp
  moreover have mac: "mac = cc_mac c (as_bytes name @ [pipe] @ ts @ [pipe] @ enc)"
    using assms raw parts by (auto simp: decode_at_def Let_def split: if_splits)
  moreover obtain issued where "Option.bind (from_utf8 ts) parse_i64 = Some issued"
      "cc_max_age c = 0 \<or> now - cc_max_age c \<le> issued" "b64_decode b64 enc = Some plain"
    using assms raw parts mac by (auto simp: decode_at_def Let_def res_simps split: if_splits)
  ultimately show thesis using raw by (intro that [of ts enc issued]) simp_all
qed

section \<open>jwt.rs\<close>

definition LOGIN_ISSUER :: string where "LOGIN_ISSUER = ''auth''"
definition LOGIN_AUDIENCE :: string where "LOGIN_AUDIENCE = ''login''"

record login_claims =
  lc_jti :: string
  lc_iss :: string
  lc_sub :: string
  lc_aud :: string
  lc_iat :: int
  lc_exp :: int

definition new_login_claims :: "string \<Rightarrow> string \<Rightarrow> int \<Rightarrow> nat \<Rightarrow> login_claims" where
  "new_login_claims jti username issued_at ttl = \<lparr> lc_jti = jti, lc_iss = LOGIN_ISSUER, lc_sub = username,
     lc_aud = LOGIN_AUDIENCE, lc_iat = issued_at, lc_exp = expires_at issued_at ttl \<rparr>"

definition mint_login_token_at :: "('k \<Rightarrow> login_claims \<Rightarrow> string + string) \<Rightarrow> string \<Rightarrow> 'k \<Rightarrow> string \<Rightarrow> nat \<Rightarrow> int
    \<Rightarrow> string + string" where
  "mint_login_token_at encode_jwt jti key username ttl issued_at =
     encode_jwt key (new_login_claims jti username issued_at ttl)"

section \<open>session.rs\<close>

definition SESSION_COOKIE :: string where "SESSION_COOKIE = ''internal_auth_session''"
definition FLOW_COOKIE :: string where "FLOW_COOKIE = ''lakefs_authn_flow''"
definition ID_TOKEN_COOKIE :: string where "ID_TOKEN_COOKIE = ''lakefs_authn_idt''"
definition COOKIE_PATH :: string where "COOKIE_PATH = ''/''"
definition FLOW_TTL :: nat where "FLOW_TTL = 600"
definition MAX_ID_TOKEN_BYTES :: nat where "MAX_ID_TOKEN_BYTES = 2800"

datatype same_site = Strict | Lax | SameSiteNone

record cookie =
  ck_name :: string
  ck_value :: string
  ck_path :: "string option"
  ck_http_only :: "bool option"
  ck_same_site :: "same_site option"
  ck_secure :: "bool option"
  ck_max_age :: "int option"
  ck_domain :: "string option"

datatype session_error = CookieErr cookie_error | GobErr gob_error

record session_options =
  so_secure :: bool
  so_domain :: "string option"
  so_ttl :: nat

record session_cookies =
  sc_codec :: cookie_codec
  sc_options :: session_options

definition base_cookie :: "string \<Rightarrow> string \<Rightarrow> bool \<Rightarrow> cookie" where
  "base_cookie name content secure = \<lparr> ck_name = name, ck_value = content, ck_path = Some COOKIE_PATH,
     ck_http_only = Some True, ck_same_site = Some Lax, ck_secure = Some secure, ck_max_age = None, ck_domain = None \<rparr>"

text \<open>Whole seconds; a time to live beyond \<open>i64\<close> becomes the largest duration.\<close>

definition to_cookie_duration :: "nat \<Rightarrow> int" where
  "to_cookie_duration ttl = (if int ttl \<le> i64_max then int ttl else i64_max)"

definition session_login :: "base64_url \<Rightarrow> session_cookies \<Rightarrow> string \<Rightarrow> int \<Rightarrow> session_error + cookie" where
  "session_login b64 sc token now =
    and_then (map_err CookieErr (encode_at b64 (sc_codec sc) SESSION_COOKIE (encode_token_map token) now)) (\<lambda>content.
      let cookie = (base_cookie SESSION_COOKIE content (so_secure (sc_options sc)))
            \<lparr> ck_max_age := Some (to_cookie_duration (so_ttl (sc_options sc))) \<rparr>
      in Ok (case so_domain (sc_options sc) of None \<Rightarrow> cookie | Some d \<Rightarrow> cookie\<lparr> ck_domain := Some d \<rparr>))"

definition session_clear :: "session_cookies \<Rightarrow> cookie" where
  "session_clear sc = (let cookie = (base_cookie SESSION_COOKIE [] (so_secure (sc_options sc)))\<lparr> ck_max_age := Some 0 \<rparr>
     in (case so_domain (sc_options sc) of None \<Rightarrow> cookie | Some d \<Rightarrow> cookie\<lparr> ck_domain := Some d \<rparr>))"

definition session_read :: "base64_url \<Rightarrow> session_cookies \<Rightarrow> string \<Rightarrow> int \<Rightarrow> session_error + string" where
  "session_read b64 sc content now =
    and_then (map_err CookieErr (decode_at b64 (sc_codec sc) SESSION_COOKIE content now)) (\<lambda>payload.
      map_err GobErr (decode_token_map payload))"

definition private_cookie :: "session_cookies \<Rightarrow> string \<Rightarrow> string \<Rightarrow> nat \<Rightarrow> cookie" where
  "private_cookie sc name content ttl =
     (base_cookie name content (so_secure (sc_options sc)))\<lparr> ck_max_age := Some (to_cookie_duration ttl) \<rparr>"

definition flow_cookie :: "session_cookies \<Rightarrow> string \<Rightarrow> cookie" where
  "flow_cookie sc payload = private_cookie sc FLOW_COOKIE payload FLOW_TTL"

definition id_token_cookie :: "session_cookies \<Rightarrow> string \<Rightarrow> cookie option" where
  "id_token_cookie sc raw_id_token = (if length raw_id_token > MAX_ID_TOKEN_BYTES then None
     else Some (private_cookie sc ID_TOKEN_COOKIE raw_id_token (so_ttl (sc_options sc))))"

definition removal_cookie :: "session_cookies \<Rightarrow> string \<Rightarrow> cookie" where
  "removal_cookie sc name = (base_cookie name [] (so_secure (sc_options sc)))\<lparr> ck_max_age := Some 0 \<rparr>"

lemma session_login_read:
  assumes "base64_ok b64" "session_login b64 sc token now = Ok cookie"
    and "str_ok token" "length token < 2 ^ 62" "i64_min \<le> now" "now \<le> i64_max"
    and "cc_max_age (sc_codec sc) = 0 \<or> later - cc_max_age (sc_codec sc) \<le> now"
  shows "session_read b64 sc (ck_value cookie) later = Ok token"
proof -
  obtain content where e: "encode_at b64 (sc_codec sc) SESSION_COOKIE (encode_token_map token) now = Ok content"
    and "ck_value cookie = content"
    using assms(2) by (auto simp: session_login_def res_simps base_cookie_def Let_def split: option.splits)
  moreover have "decode_at b64 (sc_codec sc) SESSION_COOKIE content later = Ok (encode_token_map token)"
    using assms(1) e assms(5-7) by (rule decode_encode_at)
  ultimately show ?thesis using assms(3,4) by (simp add: session_read_def decode_encode_token_map)
qed

text \<open>Logging out clears the cookie logging in set: same name, path, domain and flags.\<close>

lemma clear_matches_login:
  assumes "session_login b64 sc token now = Ok cookie"
  shows "ck_name (session_clear sc) = ck_name cookie" "ck_path (session_clear sc) = ck_path cookie"
    "ck_domain (session_clear sc) = ck_domain cookie" "ck_secure (session_clear sc) = ck_secure cookie"
    "ck_max_age (session_clear sc) = Some 0" "ck_value (session_clear sc) = []"
  using assms by (auto simp: session_login_def session_clear_def res_simps base_cookie_def Let_def split: option.splits)

end
