(* ===== verification/Redirect.thy ===== *)
theory Redirect
  imports Validate
begin

text \<open>
  Where the authentication server sends a browser: \<open>lakefs-authn/src/util/redirect.rs\<close> (the \<open>next\<close> parameter of
  a login) and the allow list of \<open>lakefs-authn/src/routes/sts.rs\<close>.  The \<open>url\<close> crate is a parameter: \<open>parse\<close>
  gives the parts of an absolute URL, \<open>join\<close> resolves a reference.
\<close>

record url =
  url_scheme :: string
  url_host :: "string option"
  url_port :: "nat option"
  url_path :: string
  url_query :: "string option"
  url_text :: string

section \<open>redirect.rs\<close>

datatype redirect_error = EmptyTarget | ControlCharacter | ProtocolRelative | NotAUrl | BadScheme | HostNotAllowed

definition redirect_display :: "redirect_error \<Rightarrow> string" where
  "redirect_display e = (case e of
     EmptyTarget \<Rightarrow> ''redirect target is empty''
   | ControlCharacter \<Rightarrow> ''redirect target contains control characters''
   | ProtocolRelative \<Rightarrow> ''redirect target is protocol relative''
   | NotAUrl \<Rightarrow> ''redirect target is not a valid URL''
   | BadScheme \<Rightarrow> ''redirect target uses an unsupported scheme''
   | HostNotAllowed \<Rightarrow> ''redirect target host is not allowed'')"

definition is_protocol_relative :: "string \<Rightarrow> bool" where
  "is_protocol_relative next \<longleftrightarrow> starts_with [CHR ''/'', CHR 0x5C] next
     \<or> list_ex (\<lambda>prefix. starts_with prefix (to_ascii_lowercase next)) [''//'', ''/%2f'', ''/%5c'']"

text \<open>\<open>host:port\<close>, or the host alone for the default port.\<close>

definition authority_of :: "url \<Rightarrow> string \<Rightarrow> string" where
  "authority_of u host = (case url_port u of Some port \<Rightarrow> host @ '':'' @ show_nat port | None \<Rightarrow> host)"

definition entry_allows :: "url \<Rightarrow> string \<Rightarrow> string \<Rightarrow> bool" where
  "entry_allows u authority entry = (case split_once_str ''://'' entry of
     Some (scheme, rest) \<Rightarrow> eq_ignore_ascii_case scheme (url_scheme u)
       \<and> eq_ignore_ascii_case (trim_end_matches CHR ''/'' rest) authority
   | None \<Rightarrow> eq_ignore_ascii_case entry authority)"

definition safe_next :: "(string \<Rightarrow> url option) \<Rightarrow> string \<Rightarrow> string list \<Rightarrow> redirect_error + string" where
  "safe_next parse next allowed_hosts =
    (if next = [] then Err EmptyTarget
     else if has_control next then Err ControlCharacter
     else if starts_with ''/'' next
       then (if is_protocol_relative next then Err ProtocolRelative else Ok next)
     else case parse next of
       None \<Rightarrow> Err NotAUrl
     | Some u \<Rightarrow>
        (if url_scheme u \<notin> {''http'', ''https''} then Err BadScheme
         else case url_host u of
           None \<Rightarrow> Err HostNotAllowed
         | Some host \<Rightarrow> (if list_ex (entry_allows u (authority_of u host)) allowed_hosts then Ok next
                        else Err HostNotAllowed)))"

definition resolve_next :: "(string \<Rightarrow> url option) \<Rightarrow> (url \<Rightarrow> string \<Rightarrow> url option) \<Rightarrow> string \<Rightarrow> string option \<Rightarrow> string" where
  "resolve_next parse join_url post_login_url next = (case next of
     None \<Rightarrow> post_login_url
   | Some target \<Rightarrow>
      (if parse target \<noteq> None then target
       else case parse post_login_url of
         Some base \<Rightarrow> (case join_url base target of Some u \<Rightarrow> url_text u | None \<Rightarrow> target)
       | None \<Rightarrow> target))"

section \<open>The allow list of sts.rs\<close>

definition loopback_hosts :: "string list" where
  "loopback_hosts = [''127.0.0.1'', ''localhost'', ''[::1]'']"

definition loopback_matches :: "(string \<Rightarrow> url option) \<Rightarrow> string \<Rightarrow> string \<Rightarrow> bool" where
  "loopback_matches parse entry candidate = (case (parse entry, parse candidate) of
     (Some e, Some c) \<Rightarrow> is_some_and (\<lambda>h. h \<in> set loopback_hosts) (url_host e) \<and> url_port e = None
       \<and> url_scheme e = url_scheme c \<and> url_host e = url_host c \<and> url_path e = url_path c \<and> url_query e = url_query c
   | _ \<Rightarrow> False)"

definition redirect_uri_allowed :: "(string \<Rightarrow> url option) \<Rightarrow> string list \<Rightarrow> string \<Rightarrow> bool" where
  "redirect_uri_allowed parse allowed candidate =
     list_ex (\<lambda>entry. entry = candidate \<or> loopback_matches parse entry candidate) allowed"

section \<open>Properties\<close>

lemma starts_with_lower:
  "starts_with p s \<Longrightarrow> starts_with (to_ascii_lowercase p) (to_ascii_lowercase s)"
  by (auto simp: starts_with_iff to_ascii_lowercase_def)

lemma ascii_lower_slash [simp]: "ascii_lower CHR ''/'' = CHR ''/''"
  by (simp add: ascii_lower_def byte_of_def)

lemma not_protocol_relative:
  assumes "\<not> is_protocol_relative next" "starts_with ''/'' next"
  shows "\<exists>rest. next = CHR ''/'' # rest \<and> (rest = [] \<or> hd rest \<notin> {CHR ''/'', CHR 0x5C})"
proof -
  obtain rest where r: "next = CHR ''/'' # rest" using assms(2) by (auto simp: starts_with_iff)
  have "hd rest \<notin> {CHR ''/'', CHR 0x5C}" if "rest \<noteq> []"
    using assms(1) that r by (cases rest) (auto simp: is_protocol_relative_def starts_with_def to_ascii_lowercase_def)
  then show ?thesis using r by auto
qed

lemma safe_next_Ok:
  assumes "safe_next parse next allowed = Ok target"
  shows "target = next" "next \<noteq> []" "\<not> has_control next"
    and "(\<exists>rest. next = CHR ''/'' # rest \<and> (rest = [] \<or> hd rest \<notin> {CHR ''/'', CHR 0x5C})) \<or>
      (\<exists>u host. parse next = Some u \<and> url_scheme u \<in> {''http'', ''https''} \<and> url_host u = Some host
        \<and> (\<exists>entry \<in> set allowed. entry_allows u (authority_of u host) entry))"
  using assms not_protocol_relative [of "next"]
  by (auto simp: safe_next_def list_ex_iff split: if_splits option.splits)

lemma safe_next_relative:
  "safe_next parse (CHR ''/'' # rest) allowed \<noteq> Err NotAUrl \<and> safe_next parse (CHR ''/'' # rest) allowed \<noteq> Err HostNotAllowed"
  by (simp add: safe_next_def starts_with_def)

text \<open>A bare entry names the default port only.\<close>

lemma lower_inj_len: "eq_ignore_ascii_case a b \<Longrightarrow> length a = length b"
  unfolding eq_ignore_ascii_case_def to_ascii_lowercase_def by (drule arg_cong [where f = length]) simp

lemma eq_ignore_set:
  assumes "eq_ignore_ascii_case a b" "CHR '':'' \<in> set b"
  shows "CHR '':'' \<in> set a"
proof -
  have low: "c = CHR '':''" if "ascii_lower c = CHR '':''" for c
  proof (rule ccontr)
    assume "c \<noteq> CHR '':''"
    then have upper: "65 \<le> byte_of c" "byte_of c \<le> 90" "ascii_lower c = char_of (byte_of c + 32)"
      using that by (auto simp: ascii_lower_def split: if_splits)
    then have "byte_of (ascii_lower c) = byte_of c + 32" by simp
    then have "byte_of c + 32 = byte_of (CHR '':'')" using that by simp
    moreover have "byte_of (CHR '':'') = 58" by (simp add: byte_of_def)
    ultimately show False using upper(1) by simp
  qed
  have "ascii_lower (CHR '':'') = CHR '':''" by (simp add: ascii_lower_def byte_of_def)
  then have "CHR '':'' \<in> set (to_ascii_lowercase b)" using assms(2) unfolding to_ascii_lowercase_def by force
  then have "CHR '':'' \<in> set (to_ascii_lowercase a)" using assms(1) by (simp add: eq_ignore_ascii_case_def)
  then show ?thesis using low unfolding to_ascii_lowercase_def by force
qed

lemma bare_entry_default_port:
  assumes "CHR '':'' \<notin> set entry" "entry_allows u (authority_of u host) entry"
  shows "url_port u = None \<and> eq_ignore_ascii_case entry host"
proof -
  have "split_once_str ''://'' s = None" if "CHR '':'' \<notin> set s" for s :: string
    using that
  proof (induction s)
    case (Cons c s)
    then show ?case by (auto simp: starts_with_def)
  qed simp
  then have e: "eq_ignore_ascii_case entry (authority_of u host)"
    using assms by (simp add: entry_allows_def)
  show ?thesis
  proof (cases "url_port u")
    case (Some p)
    then have "CHR '':'' \<in> set (authority_of u host)" by (simp add: authority_of_def)
    then show ?thesis using eq_ignore_set [OF e] assms(1) by simp
  qed (use e in \<open>simp add: authority_of_def\<close>)
qed

lemma redirect_uri_empty: "\<not> redirect_uri_allowed parse [] candidate"
  by (simp add: redirect_uri_allowed_def)

lemma redirect_uri_allowed_cases:
  assumes "redirect_uri_allowed parse allowed candidate" "candidate \<notin> set allowed"
  shows "\<exists>entry \<in> set allowed. \<exists>e c. parse entry = Some e \<and> parse candidate = Some c
    \<and> url_host c \<in> Some ` set loopback_hosts \<and> url_host c = url_host e \<and> url_port e = None \<and> url_scheme c = url_scheme e
    \<and> url_path c = url_path e \<and> url_query c = url_query e"
  using assms
  by (fastforce simp: redirect_uri_allowed_def list_ex_iff loopback_matches_def is_some_and_iff
      split: option.splits)
end
