(* ===== verification/Policy_Builder.thy ===== *)
theory Policy_Builder
  imports Authz_Client Authz_Config Cookies Redirect
begin

text \<open>
  The policy builder: the lakeFS client that acts as the visitor (\<open>lakefs-authz/src/lakefs.rs\<close>) and the routes
  of the builder (\<open>lakefs-authz/src/policy_builder.rs\<close>).  The transport to lakeFS, over a state of lakeFS, is a
  parameter; a reply carries what \<open>serde\<close> reads of its body as each type the client asks for.  Headers are
  given where they are text.
\<close>

section \<open>lakefs.rs: the session\<close>

definition PAGE_AMOUNT :: nat where "PAGE_AMOUNT = 1000"
definition LAKEFS_MAX_PAGES :: nat where "LAKEFS_MAX_PAGES = 20"

datatype lakefs_error = LBuild string | LTransport string | LForbidden string | LRejected int string
  | LStatus int string | LPagination string cursor_error

text \<open>A session is the \<open>Cookie\<close> header to send on; \<open>header_ok\<close> tells what a header value can hold.\<close>

definition session_from_cookie_header :: "(string \<Rightarrow> bool) \<Rightarrow> string \<Rightarrow> string option" where
  "session_from_cookie_header header_ok header =
     Option.bind (find_map (\<lambda>pair. Option.bind (split_once CHR ''='' pair) (\<lambda>(name, v).
         if trim name = SESSION_COOKIE then Some (trim v) else None)) (split_on CHR '';'' header)) (\<lambda>v.
       if header_ok (SESSION_COOKIE @ ''='' @ v) then Some (SESSION_COOKIE @ ''='' @ v) else None)"

section \<open>lakefs.rs: the client\<close>

record lakefs_request =
  lq_method :: http_method
  lq_url :: string
  lq_cookie :: string
  lq_policy :: "(string \<times> statement list) option"

record lakefs_reply =
  lr_status :: int
  lr_user :: "string + string"
  lr_named :: "string + string"
  lr_page :: "string + string list \<times> string"
  lr_error :: "string option"

record 's lakefs_env =
  le_send :: "lakefs_request \<Rightarrow> 's \<Rightarrow> (string + lakefs_reply) \<times> 's"
  le_percent_encode :: "(char \<Rightarrow> bool) \<Rightarrow> string \<Rightarrow> string"
  le_status_text :: "int \<Rightarrow> string"
  le_debug :: "string \<Rightarrow> string"
  le_header_ok :: "string \<Rightarrow> bool"

record lakefs_client = lc_endpoint :: string

type_synonym ('s, 'a) lakefs_call = "'s \<Rightarrow> (lakefs_error + 'a) \<times> 's"

definition new_lakefs_client :: "string + unit \<Rightarrow> string \<Rightarrow> lakefs_error + lakefs_client" where
  "new_lakefs_client builds endpoint =
     map_ok (\<lambda>_. \<lparr> lc_endpoint = trim_end_matches CHR ''/'' endpoint \<rparr>) (map_err LBuild builds)"

text \<open>\<open>Config::lakefs_client\<close>: no endpoint and a client that cannot be built both leave the fields free text.\<close>

definition lakefs_client_of :: "string + unit \<Rightarrow> authz_config \<Rightarrow> lakefs_client option" where
  "lakefs_client_of builds c = Option.bind (lakefs_endpoint_of c) (\<lambda>endpoint.
     case new_lakefs_client builds endpoint of Inl _ \<Rightarrow> None | Inr client \<Rightarrow> Some client)"

definition lakefs_get :: "'s lakefs_env \<Rightarrow> lakefs_client \<Rightarrow> (lakefs_reply \<Rightarrow> string + 'a) \<Rightarrow> string \<Rightarrow> string
    \<Rightarrow> ('s, 'a) lakefs_call" where
  "lakefs_get le client json path session s =
     (case le_send le \<lparr> lq_method = GET, lq_url = lc_endpoint client @ path, lq_cookie = session, lq_policy = None \<rparr> s of
        (Inl e, s') \<Rightarrow> (Err (LTransport e), s')
      | (Inr response, s') \<Rightarrow> (let status = lr_status response; route = hd (split_on CHR ''?'' path) in
          (if status = 200 then map_err LTransport (json response)
           else if status = 401 \<or> status = 403 then Err (LForbidden route)
           else Err (LStatus status route), s')))"

definition current_user :: "'s lakefs_env \<Rightarrow> lakefs_client \<Rightarrow> string \<Rightarrow> ('s, string) lakefs_call" where
  "current_user le client session = lakefs_get le client lr_user ''/user'' session"

text \<open>The loop of \<open>list_names\<close>: too many pages end it with the names so far, a repeated cursor is an error.\<close>

definition page_path :: "'s lakefs_env \<Rightarrow> string \<Rightarrow> string \<Rightarrow> string" where
  "page_path le path after =
     path @ ''?amount='' @ show_nat PAGE_AMOUNT @ ''&after='' @ path_segment (le_percent_encode le) after"

function walk_names :: "'s lakefs_env \<Rightarrow> lakefs_client \<Rightarrow> string \<Rightarrow> string \<Rightarrow> cursor_walk \<Rightarrow> string list
    \<Rightarrow> ('s, string list) lakefs_call" where
  "walk_names le client path session walk names s =
     (case lakefs_get le client lr_page (page_path le path (cw_after walk)) session s of
        (Inl e, s') \<Rightarrow> (Err e, s')
      | (Inr (results, next_offset), s') \<Rightarrow> (case advance walk next_offset of
          (Inr True, walk') \<Rightarrow> walk_names le client path session walk' (names @ results) s'
        | (Inr False, _) \<Rightarrow> (Ok (names @ results), s')
        | (Inl (TooManyPages _), _) \<Rightarrow> (Ok (names @ results), s')
        | (Inl e, _) \<Rightarrow> (Err (LPagination path e), s')))"
  by pat_completeness auto

termination
  by (relation "measure (\<lambda>(_, _, _, _, walk, _, _). cw_max_pages walk - cw_pages walk)")
    (auto dest!: advance_more [OF sym])

declare walk_names.simps [simp del]

definition list_names :: "'s lakefs_env \<Rightarrow> lakefs_client \<Rightarrow> string \<Rightarrow> string \<Rightarrow> ('s, string list) lakefs_call" where
  "list_names le client path session = walk_names le client path session (new_walk LAKEFS_MAX_PAGES) []"

definition list_names_or_empty :: "'s lakefs_env \<Rightarrow> lakefs_client \<Rightarrow> string \<Rightarrow> string \<Rightarrow> ('s, string list) lakefs_call" where
  "list_names_or_empty le client path session s = (case list_names le client path session s of
     (Inl (LForbidden _), s') \<Rightarrow> (Ok [], s') | other \<Rightarrow> other)"

definition lakefs_repositories :: "'s lakefs_env \<Rightarrow> lakefs_client \<Rightarrow> string \<Rightarrow> ('s, string list) lakefs_call" where
  "lakefs_repositories le client session = list_names le client ''/repositories'' session"

definition lakefs_branches :: "'s lakefs_env \<Rightarrow> lakefs_client \<Rightarrow> string \<Rightarrow> string \<Rightarrow> ('s, string list) lakefs_call" where
  "lakefs_branches le client repository session = list_names le client
     (''/repositories/'' @ path_segment (le_percent_encode le) repository @ ''/branches'') session"

text \<open>
  The three walks of \<open>names\<close> run concurrently and only read; here they follow one another, and as with
  \<open>try_join\<close> the first error ends them.
\<close>

definition lakefs_names :: "'s lakefs_env \<Rightarrow> lakefs_client \<Rightarrow> string
    \<Rightarrow> ('s, string list \<times> string list \<times> string list) lakefs_call" where
  "lakefs_names le client session s = (case list_names_or_empty le client ''/auth/users'' session s of
     (Inl e, s) \<Rightarrow> (Err e, s)
   | (Inr users, s) \<Rightarrow> (case list_names_or_empty le client ''/auth/groups'' session s of
       (Inl e, s) \<Rightarrow> (Err e, s)
     | (Inr groups, s) \<Rightarrow> (case list_names_or_empty le client ''/auth/policies'' session s of
         (Inl e, s) \<Rightarrow> (Err e, s)
       | (Inr policies, s) \<Rightarrow> (Ok (users, groups, policies), s))))"

definition lakefs_create_policy :: "'s lakefs_env \<Rightarrow> lakefs_client \<Rightarrow> string \<Rightarrow> statement list \<Rightarrow> string
    \<Rightarrow> ('s, string) lakefs_call" where
  "lakefs_create_policy le client name statements session s =
     (case le_send le \<lparr> lq_method = POST, lq_url = lc_endpoint client @ ''/auth/policies'', lq_cookie = session,
          lq_policy = Some (name, statements) \<rparr> s of
        (Inl e, s') \<Rightarrow> (Err (LTransport e), s')
      | (Inr response, s') \<Rightarrow>
          (if lr_status response = 201 then map_err LTransport (lr_named response)
           else Err (LRejected (lr_status response)
             (unwrap_or (''lakeFS answered '' @ le_status_text le (lr_status response)) (lr_error response))), s'))"

section \<open>policy_builder.rs: requests, errors and guards\<close>

record builder_request =
  bq_method :: http_method
  bq_path :: string
  bq_cookie :: "string option"
  bq_sec_fetch_site :: "string option"
  bq_origin :: "string option"
  bq_host :: "string option"
  bq_body :: "json_rejection + string \<times> statement list"

datatype builder_error = NoLakeFs | NoSession | CrossOrigin | BLakeFs lakefs_error | BInvalid api_error

fun lakefs_error_display :: "'s lakefs_env \<Rightarrow> lakefs_error \<Rightarrow> string" where
  "lakefs_error_display le (LBuild e) = ''build lakeFS client: '' @ e"
| "lakefs_error_display le (LTransport e) = ''call lakeFS: '' @ e"
| "lakefs_error_display le (LForbidden path) = ''the lakeFS session may not read '' @ path"
| "lakefs_error_display le (LRejected _ m) = ''lakeFS rejected the request: '' @ m"
| "lakefs_error_display le (LStatus status path) = ''lakeFS returned '' @ le_status_text le status @ '' for '' @ path"
| "lakefs_error_display le (LPagination path e) =
     ''lakeFS pagination of '' @ path @ '' did not advance: '' @ cursor_display (le_debug le) e"

fun builder_error_display :: "'s lakefs_env \<Rightarrow> builder_error \<Rightarrow> string" where
  "builder_error_display le NoLakeFs = ''no lakeFS endpoint is configured''"
| "builder_error_display le NoSession = ''sign in to lakeFS first: no '' @ SESSION_COOKIE @ '' cookie was sent''"
| "builder_error_display le CrossOrigin = ''the request comes from another origin''"
| "builder_error_display le (BLakeFs e) = lakefs_error_display le e"
| "builder_error_display le (BInvalid e) = api_display e"

definition api_of_builder :: "'s lakefs_env \<Rightarrow> builder_error \<Rightarrow> api_error" where
  "api_of_builder le error = (let m = builder_error_display le error in case error of
     BInvalid e \<Rightarrow> e
   | NoLakeFs \<Rightarrow> NotFound m
   | NoSession \<Rightarrow> Unauthorized m
   | CrossOrigin \<Rightarrow> Forbidden m
   | BLakeFs (LForbidden _) \<Rightarrow> Unauthorized m
   | BLakeFs (LRejected status _) \<Rightarrow> WithStatus status m
   | BLakeFs _ \<Rightarrow> WithStatus 502 m)"

definition builder_session :: "'s lakefs_env \<Rightarrow> builder_request \<Rightarrow> string option" where
  "builder_session le rq = Option.bind (bq_cookie rq) (session_from_cookie_header (le_header_ok le))"

definition live :: "'s lakefs_env \<Rightarrow> lakefs_client option \<Rightarrow> builder_request \<Rightarrow> builder_error + lakefs_client \<times> string" where
  "live le state rq = and_then (ok_or NoLakeFs state) (\<lambda>client.
     and_then (ok_or NoSession (builder_session le rq)) (\<lambda>session. Ok (client, session)))"

definition same_origin :: "builder_request \<Rightarrow> builder_error + unit" where
  "same_origin rq = (case bq_sec_fetch_site rq of
     Some site \<Rightarrow> (if eq_ignore_ascii_case site ''same-origin'' \<or> eq_ignore_ascii_case site ''none''
                  then Ok () else Err CrossOrigin)
   | None \<Rightarrow> (case bq_origin rq of
       Some origin \<Rightarrow> (let authority = (case split_once_str ''://'' origin of Some (_, rest) \<Rightarrow> rest | None \<Rightarrow> origin) in
         if \<not> eq_ignore_ascii_case authority (unwrap_or [] (bq_host rq)) then Err CrossOrigin else Ok ())
     | None \<Rightarrow> Ok ()))"

section \<open>policy_builder.rs: the routes\<close>

datatype builder_reply = PageReply | ContextReply bool "string option"
  | NamesReply "string list" "string list" "string list" | CreatedReply string
  | RepositoriesReply "string list" | BranchesReply "string list" | BuilderErrorReply error_body | BareReply

type_synonym 's builder_handler = "'s \<Rightarrow> (builder_error + int \<times> builder_reply) \<times> 's"

definition ask :: "('s, 'a) lakefs_call \<Rightarrow> ('a \<Rightarrow> int \<times> builder_reply) \<Rightarrow> 's builder_handler" where
  "ask call f s = map_prod (\<lambda>r. map_ok f (map_err BLakeFs r)) id (call s)"

definition as_caller :: "builder_error + lakefs_client \<times> string \<Rightarrow> (lakefs_client \<Rightarrow> string \<Rightarrow> 's builder_handler)
    \<Rightarrow> 's builder_handler" where
  "as_caller caller f s = (case caller of Inl e \<Rightarrow> (Err e, s) | Inr (client, session) \<Rightarrow> f client session s)"

definition builder_context :: "'s lakefs_env \<Rightarrow> lakefs_client option \<Rightarrow> builder_request \<Rightarrow> 's builder_handler" where
  "builder_context le state rq s = (case state of
     None \<Rightarrow> (Ok (200, ContextReply False None), s)
   | Some client \<Rightarrow> (case builder_session le rq of
       None \<Rightarrow> (Ok (200, ContextReply True None), s)
     | Some session \<Rightarrow> (case current_user le client session s of (r, s') \<Rightarrow>
         (Ok (200, ContextReply True (case r of Inl _ \<Rightarrow> None | Inr user \<Rightarrow> Some user)), s'))))"

definition builder_names :: "'s lakefs_env \<Rightarrow> lakefs_client option \<Rightarrow> builder_request \<Rightarrow> 's builder_handler" where
  "builder_names le state rq = as_caller (live le state rq) (\<lambda>client session.
     ask (lakefs_names le client session) (\<lambda>(users, groups, policies). (200, NamesReply users groups policies)))"

text \<open>The body is read before the handler runs; then the origin, the session, the policy, and only then lakeFS.\<close>

definition read_policy_request :: "builder_request \<Rightarrow> builder_error + string \<times> statement list" where
  "read_policy_request rq = (case bq_body rq of
     Inr v \<Rightarrow> Ok v
   | Inl (BytesRejection code body_text) \<Rightarrow> Err (BInvalid (WithStatus code body_text))
   | Inl (OtherRejection body_text) \<Rightarrow> Err (BInvalid (Invalid body_text)))"

definition builder_create_policy :: "(string \<Rightarrow> string + string list) \<Rightarrow> 's lakefs_env \<Rightarrow> lakefs_client option
    \<Rightarrow> builder_request \<Rightarrow> 's builder_handler" where
  "builder_create_policy parse_list le state rq s = (case read_policy_request rq of
     Inl e \<Rightarrow> (Err e, s)
   | Inr (name, statements) \<Rightarrow> (case same_origin rq of
       Inl e \<Rightarrow> (Err e, s)
     | Inr _ \<Rightarrow> as_caller (live le state rq) (\<lambda>client session s.
         case validate_policy parse_list name statements of
           Inl e \<Rightarrow> (Err (BInvalid e), s)
         | Inr _ \<Rightarrow> ask (lakefs_create_policy le client name statements session) (\<lambda>name. (201, CreatedReply name)) s) s))"

definition builder_repositories :: "'s lakefs_env \<Rightarrow> lakefs_client option \<Rightarrow> builder_request \<Rightarrow> 's builder_handler" where
  "builder_repositories le state rq = as_caller (live le state rq) (\<lambda>client session.
     ask (lakefs_repositories le client session) (\<lambda>names. (200, RepositoriesReply names)))"

definition builder_branches :: "'s lakefs_env \<Rightarrow> lakefs_client option \<Rightarrow> string \<Rightarrow> builder_request \<Rightarrow> 's builder_handler" where
  "builder_branches le state repository rq = as_caller (live le state rq) (\<lambda>client session.
     ask (lakefs_branches le client repository session) (\<lambda>names. (200, BranchesReply names)))"

datatype builder_endpoint = BuilderPage | BuilderContext | BuilderNames | BuilderCreate | BuilderRepositories
  | BuilderBranches

definition builder_router :: "(string \<times> http_method \<times> builder_endpoint) list" where
  "builder_router = [(''/'', GET, BuilderPage), (''/api/context'', GET, BuilderContext), (''/api/names'', GET, BuilderNames),
     (''/api/policies'', POST, BuilderCreate), (''/api/repositories'', GET, BuilderRepositories),
     (''/api/repositories/{repository}/branches'', GET, BuilderBranches)]"

text \<open>\<open>decode\<close> is the percent decoding of a captured segment; \<open>axum\<close> answers 400 where it is not UTF-8.\<close>

definition builder_handler_of :: "(string \<Rightarrow> string + string list) \<Rightarrow> 's lakefs_env \<Rightarrow> lakefs_client option
    \<Rightarrow> builder_endpoint \<Rightarrow> string list \<Rightarrow> builder_request \<Rightarrow> 's builder_handler" where
  "builder_handler_of parse_list le state e captures rq = (case e of
     BuilderPage \<Rightarrow> (\<lambda>s. (Ok (200, PageReply), s))
   | BuilderContext \<Rightarrow> builder_context le state rq
   | BuilderNames \<Rightarrow> builder_names le state rq
   | BuilderCreate \<Rightarrow> builder_create_policy parse_list le state rq
   | BuilderRepositories \<Rightarrow> builder_repositories le state rq
   | BuilderBranches \<Rightarrow> builder_branches le state (hd captures) rq)"

definition serve_builder :: "(string \<Rightarrow> string + string list) \<Rightarrow> (string \<Rightarrow> string option) \<Rightarrow> 's lakefs_env
    \<Rightarrow> lakefs_client option \<Rightarrow> builder_request \<Rightarrow> 's \<Rightarrow> (int \<times> builder_reply) \<times> 's" where
  "serve_builder parse_list decode le state rq s =
     (case find_map (\<lambda>(template, r). map_option (Pair r) (match_template template (bq_path rq))) builder_router of
        None \<Rightarrow> ((404, BareReply), s)
      | Some ((m, e), captures) \<Rightarrow>
          (if bq_method rq \<noteq> m \<and> \<not> (bq_method rq = HEAD \<and> m = GET) then ((405, BareReply), s)
           else case decode_all decode captures of
             None \<Rightarrow> ((400, BareReply), s)
           | Some args \<Rightarrow> (case builder_handler_of parse_list le state e args rq s of
               (Inl e, s') \<Rightarrow> (case error_response (api_of_builder le e) of (code, body) \<Rightarrow> (code, BuilderErrorReply body), s')
             | (Inr r, s') \<Rightarrow> (r, s'))))"

section \<open>What reaches lakeFS\<close>

text \<open>A transport that keeps the requests it sent, and the requests a call may send.\<close>

definition logging_env :: "'s lakefs_env \<Rightarrow> (lakefs_request list \<times> 's) lakefs_env" where
  "logging_env le = \<lparr> le_send = (\<lambda>q (log, s). map_prod id (Pair (log @ [q])) (le_send le q s)),
     le_percent_encode = le_percent_encode le, le_status_text = le_status_text le, le_debug = le_debug le,
     le_header_ok = le_header_ok le \<rparr>"

definition sends :: "(lakefs_request \<Rightarrow> bool) \<Rightarrow> nat \<Rightarrow> (lakefs_request list \<times> 's \<Rightarrow> 'a \<times> (lakefs_request list \<times> 's)) \<Rightarrow> bool" where
  "sends P n call \<longleftrightarrow> (\<forall>log s. \<exists>more s' r. call (log, s) = (r, (log @ more, s')) \<and> length more \<le> n \<and> list_all P more)"

lemma sends_none: "sends P n (\<lambda>s. (r, s))"
  by (auto simp: sends_def)

lemma sends_mono: "sends P n call \<Longrightarrow> n \<le> m \<Longrightarrow> sends P m call"
  unfolding sends_def by (meson order_trans)

lemma sends_then:
  assumes "sends P n call" "\<And>r. sends P m (k r)"
  shows "sends P (n + m) (\<lambda>s. case call s of (r, s') \<Rightarrow> k r s')"
  unfolding sends_def
proof (intro allI)
  fix log s
  obtain more s' r where 1: "call (log, s) = (r, (log @ more, s'))" "length more \<le> n" "list_all P more"
    using assms(1) unfolding sends_def by blast
  obtain more2 s2 r2 where 2: "k r (log @ more, s') = (r2, ((log @ more) @ more2, s2))" "length more2 \<le> m" "list_all P more2"
    using assms(2) unfolding sends_def by blast
  show "\<exists>more s' ra. (case call (log, s) of (r, s') \<Rightarrow> k r s') = (ra, log @ more, s') \<and> length more \<le> n + m \<and> list_all P more"
    using 1 2 by (intro exI [of _ "more @ more2"]) auto
qed

lemma sends_result: "sends P n call \<Longrightarrow> sends P n (\<lambda>s. case call s of (r, s') \<Rightarrow> (f r, s'))"
  using sends_then [of P n call 0 "\<lambda>r s. (f r, s)"] by (simp add: sends_none)

definition reads_as :: "string \<Rightarrow> lakefs_request \<Rightarrow> bool" where
  "reads_as session q \<longleftrightarrow> lq_method q = GET \<and> lq_cookie q = session \<and> lq_policy q = None"

lemma get_sends: "sends (reads_as session) 1 (lakefs_get (logging_env le) client json path session)"
  unfolding sends_def
proof (intro allI)
  fix log s
  let ?q = "\<lparr> lq_method = GET, lq_url = lc_endpoint client @ path, lq_cookie = session, lq_policy = None \<rparr>"
  obtain r s' where send: "le_send le ?q s = (r, s')" by force
  show "\<exists>more s' r. lakefs_get (logging_env le) client json path session (log, s) = (r, (log @ more, s'))
      \<and> length more \<le> 1 \<and> list_all (reads_as session) more"
    using send by (intro exI [of _ "[?q]"]) (auto simp: lakefs_get_def logging_env_def reads_as_def Let_def split: sum.split)
qed

lemma walk_sends: "sends (reads_as session) (max 1 (cw_max_pages w - cw_pages w))
    (walk_names (logging_env le) client path session w names)"
proof (induction "cw_max_pages w - cw_pages w" arbitrary: w names rule: less_induct)
  case (less w names)
  let ?k = "\<lambda>r s. case r of Inl e \<Rightarrow> (Err e, s) | Inr (results, next_offset) \<Rightarrow> (case advance w next_offset of
      (Inr True, walk') \<Rightarrow> walk_names (logging_env le) client path session walk' (names @ results) s
    | (Inr False, _) \<Rightarrow> (Ok (names @ results), s)
    | (Inl (TooManyPages _), _) \<Rightarrow> (Ok (names @ results), s)
    | (Inl e, _) \<Rightarrow> (Err (LPagination path e), s))"
  have unfold: "walk_names (logging_env le) client path session w names
      = (\<lambda>s. case lakefs_get (logging_env le) client lr_page (page_path (logging_env le) path (cw_after w)) session s of (r, s) \<Rightarrow> ?k r s)"
    by (rule ext) (subst walk_names.simps, auto split: prod.split sum.split)
  have k: "sends (reads_as session) (max 1 (cw_max_pages w - cw_pages w) - 1) (?k r)" for r
  proof (cases r)
    case (Inl e)
    then show ?thesis by (simp add: sends_none)
  next
    case (Inr page)
    obtain results nxt where page: "page = (results, nxt)" by force
    obtain a w' where adv: "advance w nxt = (a, w')" by force
    show ?thesis
    proof (cases "a = Ok True")
      case True
      then have more: "cw_pages w' = Suc (cw_pages w)" "cw_pages w' < cw_max_pages w" "cw_max_pages w' = cw_max_pages w"
        using adv advance_more by blast+
      have "sends (reads_as session) (max 1 (cw_max_pages w' - cw_pages w'))
          (walk_names (logging_env le) client path session w' (names @ results))"
        using more by (intro less) simp
      then have "sends (reads_as session) (max 1 (cw_max_pages w - cw_pages w) - 1)
          (walk_names (logging_env le) client path session w' (names @ results))"
        by (rule sends_mono) (use more in auto)
      then show ?thesis using Inr page adv True by simp
    next
      case False
      then have "?k r = (\<lambda>s. (case a of Inl (Repeated c) \<Rightarrow> Err (LPagination path (Repeated c)) | _ \<Rightarrow> Ok (names @ results), s))"
        using Inr page adv by (auto split: sum.split cursor_error.split bool.split)
      then show ?thesis by (simp add: sends_none)
    qed
  qed
  show ?case unfolding unfold using sends_then [OF get_sends k] by (rule sends_mono) auto
qed

lemma list_names_sends: "sends (reads_as session) 20 (list_names (logging_env le) client path session)"
  using walk_sends [of session "new_walk LAKEFS_MAX_PAGES"] by (simp add: list_names_def new_walk_def LAKEFS_MAX_PAGES_def)

lemma list_or_empty_sends: "sends (reads_as session) 20 (list_names_or_empty (logging_env le) client path session)"
proof -
  have "list_names_or_empty (logging_env le) client path session = (\<lambda>s. case list_names (logging_env le) client path session s of
      (r, s') \<Rightarrow> ((case r of Inl (LForbidden _) \<Rightarrow> Ok [] | _ \<Rightarrow> r), s'))"
    by (rule ext) (auto simp: list_names_or_empty_def split: prod.split sum.split lakefs_error.split)
  then show ?thesis using sends_result [OF list_names_sends] by simp
qed

lemma names_sends: "sends (reads_as session) 60 (lakefs_names (logging_env le) client session)"
proof -
  have eq: "lakefs_names (logging_env le) client session = (\<lambda>s. case list_names_or_empty (logging_env le) client ''/auth/users'' session s of
      (r1, s) \<Rightarrow> (case r1 of Inl e \<Rightarrow> (\<lambda>s. (Err e, s)) | Inr users \<Rightarrow> (\<lambda>s.
        case list_names_or_empty (logging_env le) client ''/auth/groups'' session s of
      (r2, s) \<Rightarrow> (case r2 of Inl e \<Rightarrow> (\<lambda>s. (Err e, s)) | Inr groups \<Rightarrow> (\<lambda>s.
        case list_names_or_empty (logging_env le) client ''/auth/policies'' session s of
      (r3, s) \<Rightarrow> (map_ok (\<lambda>policies. (users, groups, policies)) r3, s))) s)) s)"
    by (rule ext) (auto simp: lakefs_names_def split: prod.split sum.split)
  show ?thesis unfolding eq
    by (rule sends_mono [OF sends_then [OF list_or_empty_sends, where m = 40]])
      (auto intro!: sends_none sends_mono [OF sends_then [OF list_or_empty_sends, where m = 20]] sends_result
        list_or_empty_sends split: sum.split)
qed

text \<open>What a builder request may send: reads with the caller's session, and one create of a valid policy.\<close>

definition caller_request :: "(string \<Rightarrow> string + string list) \<Rightarrow> 's lakefs_env \<Rightarrow> builder_request \<Rightarrow> lakefs_request \<Rightarrow> bool" where
  "caller_request parse_list le rq q \<longleftrightarrow> builder_session le rq = Some (lq_cookie q)
     \<and> (lq_method q = GET \<and> lq_policy q = None
        \<or> lq_method q = POST \<and> bq_method rq = POST \<and> same_origin rq = Ok ()
          \<and> (\<exists>name st. bq_body rq = Ok (name, st) \<and> validate_policy parse_list name st = Ok () \<and> lq_policy q = Some (name, st)))"

lemma logged_session [simp]: "builder_session (logging_env le) rq = builder_session le rq"
  by (simp add: builder_session_def logging_env_def)

lemma reads_as_caller: "builder_session le rq = Some session \<Longrightarrow> sends (reads_as session) n call
    \<Longrightarrow> sends (caller_request parse_list le rq) n call"
  unfolding sends_def by (elim all_forward ex_forward) (auto simp: list_all_iff caller_request_def reads_as_def)

lemma ask_sends: "sends P n call \<Longrightarrow> sends P n (ask call f)"
  using sends_result [of P n call "\<lambda>r. map_ok f (map_err BLakeFs r)"]
  by (simp add: ask_def [abs_def] map_prod_def case_prod_unfold)

lemma as_caller_sends:
  assumes "\<And>client session. builder_session le rq = Some session \<Longrightarrow> sends P n (f client session)"
  shows "sends P n (as_caller (live (logging_env le) state rq) f)"
proof (cases "live (logging_env le) state rq")
  case (Inl e)
  then show ?thesis by (simp add: as_caller_def [abs_def] sends_none)
next
  case (Inr cs)
  then obtain client session where cs: "cs = (client, session)" "builder_session le rq = Some session"
    by (auto simp: live_def res_simps)
  then have "as_caller (live (logging_env le) state rq) f = f client session" using Inr by (simp add: as_caller_def [abs_def])
  then show ?thesis using assms cs by simp
qed

lemma create_sends:
  assumes "caller_request parse_list le rq \<lparr> lq_method = POST, lq_url = lc_endpoint client @ ''/auth/policies'',
      lq_cookie = session, lq_policy = Some (name, st) \<rparr>"
  shows "sends (caller_request parse_list le rq) 1 (lakefs_create_policy (logging_env le) client name st session)"
  unfolding sends_def
proof (intro allI)
  fix log s
  let ?q = "\<lparr> lq_method = POST, lq_url = lc_endpoint client @ ''/auth/policies'', lq_cookie = session, lq_policy = Some (name, st) \<rparr>"
  obtain r s' where send: "le_send le ?q s = (r, s')" by force
  show "\<exists>more s' r. lakefs_create_policy (logging_env le) client name st session (log, s) = (r, (log @ more, s'))
      \<and> length more \<le> 1 \<and> list_all (caller_request parse_list le rq) more"
    using send assms by (intro exI [of _ "[?q]"]) (auto simp: lakefs_create_policy_def logging_env_def split: sum.split)
qed

lemma create_policy_sends:
  assumes "bq_method rq = POST"
  shows "sends (caller_request parse_list le rq) 60 (builder_create_policy parse_list (logging_env le) state rq)"
proof (cases "read_policy_request rq")
  case (Inl e)
  then show ?thesis by (simp add: builder_create_policy_def [abs_def] sends_none)
next
  case (Inr body)
  obtain name st where body: "body = (name, st)" by force
  then have read: "bq_body rq = Ok (name, st)" using Inr by (auto simp: read_policy_request_def split: sum.splits json_rejection.splits)
  show ?thesis
  proof (cases "same_origin rq")
    case (Inl e)
    then show ?thesis using Inr body by (simp add: builder_create_policy_def [abs_def] sends_none)
  next
    case (Inr u)
    have "sends (caller_request parse_list le rq) 60 (\<lambda>s. case validate_policy parse_list name st of
        Inl e \<Rightarrow> (Err (BInvalid e), s)
      | Inr _ \<Rightarrow> ask (lakefs_create_policy (logging_env le) client name st session) (\<lambda>name. (201, CreatedReply name)) s)"
      if "builder_session le rq = Some session" for client session
    proof (cases "validate_policy parse_list name st")
      case (Inl e)
      then show ?thesis by (simp add: sends_none)
    next
      case v: (Inr w)
      have "sends (caller_request parse_list le rq) 1 (lakefs_create_policy (logging_env le) client name st session)"
        using that v Inr read assms by (intro create_sends) (simp add: caller_request_def)
      then have "sends (caller_request parse_list le rq) 60 (ask (lakefs_create_policy (logging_env le) client name st session)
          (\<lambda>name. (201, CreatedReply name)))"
        using sends_mono ask_sends by (metis one_le_numeral)
      then show ?thesis using v by simp
    qed
    then have "sends (caller_request parse_list le rq) 60 (as_caller (live (logging_env le) state rq) (\<lambda>client session s.
        case validate_policy parse_list name st of
          Inl e \<Rightarrow> (Err (BInvalid e), s)
        | Inr _ \<Rightarrow> ask (lakefs_create_policy (logging_env le) client name st session) (\<lambda>name. (201, CreatedReply name)) s))"
      by (rule as_caller_sends)
    moreover have "builder_create_policy parse_list (logging_env le) state rq = as_caller (live (logging_env le) state rq)
      (\<lambda>client session s. case validate_policy parse_list name st of
          Inl e \<Rightarrow> (Err (BInvalid e), s)
        | Inr _ \<Rightarrow> ask (lakefs_create_policy (logging_env le) client name st session) (\<lambda>name. (201, CreatedReply name)) s)"
      using \<open>read_policy_request rq = Inr body\<close> body Inr by (simp add: builder_create_policy_def [abs_def])
    ultimately show ?thesis by simp
  qed
qed

lemma context_sends: "sends (caller_request parse_list le rq) 60 (builder_context (logging_env le) state rq)"
proof (cases state)
  case None
  then show ?thesis by (simp add: builder_context_def [abs_def] sends_none)
next
  case (Some client)
  show ?thesis
  proof (cases "builder_session le rq")
    case None
    then show ?thesis using Some by (simp add: builder_context_def [abs_def] sends_none)
  next
    case session: (Some session)
    have "sends (caller_request parse_list le rq) 1 (current_user (logging_env le) client session)"
      unfolding current_user_def by (rule reads_as_caller [OF session get_sends])
    then have "sends (caller_request parse_list le rq) 60 (\<lambda>s. case current_user (logging_env le) client session s of
        (r, s') \<Rightarrow> (Ok (200, ContextReply True (case r of Inl _ \<Rightarrow> None | Inr user \<Rightarrow> Some user)), s'))"
      by (intro sends_result) (rule sends_mono, auto)
    then show ?thesis using Some session by (simp add: builder_context_def [abs_def])
  qed
qed

lemma handler_sends:
  assumes "e = BuilderCreate \<Longrightarrow> bq_method rq = POST"
  shows "sends (caller_request parse_list le rq) 60 (builder_handler_of parse_list (logging_env le) state e captures rq)"
proof -
  have list: "sends (caller_request parse_list le rq) 60 (ask (list_names (logging_env le) client path session) f)"
    if "builder_session le rq = Some session" for client path session and f :: "string list \<Rightarrow> int \<times> builder_reply"
    using ask_sends [OF reads_as_caller [OF that list_names_sends]] by (rule sends_mono) simp
  have names: "sends (caller_request parse_list le rq) 60 (ask (lakefs_names (logging_env le) client session) f)"
    if "builder_session le rq = Some session" for client session
      and f :: "string list \<times> string list \<times> string list \<Rightarrow> int \<times> builder_reply"
    by (rule ask_sends [OF reads_as_caller [OF that names_sends]])
  show ?thesis
    using assms by (cases e) (auto simp: builder_handler_of_def builder_names_def builder_repositories_def
        builder_branches_def lakefs_repositories_def lakefs_branches_def sends_none context_sends create_policy_sends
        intro!: as_caller_sends list names)
qed

lemma serve_builder_sends:
  "sends (caller_request parse_list le rq) 60 (serve_builder parse_list decode (logging_env le) state rq)"
proof (cases "find_map (\<lambda>(template, r). map_option (Pair r) (match_template template (bq_path rq))) builder_router")
  case None
  then show ?thesis by (simp add: serve_builder_def [abs_def] sends_none)
next
  case (Some hit)
  obtain m e captures where hit: "hit = ((m, e), captures)" by (metis prod.exhaust)
  have route: "(m, e) \<in> snd ` set builder_router"
    using find_map_SomeD [OF Some] hit by force
  have post: "e = BuilderCreate \<Longrightarrow> m = POST" using route by (auto simp: builder_router_def)
  show ?thesis
  proof (cases "bq_method rq \<noteq> m \<and> \<not> (bq_method rq = HEAD \<and> m = GET)")
    case True
    then show ?thesis using Some hit by (simp add: serve_builder_def [abs_def] sends_none)
  next
    case False
    show ?thesis
    proof (cases "decode_all decode captures")
      case None
      then have "serve_builder parse_list decode (logging_env le) state rq = (\<lambda>s. ((400, BareReply), s))"
        using False Some hit by (intro ext) (auto simp: serve_builder_def)
      then show ?thesis by (simp add: sends_none)
    next
      case args: (Some args)
      have "sends (caller_request parse_list le rq) 60 (\<lambda>s. case builder_handler_of parse_list (logging_env le) state e args rq s of
          (r, s') \<Rightarrow> ((case r of Inl e \<Rightarrow> (case error_response (api_of_builder (logging_env le) e) of (code, body) \<Rightarrow> (code, BuilderErrorReply body))
            | Inr y \<Rightarrow> y), s'))"
        using False post by (intro sends_result handler_sends) auto
      moreover have "serve_builder parse_list decode (logging_env le) state rq = (\<lambda>s. case builder_handler_of parse_list (logging_env le) state e args rq s of
          (r, s') \<Rightarrow> ((case r of Inl e \<Rightarrow> (case error_response (api_of_builder (logging_env le) e) of (code, body) \<Rightarrow> (code, BuilderErrorReply body))
            | Inr y \<Rightarrow> y), s'))"
        using False Some hit args by (intro ext) (auto simp: serve_builder_def split: prod.split sum.split)
      ultimately show ?thesis by simp
    qed
  qed
qed

end
