(* ===== verification/Startup.thy ===== *)
theory Startup
  imports Pg_Run Policy_Builder
begin

text \<open>
  The start of the authorization server up to the moment it listens (\<open>lakefs-authz/src/main.rs\<close>): the
  checks, the migrations and the bootstrap file over the PostgreSQL store.  A start leaves every entry of the
  file in the tables, and a restart with the same file writes nothing.
\<close>

section \<open>main.rs: the start of the authorization server\<close>

definition pg_apply_boot_file :: "pg_env \<Rightarrow> bootstrap_plan \<Rightarrow> db \<Rightarrow> (boot_error + bootstrap_report) \<times> db" where
  "pg_apply_boot_file env plan d =
     (if plan_is_empty plan then (Ok zero_report, d)
      else case pg_apply_bootstrap env plan d of (r, d') \<Rightarrow> (map_err ApplyFailed r, d'))"

datatype start_error = StartConfig authz_config_error | StartPanic | StartConnect string | StartMigrate string
  | StartPing store_error | StartBootstrap boot_error

record start_env =
  st_pg :: pg_env
  st_connect :: "string \<Rightarrow> nat \<Rightarrow> string + unit"
  st_migrate :: "string + unit"
  st_hkdf :: "u8 list \<Rightarrow> u8 list \<Rightarrow> u8 list \<Rightarrow> nat \<Rightarrow> u8 list option"
  st_aes256gcm :: "u8 list \<Rightarrow> secret_box"
  st_parse_list :: "string \<Rightarrow> string + string list"
  st_parse_yaml :: "string \<Rightarrow> string + bootstrap_file"
  st_read_to_string :: "string \<Rightarrow> string option"
  st_variable :: "string \<Rightarrow> string option"
  st_nonces :: "nat \<Rightarrow> u8 list"
  st_now :: int

record started =
  sd_verifier :: token_verifier
  sd_secrets :: secret_box
  sd_report :: "bootstrap_report option"

text \<open>
  What is checked before the database is written to.  The migrations only create tables that are not there, so
  they leave the rows of an existing database alone.
\<close>

definition start_checks :: "start_env \<Rightarrow> authz_config \<Rightarrow> db \<Rightarrow> start_error + token_verifier \<times> secret_box" where
  "start_checks se c d =
     and_then (map_err StartConfig (authz_verifier c)) (\<lambda>verifier.
     and_then (map_err StartConfig (authz_secret_box (st_hkdf se) (st_aes256gcm se) c)) (\<lambda>box.
     and_then (ok_or StartPanic box) (\<lambda>secrets.
     and_then (map_err StartConnect (st_connect se (az_database_url c) (az_database_max_connections c))) (\<lambda>_.
     and_then (if az_run_migrations c then map_err StartMigrate (st_migrate se) else Ok ()) (\<lambda>_.
     and_then (map_err StartPing (pg_ping (st_pg se) d)) (\<lambda>_. Ok (verifier, secrets)))))))"

definition start_plan :: "start_env \<Rightarrow> secret_box \<Rightarrow> string \<Rightarrow> boot_error + bootstrap_plan" where
  "start_plan se secrets path = load_plan (st_parse_list se) (st_parse_yaml se) secrets (st_nonces se) (st_variable se)
     (st_now se) (st_read_to_string se) path"

definition authz_start :: "start_env \<Rightarrow> authz_config \<Rightarrow> db \<Rightarrow> (start_error + started) \<times> db" where
  "authz_start se c d = (case start_checks se c d of
     Inl e \<Rightarrow> (Err e, d)
   | Inr (verifier, secrets) \<Rightarrow> (case az_bootstrap_file c of
       None \<Rightarrow> (Ok \<lparr> sd_verifier = verifier, sd_secrets = secrets, sd_report = None \<rparr>, d)
     | Some path \<Rightarrow> (case start_plan se secrets path of
         Inl e \<Rightarrow> (Err (StartBootstrap e), d)
       | Inr plan \<Rightarrow> (case pg_apply_boot_file (st_pg se) plan d of
           (Inl e, d') \<Rightarrow> (Err (StartBootstrap e), d')
         | (Inr report, d') \<Rightarrow>
             (Ok \<lparr> sd_verifier = verifier, sd_secrets = secrets, sd_report = Some report \<rparr>, d')))))"

section \<open>Two plans of the same file\<close>

text \<open>Plans read at different times differ in dates and nonces, not in what a run looks for.\<close>

definition plan_alike :: "bootstrap_plan \<Rightarrow> bootstrap_plan \<Rightarrow> bool" where
  "plan_alike p q \<longleftrightarrow> map np_name (bp_policies p) = map np_name (bp_policies q)
     \<and> map ng_id (bp_groups p) = map ng_id (bp_groups q)
     \<and> map (\<lambda>u. (nu_username u, nu_external_id u)) (bp_users p) = map (\<lambda>u. (nu_username u, nu_external_id u)) (bp_users q)
     \<and> bp_memberships p = bp_memberships q \<and> bp_user_policies p = bp_user_policies q
     \<and> bp_group_policies p = bp_group_policies q
     \<and> map (\<lambda>c. (nc_access_key_id c, nc_username c)) (bp_credentials p)
        = map (\<lambda>c. (nc_access_key_id c, nc_username c)) (bp_credentials q)"

lemma seals_keys:
  "list_all2 (\<lambda>(u, c). seals secrets nonces env now u c) ucs ncs \<Longrightarrow>
     map (\<lambda>c. (nc_access_key_id c, nc_username c)) ncs = map (\<lambda>(u, c). (trim (sc_access_key_id c), u)) ucs"
  by (induction rule: list_all2_induct) (auto simp: seals_def)

lemma plans_alike:
  assumes "plan_of_file pl secrets nonces env now file = Ok p" "plan_of_file pl' secrets' nonces' env' now' file = Ok q"
  shows "plan_alike p q"
  using seals_keys [OF plan_of_file_Ok(7) [OF assms(1)]] seals_keys [OF plan_of_file_Ok(7) [OF assms(2)]]
  by (simp add: plan_alike_def plan_of_file_Ok(1-6) [OF assms(1)] plan_of_file_Ok(1-6) [OF assms(2)] o_def
      policy_of_spec_def group_of_spec_def user_of_spec_def)

lemma alike_lengths:
  assumes "plan_alike p q"
  shows "skipped_report p = skipped_report q" "plan_is_empty p = plan_is_empty q"
proof -
  note l = assms [unfolded plan_alike_def]
  show "skipped_report p = skipped_report q" using l by (auto simp: skipped_report_def dest!: map_eq_imp_length_eq)
  show "plan_is_empty p = plan_is_empty q"
    using l by (auto simp: plan_is_empty_iff empty_plan_def dest!: map_eq_imp_length_eq)
qed

text \<open>What a run looks for is the same for both plans.\<close>

lemma all_by_key:
  assumes "map f xs = map f ys" "\<And>x y. f x = f y \<Longrightarrow> Q x = Q y"
  shows "(\<forall>x \<in> set xs. Q x) = (\<forall>y \<in> set ys. Q y)"
proof -
  define R where "R k \<longleftrightarrow> (\<exists>z. f z = k \<and> Q z)" for k
  have R: "Q x = R (f x)" for x unfolding R_def using assms(2) by blast
  have "(\<forall>x \<in> set zs. Q x) = (\<forall>k \<in> set (map f zs). R k)" for zs by (simp add: R)
  then show ?thesis by (simp only: assms(1))
qed

lemma alike_present:
  assumes "plan_alike p q"
  shows "pg_boot.plan_present p d = pg_boot.plan_present q d"
proof -
  note l = assms [unfolded plan_alike_def]
  have keys: "map np_name (bp_policies p) = map np_name (bp_policies q)" "map ng_id (bp_groups p) = map ng_id (bp_groups q)"
    "map (\<lambda>u. (nu_username u, nu_external_id u)) (bp_users p) = map (\<lambda>u. (nu_username u, nu_external_id u)) (bp_users q)"
    "map (\<lambda>c. (nc_access_key_id c, nc_username c)) (bp_credentials p) = map (\<lambda>c. (nc_access_key_id c, nc_username c)) (bp_credentials q)"
    using l by blast+
  have "(\<forall>x \<in> set (bp_policies p). mem_has_policy x (store_of d)) = (\<forall>x \<in> set (bp_policies q). mem_has_policy x (store_of d))"
    by (rule all_by_key [OF keys(1)]) (simp add: mem_has_policy_def)
  moreover have "(\<forall>x \<in> set (bp_groups p). mem_has_group x (store_of d)) = (\<forall>x \<in> set (bp_groups q). mem_has_group x (store_of d))"
    by (rule all_by_key [OF keys(2)]) (simp add: mem_has_group_def)
  moreover have "(\<forall>x \<in> set (bp_users p). mem_has_user x (store_of d)) = (\<forall>x \<in> set (bp_users q). mem_has_user x (store_of d))"
    by (rule all_by_key [OF keys(3)]) (simp add: mem_has_user_def same_identity_as_def)
  moreover have "(\<forall>x \<in> set (bp_credentials p). mem_has_credential x (store_of d))
      = (\<forall>x \<in> set (bp_credentials q). mem_has_credential x (store_of d))"
    by (rule all_by_key [OF keys(4)]) (simp add: mem_has_credential_def)
  ultimately show ?thesis using l by (simp add: pg_boot.plan_present_def)
qed

lemma boot_file_again:
  assumes "pg_up env" "pg_ok d" "pg_apply_boot_file env p d = (Ok r, d')" "plan_alike p q" "pg_up env'"
  shows "\<exists>d''. pg_apply_boot_file env' q d' = (Ok (skipped_report q), d'') \<and> pg_idle d' d''"
    and "pg_ok d'" "pg_boot.plan_present p d'"
proof -
  have inv: "pg_inv env d" using assms(1,2) by (simp add: pg_inv_def)
  have "pg_ok d' \<and> pg_boot.plan_present p d'"
  proof (cases "plan_is_empty p")
    case True
    then have "p = empty_plan" "d' = d" using assms(3) by (auto simp: plan_is_empty_iff pg_apply_boot_file_def)
    then show ?thesis using assms(2) by (simp add: pg_boot.plan_present_def empty_plan_def)
  next
    case False
    then have "pg_apply_bootstrap env p d = (Ok r, d')"
      using assms(3) by (auto simp: pg_apply_boot_file_def map_err_Ok_iff split: prod.splits)
    then have "apply_plan (pg_writer env) p d = (Ok r, d')"
      using pg_apply_bootstrap_Ok assms(1) by (simp add: pg_up_def)
    then show ?thesis using pg_boot.apply_plan_creates(1,3) [OF inv] by (simp add: pg_inv_def)
  qed
  then show ok: "pg_ok d'" "pg_boot.plan_present p d'" by simp_all
  then have present: "pg_boot.plan_present q d'" using alike_present [OF assms(4)] by simp
  show "\<exists>d''. pg_apply_boot_file env' q d' = (Ok (skipped_report q), d'') \<and> pg_idle d' d''"
  proof (cases "plan_is_empty q")
    case True
    then show ?thesis by (auto simp: pg_apply_boot_file_def plan_is_empty_iff skipped_report_def empty_plan_def zero_report_def
        zero_counts_def pg_idle_refl)
  next
    case False
    have "pg_inv env' d'" using ok(1) assms(5) by (simp add: pg_inv_def)
    from pg_boot.apply_plan_present [OF this present] obtain d'' where
      run: "apply_plan (pg_writer env') q d' = (Ok (skipped_report q), d'')" "pg_idle d' d''" by blast
    then show ?thesis using False pg_apply_bootstrap_Ok [of env' q d' "skipped_report q" d''] assms(5)
      by (auto simp: pg_apply_boot_file_def pg_up_def)
  qed
qed

text \<open>Every entry of a file is in the tables.\<close>

definition file_seeded :: "bootstrap_file \<Rightarrow> db \<Rightarrow> bool" where
  "file_seeded file d \<longleftrightarrow>
     (\<forall>p \<in> set (bf_policies file). has_policy d (sp_name p))
     \<and> (\<forall>g \<in> set (bf_groups file). has_group d (sg_id g) \<and> (\<forall>p \<in> set (sg_policies g). (sg_id g, p) \<in> set (t_group_policies d)))
     \<and> (\<forall>u \<in> set (bf_users file).
          (\<exists>r \<in> set (t_users d). ur_username r = su_username u \<and> ur_external_id r = optional_text (su_external_id u))
          \<and> (\<forall>g \<in> set (su_groups u). (g, su_username u) \<in> set (t_group_members d))
          \<and> (\<forall>p \<in> set (su_policies u). (su_username u, p) \<in> set (t_user_policies d))
          \<and> (\<forall>c \<in> set (su_credentials u). \<exists>k \<in> set (t_credentials d).
               nc_access_key_id k = trim (sc_access_key_id c) \<and> nc_username k = su_username u))"

lemma present_seeded:
  assumes "pg_ok d" "plan_of_file pl secrets nonces env now file = Ok p" "pg_boot.plan_present p d"
  shows "file_seeded file d"
proof -
  note ok = pg_okD(1) [OF assms(1)] and cr = pg_okD(2) [OF assms(1)] and plan = plan_of_file_Ok [OF assms(2)]
  note pr = assms(3) [unfolded pg_boot.plan_present_def plan(1-6)]
  have keys: "(\<lambda>c. (nc_access_key_id c, nc_username c)) ` set (bp_credentials p)
      = (\<lambda>(u, c). (trim (sc_access_key_id c), u)) ` set (user_credentials (bf_users file))"
    using arg_cong [OF seals_keys [OF plan(7)], of set] by simp
  have cred: "\<exists>k \<in> set (t_credentials d). nc_access_key_id k = trim (sc_access_key_id c) \<and> nc_username k = su_username u"
    if "u \<in> set (bf_users file)" "c \<in> set (su_credentials u)" for u c
  proof -
    have "(su_username u, c) \<in> set (user_credentials (bf_users file))" using that by (auto simp: user_credentials_def)
    then have "(trim (sc_access_key_id c), su_username u) \<in> (\<lambda>c. (nc_access_key_id c, nc_username c)) ` set (bp_credentials p)"
      unfolding keys by force
    then obtain nc where nc: "nc \<in> set (bp_credentials p)" "nc_access_key_id nc = trim (sc_access_key_id c)" "nc_username nc = su_username u"
      by auto
    then have "mem_has_credential nc (store_of d)" using pr by blast
    then obtain r where "r \<in> set (credential_rows d)" "cr_access_key_id r = nc_access_key_id nc" "cr_username r = nc_username nc"
      by (auto simp: mem_has_credential_def store_credential(1) [OF ok cr])
    then show ?thesis using nc by (auto simp: credential_rows_eq [OF ok cr])
  qed
  show ?thesis unfolding file_seeded_def
  proof (intro conjI ballI)
    show "has_policy d (sp_name x)" if "x \<in> set (bf_policies file)" for x
      using pr that store_has(3) [OF ok] by (auto simp: mem_has_policy_def policy_of_spec_def)
    show "has_group d (sg_id x)" if "x \<in> set (bf_groups file)" for x
      using pr that store_has(2) [OF ok] by (auto simp: mem_has_group_def group_of_spec_def)
    show "(sg_id x, y) \<in> set (t_group_policies d)" if "x \<in> set (bf_groups file)" "y \<in> set (sg_policies x)" for x y
      using pr that by (auto simp: mem_has_group_policy_def store_sel)
    show "\<exists>r \<in> set (t_users d). ur_username r = su_username x \<and> ur_external_id r = optional_text (su_external_id x)"
      if "x \<in> set (bf_users file)" for x
    proof -
      have "mem_has_user (user_of_spec now x) (store_of d)" using pr that by auto
      then show ?thesis
        by (auto simp: mem_has_user_def user_of_spec_def same_identity_as_def store_get(1) [OF ok] intro: bexI)
    qed
    show "(y, su_username x) \<in> set (t_group_members d)" if "x \<in> set (bf_users file)" "y \<in> set (su_groups x)" for x y
      using pr that by (auto simp: mem_has_membership_def store_sel)
    show "(su_username x, y) \<in> set (t_user_policies d)" if "x \<in> set (bf_users file)" "y \<in> set (su_policies x)" for x y
      using pr that by (auto simp: mem_has_user_policy_def store_sel)
  qed (rule cred)
qed

section \<open>A start and a restart\<close>

lemma start_Ok:
  assumes "authz_start se c d = (Ok st, d')"
  shows "start_checks se c d = Ok (sd_verifier st, sd_secrets st)"
    and "az_bootstrap_file c = None \<Longrightarrow> d' = d \<and> sd_report st = None"
    and "az_bootstrap_file c = Some path \<Longrightarrow> \<exists>plan r. start_plan se (sd_secrets st) path = Ok plan
           \<and> pg_apply_boot_file (st_pg se) plan d = (Ok r, d') \<and> sd_report st = Some r"
  using assms by (auto simp: authz_start_def split: sum.splits option.splits prod.splits)

lemma start_checks_up: "start_checks se c d = Ok x \<Longrightarrow> pg_works (st_pg se) \<Longrightarrow> pg_up (st_pg se)"
  by (auto simp: start_checks_def res_simps pg_ping_def fetch_all_def pg_works_def pg_up_def split: option.splits)

lemma start_plan_Ok:
  "start_plan se secrets path = Ok plan \<longleftrightarrow> (\<exists>yaml file. st_read_to_string se path = Some yaml
     \<and> read_file (st_parse_yaml se) yaml = Ok file
     \<and> plan_of_file (st_parse_list se) secrets (st_nonces se) (st_variable se) (st_now se) file = Ok plan)"
  by (auto simp: start_plan_def load_plan_def parse_plan_with_env_def res_simps)

lemma restart:
  assumes "pg_ok d" "pg_works (st_pg se)" "pg_works (st_pg se')" "az_bootstrap_file c = Some path"
    and "st_read_to_string se' path = st_read_to_string se path" "st_parse_yaml se' = st_parse_yaml se"
    and "authz_start se c d = (Ok st, d')"
    and "start_checks se' c d' = Ok (v, secrets)" "start_plan se' secrets path = Ok plan'"
  shows "\<exists>d''. authz_start se' c d' = (Ok \<lparr> sd_verifier = v, sd_secrets = secrets, sd_report = Some (skipped_report plan') \<rparr>, d'')
      \<and> pg_idle d' d''"
    and "\<exists>yaml file. st_read_to_string se path = Some yaml \<and> read_file (st_parse_yaml se) yaml = Ok file \<and> file_seeded file d'"
proof -
  obtain plan r where plan: "start_plan se (sd_secrets st) path = Ok plan" "pg_apply_boot_file (st_pg se) plan d = (Ok r, d')"
    using start_Ok(3) [OF assms(7,4)] by blast
  obtain yaml bf where text0: "st_read_to_string se path = Some yaml" "read_file (st_parse_yaml se) yaml = Ok bf"
    "plan_of_file (st_parse_list se) (sd_secrets st) (st_nonces se) (st_variable se) (st_now se) bf = Ok plan"
    using plan(1) unfolding start_plan_Ok by blast
  have "plan_of_file (st_parse_list se') secrets (st_nonces se') (st_variable se') (st_now se') bf = Ok plan'"
    using assms(9) text0(1,2) unfolding start_plan_Ok assms(5,6) by auto
  then have alike: "plan_alike plan plan'" by (rule plans_alike [OF text0(3)])
  have up: "pg_up (st_pg se)" using start_checks_up [OF start_Ok(1) [OF assms(7)] assms(2)] .
  have up': "pg_up (st_pg se')" using start_checks_up [OF assms(8,3)] .
  note again = boot_file_again [OF up assms(1) plan(2) alike up']
  show "\<exists>d''. authz_start se' c d' = (Ok \<lparr> sd_verifier = v, sd_secrets = secrets, sd_report = Some (skipped_report plan') \<rparr>, d'')
      \<and> pg_idle d' d''"
    using again(1) assms(4,8,9) by (auto simp: authz_start_def)
  show "\<exists>yaml file. st_read_to_string se path = Some yaml \<and> read_file (st_parse_yaml se) yaml = Ok file \<and> file_seeded file d'"
    using text0 present_seeded [OF again(2) text0(3) again(3)] by blast
qed

end
