(* ===== verification/Catalog.thy ===== *)
theory Catalog
  imports Validate
begin

text \<open>
  \<open>lakefs-auth-core/src/catalog.rs\<close>: the kinds of resources lakeFS checks an action against, their ARN
  templates, the list of actions, and the JSON the policy builder page reads.  \<open>serde_json\<close> values are
  the datatype \<open>json\<close>, a number by its text; an object is the ordered map \<open>serde_json\<close> keeps by default.
\<close>

datatype json = JNull | JBool bool | JNum string | JStr string | JArr "json list" | JObj "(string \<times> json) list"

definition json_obj :: "(string \<times> json) list \<Rightarrow> json" where
  "json_obj es = JObj (fold (\<lambda>(k, v). bt_insert k v) es [])"

section \<open>Resource kinds\<close>

datatype resource_kind =
    KAll
  | KRepository
  | KObject
  | KBranch
  | KTag
  | KNamespace
  | KUser
  | KGroup
  | KPolicy
  | KExternalPrincipal
  | KCatalogNamespace
  | KCatalogTable
  | KCatalogView

definition RESOURCE_KINDS :: "resource_kind list" where
  "RESOURCE_KINDS = [KAll, KRepository, KObject, KBranch, KTag, KNamespace, KUser,
     KGroup, KPolicy, KExternalPrincipal, KCatalogNamespace, KCatalogTable, KCatalogView]"

text \<open>The derived order: the order of the declaration.\<close>

fun kind_index :: "resource_kind \<Rightarrow> nat" where
  "kind_index KAll = 0"
| "kind_index KRepository = 1"
| "kind_index KObject = 2"
| "kind_index KBranch = 3"
| "kind_index KTag = 4"
| "kind_index KNamespace = 5"
| "kind_index KUser = 6"
| "kind_index KGroup = 7"
| "kind_index KPolicy = 8"
| "kind_index KExternalPrincipal = 9"
| "kind_index KCatalogNamespace = 10"
| "kind_index KCatalogTable = 11"
| "kind_index KCatalogView = 12"

lemma kind_index_inj: "kind_index a = kind_index b \<longleftrightarrow> a = b"
  by (cases a; cases b) simp_all

instantiation resource_kind :: linorder
begin

definition less_eq_resource_kind :: "resource_kind \<Rightarrow> resource_kind \<Rightarrow> bool" where
  "less_eq_resource_kind a b \<longleftrightarrow> kind_index a \<le> kind_index b"

definition less_resource_kind :: "resource_kind \<Rightarrow> resource_kind \<Rightarrow> bool" where
  "less_resource_kind a b \<longleftrightarrow> kind_index a < kind_index b"

instance
  by standard (auto simp: less_eq_resource_kind_def less_resource_kind_def kind_index_inj)

end

record kind_spec =
  ks_id :: string
  ks_template :: string
  ks_fields :: "string list"

fun spec_of_kind :: "resource_kind \<Rightarrow> kind_spec" where
  "spec_of_kind KAll = \<lparr> ks_id = ''all'', ks_template = ''*'',
     ks_fields = [] \<rparr>"
| "spec_of_kind KRepository = \<lparr> ks_id = ''repository'', ks_template = ''arn:lakefs:fs:::repository/{repository}'',
     ks_fields = [''repository''] \<rparr>"
| "spec_of_kind KObject = \<lparr> ks_id = ''object'', ks_template = ''arn:lakefs:fs:::repository/{repository}/object/{path}'',
     ks_fields = [''repository'', ''path''] \<rparr>"
| "spec_of_kind KBranch = \<lparr> ks_id = ''branch'', ks_template = ''arn:lakefs:fs:::repository/{repository}/branch/{branch}'',
     ks_fields = [''repository'', ''branch''] \<rparr>"
| "spec_of_kind KTag = \<lparr> ks_id = ''tag'', ks_template = ''arn:lakefs:fs:::repository/{repository}/tag/{tag}'',
     ks_fields = [''repository'', ''tag''] \<rparr>"
| "spec_of_kind KNamespace = \<lparr> ks_id = ''namespace'', ks_template = ''arn:lakefs:fs:::namespace/{namespace}'',
     ks_fields = [''namespace''] \<rparr>"
| "spec_of_kind KUser = \<lparr> ks_id = ''user'', ks_template = ''arn:lakefs:auth:::user/{user}'',
     ks_fields = [''user''] \<rparr>"
| "spec_of_kind KGroup = \<lparr> ks_id = ''group'', ks_template = ''arn:lakefs:auth:::group/{group}'',
     ks_fields = [''group''] \<rparr>"
| "spec_of_kind KPolicy = \<lparr> ks_id = ''policy'', ks_template = ''arn:lakefs:auth:::policy/{policy}'',
     ks_fields = [''policy''] \<rparr>"
| "spec_of_kind KExternalPrincipal = \<lparr> ks_id = ''external_principal'', ks_template = ''arn:lakefs:auth:::externalPrincipal/{principal}'',
     ks_fields = [''principal''] \<rparr>"
| "spec_of_kind KCatalogNamespace = \<lparr> ks_id = ''catalog_namespace'', ks_template = ''arn:lakefs:catalog:::namespace/{repository}/{namespace}'',
     ks_fields = [''repository'', ''namespace''] \<rparr>"
| "spec_of_kind KCatalogTable = \<lparr> ks_id = ''catalog_table'', ks_template = ''arn:lakefs:catalog:::table/{repository}/{namespace}/{table}'',
     ks_fields = [''repository'', ''namespace'', ''table''] \<rparr>"
| "spec_of_kind KCatalogView = \<lparr> ks_id = ''catalog_view'', ks_template = ''arn:lakefs:catalog:::view/{repository}/{namespace}/{view}'',
     ks_fields = [''repository'', ''namespace'', ''view''] \<rparr>"

definition kind_template :: "resource_kind \<Rightarrow> string" where "kind_template k = ks_template (spec_of_kind k)"
definition kind_fields :: "resource_kind \<Rightarrow> string list" where "kind_fields k = ks_fields (spec_of_kind k)"
definition kind_id :: "resource_kind \<Rightarrow> string" where "kind_id k = ks_id (spec_of_kind k)"

section \<open>Actions\<close>

record action_spec =
  as_name :: string
  as_resources :: "resource_kind list"

abbreviation act :: "string \<Rightarrow> resource_kind list \<Rightarrow> action_spec" where
  "act n ks \<equiv> \<lparr> as_name = n, as_resources = ks \<rparr>"

definition action_service :: "action_spec \<Rightarrow> string" where
  "action_service a = (case split_once CHR '':'' (as_name a) of None \<Rightarrow> as_name a | Some (service, _) \<Rightarrow> service)"

definition FS_ACTIONS :: "action_spec list" where
  "FS_ACTIONS = [
   act ''fs:ReadRepository'' [KRepository],
   act ''fs:CreateRepository'' [KRepository],
   act ''fs:UpdateRepository'' [KRepository],
   act ''fs:AttachStorageNamespace'' [KNamespace],
   act ''fs:ImportFromStorage'' [KNamespace],
   act ''fs:ImportCancel'' [KBranch],
   act ''fs:DeleteRepository'' [KRepository],
   act ''fs:ListRepositories'' [KAll],
   act ''fs:ReadObject'' [KObject],
   act ''fs:WriteObject'' [KObject, KBranch],
   act ''fs:DeleteObject'' [KObject],
   act ''fs:ListObjects'' [KRepository],
   act ''fs:CreateCommit'' [KBranch, KRepository],
   act ''fs:ReadCommit'' [KRepository],
   act ''fs:ListCommits'' [KRepository],
   act ''fs:CreateBranch'' [KBranch, KRepository],
   act ''fs:DeleteBranch'' [KBranch],
   act ''fs:ReadBranch'' [KBranch],
   act ''fs:RevertBranch'' [KBranch],
   act ''fs:ListBranches'' [KRepository],
   act ''fs:CreateTag'' [KTag, KRepository],
   act ''fs:DeleteTag'' [KTag],
   act ''fs:ReadTag'' [KTag],
   act ''fs:ListTags'' [KRepository],
   act ''fs:ReadConfig'' [KAll]]"

definition AUTH_ACTIONS :: "action_spec list" where
  "AUTH_ACTIONS = [
   act ''auth:ReadUser'' [KUser],
   act ''auth:CreateUser'' [KUser],
   act ''auth:DeleteUser'' [KUser],
   act ''auth:ListUsers'' [KAll],
   act ''auth:ReadGroup'' [KGroup],
   act ''auth:CreateGroup'' [KGroup],
   act ''auth:DeleteGroup'' [KGroup],
   act ''auth:ListGroups'' [KAll],
   act ''auth:AddGroupMember'' [KGroup],
   act ''auth:RemoveGroupMember'' [KGroup],
   act ''auth:ReadPolicy'' [KPolicy],
   act ''auth:CreatePolicy'' [KPolicy],
   act ''auth:UpdatePolicy'' [KPolicy],
   act ''auth:DeletePolicy'' [KPolicy],
   act ''auth:ListPolicies'' [KAll],
   act ''auth:AttachPolicy'' [KUser, KGroup, KPolicy],
   act ''auth:DetachPolicy'' [KUser, KGroup, KPolicy],
   act ''auth:ReadCredentials'' [KUser],
   act ''auth:CreateCredentials'' [KUser],
   act ''auth:DeleteCredentials'' [KUser],
   act ''auth:ListCredentials'' [KUser],
   act ''auth:CreateUserExternalPrincipal'' [KUser],
   act ''auth:DeleteUserExternalPrincipal'' [KUser],
   act ''auth:ReadExternalPrincipal'' [KExternalPrincipal]]"

definition OTHER_ACTIONS :: "action_spec list" where
  "OTHER_ACTIONS = [
   act ''ci:ReadAction'' [KRepository],
   act ''retention:PrepareGarbageCollectionCommits'' [KRepository],
   act ''retention:GetGarbageCollectionRules'' [KRepository],
   act ''retention:SetGarbageCollectionRules'' [KRepository],
   act ''retention:PrepareGarbageCollectionUncommitted'' [KRepository],
   act ''branches:GetBranchProtectionRules'' [KRepository],
   act ''branches:SetBranchProtectionRules'' [KRepository],
   act ''pr:ReadPullRequest'' [KRepository],
   act ''pr:WritePullRequest'' [KRepository],
   act ''pr:ListPullRequests'' [KRepository],
   act ''catalog:ListNamespaces'' [KCatalogNamespace],
   act ''catalog:GetNamespace'' [KCatalogNamespace],
   act ''catalog:CreateNamespace'' [KCatalogNamespace],
   act ''catalog:UpdateNamespace'' [KCatalogNamespace],
   act ''catalog:DeleteNamespace'' [KCatalogNamespace],
   act ''catalog:ListTables'' [KCatalogTable],
   act ''catalog:ReadTable'' [KCatalogTable],
   act ''catalog:CreateTable'' [KCatalogTable],
   act ''catalog:UpdateTable'' [KCatalogTable],
   act ''catalog:DeleteTable'' [KCatalogTable],
   act ''catalog:ListViews'' [KCatalogView],
   act ''catalog:ReadView'' [KCatalogView],
   act ''catalog:CreateView'' [KCatalogView],
   act ''catalog:UpdateView'' [KCatalogView],
   act ''catalog:DeleteView'' [KCatalogView]]"

definition ACTIONS :: "action_spec list" where
  "ACTIONS = FS_ACTIONS @ AUTH_ACTIONS @ OTHER_ACTIONS"

definition catalog_json :: json where
  "catalog_json = json_obj
     [(''kinds'', json_obj (map (\<lambda>kind. (kind_id kind,
          json_obj [(''template'', JStr (kind_template kind)), (''fields'', JArr (map JStr (kind_fields kind)))]))
        RESOURCE_KINDS)),
      (''actions'', JArr (map (\<lambda>action. json_obj
          [(''name'', JStr (as_name action)), (''service'', JStr (action_service action)),
           (''resources'', JArr (map (\<lambda>kind. JStr (kind_id kind)) (as_resources action)))]) ACTIONS))]"

section \<open>The catalog is consistent with the validator\<close>

definition action_spec_ok :: "action_spec \<Rightarrow> bool" where
  "action_spec_ok a \<longleftrightarrow> is_ok (validate_action (as_name a)) \<and> action_service a \<in> set SERVICES
     \<and> as_resources a \<noteq> [] \<and> distinct (as_resources a)"

lemma fs_actions_ok: "list_all action_spec_ok FS_ACTIONS"
  by code_simp

lemma auth_actions_ok: "list_all action_spec_ok AUTH_ACTIONS"
  by code_simp

lemma other_actions_ok: "list_all action_spec_ok OTHER_ACTIONS"
  by code_simp

lemma actions_ok: "list_all action_spec_ok ACTIONS"
  using fs_actions_ok auth_actions_ok other_actions_ok by (simp add: ACTIONS_def)

lemma action_names_distinct: "distinct (map as_name ACTIONS)"
  by code_simp

lemma services_covered: "set (map action_service ACTIONS) = set SERVICES"
  by code_simp

text \<open>A template filled with its fields: every \<open>{field}\<close> replaced by the value the caller gives.\<close>

fun fill_template :: "(string \<Rightarrow> string) \<Rightarrow> string \<Rightarrow> string" where
  "fill_template f [] = []"
| "fill_template f (c # cs) = (if c = CHR ''{'' then
     f (takeWhile (\<lambda>x. x \<noteq> CHR ''}'') cs) @ fill_template f (drop (Suc (length (takeWhile (\<lambda>x. x \<noteq> CHR ''}'') cs))) cs)
   else c # fill_template f cs)"

lemma fill_template_plain: "CHR ''{'' \<notin> set xs \<Longrightarrow> fill_template f (xs @ ys) = xs @ fill_template f ys"
  by (induction xs) auto

text \<open>Whatever the caller fills in, the result is a resource the validator accepts.\<close>

lemma filled_template_arn: "k \<noteq> KAll \<Longrightarrow> arn_ok (fill_template f (kind_template k))"
proof -
  assume "k \<noteq> KAll"
  then obtain service r where t: "kind_template k = (''arn:lakefs:'' @ service @ '':::'') @ r"
    and s: "CHR '':'' \<notin> set service" "CHR ''{'' \<notin> set service" "service \<noteq> []"
    and r: "r \<noteq> []" "hd r \<noteq> CHR ''{''"
  proof (cases "k \<in> {KRepository, KObject, KBranch, KTag, KNamespace}")
    case True
    then show ?thesis using that [of "''fs''" "drop (length ''arn:lakefs:fs:::'') (kind_template k)"]
      by (auto simp: kind_template_def)
  next
    case False
    show ?thesis
    proof (cases "k \<in> {KUser, KGroup, KPolicy, KExternalPrincipal}")
      case True
      then show ?thesis using that [of "''auth''" "drop (length ''arn:lakefs:auth:::'') (kind_template k)"]
        by (auto simp: kind_template_def)
    next
      case not_auth: False
      with False \<open>k \<noteq> KAll\<close> have "k \<in> {KCatalogNamespace, KCatalogTable, KCatalogView}"
        by (cases k) simp_all
      then show ?thesis using that [of "''catalog''" "drop (length ''arn:lakefs:catalog:::'') (kind_template k)"]
        by (auto simp: kind_template_def)
    qed
  qed
  have "fill_template f (kind_template k) = (''arn:lakefs:'' @ service @ '':::'') @ fill_template f r"
    unfolding t using s by (intro fill_template_plain) auto
  moreover from r have "fill_template f r \<noteq> []" by (cases r) auto
  ultimately have "fill_template f (kind_template k) = ''arn:lakefs:'' @ service @ '':'' @ [] @ '':'' @ [] @ '':'' @ fill_template f r"
    by simp
  with s \<open>fill_template f r \<noteq> []\<close> show ?thesis unfolding arn_ok_iff by fastforce
qed

lemma filled_template_accepted: "validate_resource parse_list (fill_template f (kind_template k)) = Ok ()"
proof (cases "k = KAll")
  case True
  then show ?thesis by (simp add: kind_template_def validate_resource_def ALL_RESOURCES_def)
next
  case False
  then have a: "arn_ok (fill_template f (kind_template k))" by (rule filled_template_arn)
  then obtain xs where "fill_template f (kind_template k) = CHR ''a'' # xs" unfolding arn_ok_iff by auto
  then have "\<not> starts_with ''['' (fill_template f (kind_template k))" by (simp add: starts_with_def)
  with a show ?thesis by (simp add: validate_resource_iff)
qed

lemma kind_ids_distinct: "distinct (map kind_id RESOURCE_KINDS)"
  by code_simp

lemma all_kinds_listed: "k \<in> set RESOURCE_KINDS"
  by (cases k) (simp_all add: RESOURCE_KINDS_def)

end
