(* ===== verification/Client_Server.thy ===== *)
theory Client_Server
  imports Authz_Client
begin

text \<open>
  The client of \<open>Authz_Client\<close> against the server of \<open>Handlers\<close>.  The locale \<open>client_server\<close> says how the
  two are connected: a transport that delivers, an accepted bearer, and the documented behaviour of
  the URL join and of percent encoding.  Under it the client is a \<open>user_directory\<close> over the store.
\<close>

section \<open>The routes the provisioning uses\<close>

definition enc_ok :: "string \<Rightarrow> bool" where
  "enc_ok x \<longleftrightarrow> x \<noteq> [] \<and> CHR ''/'' \<notin> set x"

lemmas route_simps = find_route_def protected_router_def public_router_def HEALTHCHECK_PATH_def match_template_def
  is_capture_def starts_with_def

lemma split_user: "CHR ''/'' \<notin> set x \<Longrightarrow> split_on CHR ''/'' (''/auth/users/'' @ x) = ['''', ''auth'', ''users'', x]"
  by (simp add: split_on_plain)

lemma split_member:
  assumes "CHR ''/'' \<notin> set g" "CHR ''/'' \<notin> set u"
  shows "split_on CHR ''/'' (''/auth/groups/'' @ g @ ''/members/'' @ u) = ['''', ''auth'', ''groups'', g, ''members'', u]"
  using split_on_append [OF assms(1), of "''members/'' @ u"] by (simp add: split_on_plain assms)

lemma split_rename:
  assumes "CHR ''/'' \<notin> set u"
  shows "split_on CHR ''/'' (''/auth/users/'' @ u @ ''/friendly_name'') = ['''', ''auth'', ''users'', u, ''friendly_name'']"
  using split_on_append [OF assms, of "''friendly_name''"] by (simp add: assms)

lemma public_other:
  "split_on CHR ''/'' p = [] # s # rest \<Longrightarrow> s \<noteq> ''healthcheck'' \<Longrightarrow> find_route (public_router :: inner routes) p = None"
  by (simp add: route_simps)

lemma route_users:
  "find_route (protected_router mem_impl env v) ''/auth/users'' =
     Some ([(GET, path0 (h_list_users mem_impl)), (POST, path0 (h_create_user mem_impl env))], [])"
  by (simp add: route_simps)

lemma route_user:
  assumes "enc_ok x"
  shows "find_route (protected_router mem_impl env v) (''/auth/users/'' @ x) =
     Some ([(GET, path1 (\<lambda>u rq. h_get_user mem_impl u)), (DELETE, path1 (\<lambda>u rq. h_delete_user mem_impl u))], [x])"
proof -
  have x: "x \<noteq> []" "CHR ''/'' \<notin> set x" using assms by (auto simp: enc_ok_def)
  show ?thesis unfolding find_route_def match_template_def split_user [OF x(2)]
    by (simp add: protected_router_def is_capture_def starts_with_def x)
qed

lemma route_member:
  assumes "enc_ok g" "enc_ok u"
  shows "find_route (protected_router mem_impl env v) (''/auth/groups/'' @ g @ ''/members/'' @ u) =
     Some ([(PUT, path2 (\<lambda>g u rq. h_add_membership mem_impl g u)), (DELETE, path2 (\<lambda>g u rq. h_delete_membership mem_impl g u))], [g, u])"
proof -
  have x: "g \<noteq> []" "CHR ''/'' \<notin> set g" "u \<noteq> []" "CHR ''/'' \<notin> set u" using assms by (auto simp: enc_ok_def)
  show ?thesis unfolding find_route_def match_template_def split_member [OF x(2,4)]
    by (simp add: protected_router_def is_capture_def starts_with_def x)
qed

lemma route_rename:
  assumes "enc_ok u"
  shows "find_route (protected_router mem_impl env v) (''/auth/users/'' @ u @ ''/friendly_name'') =
     Some ([(PUT, path1 (h_update_friendly_name mem_impl))], [u])"
proof -
  have x: "u \<noteq> []" "CHR ''/'' \<notin> set u" using assms by (auto simp: enc_ok_def)
  show ?thesis unfolding find_route_def match_template_def split_rename [OF x(2)]
    by (simp add: protected_router_def is_capture_def starts_with_def x)
qed

section \<open>What the client sees of the store\<close>

definition names_ok :: "inner \<Rightarrow> bool" where
  "names_ok s \<longleftrightarrow> (\<forall>k. bt_get (in_users s) k \<noteq> None \<longrightarrow> entity_id_ok k)"

definition directory_valid :: "inner \<Rightarrow> bool" where
  "directory_valid s \<longleftrightarrow> wf_inner s \<and> names_ok s"

definition directory_user :: "inner \<Rightarrow> string \<Rightarrow> user option" where
  "directory_user s x = (case non_blank x of None \<Rightarrow> None
     | Some t \<Rightarrow> (case find_user_by_external_id s t of Inl _ \<Rightarrow> None | Inr found \<Rightarrow> map_option user_to_wire found))"

definition directory_has_group :: "inner \<Rightarrow> string \<Rightarrow> bool" where
  "directory_has_group s g \<longleftrightarrow> bt_get (in_groups s) g \<noteq> None"

definition directory_members :: "inner \<Rightarrow> (string \<times> string) set" where
  "directory_members s = set (in_group_members s)"

lemma directory_user_iff:
  assumes "wf_inner s"
  shows "directory_user s x = Some u \<longleftrightarrow> (\<exists>t r. non_blank x = Some t \<and> u = user_to_wire r
    \<and> bt_get (in_users s) (ur_username r) = Some r \<and> ur_external_id r = Some t)"
  using find_user_by_external_id_iff [OF assms]
  by (auto simp: directory_user_def find_user_by_external_id_def split: option.split)

lemma directory_user_blank: "trim x = [] \<Longrightarrow> directory_user s x = None"
  by (simp add: directory_user_def non_blank_def)

lemma directory_user_name: "directory_valid s \<Longrightarrow> directory_user s x = Some u \<Longrightarrow>
    entity_id_ok (u_username u) \<and> bt_get (in_users s) (u_username u) \<noteq> None"
  unfolding directory_valid_def names_ok_def
  by (auto simp: directory_user_iff user_to_wire_def)

lemma directory_frame:
  assumes "in_users s' = in_users s"
  shows "directory_user s' = directory_user s" "names_ok s' = names_ok s"
  using assms by (auto simp: fun_eq_iff directory_user_def find_user_by_external_id_def names_ok_def split: option.split)

lemma create_user_frame: "create_user n s = (r, s') \<Longrightarrow> in_groups s' = in_groups s \<and> in_group_members s' = in_group_members s"
  by (cases rule: insert_user_cases [of n s]) (auto simp: create_user_def)

lemma create_user_names:
  "wf_inner s \<Longrightarrow> names_ok s \<Longrightarrow> entity_id_ok (nu_username n) \<Longrightarrow> create_user n s = (r, s') \<Longrightarrow> names_ok s'"
  using wf_shape_of(1) [of s]
  by (cases rule: insert_user_cases [of n s]) (auto simp: create_user_def names_ok_def bt_simps split: if_splits)

lemma directory_create:
  assumes "directory_valid s" "svc_create_user mem_impl env c s = (Ok u, s')" "uc_external_id c = Some x" "trim x \<noteq> []"
  shows "directory_valid s' \<and> directory_user s' x = Some u \<and> in_groups s' = in_groups s
    \<and> in_group_members s' = in_group_members s"
proof -
  have wf: "wf_inner s" "names_ok s" using assms(1) by (auto simp: directory_valid_def)
  obtain n where n: "new_user_validated (uc_username c) (user_fields_of c) (env_now env) = Ok n"
    using assms(2) by (auto simp: svc_create_user_def split: if_splits sum.splits)
  then obtain r where r: "create_row (create_user n) (\<lambda>s. get_user s (nu_username n)) (same_user n) s = (Ok r, s')"
      "u = user_to_wire r"
    using assms(2)
    by (cases "create_row (create_user n) (\<lambda>s. get_user s (nu_username n)) (same_user n) s")
      (auto simp: svc_create_user_def map_ok_Ok_iff split: if_splits)
  obtain r0 where c: "create_user n s = (r0, s')"
    using create_row_store [of "create_user n" "\<lambda>s. get_user s (nu_username n)" "same_user n" s] r(1)
    by (cases "create_user n s") auto
  have ext: "nu_external_id n = Some (trim x)" and name: "entity_id_ok (nu_username n)"
    using n assms(3,4) by (auto simp: new_user_validated_Ok user_fields_of_def optional_text_def non_blank_def Let_def)
  have stored: "get_user s' (nu_username n) = Ok r" and "create_user n s = (Ok r, s') \<or> same_user n r"
    using users.create_row_Ok [OF wf(1) r(1)] by auto
  then have "same_user n r" using same_user_created by blast
  then have "ur_external_id r = Some (trim x)" using ext by (simp add: same_user_def same_if_given_def)
  moreover have wf': "wf_inner s'" using wf_svc_create_user [OF wf(1), of env c] assms(2) by simp
  moreover have "bt_get (in_users s') (nu_username n) = Some r"
    using stored by (simp add: get_user_def ok_or_Ok_iff map_err_Ok_iff)
  moreover from this wf' have "ur_username r = nu_username n" using wf_inner_parts(2) by (simp add: wf_keys_def)
  ultimately have "directory_user s' x = Some u"
    using assms(4) r(2) by (auto simp: directory_user_iff non_blank_def Let_def)
  then show ?thesis
    using wf' create_user_names [OF wf name c] create_user_frame [OF c] by (simp add: directory_valid_def)
qed

lemma directory_delete:
  assumes "directory_valid s" "directory_user s x = Some u"
  shows "\<exists>s'. delete_user (u_username u) s = (Ok (), s') \<and> directory_valid s' \<and> directory_user s' x = None"
proof -
  have wf: "wf_inner s" "names_ok s" using assms(1) by (auto simp: directory_valid_def)
  obtain t r where r: "non_blank x = Some t" "u = user_to_wire r" "bt_get (in_users s) (ur_username r) = Some r"
      "ur_external_id r = Some t"
    using assms(2) directory_user_iff [OF wf(1)] by blast
  obtain s' where d: "delete_user (u_username u) s = (Ok (), s')"
    using r(2,3) by (simp add: delete_user_def user_to_wire_def)
  have users: "bt_get (in_users s') = (bt_get (in_users s))(u_username u := None)"
    by (rule delete_user_effect(1) [OF wf(1) d])
  have wf': "wf_inner s'" using wf_delete_user [OF wf(1), of "u_username u"] d by simp
  have "directory_user s' x \<noteq> Some v" for v
  proof
    assume "directory_user s' x = Some v"
    then obtain r' where r': "bt_get (in_users s') (ur_username r') = Some r'" "ur_external_id r' = Some t"
      using directory_user_iff [OF wf'] r(1) by auto
    then have "ur_username r' \<noteq> ur_username r" "bt_get (in_users s) (ur_username r') = Some r'"
      using users r(2) by (auto simp: user_to_wire_def split: if_splits)
    then show False using r r'(2) wf_inner_parts(4) [OF wf(1)] unfolding wf_unique_def
      by (metis option.distinct(1))
  qed
  then have "directory_user s' x = None" by (cases "directory_user s' x") auto
  moreover have "names_ok s'" using wf(2) users by (simp add: names_ok_def)
  ultimately show ?thesis using d wf' by (auto simp: directory_valid_def)
qed

lemma directory_add:
  assumes "directory_valid s" "bt_get (in_users s) n \<noteq> None"
  shows "directory_has_group s g \<Longrightarrow> \<exists>s'. add_membership g n s = (Ok (), s') \<and> directory_valid s'
      \<and> in_users s' = in_users s \<and> in_groups s' = in_groups s
      \<and> set (in_group_members s') = insert (g, n) (set (in_group_members s))"
    and "\<not> directory_has_group s g \<Longrightarrow> add_membership g n s = (Err (SNotFound ''group'' g), s)"
proof -
  have wf: "wf_inner s" "names_ok s" using assms(1) by (auto simp: directory_valid_def)
  let ?s' = "s\<lparr> in_group_members := bs_insert (g, n) (in_group_members s) \<rparr>"
  {
    assume "directory_has_group s g"
    then have a: "add_membership g n s = (Ok (), ?s')"
      using assms(2) by (simp add: add_membership_def checked_def require_user_def require_group_def require_row_def directory_has_group_def)
    then have "wf_inner ?s'" using wf_add_membership [OF wf(1), of g n] by simp
    moreover have "set (bs_insert (g, n) (in_group_members s)) = insert (g, n) (set (in_group_members s))"
      by (simp add: bt_simps)
    ultimately show "\<exists>s'. add_membership g n s = (Ok (), s') \<and> directory_valid s'
      \<and> in_users s' = in_users s \<and> in_groups s' = in_groups s
      \<and> set (in_group_members s') = insert (g, n) (set (in_group_members s))"
      using a wf(2) by (auto simp: directory_valid_def names_ok_def)
  }
  show "\<not> directory_has_group s g \<Longrightarrow> add_membership g n s = (Err (SNotFound ''group'' g), s)"
    by (simp add: add_membership_def checked_def require_group_def require_row_def directory_has_group_def)
qed

lemma directory_rename:
  assumes "directory_valid s" "set_friendly_name n f s = (r, s')"
  shows "directory_valid s' \<and> map_option u_username (directory_user s' x) = map_option u_username (directory_user s x)"
proof (cases "bt_get (in_users s) n")
  case None
  then show ?thesis using assms by (auto simp: set_friendly_name_def)
next
  case (Some u)
  let ?f = "\<lambda>u. u\<lparr> ur_friendly_name := Some f \<rparr>"
  have wf: "wf_inner s" "names_ok s" using assms(1) by (auto simp: directory_valid_def)
  have s': "s' = s\<lparr> in_users := bt_modify n ?f (in_users s) \<rparr>"
    using assms(2) Some by (simp add: set_friendly_name_def)
  have wf': "wf_inner s'" using wf_set_friendly_name [OF wf(1), of n f] assms(2) by simp
  have users: "bt_get (in_users s') k = (if k = n then map_option ?f (bt_get (in_users s) k) else bt_get (in_users s) k)" for k
    using wf_shape_of(1) [OF wf(1)] by (simp add: s' bt_simps)
  have names: "names_ok s'" using wf(2) users by (auto simp: names_ok_def split: if_splits)
  have fwd: "\<exists>v. directory_user s' x = Some v \<and> u_username v = u_username w" if w: "directory_user s x = Some w" for w
  proof -
    obtain t r where r: "non_blank x = Some t" "w = user_to_wire r" "bt_get (in_users s) (ur_username r) = Some r"
        "ur_external_id r = Some t"
      using w directory_user_iff [OF wf(1)] by blast
    let ?r = "if ur_username r = n then ?f r else r"
    have "directory_user s' x = Some (user_to_wire ?r)"
      unfolding directory_user_iff [OF wf'] using r users [of "ur_username r"] by (intro exI [of _ t] exI [of _ ?r]) auto
    then show ?thesis using r(2) by (auto simp: user_to_wire_def)
  qed
  have bwd: "\<exists>w. directory_user s x = Some w" if v: "directory_user s' x = Some v" for v
  proof -
    obtain t r where r: "non_blank x = Some t" "bt_get (in_users s') (ur_username r) = Some r" "ur_external_id r = Some t"
      using v directory_user_iff [OF wf'] by blast
    have "\<exists>r0. bt_get (in_users s) (ur_username r) = Some r0 \<and> ur_external_id r0 = Some t"
      using r(2,3) users [of "ur_username r"] by (auto split: if_splits)
    then obtain r0 where r0: "bt_get (in_users s) (ur_username r) = Some r0" "ur_external_id r0 = Some t" by blast
    moreover from r0(1) have "ur_username r0 = ur_username r" using wf_inner_parts(2) [OF wf(1)] by (simp add: wf_keys_def)
    ultimately show ?thesis using directory_user_iff [OF wf(1)] r(1) by metis
  qed
  show ?thesis
  proof (cases "directory_user s x")
    case None
    then have "directory_user s' x = None" using bwd by (cases "directory_user s' x") auto
    with None names wf' show ?thesis by (simp add: directory_valid_def)
  next
    case (Some w)
    then obtain v where "directory_user s' x = Some v" "u_username v = u_username w" using fwd by blast
    with Some names wf' show ?thesis by (simp add: directory_valid_def)
  qed
qed

section \<open>The connection\<close>

locale client_server =
  fixes ce :: "(inner, 'k) client_env" and ac :: "'k authz_client" and sv :: server
  assumes delivered: "ce_send ce rq s = (Ok (fst (serve mem_impl sv rq s)), snd (serve mem_impl sv rq s))"
    and joined: "ce_join ce (ac_base ac) p = Some (normalize_base_path (sv_base_path sv) @ ''/'' @ p)"
    and decoded: "sv_percent_decode sv (path_segment (ce_percent_encode ce) v) = Some v"
    and encoded: "v \<noteq> [] \<Longrightarrow> enc_ok (path_segment (ce_percent_encode ce) v)"
    and accepted: "\<exists>t. bearer ce ac s = Ok t
      \<and> require_auth (sv_jwt_ok sv) (sv_verifier sv) (map_option (\<lambda>t. ''Bearer '' @ t) t) (Ok ()) = Ok ()"
begin

abbreviation "enc \<equiv> path_segment (ce_percent_encode ce)"

lemma with_bearer_simps:
  "rq_method (with_bearer t rq) = rq_method rq" "rq_path (with_bearer t rq) = rq_path rq"
  "rq_query (with_bearer t rq) = rq_query rq" "rq_body (with_bearer t rq) = rq_body rq"
  "rq_authorization rq = None \<Longrightarrow> rq_authorization (with_bearer t rq) = map_option (\<lambda>t. ''Bearer '' @ t) t"
  by (auto simp: with_bearer_def split: option.split)

text \<open>A request on a protected route reaches its handler, and its answer comes back unless it is retried.\<close>

lemma send_routed:
  assumes "find_route (public_router :: inner routes) (CHR ''/'' # p) = None"
    "find_route (protected_router mem_impl (sv_env sv) (sv_version sv)) (CHR ''/'' # p) = Some (ms, caps)"
    "map_of ms m = Some e" "decode_all (sv_percent_decode sv) caps = Some args"
    "\<And>rq. rq_query rq = q \<Longrightarrow> rq_body rq = b \<Longrightarrow> finish (e args rq s) = (y, s')"
    "\<not> is_server_error y"
  shows "send ce ac m p q b s = (Ok y, s')"
proof -
  obtain t where t: "bearer ce ac s = Ok t"
      "require_auth (sv_jwt_ok sv) (sv_verifier sv) (map_option (\<lambda>t. ''Bearer '' @ t) t) (Ok ()) = Ok ()"
    using accepted by blast
  let ?base = "normalize_base_path (sv_base_path sv)"
  let ?rq = "\<lparr> rq_method = m, rq_path = ?base @ ''/'' @ p, rq_query = q, rq_body = b, rq_authorization = None \<rparr>"
  have strip: "strip_base ?base (?base @ ''/'' @ p) = Some (CHR ''/'' # p)"
    by (simp add: strip_base_def starts_with_def)
  have root: "?base @ CHR ''/'' # p \<noteq> READYZ_PATH"
    using based_path [of "sv_base_path sv" p] assms(2)
    by (auto simp: READYZ_PATH_def protected_router_def find_route_def match_template_def is_capture_def starts_with_def)
  have "serve mem_impl sv (with_bearer t ?rq) s = finish (e args (with_bearer t ?rq) s)"
    using assms(1-4) t(2) strip root
    by (simp add: serve_def root_route with_bearer_simps guarded_def dispatch_def find_method_def)
  then have "serve mem_impl sv (with_bearer t ?rq) s = (y, s')" using assms(5) by (simp add: with_bearer_simps)
  then have "ce_send ce (with_bearer t ?rq) s = (Ok y, s')" by (simp add: delivered)
  then show ?thesis using t(1) assms(6)
    by (simp add: send_def joined send_with_retry.simps retryable_def)
qed

lemma segment_simps:
  "segment ce v = (if entity_id_ok v then Ok (enc v) else Err (CInvalidId (case validate_entity_id ''entity'' v of Inl e \<Rightarrow> api_display e | Inr _ \<Rightarrow> [])))"
  using validate_entity_id_iff [of "''entity''" v]
  by (cases "validate_entity_id ''entity'' v") (auto simp: segment_def)

text \<open>The operations, answered by the server.\<close>

lemma client_find:
  assumes "name = ''external_id'' \<and> found = find_user_by_external_id s \<or> name = ''email'' \<and> found = find_user_by_email s"
  shows "c_find_user ce ac name x s = (case non_blank x of None \<Rightarrow> (Ok None, s)
     | Some t \<Rightarrow> (case found t of Inl _ \<Rightarrow> (Ok None, s) | Inr r \<Rightarrow> (Ok (map_option user_to_wire r), s)))"
proof (cases "non_blank x")
  case None
  then have "trim x = []" by (simp add: non_blank_None_iff)
  then show ?thesis using None by (simp add: c_find_user_def pure_call_def)
next
  case (Some t)
  obtain r where r: "found t = Ok r" using assms by (auto simp: find_user_by_external_id_def find_user_by_email_def)
  have handled: "finish (path0 (h_list_users mem_impl) [] rq s) = (reply 200 (single_user r), s)"
    if "rq_query rq = [(name, x), (''amount'', ''2'')]" for rq
    using that assms Some r by (auto simp: path0_def h_list_users_def query_param_def store_read_def)
  have sent: "send ce ac GET ''auth/users'' [(name, x), (''amount'', ''2'')] NoBody s = (Ok (reply 200 (single_user r)), s)"
    by (rule send_routed [OF public_other [of _ "''auth''" "[''users'']"] route_users])
      (auto simp: handled is_server_error_def reply_def)
  have "trim x \<noteq> []" using Some by (auto simp: non_blank_Some_iff)
  then show ?thesis using Some r sent
    by (cases r) (simp_all add: c_find_user_def then_call_def expect_json_def pure_call_def expect_status_def reply_def
        single_user_def page_last_def into_response_def decode_json_def as_users_def)
qed

lemma client_find_external: "c_find_user_by_external_id ce ac x s = (Ok (directory_user s x), s)"
  by (auto simp: c_find_user_by_external_id_def client_find directory_user_def find_user_by_external_id_def split: option.split)

lemma client_find_email: "\<exists>r. c_find_user_by_email ce ac x s = (Ok r, s)"
  by (auto simp: c_find_user_by_email_def client_find find_user_by_email_def split: option.split)

lemma client_create:
  "c_create_user ce ac c s = (case svc_create_user mem_impl (sv_env sv) c s of
     (Inr u, s') \<Rightarrow> (Ok u, s')
   | (Inl e, s') \<Rightarrow> (Err (if status_code e = 400 then CBadRequest (public_message e) else CAlreadyExists), s'))"
proof (cases "svc_create_user mem_impl (sv_env sv) c s")
  case (Pair r s')
  let ?y = "case r of Inr u \<Rightarrow> reply 201 (UserReply u) | Inl e \<Rightarrow> error_reply e"
  have st: "status_code e = 400 \<or> status_code e = 409" if "r = Err e" for e
    using svc_create_user_conflict [of "sv_env sv" c s e s'] Pair that by simp
  have handled: "finish (path0 (h_create_user mem_impl (sv_env sv)) [] rq s) = (?y, s')" if "rq_body rq = UserCreationBody c" for rq
    using that Pair
    by (cases r) (simp_all add: path0_def h_create_user_def with_body_def api_json_def read_user_creation_def respond_def)
  have "send ce ac POST ''auth/users'' [] (UserCreationBody c) s = (Ok ?y, s')"
    by (rule send_routed [OF public_other [of _ "''auth''" "[''users'']"] route_users])
      (use st in \<open>auto simp: handled is_server_error_def reply_def error_reply_def error_response_def api_status_def split: sum.split\<close>)
  then show ?thesis using st Pair
    by (cases r) (auto simp: c_create_user_def then_call_def expect_json_def pure_call_def expect_status_def reply_def
        decode_json_def as_user_def error_reply_def error_response_def api_status_def error_message_of_def error_body_of_def)
qed

lemma encoded_id: "entity_id_ok v \<Longrightarrow> enc_ok (enc v)"
  by (rule encoded) (simp add: entity_id_ok_def)

lemma client_delete:
  assumes "entity_id_ok n" "delete_user n s = (Ok (), s')"
  shows "c_delete_user ce ac n s = (Ok (), s')"
proof -
  have handled: "finish (path1 (\<lambda>u rq. h_delete_user mem_impl u) [n] rq s) = (reply 204 EmptyBody, s')" for rq
    using assms(2) by (simp add: path1_def h_delete_user_def store_update_def)
  have x: "CHR ''/'' \<notin> set (enc n)" using encoded_id [OF assms(1)] by (simp add: enc_ok_def)
  have r1: "find_route (public_router :: inner routes) (CHR ''/'' # (''auth/users/'' @ enc n)) = None"
    by (rule public_other [of _ "''auth''"]) (use split_user [OF x] in auto)
  have r2: "find_route (protected_router mem_impl (sv_env sv) (sv_version sv)) (CHR ''/'' # (''auth/users/'' @ enc n)) =
      Some ([(GET, path1 (\<lambda>u rq. h_get_user mem_impl u)), (DELETE, path1 (\<lambda>u rq. h_delete_user mem_impl u))], [enc n])"
    using route_user [OF encoded_id [OF assms(1)]] by simp
  have "send ce ac DELETE (''auth/users/'' @ enc n) [] NoBody s = (Ok (reply 204 EmptyBody), s')"
    by (rule send_routed [OF r1 r2]) (auto simp: handled decoded is_server_error_def reply_def)
  then show ?thesis using assms(1)
    by (simp add: c_delete_user_def with_segments_def segment_simps expect_none_def then_call_def pure_call_def
        expect_status_def reply_def)
qed

lemma client_add:
  assumes "entity_id_ok g" "entity_id_ok n" "add_membership g n s = (r, s')" "\<And>e. r = Err e \<Longrightarrow> is_not_found e"
  shows "c_add_group_membership ce ac g n s = (case r of Inr _ \<Rightarrow> Ok () | Inl _ \<Rightarrow> Err CNotFound, s')"
proof -
  let ?y = "case r of Inr _ \<Rightarrow> reply 201 EmptyBody | Inl e \<Rightarrow> error_reply (api_of_store e)"
  have st: "status_code (api_of_store e) = 404" if "r = Err e" for e
    using assms(4) [OF that] by (auto simp: is_not_found_def status_of_store_error split: store_error.splits)
  have handled: "finish (path2 (\<lambda>g u rq. h_add_membership mem_impl g u) [g, n] rq s) = (?y, s')" for rq
    using assms(3) by (cases r) (simp_all add: path2_def h_add_membership_def store_update_def)
  have x: "CHR ''/'' \<notin> set (enc g)" "CHR ''/'' \<notin> set (enc n)"
    using encoded_id assms(1,2) by (auto simp: enc_ok_def)
  have r1: "find_route (public_router :: inner routes) (CHR ''/'' # (''auth/groups/'' @ enc g @ ''/members/'' @ enc n)) = None"
    by (rule public_other [of _ "''auth''"]) (use split_member [OF x] in auto)
  have r2: "find_route (protected_router mem_impl (sv_env sv) (sv_version sv))
      (CHR ''/'' # (''auth/groups/'' @ enc g @ ''/members/'' @ enc n)) =
      Some ([(PUT, path2 (\<lambda>g u rq. h_add_membership mem_impl g u)), (DELETE, path2 (\<lambda>g u rq. h_delete_membership mem_impl g u))], [enc g, enc n])"
    using route_member [OF encoded_id [OF assms(1)] encoded_id [OF assms(2)]] by simp
  have "send ce ac PUT (''auth/groups/'' @ enc g @ ''/members/'' @ enc n) [] NoBody s = (Ok ?y, s')"
    by (rule send_routed [OF r1 r2])
      (use st in \<open>auto simp: handled decoded is_server_error_def reply_def error_reply_def
          error_response_def api_status_def split: sum.split\<close>)
  then show ?thesis using assms(1,2) st
    by (cases r) (auto simp: c_add_group_membership_def with_segments_def segment_simps expect_none_def then_call_def
        pure_call_def expect_status_def reply_def error_reply_def error_response_def api_status_def)
qed

lemma client_rename:
  obtains (refused) e where "c_update_friendly_name ce ac n f s = (Err e, s)"
  | (renamed) s' where "c_update_friendly_name ce ac n f s = (Ok (), s')" "set_friendly_name n f s = (Ok (), s')"
proof (cases "entity_id_ok n")
  case False
  then show ?thesis using refused by (simp add: c_update_friendly_name_def with_segments_def segment_simps)
next
  case True
  obtain r s' where rn: "set_friendly_name n f s = (r, s')" by force
  let ?y = "case r of Inr _ \<Rightarrow> reply 204 EmptyBody | Inl e \<Rightarrow> error_reply (api_of_store e)"
  let ?b = "FriendlyNameBody \<lparr> fn_friendly_name = f \<rparr>"
  have st: "status_code (api_of_store e) = 404 \<and> s' = s" if "r = Err e" for e
    using rn that by (auto simp: set_friendly_name_def status_of_store_error split: if_splits)
  have handled: "finish (path1 (h_update_friendly_name mem_impl) [n] rq s) = (?y, s')" if "rq_body rq = ?b" for rq
    using rn that by (cases r) (simp_all add: path1_def h_update_friendly_name_def with_body_def api_json_def
        read_friendly_name_def store_update_def)
  have x: "CHR ''/'' \<notin> set (enc n)" using encoded_id [OF True] by (simp add: enc_ok_def)
  have r1: "find_route (public_router :: inner routes) (CHR ''/'' # (''auth/users/'' @ enc n @ ''/friendly_name'')) = None"
    by (rule public_other [of _ "''auth''"]) (use split_rename [OF x] in auto)
  have r2: "find_route (protected_router mem_impl (sv_env sv) (sv_version sv)) (CHR ''/'' # (''auth/users/'' @ enc n @ ''/friendly_name'')) =
      Some ([(PUT, path1 (h_update_friendly_name mem_impl))], [enc n])"
    using route_rename [OF encoded_id [OF True]] by simp
  have "send ce ac PUT (''auth/users/'' @ enc n @ ''/friendly_name'') [] ?b s = (Ok ?y, s')"
    by (rule send_routed [OF r1 r2])
      (use st in \<open>auto simp: handled decoded is_server_error_def reply_def error_reply_def
          error_response_def api_status_def split: sum.split\<close>)
  then have "c_update_friendly_name ce ac n f s = (case r of Inr _ \<Rightarrow> Ok () | Inl _ \<Rightarrow> Err CNotFound, s')"
    using True st
    by (cases r) (auto simp: c_update_friendly_name_def with_segments_def segment_simps expect_none_def then_call_def
        pure_call_def expect_status_def reply_def error_reply_def error_response_def api_status_def)
  then show ?thesis using refused renamed rn st by (cases r) auto
qed

lemma client_add_invalid: "\<not> entity_id_ok g \<Longrightarrow> \<exists>m. c_add_group_membership ce ac g n s = (Err (CInvalidId m), s)"
  by (simp add: c_add_group_membership_def with_segments_def segment_simps)

end

sublocale client_server \<subseteq> directory: user_directory "client_api ce ac" directory_valid directory_user
    directory_has_group directory_members
proof (rule user_directory.intro)
  show "da_find_external (client_api ce ac) x s = (Ok (directory_user s x), s)" for x s
    by (simp add: client_api_def client_find_external)
  show "\<exists>r. da_find_email (client_api ce ac) email s = (Ok r, s)" for email s
    by (simp add: client_api_def client_find_email)
next
  fix s c u s' x
  assume a: "directory_valid s" "da_create (client_api ce ac) c s = (Ok u, s')" "uc_external_id c = Some x" "trim x \<noteq> []"
  then have "svc_create_user mem_impl (sv_env sv) c s = (Ok u, s')"
    by (auto simp: client_api_def client_create split: prod.splits sum.splits)
  with directory_create a show "directory_valid s' \<and> directory_user s' x = Some u
      \<and> directory_has_group s' = directory_has_group s \<and> directory_members s' = directory_members s"
    by (fastforce simp: directory_has_group_def directory_members_def)
next
  fix s c e s'
  assume "da_create (client_api ce ac) c s = (Err e, s')"
  then show "s' = s"
    by (auto simp: client_api_def client_create split: prod.splits sum.splits dest: svc_create_user_conflict)
next
  fix g n and s :: inner
  assume "\<not> entity_id_ok g"
  then show "\<exists>m. da_add_member (client_api ce ac) g n s = (Err (CInvalidId m), s)"
    by (simp add: client_api_def client_add_invalid)
next
  fix s x u g
  assume v: "directory_valid s" "directory_user s x = Some u" "entity_id_ok g"
  note n = directory_user_name [OF v(1,2)]
  {
    assume "\<not> directory_has_group s g"
    with directory_add(2) [OF v(1)] n have "add_membership g (u_username u) s = (Err (SNotFound ''group'' g), s)" by blast
    then show "da_add_member (client_api ce ac) g (u_username u) s = (Err CNotFound, s)"
      using client_add [OF v(3), of "u_username u" s] n by (simp add: client_api_def is_not_found_def)
  }
  assume "directory_has_group s g"
  with directory_add(1) [OF v(1)] n obtain s' where s': "add_membership g (u_username u) s = (Ok (), s')"
      "directory_valid s'" "in_users s' = in_users s" "in_groups s' = in_groups s"
      "set (in_group_members s') = insert (g, u_username u) (set (in_group_members s))" by blast
  then have "c_add_group_membership ce ac g (u_username u) s = (Ok (), s')"
    using client_add [OF v(3) _ s'(1)] n by simp
  then show "\<exists>s'. da_add_member (client_api ce ac) g (u_username u) s = (Ok (), s') \<and> directory_valid s'
      \<and> directory_user s' = directory_user s \<and> directory_has_group s' = directory_has_group s
      \<and> directory_members s' = insert (g, u_username u) (directory_members s)"
    using s' directory_frame(1) [OF s'(3)]
    by (auto simp: client_api_def directory_has_group_def fun_eq_iff directory_members_def)
next
  fix s x u
  assume v: "directory_valid s" "directory_user s x = Some u"
  then show "\<exists>s'. da_delete (client_api ce ac) (u_username u) s = (Ok (), s') \<and> directory_valid s' \<and> directory_user s' x = None"
    using directory_delete [OF v] directory_user_name [OF v] client_delete by (auto simp: client_api_def)
next
  fix s n f r s' x
  assume v: "directory_valid s" "da_rename (client_api ce ac) n f s = (r, s')"
  show "directory_valid s' \<and> map_option u_username (directory_user s' x) = map_option u_username (directory_user s x)"
  proof (cases rule: client_rename [of n f s])
    case (refused e)
    then show ?thesis using v by (simp add: client_api_def)
  next
    case (renamed s1)
    then show ?thesis using v directory_rename [OF v(1) renamed(2)] by (simp add: client_api_def)
  qed
qed

context client_server
begin

lemma client_directory:
  "user_directory (client_api ce ac) directory_valid directory_user directory_has_group directory_members"
  by (rule directory.user_directory_axioms)

end

section \<open>A connected pair\<close>

text \<open>
  The client and the server in one process: percent coding after RFC 3986, a base path of \<open>/api/v1\<close>, a
  static token, and any environment of the service.
\<close>

definition hex_digit :: "nat \<Rightarrow> char" where
  "hex_digit n = char_of (if n < 10 then 48 + n else 55 + n)"

definition unhex :: "char \<Rightarrow> nat option" where
  "unhex c = (let b = byte_of c in if 48 \<le> b \<and> b \<le> 57 then Some (b - 48)
     else if 65 \<le> b \<and> b \<le> 70 then Some (b - 55) else if 97 \<le> b \<and> b \<le> 102 then Some (b - 87) else None)"

definition pct_encode :: "(char \<Rightarrow> bool) \<Rightarrow> string \<Rightarrow> string" where
  "pct_encode p s = concat (map (\<lambda>b. if p b
     then [CHR ''%'', hex_digit (byte_of b div 16), hex_digit (byte_of b mod 16)] else [b]) s)"

fun pct_decode :: "string \<Rightarrow> string option" where
  "pct_decode [] = Some []"
| "pct_decode (c # cs) = (if c = CHR ''%'' then (case cs of
       h # l # r \<Rightarrow> (case (unhex h, unhex l) of
           (Some a, Some b) \<Rightarrow> map_option ((#) (char_of (16 * a + b))) (pct_decode r)
         | _ \<Rightarrow> None)
     | _ \<Rightarrow> None)
   else map_option ((#) c) (pct_decode cs))"

lemma unhex_hex_digit: "n < 16 \<Longrightarrow> unhex (hex_digit n) = Some n"
  by (simp add: unhex_def hex_digit_def Let_def)

lemma byte_of_less: "byte_of c < 256"
  by (simp add: byte_of_def)

lemma char_of_byte_of [simp]: "char_of (byte_of c) = c"
  by (simp add: byte_of_def)

lemma pct_decode_escape:
  "pct_decode (CHR ''%'' # hex_digit (byte_of b div 16) # hex_digit (byte_of b mod 16) # r) = map_option ((#) b) (pct_decode r)"
proof -
  have "byte_of b div 16 < 16" using byte_of_less [of b] by simp
  then have "unhex (hex_digit (byte_of b div 16)) = Some (byte_of b div 16)"
      "unhex (hex_digit (byte_of b mod 16)) = Some (byte_of b mod 16)"
    by (simp_all add: unhex_hex_digit)
  moreover have "16 * (byte_of b div 16) + byte_of b mod 16 = byte_of b" by simp
  ultimately show ?thesis by simp
qed

lemma pct_encode_Cons:
  "pct_encode p (b # s) = (if p b then CHR ''%'' # hex_digit (byte_of b div 16) # hex_digit (byte_of b mod 16) # pct_encode p s
     else b # pct_encode p s)"
  by (simp add: pct_encode_def)

lemma pct_round_trip: "p (CHR ''%'') \<Longrightarrow> pct_decode (pct_encode p s) = Some s"
proof (induction s)
  case (Cons b s)
  show ?case
  proof (cases "p b")
    case True
    then show ?thesis using Cons by (simp only: pct_encode_Cons if_True pct_decode_escape) simp
  next
    case False
    then have "b \<noteq> CHR ''%''" using Cons.prems by auto
    then show ?thesis using False Cons by (simp add: pct_encode_Cons)
  qed
qed (simp add: pct_encode_def)

lemma hex_digit_not_slash: "n < 16 \<Longrightarrow> hex_digit n \<noteq> CHR ''/''"
proof
  assume "n < 16" "hex_digit n = CHR ''/''"
  then have "unhex (CHR ''/'') = Some n" using unhex_hex_digit [of n] by simp
  then show False by (simp add: unhex_def byte_of_def)
qed

lemma pct_no_slash: "p (CHR ''/'') \<Longrightarrow> CHR ''/'' \<notin> set (pct_encode p s)"
proof (induction s)
  case (Cons b s)
  have "byte_of b div 16 < 16" using byte_of_less [of b] by simp
  then have "hex_digit (byte_of b div 16) \<noteq> CHR ''/''" "hex_digit (byte_of b mod 16) \<noteq> CHR ''/''"
    by (simp_all add: hex_digit_not_slash)
  then show ?case using Cons by (auto simp: pct_encode_Cons)
qed (simp add: pct_encode_def)

lemma pct_not_Nil: "v \<noteq> [] \<Longrightarrow> pct_encode p v \<noteq> []"
  by (cases v) (simp_all add: pct_encode_Cons)

lemma path_segment_set_reserved: "path_segment_set (CHR ''%'')" "path_segment_set (CHR ''/'')"
  by (simp_all add: path_segment_set_def byte_of_def)

definition loopback_server :: "env \<Rightarrow> server" where
  "loopback_server env = \<lparr> sv_env = env,
     sv_verifier = \<lparr> tv_static_token = Some ''secret'', tv_decoding_key = None,
       tv_validation = \<lparr> val_algorithm = ''HS256'', val_audience = [INTERNAL_AUDIENCE],
         val_required = [''exp'', ''aud''], val_leeway = LEEWAY_SECONDS \<rparr>, tv_disabled = False \<rparr>,
     sv_jwt_ok = (\<lambda>_ _ _. False), sv_percent_decode = pct_decode,
     sv_fallbacks = \<lparr> fb_not_found = reply 404 EmptyBody, fb_method_not_allowed = reply 405 EmptyBody,
       fb_bad_path = reply 400 EmptyBody \<rparr>,
     sv_version = ''test'', sv_base_path = ''/api/v1'' \<rparr>"

definition loopback_env :: "server \<Rightarrow> (inner, unit) client_env" where
  "loopback_env sv = \<lparr> ce_send = (\<lambda>rq s. (Ok (fst (serve mem_impl sv rq s)), snd (serve mem_impl sv rq s))), ce_sleep_ms = (\<lambda>_ s. s),
     ce_now = (\<lambda>_. 0), ce_jti = (\<lambda>_. []), ce_sign = (\<lambda>_ _. Err []), ce_percent_encode = pct_encode,
     ce_join = (\<lambda>base p. Some (base @ p)) \<rparr>"

definition loopback_client :: "unit authz_client" where
  "loopback_client = new_client ''/api/v1'' (StaticToken ''secret'') 2"

interpretation loopback: client_server "loopback_env (loopback_server env)" loopback_client "loopback_server env"
  for env
proof (rule client_server.intro)
  let ?ce = "loopback_env (loopback_server env)"
  show "ce_send ?ce rq s = (Ok (fst (serve mem_impl (loopback_server env) rq s)), snd (serve mem_impl (loopback_server env) rq s))" for rq s
    by (simp add: loopback_env_def)
  have base: "normalize_base_path ''/api/v1'' = ''/api/v1''"
    by (simp add: normalize_base_path_def trim_matches_def trim_def trim_list_def utf8_cont_def byte_of_def is_whitespace_def)
  then show "ce_join ?ce (ac_base loopback_client) p =
      Some (normalize_base_path (sv_base_path (loopback_server env)) @ ''/'' @ p)" for p
    by (simp add: loopback_env_def loopback_client_def new_client_def loopback_server_def ends_with_def starts_with_def)
  show "sv_percent_decode (loopback_server env) (path_segment (ce_percent_encode ?ce) v) = Some v" for v
    by (simp add: loopback_server_def loopback_env_def path_segment_def pct_round_trip path_segment_set_reserved)
  show "enc_ok (path_segment (ce_percent_encode ?ce) v)" if "v \<noteq> []" for v
    using that by (simp add: loopback_env_def path_segment_def enc_ok_def pct_no_slash path_segment_set_reserved pct_not_Nil)
  have b: "char_of (98::nat) = CHR ''b''"
    using char_of_byte_of [of "CHR ''b''"] unfolding byte_of_def by simp
  have "bearer_token (CHR ''B'' # ''earer secret'') = Some ''secret''"
    by (simp add: bearer_token_def eq_ignore_ascii_case_def to_ascii_lowercase_def ascii_lower_def byte_of_def
        trim_def trim_list_def utf8_cont_def is_whitespace_def b)
  then show "\<exists>t. bearer ?ce loopback_client s = Ok t \<and> require_auth (sv_jwt_ok (loopback_server env))
      (sv_verifier (loopback_server env)) (map_option (\<lambda>t. ''Bearer '' @ t) t) (Ok ()) = Ok ()" for s
    by (simp add: bearer_def loopback_client_def new_client_def loopback_server_def require_auth_def verify_def)
qed
end
