(* ===== verification/Provision.thy ===== *)
theory Provision
  imports Catalog Client_Server
begin

text \<open>
  Claims and provisioning of the authentication server: \<open>lakefs-authn/src/oidc/claims.rs\<close>, the groups claim
  of \<open>oidc/types.rs\<close>, and \<open>provision.rs\<close>.  The decoding of a token's payload (base64, \<open>serde_json\<close>) and the
  compact rendering of a JSON value are parameters.
\<close>

section \<open>claims.rs\<close>

type_synonym claims = "(string, json) btree"

datatype claims_error = MalformedToken | PayloadNotBase64 | NotAnObject

definition claims_display :: "claims_error \<Rightarrow> string" where
  "claims_display e = (case e of MalformedToken \<Rightarrow> ''the ID token is not a three part JWT''
     | PayloadNotBase64 \<Rightarrow> ''the ID token payload is not valid base64url''
     | NotAnObject \<Rightarrow> ''the ID token payload is not a JSON object'')"

definition raw_payload :: "(string \<Rightarrow> u8 list option) \<Rightarrow> (u8 list \<Rightarrow> json option) \<Rightarrow> string \<Rightarrow> claims_error + claims" where
  "raw_payload b64_nopad_decode json_from_slice token = (case split_on CHR ''.'' token of
     [_, payload, _] \<Rightarrow> (case b64_nopad_decode payload of
         None \<Rightarrow> Err PayloadNotBase64
       | Some bytes \<Rightarrow> (case json_from_slice bytes of Some (JObj m) \<Rightarrow> Ok m | _ \<Rightarrow> Err NotAnObject))
   | _ \<Rightarrow> Err MalformedToken)"

definition is_string :: "json \<Rightarrow> bool" where
  "is_string v = (case v of JStr _ \<Rightarrow> True | _ \<Rightarrow> False)"

definition as_str :: "json \<Rightarrow> string option" where
  "as_str v = (case v of JStr s \<Rightarrow> Some s | _ \<Rightarrow> None)"

text \<open>\<open>compact\<close> is \<open>Value::to_string\<close>.\<close>

definition flatten_value :: "(json \<Rightarrow> string) \<Rightarrow> json \<Rightarrow> string option" where
  "flatten_value compact v = (case v of
     JNull \<Rightarrow> None
   | JStr t \<Rightarrow> Some t
   | JBool b \<Rightarrow> Some (if b then ''true'' else ''false'')
   | JNum n \<Rightarrow> Some n
   | JArr items \<Rightarrow> (if list_all is_string items then Some (join '','' (List.map_filter as_str items)) else Some (compact v))
   | _ \<Rightarrow> Some (compact v))"

definition flatten_claims :: "(json \<Rightarrow> string) \<Rightarrow> claims \<Rightarrow> (string, string) btree" where
  "flatten_claims compact claims =
     fold (\<lambda>(name, t). bt_insert name t)
       (List.map_filter (\<lambda>(name, v). map_option (Pair name) (flatten_value compact v)) claims) []"

definition claim_text :: "(json \<Rightarrow> string) \<Rightarrow> claims \<Rightarrow> string \<Rightarrow> string option" where
  "claim_text compact claims name =
     opt_filter (\<lambda>t. trim t \<noteq> []) (Option.bind (bt_get claims name) (flatten_value compact))"

definition first_claim :: "(json \<Rightarrow> string) \<Rightarrow> claims \<Rightarrow> string list \<Rightarrow> (string \<times> string) option" where
  "first_claim compact claims names =
     find_map (\<lambda>name. map_option (Pair name) (claim_text compact claims name)) names"

text \<open>The message of a mismatch quotes the claim's name in \<open>{:?}\<close> form; here the error keeps the name.\<close>

datatype claim_mismatch = ClaimMissing string | ClaimDiffers string

fun validate_claims :: "(json \<Rightarrow> string) \<Rightarrow> claims \<Rightarrow> (string, string) btree \<Rightarrow> claim_mismatch + unit" where
  "validate_claims compact claims [] = Ok ()"
| "validate_claims compact claims ((name, want) # expected) = (case bt_get claims name of
     None \<Rightarrow> Err (ClaimMissing name)
   | Some v \<Rightarrow> (if flatten_value compact v \<noteq> Some want then Err (ClaimDiffers name)
                else validate_claims compact claims expected))"

section \<open>types.rs\<close>

datatype groups_claim = GroupList "string list" | GroupText string

text \<open>The untagged reading: an array of strings, or one string.\<close>

definition read_groups_claim :: "json \<Rightarrow> groups_claim option" where
  "read_groups_claim v = (case v of
     JArr items \<Rightarrow> (if list_all is_string items then Some (GroupList (List.map_filter as_str items)) else None)
   | JStr t \<Rightarrow> Some (GroupText t)
   | _ \<Rightarrow> None)"

fun groups_claim_values :: "groups_claim \<Rightarrow> string list" where
  "groups_claim_values (GroupList items) = List.map_filter non_blank items"
| "groups_claim_values (GroupText t) = comma_list t"

section \<open>provision.rs\<close>

datatype provision_error = MissingSubject | NoUsernameClaim string | InvalidUsername string string
  | UsernameCollision | UnknownIdentity | AuthzFailed client_error | TaskFailed string

fun provision_display :: "(string \<Rightarrow> string) \<Rightarrow> provision_error \<Rightarrow> string" where
  "provision_display debug MissingSubject = ''the ID token has no subject''"
| "provision_display debug (NoUsernameClaim names) = ''no claim in '' @ names @ '' carries a username''"
| "provision_display debug (InvalidUsername username reason) =
     ''the derived username '' @ debug username @ '' is not usable: '' @ reason"
| "provision_display debug UsernameCollision =
     ''the username derived for this identity already belongs to another identity''"
| "provision_display debug UnknownIdentity = ''the identity is not known and automatic provisioning is off''"
| "provision_display debug (AuthzFailed e) = ''the authorization server rejected the request''"
| "provision_display debug (TaskFailed reason) = ''the provisioning task did not finish: '' @ reason"

definition api_of_provision :: "(string \<Rightarrow> string) \<Rightarrow> provision_error \<Rightarrow> api_error" where
  "api_of_provision debug e = (case e of
     AuthzFailed inner \<Rightarrow> Internal (client_display debug inner)
   | TaskFailed reason \<Rightarrow> Internal reason
   | other \<Rightarrow> Unauthorized (provision_display debug other))"

record provision_settings =
  ps_username_claims :: "string list"
  ps_friendly_name_claim :: string
  ps_persist_friendly_name :: bool
  ps_initial_groups :: "string list"
  ps_groups_claim :: "string option"
  ps_group_map :: "(string, string) btree"
  ps_group_map_strict :: bool
  ps_source :: string
  ps_auto_provision :: bool

definition email_is_unverified :: "(json \<Rightarrow> string) \<Rightarrow> claims \<Rightarrow> bool" where
  "email_is_unverified compact claims = is_some_and (\<lambda>v. eq_ignore_ascii_case v ''false'')
     (Option.bind (bt_get claims ''email_verified'') (flatten_value compact))"

definition validate_username :: "string \<Rightarrow> provision_error + unit" where
  "validate_username username =
    and_then (map_err (\<lambda>e. InvalidUsername username (api_display e)) (validate_entity_id ''user'' username)) (\<lambda>_.
      if has_whitespace username then Err (InvalidUsername username ''it contains whitespace'') else Ok ())"

definition derive_username :: "(json \<Rightarrow> string) \<Rightarrow> provision_settings \<Rightarrow> claims \<Rightarrow> provision_error + string" where
  "derive_username compact st claims =
    (let candidates = filter (\<lambda>name. \<not> (email_is_unverified compact claims \<and> name = ''email'')) (ps_username_claims st)
     in case first_claim compact claims candidates of
          None \<Rightarrow> Err (NoUsernameClaim (join '', '' (ps_username_claims st)))
        | Some (claim, v) \<Rightarrow> map_ok (\<lambda>_. trim v) (validate_username (trim v)))"

definition verified_email :: "(json \<Rightarrow> string) \<Rightarrow> claims \<Rightarrow> string option" where
  "verified_email compact claims =
    (if email_is_unverified compact claims then None else claim_text compact claims ''email'')"

text \<open>One group through the map: mapped, dropped in strict mode, or kept as it is.\<close>

definition map_group :: "provision_settings \<Rightarrow> string \<Rightarrow> string option" where
  "map_group st g = (case bt_get (ps_group_map st) g of
     Some mapped \<Rightarrow> Some mapped
   | None \<Rightarrow> (if ps_group_map_strict st then None else Some g))"

definition resolve_groups :: "provision_settings \<Rightarrow> claims \<Rightarrow> string list" where
  "resolve_groups st claims = (case ps_groups_claim st of
     None \<Rightarrow> ps_initial_groups st
   | Some name \<Rightarrow> (case bt_get claims name of
       None \<Rightarrow> ps_initial_groups st
     | Some raw \<Rightarrow> (case read_groups_claim raw of
         None \<Rightarrow> ps_initial_groups st
       | Some parsed \<Rightarrow>
           (let groups = remdups_adj (sort (List.map_filter (map_group st) (groups_claim_values parsed)))
            in if groups = [] then (if ps_group_map_strict st then groups else ps_initial_groups st)
               else groups))))"

text \<open>
  \<open>ensure_user\<close> awaits a task that it spawns for the create, \<open>create\<close> here.  While the request is not dropped, the
  task has the result and the effect of \<open>create_user_with_groups\<close>; what its result becomes is \<open>provision_result\<close>.
\<close>

definition provision_result :: "(client_error + ensured_user) \<times> 's \<Rightarrow> (provision_error + ensured_user) \<times> 's" where
  "provision_result r = (case r of
     (Inr ensured, s') \<Rightarrow> (Ok ensured, s')
   | (Inl CAlreadyExists, s') \<Rightarrow> (Err UsernameCollision, s')
   | (Inl other, s') \<Rightarrow> (Err (AuthzFailed other), s'))"

definition provision_user_with :: "(ensure_user_spec \<Rightarrow> ('s, ensured_user) call) \<Rightarrow> (json \<Rightarrow> string) \<Rightarrow> 's directory_api
    \<Rightarrow> provision_settings \<Rightarrow> claims \<Rightarrow> 's \<Rightarrow> (provision_error + ensured_user) \<times> 's" where
  "provision_user_with create compact api st claims s =
    (case claim_text compact claims ''sub'' of
       None \<Rightarrow> (Err MissingSubject, s)
     | Some subject \<Rightarrow>
        (let friendly_name = claim_text compact claims (ps_friendly_name_claim st) in
         case da_find_external api subject s of
           (Inl e, s1) \<Rightarrow> (Err (AuthzFailed e), s1)
         | (Inr (Some u), s1) \<Rightarrow>
             (Ok \<lparr> en_user = u, en_created = False \<rparr>,
              (case friendly_name of
                 Some name \<Rightarrow> (if ps_persist_friendly_name st \<and> u_friendly_name u \<noteq> Some name
                              then snd (da_rename api (u_username u) name s1) else s1)
               | None \<Rightarrow> s1))
         | (Inr None, s1) \<Rightarrow>
             (if \<not> ps_auto_provision st then (Err UnknownIdentity, s1)
              else case derive_username compact st claims of
                Inl e \<Rightarrow> (Err e, s1)
              | Inr username \<Rightarrow>
                 provision_result (create
                     \<lparr> eu_external_id = subject, eu_username = username, eu_email = verified_email compact claims,
                       eu_friendly_name = opt_filter (\<lambda>_. ps_persist_friendly_name st) friendly_name,
                       eu_source = ps_source st, eu_groups = resolve_groups st claims \<rparr> s1))))"

definition provision_user :: "(json \<Rightarrow> string) \<Rightarrow> 's directory_api \<Rightarrow> provision_settings \<Rightarrow> claims \<Rightarrow> 's
    \<Rightarrow> (provision_error + ensured_user) \<times> 's" where
  "provision_user compact api = provision_user_with (create_user_with_groups api) compact api"

lemmas provision_user_unfold = provision_user_def provision_user_with_def

lemma provision_result_cases:
  "provision_result r = (Ok e, s') \<longleftrightarrow> r = (Ok e, s')"
  "\<exists>pe. provision_result (Err ce, s'') = (Err pe, s'')"
  by (auto simp: provision_result_def split: prod.splits sum.splits client_error.splits)

section \<open>Claims\<close>

lemma claim_text_not_blank: "claim_text compact claims name = Some t \<Longrightarrow> trim t \<noteq> []"
  by (simp add: claim_text_def opt_filter_Some_iff)

lemma validate_claims_iff:
  "validate_claims compact claims expected = Ok u \<longleftrightarrow>
     (\<forall>(name, want) \<in> set expected. Option.bind (bt_get claims name) (flatten_value compact) = Some want)"
  by (induction expected) (auto simp: bind_eq_Some_conv split: option.splits if_splits)

lemma map_filter_as_str: "List.map_filter as_str (map JStr xs) = xs"
  by (induction xs) (simp_all add: List.map_filter_simps as_str_def)

lemma flatten_list: "flatten_value compact (JArr (map JStr xs)) = Some (join '','' xs)"
  by (simp add: flatten_value_def is_string_def list_all_iff map_filter_as_str)

lemma set_map_filter: "y \<in> set (List.map_filter f xs) \<longleftrightarrow> (\<exists>x \<in> set xs. f x = Some y)"
  by (induction xs) (auto simp: List.map_filter_simps split: option.splits)

lemma sorted_distinct_remdups_adj: "sorted (xs :: 'a::linorder list) \<Longrightarrow> distinct (remdups_adj xs) \<and> sorted (remdups_adj xs)"
  by (induction xs rule: remdups_adj.induct) (auto simp: order.order_iff_strict)

section \<open>Usernames and groups\<close>

lemma validate_username_iff:
  "validate_username n = Ok u \<longleftrightarrow> entity_id_ok n \<and> \<not> has_whitespace n"
  by (auto simp: validate_username_def res_simps)

lemma first_claim_Some: "first_claim compact claims names = Some (name, t) \<Longrightarrow>
    name \<in> set names \<and> claim_text compact claims name = Some t"
  unfolding first_claim_def by (drule find_map_SomeD) auto

lemma derive_username_Ok:
  assumes "derive_username compact st claims = Ok n"
  shows "entity_id_ok n \<and> \<not> has_whitespace n"
    and "\<exists>name t. name \<in> set (ps_username_claims st) \<and> claim_text compact claims name = Some t \<and> n = trim t
      \<and> (email_is_unverified compact claims \<longrightarrow> name \<noteq> ''email'')"
  using assms
  by (auto simp: derive_username_def Let_def map_ok_Ok_iff validate_username_iff split: option.splits
      dest!: first_claim_Some)

lemma resolve_groups_claim:
  assumes "ps_groups_claim st = Some name" "bt_get claims name = Some raw" "read_groups_claim raw = Some parsed"
  defines "mapped \<equiv> {g'. \<exists>g \<in> set (groups_claim_values parsed). map_group st g = Some g'}"
  shows "set (resolve_groups st claims) =
      (if mapped = {} \<and> \<not> ps_group_map_strict st then set (ps_initial_groups st) else mapped)"
    and "ps_group_map_strict st \<Longrightarrow> sorted (resolve_groups st claims) \<and> distinct (resolve_groups st claims)"
proof -
  let ?gs = "remdups_adj (sort (List.map_filter (map_group st) (groups_claim_values parsed)))"
  have set: "set ?gs = mapped" by (auto simp: mapped_def set_map_filter)
  then have empty: "?gs = [] \<longleftrightarrow> mapped = {}" by (metis set_empty)
  have eq: "resolve_groups st claims =
      (if ?gs = [] \<and> \<not> ps_group_map_strict st then ps_initial_groups st else ?gs)"
    by (auto simp: resolve_groups_def assms(1-3) Let_def)
  show "set (resolve_groups st claims) =
      (if mapped = {} \<and> \<not> ps_group_map_strict st then set (ps_initial_groups st) else mapped)"
    unfolding eq using set empty by auto
  show "sorted (resolve_groups st claims) \<and> distinct (resolve_groups st claims)" if "ps_group_map_strict st"
    unfolding eq using that sorted_distinct_remdups_adj [OF sorted_sort] by simp
qed

lemma resolve_groups_strict:
  assumes "ps_groups_claim st = Some name" "bt_get claims name = Some raw" "read_groups_claim raw = Some parsed"
    "ps_group_map_strict st" "g \<in> set (resolve_groups st claims)"
  shows "\<exists>claimed \<in> set (groups_claim_values parsed). bt_get (ps_group_map st) claimed = Some g"
  using resolve_groups_claim(1) [OF assms(1-3)] assms(4,5) by (auto simp: map_group_def split: option.splits)

section \<open>Provisioning over a user directory\<close>

context user_directory
begin

lemma provision_known:
  assumes "valid s" "claim_text compact claims ''sub'' = Some subject" "by_external s subject = Some u"
  shows "\<exists>s'. provision_user compact api st claims s = (Ok \<lparr> en_user = u, en_created = False \<rparr>, s') \<and> valid s'
    \<and> map_option u_username (by_external s' x) = map_option u_username (by_external s x)"
proof -
  let ?s' = "case claim_text compact claims (ps_friendly_name_claim st) of
      Some name \<Rightarrow> (if ps_persist_friendly_name st \<and> u_friendly_name u \<noteq> Some name
                    then snd (da_rename api (u_username u) name s) else s)
    | None \<Rightarrow> s"
  have "provision_user compact api st claims s = (Ok \<lparr> en_user = u, en_created = False \<rparr>, ?s')"
    using assms find_external [OF assms(1), of subject] by (simp add: provision_user_unfold)
  moreover have "valid (snd (da_rename api n f s))
      \<and> map_option u_username (by_external (snd (da_rename api n f s)) x) = map_option u_username (by_external s x)" for n f
    by (rule rename [OF assms(1) prod.collapse [symmetric]])
  ultimately show ?thesis using assms(1) by (intro exI [of _ ?s']) (simp split: option.split)
qed

lemma provision_new:
  assumes "valid s" "claim_text compact claims ''sub'' = Some subject" "by_external s subject = None"
    "ps_auto_provision st" "derive_username compact st claims = Ok username"
  obtains spec where "eu_external_id spec = subject" "eu_username spec = username"
      "eu_email spec = verified_email compact claims" "eu_groups spec = resolve_groups st claims"
    "provision_user compact api st claims s = provision_result (ensure_user api spec s)"
proof -
  let ?spec = "\<lparr> eu_external_id = subject, eu_username = username, eu_email = verified_email compact claims,
     eu_friendly_name = opt_filter (\<lambda>_. ps_persist_friendly_name st) (claim_text compact claims (ps_friendly_name_claim st)),
     eu_source = ps_source st, eu_groups = resolve_groups st claims \<rparr>"
  have "ensure_user api ?spec s = create_user_with_groups api ?spec s"
    using find_external [OF assms(1)] assms(3) by (simp add: ensure_user_def then_call_def)
  then show ?thesis using assms find_external [OF assms(1)]
    by (intro that [of ?spec]) (simp_all add: provision_user_unfold)
qed

text \<open>A login either ends with the identity in the directory or leaves an unknown identity unknown.\<close>

lemma provision_outcome:
  assumes "valid s" "claim_text compact claims ''sub'' = Some subject"
    "provision_user compact api st claims s = (Ok e, s')"
  shows "valid s' \<and> map_option u_username (by_external s' subject) = Some (u_username (en_user e))"
proof (cases "by_external s subject")
  case (Some u)
  then show ?thesis using provision_known [OF assms(1,2) Some, of st subject] assms(3) by auto
next
  case None
  then have auto: "ps_auto_provision st"
    using assms find_external [OF assms(1)] by (auto simp: provision_user_unfold split: if_splits)
  obtain username where "derive_username compact st claims = Ok username"
    using assms None find_external [OF assms(1)] by (auto simp: provision_user_unfold split: if_splits sum.splits)
  then obtain spec where spec: "eu_external_id spec = subject" "eu_username spec = username"
      "eu_email spec = verified_email compact claims" "eu_groups spec = resolve_groups st claims"
    "provision_user compact api st claims s = provision_result (ensure_user api spec s)"
    by (rule provision_new [OF assms(1,2) None auto])
  then have "ensure_user api spec s = (Ok e, s')"
    using assms(3) spec(5) provision_result_cases(1) by metis
  then show ?thesis
    using ensure_user_outcome [OF assms(1), of spec "Ok e" s'] spec(1) claim_text_not_blank [OF assms(2)] by auto
qed

lemma provision_again:
  assumes "valid s" "claim_text compact claims ''sub'' = Some subject"
    "provision_user compact api st claims s = (Ok e, s')"
  shows "\<exists>e2 s2. provision_user compact api st claims s' = (Ok e2, s2) \<and> \<not> en_created e2
    \<and> u_username (en_user e2) = u_username (en_user e)"
proof -
  obtain u where u: "by_external s' subject = Some u" "u_username u = u_username (en_user e)" "valid s'"
    using provision_outcome [OF assms] by auto
  show ?thesis using provision_known [OF u(3) assms(2) u(1), of st] u(2) by fastforce
qed

lemma provision_unaddressable_group:
  assumes "valid s" "claim_text compact claims ''sub'' = Some subject" "by_external s subject = None"
    "g \<in> set (resolve_groups st claims)" "\<not> entity_id_ok g"
  shows "\<exists>e s'. provision_user compact api st claims s = (Err e, s') \<and> by_external s' subject = None"
proof (cases "ps_auto_provision st \<and> is_ok (derive_username compact st claims)")
  case False
  then show ?thesis using assms find_external [OF assms(1)]
    by (auto simp: provision_user_unfold is_ok_def split: sum.splits)
next
  case True
  then obtain username where "derive_username compact st claims = Ok username" by (auto simp: is_ok_iff)
  then obtain spec where spec: "eu_external_id spec = subject" "eu_username spec = username"
      "eu_email spec = verified_email compact claims" "eu_groups spec = resolve_groups st claims"
    "provision_user compact api st claims s = provision_result (ensure_user api spec s)"
    using True by (auto intro: provision_new [OF assms(1-3)])
  obtain e s' where "ensure_user api spec s = (Err e, s')" "by_external s' subject = None"
    using ensure_user_unaddressable_group [OF assms(1), of spec g] spec(1,4) assms(3-5) claim_text_not_blank [OF assms(2)]
    by auto
  then show ?thesis using spec(5) provision_result_cases(2) [of e s'] by auto
qed

end

text \<open>Unknown identities are refused when automatic provisioning is off, and nothing is created.\<close>

lemma provision_refuses_unknown:
  assumes "claim_text compact claims ''sub'' = Some subject" "da_find_external api subject s = (Ok None, s)"
    "\<not> ps_auto_provision st"
  shows "provision_user compact api st claims s = (Err UnknownIdentity, s)"
    and "status_code (api_of_provision debug UnknownIdentity) = 401"
  using assms by (simp_all add: provision_user_unfold api_of_provision_def)
end
