(* ===== verification/Oidc_Provider.thy ===== *)
theory Oidc_Provider
  imports Provision
begin

text \<open>
  The OpenID Connect side of the authentication server: \<open>lakefs-authn/src/oidc/mod.rs\<close> and
  \<open>oidc/discovery.rs\<close>.  The \<open>openidconnect\<close> crate and the network are parameters: fetching the metadata,
  building a client from it, redeeming a code, checking an ID token under a client's keys.  Times are
  milliseconds of the monotonic clock, durations milliseconds.
\<close>

definition INITIAL_BACKOFF :: nat where "INITIAL_BACKOFF = 1000"
definition MAX_BACKOFF :: nat where "MAX_BACKOFF = 30000"

datatype oidc_error = NotReady | NoTokenEndpoint | CodeRejected | ProviderUnreachable | BadTokenResponse
  | MissingIdToken | InvalidIdToken string | UnreadableClaims claims_error

fun oidc_display :: "oidc_error \<Rightarrow> string" where
  "oidc_display NotReady = ''the identity provider is not available yet''"
| "oidc_display NoTokenEndpoint = ''the identity provider advertises no token endpoint''"
| "oidc_display CodeRejected = ''the identity provider rejected the authorization code''"
| "oidc_display ProviderUnreachable = ''the identity provider could not be reached''"
| "oidc_display BadTokenResponse = ''the identity provider returned an unreadable token response''"
| "oidc_display MissingIdToken = ''the identity provider returned no ID token''"
| "oidc_display (InvalidIdToken m) = ''the ID token is not valid: '' @ m"
| "oidc_display (UnreadableClaims _) = ''the ID token claims cannot be read''"

definition api_of_oidc :: "oidc_error \<Rightarrow> api_error" where
  "api_of_oidc e = (if e \<in> {NotReady, NoTokenEndpoint, ProviderUnreachable} then Unavailable (oidc_display e)
     else Unauthorized (oidc_display e))"

record oidc_settings =
  os_rp_initiated_logout :: bool
  os_refresh_interval :: nat
  os_min_refresh_interval :: nat
  os_failed_refresh_cooldown :: nat

record key_refresh =
  kr_at :: nat
  kr_succeeded :: bool

record 'c discovered =
  di_client :: 'c
  di_end_session :: "string option"

record 'c provider =
  op_current :: "'c discovered option"
  op_last_key_refresh :: "key_refresh option"

definition new_provider :: "'c provider" where
  "new_provider = \<lparr> op_current = None, op_last_key_refresh = None \<rparr>"

section \<open>discovery.rs\<close>

datatype discovery_error = DiscoveryParse string | DiscoveryOther string

fun discovery_text :: "discovery_error \<Rightarrow> string" where
  "discovery_text (DiscoveryParse m) = m"
| "discovery_text (DiscoveryOther m) = m"

text \<open>What the provider answers, the clock, the timer, and the client built from metadata.\<close>

record ('s, 'm, 'c) oidc_env =
  oe_fetch_with_logout :: "'s \<Rightarrow> (discovery_error + ('m \<times> string option)) \<times> 's"
  oe_fetch_core :: "'s \<Rightarrow> (discovery_error + 'm) \<times> 's"
  oe_client :: "'m \<Rightarrow> 'c"
  oe_now :: "'s \<Rightarrow> nat"
  oe_sleep :: "nat \<Rightarrow> 's \<Rightarrow> 's"

definition discover_once :: "('s, 'm, 'c) oidc_env \<Rightarrow> bool \<Rightarrow> 's \<Rightarrow> (string + 'c discovered) \<times> 's" where
  "discover_once oe want_logout_metadata s = (case oe_fetch_with_logout oe s of
     (Inr (metadata, end_session), s1) \<Rightarrow>
        (Ok \<lparr> di_client = oe_client oe metadata, di_end_session = opt_filter (\<lambda>_. want_logout_metadata) end_session \<rparr>, s1)
   | (Inl (DiscoveryParse _), s1) \<Rightarrow> (case oe_fetch_core oe s1 of
        (Inr metadata, s2) \<Rightarrow> (Ok \<lparr> di_client = oe_client oe metadata, di_end_session = None \<rparr>, s2)
      | (Inl e, s2) \<Rightarrow> (Err (''OpenID Connect discovery failed: '' @ discovery_text e), s2))
   | (Inl (DiscoveryOther m), s1) \<Rightarrow> (Err (''OpenID Connect discovery failed: '' @ m), s1))"

section \<open>The provider\<close>

definition provider_ready :: "'c provider \<Rightarrow> oidc_error + 'c discovered" where
  "provider_ready p = ok_or NotReady (op_current p)"

definition is_ready :: "'c provider \<Rightarrow> bool" where
  "is_ready p \<longleftrightarrow> op_current p \<noteq> None"

definition provider_discover :: "('s, 'm, 'c) oidc_env \<Rightarrow> oidc_settings \<Rightarrow> 'c provider \<times> 's
    \<Rightarrow> (string + 'c discovered) \<times> ('c provider \<times> 's)" where
  "provider_discover oe st w = (case w of (p, s) \<Rightarrow> (case discover_once oe (os_rp_initiated_logout st) s of
     (Inr d, s') \<Rightarrow> (Ok d, (p\<lparr> op_current := Some d \<rparr>, s'))
   | (Inl e, s') \<Rightarrow> (Err e, (p, s'))))"

text \<open>\<open>run\<close>: the startup phase with its backoff, then refreshes on the interval; one round per discovery.\<close>

datatype phase = Starting nat | Refreshing

definition run_round :: "('s, 'm, 'c) oidc_env \<Rightarrow> oidc_settings \<Rightarrow> phase \<times> ('c provider \<times> 's)
    \<Rightarrow> phase \<times> ('c provider \<times> 's)" where
  "run_round oe st r = (case r of
     (Starting backoff, w) \<Rightarrow> (case provider_discover oe st w of
        (Inr _, w') \<Rightarrow> (Refreshing, w')
      | (Inl _, (p, s)) \<Rightarrow> (Starting (min (backoff * 2) MAX_BACKOFF), (p, oe_sleep oe backoff s)))
   | (Refreshing, (p, s)) \<Rightarrow>
        (Refreshing, snd (provider_discover oe st (p, oe_sleep oe (os_refresh_interval st) s))))"

definition run_rounds :: "('s, 'm, 'c) oidc_env \<Rightarrow> oidc_settings \<Rightarrow> nat \<Rightarrow> 'c provider \<times> 's \<Rightarrow> phase \<times> ('c provider \<times> 's)" where
  "run_rounds oe st n w = (run_round oe st ^^ n) (Starting INITIAL_BACKOFF, w)"

definition key_refresh_hold :: "oidc_settings \<Rightarrow> key_refresh \<Rightarrow> nat" where
  "key_refresh_hold st previous = (if kr_succeeded previous then os_min_refresh_interval st
     else min (os_failed_refresh_cooldown st) (os_min_refresh_interval st))"

definition refresh_for_key_error :: "('s, 'm, 'c) oidc_env \<Rightarrow> oidc_settings \<Rightarrow> 'c provider \<times> 's
    \<Rightarrow> 'c discovered option \<times> ('c provider \<times> 's)" where
  "refresh_for_key_error oe st w = (case w of (p, s) \<Rightarrow>
     (case opt_filter (\<lambda>previous. oe_now oe s - kr_at previous < key_refresh_hold st previous) (op_last_key_refresh p) of
        Some previous \<Rightarrow> (if kr_succeeded previous then op_current p else None, (p, s))
      | None \<Rightarrow> (case provider_discover oe st (p, s) of
          (Inr d, (p', s')) \<Rightarrow>
             (Some d, (p'\<lparr> op_last_key_refresh := Some \<lparr> kr_at = oe_now oe s', kr_succeeded = True \<rparr> \<rparr>, s'))
        | (Inl _, (p', s')) \<Rightarrow>
             (None, (p'\<lparr> op_last_key_refresh := Some \<lparr> kr_at = oe_now oe s', kr_succeeded = False \<rparr> \<rparr>, s')))))"

section \<open>Codes and tokens\<close>

datatype request_token_error = ServerResponse | RequestFailed | ParseFailed | OtherFailure

record token_response = tr_id_token :: "string option"

fun oidc_of_request :: "request_token_error \<Rightarrow> oidc_error" where
  "oidc_of_request ServerResponse = CodeRejected"
| "oidc_of_request RequestFailed = ProviderUnreachable"
| "oidc_of_request ParseFailed = BadTokenResponse"
| "oidc_of_request OtherFailure = BadTokenResponse"

text \<open>
  \<open>to_token_endpoint\<close> redeems a code with an optional PKCE verifier and redirect URI, or is absent when
  the client has no token endpoint.
\<close>

type_synonym ('s, 'c) token_endpoint =
  "'c \<Rightarrow> (string \<Rightarrow> string option \<Rightarrow> string option \<Rightarrow> 's \<Rightarrow> (request_token_error + token_response) \<times> 's) option"

definition exchange_code :: "('s, 'c) token_endpoint \<Rightarrow> 'c discovered \<Rightarrow> string \<Rightarrow> string option \<Rightarrow> string option \<Rightarrow> 's
    \<Rightarrow> (oidc_error + token_response) \<times> 's" where
  "exchange_code to_token_endpoint d code pkce_verifier redirect_uri s =
    (case to_token_endpoint (di_client d) of
       None \<Rightarrow> (Err NoTokenEndpoint, s)
     | Some redeem \<Rightarrow> map_prod (map_err oidc_of_request) id (redeem code pkce_verifier redirect_uri s))"

datatype nonce_check = AnyNonce | ExpectedNonce string

fun nonce_accepts :: "nonce_check \<Rightarrow> string option \<Rightarrow> bool" where
  "nonce_accepts AnyNonce _ = True"
| "nonce_accepts (ExpectedNonce n) received = (received = Some n)"

datatype verification_error = NoMatchingKey string | AmbiguousKeyId string | OtherVerification string

fun verification_text :: "verification_error \<Rightarrow> string" where
  "verification_text (NoMatchingKey m) = m"
| "verification_text (AmbiguousKeyId m) = m"
| "verification_text (OtherVerification m) = m"

definition is_unknown_key :: "verification_error \<Rightarrow> bool" where
  "is_unknown_key e = (case e of OtherVerification _ \<Rightarrow> False | _ \<Rightarrow> True)"

text \<open>
  \<open>check\<close> is \<open>IdToken::claims\<close> under a client's verifier: signature, audience, timestamps, and the nonce by
  the function it is given.  \<open>payload\<close> is \<open>raw_payload\<close>.
\<close>

definition verify_id_token :: "('s, 'm, 'c) oidc_env \<Rightarrow> oidc_settings
    \<Rightarrow> ('c \<Rightarrow> (string option \<Rightarrow> bool) \<Rightarrow> string \<Rightarrow> verification_error + unit) \<Rightarrow> (string \<Rightarrow> claims_error + claims)
    \<Rightarrow> 'c discovered \<Rightarrow> token_response \<Rightarrow> nonce_check \<Rightarrow> 'c provider \<times> 's
    \<Rightarrow> (oidc_error + (claims \<times> string)) \<times> ('c provider \<times> 's)" where
  "verify_id_token oe st check payload d response nonce w =
    (case tr_id_token response of
       None \<Rightarrow> (Err MissingIdToken, w)
     | Some raw \<Rightarrow>
        (let finish = map_ok (\<lambda>c. (c, raw)) (map_err UnreadableClaims (payload raw)) in
         case check (di_client d) (nonce_accepts nonce) raw of
           Inr _ \<Rightarrow> (finish, w)
         | Inl e \<Rightarrow>
            (if is_unknown_key e then (case refresh_for_key_error oe st w of
                 (None, w') \<Rightarrow> (Err (InvalidIdToken (verification_text e)), w')
               | (Some refreshed, w') \<Rightarrow> (case check (di_client refreshed) (nonce_accepts nonce) raw of
                     Inl e' \<Rightarrow> (Err (InvalidIdToken (verification_text e')), w')
                   | Inr _ \<Rightarrow> (finish, w')))
             else (Err (InvalidIdToken (verification_text e)), w))))"

section \<open>Properties\<close>

lemma api_of_oidc_status: "status_code (api_of_oidc e) = (case e of NotReady \<Rightarrow> 503 | NoTokenEndpoint \<Rightarrow> 503
    | ProviderUnreachable \<Rightarrow> 503 | _ \<Rightarrow> 401)"
  by (cases e) (simp_all add: api_of_oidc_def)

lemma provider_discover_cases:
  obtains (found) d s' where "provider_discover oe st (p, s) = (Ok d, (p\<lparr> op_current := Some d \<rparr>, s'))"
  | (failed) e s' where "provider_discover oe st (p, s) = (Err e, (p, s'))"
  by (cases "discover_once oe (os_rp_initiated_logout st) s"; cases "fst (discover_once oe (os_rp_initiated_logout st) s)")
    (auto simp: provider_discover_def)

lemma ready_kept_discover: "is_ready (fst w) \<Longrightarrow> is_ready (fst (snd (provider_discover oe st w)))"
  by (cases w; cases rule: provider_discover_cases [of oe st "fst w" "snd w"]) (auto simp: is_ready_def)

lemma ready_kept_refresh: "is_ready (fst w) \<Longrightarrow> is_ready (fst (snd (refresh_for_key_error oe st w)))"
  by (cases w; cases rule: provider_discover_cases [of oe st "fst w" "snd w"])
    (auto simp: is_ready_def refresh_for_key_error_def split: option.split)

lemma ready_kept_verify: "is_ready (fst w) \<Longrightarrow> is_ready (fst (snd (verify_id_token oe st check payload d response nonce w)))"
  using ready_kept_refresh [of w oe st]
  by (auto simp: verify_id_token_def Let_def split: option.split sum.split prod.split)

lemma ready_kept_round: "is_ready (fst (snd r)) \<Longrightarrow> is_ready (fst (snd (run_round oe st r)))"
proof -
  assume a: "is_ready (fst (snd r))"
  obtain ph p s where r: "r = (ph, (p, s))" by (cases r) auto
  show ?thesis
  proof (cases ph)
    case (Starting b)
    then show ?thesis using a r ready_kept_discover [of "(p, s)" oe st]
      by (auto simp: run_round_def split: prod.split sum.split)
  next
    case Refreshing
    then show ?thesis using a r ready_kept_discover [of "(p, oe_sleep oe (os_refresh_interval st) s)" oe st]
      by (auto simp: run_round_def)
  qed
qed

text \<open>Once discovery has succeeded the provider stays ready through every later round.\<close>

lemma run_rounds_add: "run_rounds oe st (m + n) w = (run_round oe st ^^ m) (run_rounds oe st n w)"
  by (simp add: run_rounds_def funpow_add)

lemma run_stays_ready:
  assumes "is_ready (fst (snd (run_rounds oe st n w)))"
  shows "is_ready (fst (snd (run_rounds oe st (m + n) w)))"
  unfolding run_rounds_add by (induction m) (simp_all add: assms ready_kept_round)

text \<open>The delay before retry \<open>n\<close> doubles from one second and never exceeds thirty.\<close>

lemma run_backoff:
  assumes "fst (run_rounds oe st n w) = Starting b"
  shows "b = min (INITIAL_BACKOFF * 2 ^ n) MAX_BACKOFF"
  using assms
proof (induction n arbitrary: b)
  case 0
  then show ?case by (simp add: run_rounds_def INITIAL_BACKOFF_def MAX_BACKOFF_def)
next
  case (Suc n)
  obtain ph p s where r: "run_rounds oe st n w = (ph, (p, s))" by (cases "run_rounds oe st n w") auto
  have "run_round oe st (ph, (p, s)) = run_rounds oe st (Suc n) w"
    using run_rounds_add [of oe st 1 n w] r by simp
  then have next_round: "fst (run_round oe st (ph, (p, s))) = Starting b" using Suc.prems by simp
  then obtain b0 where ph: "ph = Starting b0" by (cases ph) (auto simp: run_round_def)
  then have "b = min (b0 * 2) MAX_BACKOFF"
    using next_round by (auto simp: run_round_def split: prod.splits sum.splits)
  moreover have "b0 = min (INITIAL_BACKOFF * 2 ^ n) MAX_BACKOFF" using Suc.IH [of b0] r ph by simp
  ultimately show ?case by (simp add: min_def)
qed

lemma run_success_ends_startup:
  "fst (run_rounds oe st n w) = Refreshing \<Longrightarrow> is_ready (fst (snd (run_rounds oe st n w)))"
proof (induction n)
  case 0
  then show ?case by (simp add: run_rounds_def)
next
  case (Suc n)
  obtain ph p s where r: "run_rounds oe st n w = (ph, (p, s))" by (cases "run_rounds oe st n w") auto
  have eq: "run_rounds oe st (Suc n) w = run_round oe st (ph, (p, s))"
    using run_rounds_add [of oe st 1 n w] r by simp
  show ?case
  proof (cases ph)
    case (Starting b)
    then show ?thesis using Suc.prems unfolding eq
      by (cases rule: provider_discover_cases [of oe st p s]) (auto simp: run_round_def is_ready_def)
  next
    case Refreshing
    then show ?thesis using Suc.IH r unfolding eq by (auto intro: ready_kept_round)
  qed
qed

text \<open>
  The rate limit: within the hold of the last refresh nothing is fetched and nothing changes; outside it
  exactly one discovery runs and its time is recorded.
\<close>

lemma refresh_held:
  assumes "op_last_key_refresh p = Some k" "oe_now oe s - kr_at k < key_refresh_hold st k"
  shows "refresh_for_key_error oe st (p, s) = (if kr_succeeded k then op_current p else None, (p, s))"
  using assms by (simp add: refresh_for_key_error_def)

lemma refresh_runs:
  assumes "\<And>k. op_last_key_refresh p = Some k \<Longrightarrow> key_refresh_hold st k \<le> oe_now oe s - kr_at k"
  shows "\<exists>s'. snd (snd (refresh_for_key_error oe st (p, s))) = s' \<and> s' = snd (discover_once oe (os_rp_initiated_logout st) s)
    \<and> op_last_key_refresh (fst (snd (refresh_for_key_error oe st (p, s)))) =
        Some \<lparr> kr_at = oe_now oe s', kr_succeeded = is_ok (fst (discover_once oe (os_rp_initiated_logout st) s)) \<rparr>"
proof -
  have "opt_filter (\<lambda>k. oe_now oe s - kr_at k < key_refresh_hold st k) (op_last_key_refresh p) = None"
    using assms by (cases "op_last_key_refresh p") (auto simp: not_less)
  then show ?thesis
    by (cases "discover_once oe (os_rp_initiated_logout st) s"; cases "fst (discover_once oe (os_rp_initiated_logout st) s)")
      (auto simp: refresh_for_key_error_def provider_discover_def)
qed

text \<open>\<open>n\<close> callers one after the other, with nothing else happening in between.\<close>

fun refresh_callers :: "('s, 'm, 'c) oidc_env \<Rightarrow> oidc_settings \<Rightarrow> nat \<Rightarrow> 'c provider \<times> 's \<Rightarrow> 'c discovered option list \<times> ('c provider \<times> 's)" where
  "refresh_callers oe st 0 w = ([], w)"
| "refresh_callers oe st (Suc n) w = (case refresh_for_key_error oe st w of (d, w1) \<Rightarrow>
     (case refresh_callers oe st n w1 of (ds, w2) \<Rightarrow> (d # ds, w2)))"

lemma refresh_callers_share:
  assumes "refresh_for_key_error oe st w = (Some d, w1)" "0 < os_min_refresh_interval st"
    "op_last_key_refresh (fst w) = None"
  shows "refresh_callers oe st (Suc n) w = (replicate (Suc n) (Some d), w1)"
proof -
  obtain p s where w: "w = (p, s)" by (cases w)
  obtain p1 s1 where w1: "w1 = (p1, s1)" by (cases w1)
  have st1: "op_current p1 = Some d" "op_last_key_refresh p1 = Some \<lparr> kr_at = oe_now oe s1, kr_succeeded = True \<rparr>"
    using assms(1,3) w w1
    by (cases rule: provider_discover_cases [of oe st p s]; auto simp: refresh_for_key_error_def)+
  have again: "refresh_for_key_error oe st w1 = (Some d, w1)"
    using refresh_held [OF st1(2), of oe s1 st] assms(2) st1(1) w1 by (simp add: key_refresh_hold_def)
  have "refresh_callers oe st n w1 = (replicate n (Some d), w1)" for n
    by (induction n) (simp_all add: again)
  then show ?thesis using assms(1) by simp
qed

text \<open>An accepted token passed the check under the nonce rule, and the claims are the ones it carries.\<close>

lemma verify_id_token_Ok:
  assumes "verify_id_token oe st check payload d response nonce w = (Ok (claims, raw), w')"
  shows "tr_id_token response = Some raw" "payload raw = Ok claims"
    and "(check (di_client d) (nonce_accepts nonce) raw = Ok () \<and> w' = w) \<or>
      (\<exists>e refreshed. check (di_client d) (nonce_accepts nonce) raw = Err e \<and> is_unknown_key e
        \<and> refresh_for_key_error oe st w = (Some refreshed, w') \<and> check (di_client refreshed) (nonce_accepts nonce) raw = Ok ())"
  using assms
  by (auto simp: verify_id_token_def Let_def map_ok_Ok_iff map_err_Ok_iff split: option.splits sum.splits if_splits prod.splits)

lemma verify_known_key_no_refresh:
  assumes "check (di_client d) (nonce_accepts nonce) raw = Err e" "\<not> is_unknown_key e" "tr_id_token response = Some raw"
  shows "verify_id_token oe st check payload d response nonce w = (Err (InvalidIdToken (verification_text e)), w)"
  using assms by (simp add: verify_id_token_def)
end
