(* ===== verification/Login_Flow.thy ===== *)
theory Login_Flow
  imports Oidc_Provider Redirect Cookies
begin

text \<open>
  The routes of the authentication server: the browser login (\<open>lakefs-authn/src/routes/browser.rs\<close>), the SDK
  login (\<open>routes/sts.rs\<close>), health (\<open>routes/health.rs\<close>), the operations that are not implemented
  (\<open>routes/stubs.rs\<close>), and the redirect of \<open>routes/mod.rs\<close>.

  The world is the provider's state and the state of the other servers.  An encrypted cookie is
  represented by its decrypted text; reading and writing the flow state as JSON, header values, the
  authorize URL with its random values, and the signing of tokens are parameters.
\<close>

record flow_state =
  fs_state :: string
  fs_nonce :: string
  fs_pkce_verifier :: string
  fs_next :: "string option"
  fs_issued_at :: int

record callback_query =
  cq_code :: "string option"
  cq_state :: "string option"
  cq_error :: "string option"
  cq_error_description :: "string option"

record authorize_request =
  ar_url :: string
  ar_state :: string
  ar_nonce :: string
  ar_pkce_verifier :: string

record authn_config =
  cf_allowed_redirect_hosts :: "string list"
  cf_validate_claims :: "(string, string) btree"
  cf_rp_initiated_logout :: bool
  cf_session_ttl :: nat
  cf_post_login_redirect_url :: string
  cf_post_logout_redirect_url :: string
  cf_sts_allowed_redirect_uris :: "string list"
  cf_state_is_pkce_verifier :: bool
  cf_public_url :: url

record ('s, 'm, 'c, 'k) app =
  ap_cfg :: authn_config
  ap_oidc_env :: "('s, 'm, 'c) oidc_env"
  ap_oidc_settings :: oidc_settings
  ap_token_endpoint :: "('s, 'c) token_endpoint"
  ap_check :: "'c \<Rightarrow> (string option \<Rightarrow> bool) \<Rightarrow> string \<Rightarrow> verification_error + unit"
  ap_payload :: "string \<Rightarrow> claims_error + claims"
  ap_compact :: "json \<Rightarrow> string"
  ap_debug :: "string \<Rightarrow> string"
  ap_directory :: "'s directory_api"
  ap_provision :: provision_settings
  ap_session :: session_cookies
  ap_b64 :: base64_url
  ap_sign :: "'k \<Rightarrow> login_claims \<Rightarrow> string + string"
  ap_jwt_key :: 'k
  ap_jti :: "'s \<Rightarrow> string"
  ap_unix_now :: "'s \<Rightarrow> int"
  ap_parse_url :: "string \<Rightarrow> url option"
  ap_join_url :: "url \<Rightarrow> string \<Rightarrow> url option"
  ap_authorize_url :: "'c \<Rightarrow> 's \<Rightarrow> authorize_request"
  ap_write_flow :: "flow_state \<Rightarrow> string + string"
  ap_read_flow :: "string \<Rightarrow> flow_state option"
  ap_header_ok :: "string \<Rightarrow> bool"
  ap_cookie_text :: "cookie \<Rightarrow> string"
  ap_parses_as_id_token :: "string \<Rightarrow> bool"
  ap_logout_url :: "string \<Rightarrow> string option \<Rightarrow> url option \<Rightarrow> string"

text \<open>What a response does to the cookies: through the private jar, or as a header written verbatim.\<close>

datatype cookie_action = JarAdd cookie | JarRemove cookie | RawSetCookie cookie

record browser_response =
  bw_status :: int
  bw_location :: "string option"
  bw_message :: string
  bw_cookies :: "cookie_action list"

definition browser_error :: "api_error \<Rightarrow> browser_response" where
  "browser_error e = \<lparr> bw_status = api_status e, bw_location = None, bw_message = public_message e, bw_cookies = [] \<rparr>"

definition redirect_found :: "('s, 'm, 'c, 'k) app \<Rightarrow> string \<Rightarrow> browser_response" where
  "redirect_found ap target = (if ap_header_ok ap target
     then \<lparr> bw_status = 302, bw_location = Some target, bw_message = [], bw_cookies = [] \<rparr>
     else \<lparr> bw_status = 500, bw_location = None, bw_message = [], bw_cookies = [] \<rparr>)"

definition with_cookies :: "cookie_action list \<Rightarrow> browser_response \<Rightarrow> browser_response" where
  "with_cookies actions r = r\<lparr> bw_cookies := actions @ bw_cookies r \<rparr>"

definition with_session_cookie :: "('s, 'm, 'c, 'k) app \<Rightarrow> browser_response \<Rightarrow> cookie \<Rightarrow> browser_response" where
  "with_session_cookie ap response cookie = (if ap_header_ok ap (ap_cookie_text ap cookie)
     then response\<lparr> bw_cookies := bw_cookies response @ [RawSetCookie cookie] \<rparr>
     else browser_error (Internal ''failed to parse header value''))"

definition MAX_SESSION_TTL :: nat where "MAX_SESSION_TTL = 30 * 24 * 3600"

definition effective_session_ttl :: "authn_config \<Rightarrow> nat" where
  "effective_session_ttl cfg = min (cf_session_ttl cfg) MAX_SESSION_TTL"

section \<open>GET /oidc/login\<close>

definition login :: "('s, 'm, 'c, 'k) app \<Rightarrow> string option \<Rightarrow> 'c provider \<times> 's \<Rightarrow> api_error + browser_response" where
  "login ap query_next w =
    and_then (map_err api_of_oidc (provider_ready (fst w))) (\<lambda>discovered.
    and_then (case query_next of
        Some v \<Rightarrow> (if v \<noteq> [] then map_ok Some (map_err (\<lambda>e. Invalid (redirect_display e))
                       (safe_next (ap_parse_url ap) v (cf_allowed_redirect_hosts (ap_cfg ap))))
                    else Ok None)
      | None \<Rightarrow> Ok None) (\<lambda>next.
    let request = ap_authorize_url ap (di_client discovered) (snd w);
        flow = \<lparr> fs_state = ar_state request, fs_nonce = ar_nonce request, fs_pkce_verifier = ar_pkce_verifier request,
                 fs_next = next, fs_issued_at = ap_unix_now ap (snd w) \<rparr>
    in and_then (map_err Internal (ap_write_flow ap flow)) (\<lambda>payload.
       Ok (with_cookies [JarAdd (flow_cookie (ap_session ap) payload)] (redirect_found ap (ar_url request))))))"

section \<open>GET /oidc/callback\<close>

record login_outcome =
  lo_raw_id_token :: string
  lo_target :: string
  lo_session_cookie :: cookie

record callback_failure =
  cb_error :: api_error
  cb_consume_flow :: bool

definition check_state :: "'c provider \<Rightarrow> flow_state option \<Rightarrow> bool \<Rightarrow> api_error + ('c discovered \<times> flow_state)" where
  "check_state p flow state_matches =
    and_then (map_err api_of_oidc (provider_ready p)) (\<lambda>discovered.
    and_then (ok_or (Invalid ''the login session is missing or expired, start again'') flow) (\<lambda>flow.
    if \<not> state_matches then Err (Invalid ''the login state does not match, start again'')
    else Ok (discovered, flow)))"

definition cookie_error_display :: "cookie_error \<Rightarrow> string" where
  "cookie_error_display e = (case e of
     TooLong \<Rightarrow> ''the encoded cookie value is too long''
   | NotBase64 \<Rightarrow> ''the cookie value is not valid base64''
   | Malformed \<Rightarrow> ''the cookie value is malformed''
   | BadSignature \<Rightarrow> ''the cookie signature does not match''
   | BadTimestamp \<Rightarrow> ''the cookie timestamp is not a number''
   | Expired \<Rightarrow> ''the cookie has expired'')"

text \<open>A login fails in the cookie codec only; the text of a gob error is never rendered here.\<close>

definition session_error_display :: "session_error \<Rightarrow> string" where
  "session_error_display e = (case e of CookieErr c \<Rightarrow> cookie_error_display c | GobErr _ \<Rightarrow> [])"

text \<open>The part shared by both logins: redeem the code, verify the token, check the configured claims.\<close>

definition verified_claims :: "('s, 'm, 'c, 'k) app \<Rightarrow> 'c discovered \<Rightarrow> string \<Rightarrow> string option \<Rightarrow> string option \<Rightarrow> nonce_check
    \<Rightarrow> (string \<Rightarrow> api_error) \<Rightarrow> 'c provider \<times> 's \<Rightarrow> (api_error + (claims \<times> string)) \<times> ('c provider \<times> 's)" where
  "verified_claims ap discovered code pkce redirect nonce refused w =
    (case exchange_code (ap_token_endpoint ap) discovered code pkce redirect (snd w) of
       (Inl e, s1) \<Rightarrow> (Err (api_of_oidc e), (fst w, s1))
     | (Inr tokens, s1) \<Rightarrow>
        (case verify_id_token (ap_oidc_env ap) (ap_oidc_settings ap) (ap_check ap) (ap_payload ap) discovered tokens nonce (fst w, s1) of
           (Inl e, w2) \<Rightarrow> (Err (api_of_oidc e), w2)
         | (Inr (claims, raw), w2) \<Rightarrow>
            (case validate_claims (ap_compact ap) claims (cf_validate_claims (ap_cfg ap)) of
               Inl _ \<Rightarrow> (Err (refused ''the identity does not satisfy the configured claim requirements''), w2)
             | Inr _ \<Rightarrow> (Ok (claims, raw), w2))))"

definition provision_in :: "('s, 'm, 'c, 'k) app \<Rightarrow> claims \<Rightarrow> 'c provider \<times> 's \<Rightarrow> (api_error + ensured_user) \<times> ('c provider \<times> 's)" where
  "provision_in ap claims w = (case provision_user (ap_compact ap) (ap_directory ap) (ap_provision ap) claims (snd w) of
     (r, s') \<Rightarrow> (map_err (api_of_provision (ap_debug ap)) r, (fst w, s')))"

definition finish_login :: "('s, 'm, 'c, 'k) app \<Rightarrow> 'c discovered \<Rightarrow> flow_state \<Rightarrow> string option \<Rightarrow> 'c provider \<times> 's
    \<Rightarrow> (api_error + login_outcome) \<times> ('c provider \<times> 's)" where
  "finish_login ap discovered flow code w =
    (if ap_unix_now ap (snd w) - fs_issued_at flow > int FLOW_TTL
     then (Err (Invalid ''the login session expired, start again''), w)
     else case opt_filter (\<lambda>c. c \<noteq> []) code of
       None \<Rightarrow> (Err (Invalid ''the callback carries no authorization code''), w)
     | Some code \<Rightarrow>
        (case verified_claims ap discovered code (Some (fs_pkce_verifier flow)) None (ExpectedNonce (fs_nonce flow)) Forbidden w of
           (Inl e, w1) \<Rightarrow> (Err e, w1)
         | (Inr (claims, raw), w1) \<Rightarrow>
            (case provision_in ap claims w1 of
               (Inl e, w2) \<Rightarrow> (Err e, w2)
             | (Inr provisioned, w2) \<Rightarrow>
                (and_then (map_err Internal (mint_login_token_at (ap_sign ap) (ap_jti ap (snd w2)) (ap_jwt_key ap)
                     (u_username (en_user provisioned)) (effective_session_ttl (ap_cfg ap)) (ap_unix_now ap (snd w2)))) (\<lambda>token.
                 and_then (map_err (\<lambda>e. Internal (session_error_display e)) (session_login (ap_b64 ap) (ap_session ap) token (ap_unix_now ap (snd w2)))) (\<lambda>session_cookie.
                 Ok \<lparr> lo_raw_id_token = raw,
                      lo_target = resolve_next (ap_parse_url ap) (ap_join_url ap) (cf_post_login_redirect_url (ap_cfg ap)) (fs_next flow),
                      lo_session_cookie = session_cookie \<rparr>)), w2))))"

definition stored_flow :: "('s, 'm, 'c, 'k) app \<Rightarrow> string option \<Rightarrow> flow_state option" where
  "stored_flow ap stored = Option.bind stored (ap_read_flow ap)"

text \<open>The comparison in constant time is an equality of bytes.\<close>

definition state_matches :: "flow_state option \<Rightarrow> string option \<Rightarrow> bool" where
  "state_matches flow received = (case (flow, received) of (Some f, Some r) \<Rightarrow> r = fs_state f | _ \<Rightarrow> False)"

definition callback_inner :: "('s, 'm, 'c, 'k) app \<Rightarrow> string option \<Rightarrow> callback_query \<Rightarrow> 'c provider \<times> 's
    \<Rightarrow> (callback_failure + login_outcome) \<times> ('c provider \<times> 's)" where
  "callback_inner ap stored query w =
    (let flow = stored_flow ap stored; matches = state_matches flow (cq_state query) in
     case cq_error query of
       Some error \<Rightarrow>
         (Err \<lparr> cb_error = Unauthorized (''login failed: '' @ unwrap_or error (cq_error_description query)),
                cb_consume_flow = matches \<rparr>, w)
     | None \<Rightarrow>
        (case check_state (fst w) flow matches of
           Inl e \<Rightarrow> (Err \<lparr> cb_error = e, cb_consume_flow = False \<rparr>, w)
         | Inr (discovered, flow) \<Rightarrow>
            (case finish_login ap discovered flow (cq_code query) w of
               (Inl e, w') \<Rightarrow> (Err \<lparr> cb_error = e, cb_consume_flow = True \<rparr>, w')
             | (Inr outcome, w') \<Rightarrow> (Ok outcome, w'))))"

definition flow_removal :: "('s, 'm, 'c, 'k) app \<Rightarrow> cookie" where
  "flow_removal ap = removal_cookie (ap_session ap) FLOW_COOKIE"

definition id_token_actions :: "('s, 'm, 'c, 'k) app \<Rightarrow> string \<Rightarrow> cookie_action list" where
  "id_token_actions ap raw_id_token = (if cf_rp_initiated_logout (ap_cfg ap)
     then (case id_token_cookie (ap_session ap) raw_id_token of Some c \<Rightarrow> [JarAdd c] | None \<Rightarrow> []) else [])"

definition callback :: "('s, 'm, 'c, 'k) app \<Rightarrow> string option \<Rightarrow> callback_query \<Rightarrow> 'c provider \<times> 's
    \<Rightarrow> browser_response \<times> ('c provider \<times> 's)" where
  "callback ap stored query w = (case callback_inner ap stored query w of
     (Inr outcome, w') \<Rightarrow>
       (with_cookies (JarRemove (flow_removal ap) # id_token_actions ap (lo_raw_id_token outcome))
          (with_session_cookie ap (redirect_found ap (lo_target outcome)) (lo_session_cookie outcome)), w')
   | (Inl failure, w') \<Rightarrow>
       (if cb_consume_flow failure then with_cookies [JarRemove (flow_removal ap)] (browser_error (cb_error failure))
        else browser_error (cb_error failure), w'))"

section \<open>GET /oidc/logout\<close>

definition post_logout_redirect :: "('s, 'm, 'c, 'k) app \<Rightarrow> url option" where
  "post_logout_redirect ap = (let configured = cf_post_logout_redirect_url (ap_cfg ap) in
     case ap_parse_url ap configured of Some u \<Rightarrow> Some u | None \<Rightarrow> ap_join_url ap (cf_public_url (ap_cfg ap)) configured)"

definition logout_target :: "('s, 'm, 'c, 'k) app \<Rightarrow> string option \<Rightarrow> 'c provider \<Rightarrow> string" where
  "logout_target ap id_token p =
    (case (if cf_rp_initiated_logout (ap_cfg ap) then Option.bind (op_current p) di_end_session else None) of
       Some end_session \<Rightarrow> ap_logout_url ap end_session (opt_filter (ap_parses_as_id_token ap) id_token) (post_logout_redirect ap)
     | None \<Rightarrow> cf_post_logout_redirect_url (ap_cfg ap))"

definition logout :: "('s, 'm, 'c, 'k) app \<Rightarrow> string option \<Rightarrow> 'c provider \<Rightarrow> browser_response" where
  "logout ap id_token p =
     with_cookies [JarRemove (flow_removal ap), JarRemove (removal_cookie (ap_session ap) ID_TOKEN_COOKIE)]
       (with_session_cookie ap (redirect_found ap (logout_target ap id_token p)) (session_clear (ap_session ap)))"

section \<open>POST /sts/login\<close>

record sts_login_request =
  sr_code :: string
  sr_state :: string
  sr_redirect_uri :: string

definition sts_login :: "('s, 'm, 'c, 'k) app \<Rightarrow> sts_login_request \<Rightarrow> 'c provider \<times> 's
    \<Rightarrow> (api_error + (string, string) btree) \<times> ('c provider \<times> 's)" where
  "sts_login ap request w = (case provider_ready (fst w) of
     Inl e \<Rightarrow> (Err (api_of_oidc e), w)
   | Inr discovered \<Rightarrow>
      (if \<not> redirect_uri_allowed (ap_parse_url ap) (cf_sts_allowed_redirect_uris (ap_cfg ap)) (sr_redirect_uri request)
       then (Err (Invalid ''redirect_uri is not allowed''), w)
       else if ap_parse_url ap (sr_redirect_uri request) = None
       then (Err (Invalid ''redirect_uri is not a valid URL''), w)
       else (let pkce = (if cf_state_is_pkce_verifier (ap_cfg ap) \<and> sr_state request \<noteq> [] then Some (sr_state request) else None) in
         case verified_claims ap discovered (sr_code request) pkce (Some (sr_redirect_uri request)) AnyNonce Unauthorized w of
           (Inl e, w1) \<Rightarrow> (Err e, w1)
         | (Inr (claims, raw), w1) \<Rightarrow> (case provision_in ap claims w1 of
               (Inl e, w2) \<Rightarrow> (Err e, w2)
             | (Inr provisioned, w2) \<Rightarrow> (Ok (flatten_claims (ap_compact ap) claims), w2)))))"

section \<open>health.rs and stubs.rs\<close>

definition healthz :: "int \<times> string" where "healthz = (200, ''ok'')"

definition authn_readyz :: "'c provider \<Rightarrow> api_error + (int \<times> string)" where
  "authn_readyz p = map_ok (\<lambda>_. (200, ''ready'')) (map_err api_of_oidc (provider_ready p))"

definition authn_healthcheck :: int where "authn_healthcheck = 204"

definition ldap_login :: api_error where "ldap_login = NotImplemented ''not implemented''"
definition external_principal_login :: api_error where "external_principal_login = NotImplemented ''not implemented''"

section \<open>Properties\<close>

lemma check_state_Err: "check_state p flow m = Err e \<Longrightarrow> status_code e = 400 \<or> status_code e = 503"
  by (auto simp: check_state_def res_simps api_of_oidc_status provider_ready_def map_err_def split: sum.splits if_splits)

lemma check_state_Ok: "check_state p flow m = Ok (d, f) \<longleftrightarrow> op_current p = Some d \<and> flow = Some f \<and> m"
  by (auto simp: check_state_def res_simps provider_ready_def)

lemma bw_cookies_simps [simp]:
  "bw_cookies (browser_error e) = []" "bw_cookies (redirect_found ap t) = []"
  "bw_cookies (with_cookies actions r) = actions @ bw_cookies r"
  "bw_status (with_cookies actions r) = bw_status r" "bw_location (with_cookies actions r) = bw_location r"
  by (simp_all add: browser_error_def redirect_found_def with_cookies_def)

lemma browser_error_status: "bw_status (browser_error e) = api_status e"
  by (simp add: browser_error_def)

lemma api_status_small: "status_code e \<in> {400, 401, 403, 503} \<Longrightarrow> api_status e = status_code e"
  by (auto simp: api_status_def)

lemma id_token_actions_jar: "RawSetCookie ck \<notin> set (id_token_actions ap raw)"
proof -
  have "id_token_actions ap raw = [] \<or> (\<exists>c. id_token_actions ap raw = [JarAdd c])"
    by (cases "id_token_cookie (ap_session ap) raw") (simp_all add: id_token_actions_def)
  then show ?thesis by auto
qed

lemma callback_Ok:
  assumes "callback_inner ap stored query w = (Ok outcome, w')"
  shows "snd (callback ap stored query w) = w'"
    and "bw_cookies (fst (callback ap stored query w)) = JarRemove (flow_removal ap) # id_token_actions ap (lo_raw_id_token outcome)
      @ bw_cookies (with_session_cookie ap (redirect_found ap (lo_target outcome)) (lo_session_cookie outcome))"
  unfolding callback_def assms by simp_all

lemma callback_Err:
  assumes "callback_inner ap stored query w = (Err failure, w')"
  shows "callback ap stored query w = (if cb_consume_flow failure
      then with_cookies [JarRemove (flow_removal ap)] (browser_error (cb_error failure)) else browser_error (cb_error failure), w')"
  unfolding callback_def assms by simp

text \<open>A callback whose state does not match the stored flow has no effect and keeps the flow cookie.\<close>

lemma callback_mismatch:
  assumes "\<not> state_matches (stored_flow ap stored) (cq_state query)"
  shows "snd (callback ap stored query w) = w \<and> bw_cookies (fst (callback ap stored query w)) = []
    \<and> bw_status (fst (callback ap stored query w)) \<in> {400, 401, 503}"
proof (cases "cq_error query")
  case (Some error)
  then show ?thesis using assms
    by (simp add: callback_def callback_inner_def Let_def browser_error_status api_status_def)
next
  case None
  obtain e where e: "check_state (fst w) (stored_flow ap stored) False = Err e"
    by (cases "check_state (fst w) (stored_flow ap stored) False") (auto simp: check_state_Ok)
  then have "api_status e = 400 \<or> api_status e = 503"
    using check_state_Err [OF e] by (auto simp: api_status_def)
  then show ?thesis using assms None e
    by (auto simp: callback_def callback_inner_def Let_def browser_error_status)
qed

text \<open>A callback that is the provider's answer to the stored flow always consumes the flow cookie.\<close>

lemma callback_consumes:
  assumes "state_matches (stored_flow ap stored) (cq_state query)" "is_ready (fst w)"
  shows "JarRemove (flow_removal ap) \<in> set (bw_cookies (fst (callback ap stored query w)))"
proof (cases "cq_error query")
  case (Some error)
  then show ?thesis using assms by (simp add: callback_def callback_inner_def Let_def)
next
  case None
  obtain d f where d: "op_current (fst w) = Some d" "stored_flow ap stored = Some f"
    using assms by (auto simp: is_ready_def state_matches_def split: option.splits)
  then have c: "check_state (fst w) (Some f) True = Ok (d, f)" by (simp add: check_state_Ok)
  have m: "state_matches (Some f) (cq_state query)" using assms(1) d(2) by simp
  obtain r w' where r: "finish_login ap d f (cq_code query) w = (r, w')"
    by (metis surj_pair)
  show ?thesis
  proof (cases r)
    case (Inl e)
    then have "callback_inner ap stored query w = (Err \<lparr> cb_error = e, cb_consume_flow = True \<rparr>, w')"
      using None d(2) c m r by (simp add: callback_inner_def Let_def)
    then show ?thesis by (simp add: callback_Err)
  next
    case (Inr outcome)
    then have "callback_inner ap stored query w = (Ok outcome, w')"
      using None d(2) c m r by (simp add: callback_inner_def Let_def)
    then show ?thesis by (simp add: callback_Ok)
  qed
qed

lemma verified_claims_Ok:
  assumes "verified_claims ap d code pkce redirect nonce refused w = (Ok (claims, raw), w')"
  shows "(\<exists>client. ap_check ap client (nonce_accepts nonce) raw = Ok ()) \<and> ap_payload ap raw = Ok claims"
    and "validate_claims (ap_compact ap) claims (cf_validate_claims (ap_cfg ap)) = Ok ()"
    and "\<exists>tokens s1. exchange_code (ap_token_endpoint ap) d code pkce redirect (snd w) = (Ok tokens, s1)"
proof -
  obtain tokens s1 where x: "exchange_code (ap_token_endpoint ap) d code pkce redirect (snd w) = (Ok tokens, s1)"
      and v: "verify_id_token (ap_oidc_env ap) (ap_oidc_settings ap) (ap_check ap) (ap_payload ap) d tokens nonce (fst w, s1) = (Ok (claims, raw), w')"
      and c: "validate_claims (ap_compact ap) claims (cf_validate_claims (ap_cfg ap)) = Ok ()"
    using assms by (auto simp: verified_claims_def split: prod.splits sum.splits)
  show "(\<exists>client. ap_check ap client (nonce_accepts nonce) raw = Ok ()) \<and> ap_payload ap raw = Ok claims"
    using verify_id_token_Ok [OF v] by blast
  show "validate_claims (ap_compact ap) claims (cf_validate_claims (ap_cfg ap)) = Ok ()" by (rule c)
  show "\<exists>tokens s1. exchange_code (ap_token_endpoint ap) d code pkce redirect (snd w) = (Ok tokens, s1)"
    using x by blast
qed

text \<open>What the exchange and the discovery keep of the other servers, the verified claims keep.\<close>

lemma discover_keeps:
  assumes "\<And>b s. P s \<Longrightarrow> P (snd (discover_once oe b s))" "P (snd w)"
  shows "P (snd (snd (refresh_for_key_error oe st w)))"
proof -
  obtain p s where w: "w = (p, s)" by (cases w)
  obtain r s' where d: "discover_once oe (os_rp_initiated_logout st) s = (r, s')" by (metis surj_pair)
  have "P s'" using assms(1) [of s "os_rp_initiated_logout st"] assms(2) w d by simp
  then show ?thesis using assms(2) w d
    by (cases r) (auto simp: refresh_for_key_error_def provider_discover_def split: option.split)
qed

lemma verified_claims_keeps:
  assumes "\<And>d code pkce uri s. P s \<Longrightarrow> P (snd (exchange_code (ap_token_endpoint ap) d code pkce uri s))"
    and "\<And>b s. P s \<Longrightarrow> P (snd (discover_once (ap_oidc_env ap) b s))" "P (snd w)"
  shows "P (snd (snd (verified_claims ap d code pkce uri nonce refused w)))"
proof -
  obtain r s1 where x: "exchange_code (ap_token_endpoint ap) d code pkce uri (snd w) = (r, s1)" by (metis surj_pair)
  have s1: "P s1" using assms(1) [OF assms(3), of d code pkce uri] x by simp
  show ?thesis
  proof (cases r)
    case (Inl e)
    then show ?thesis using s1 x by (simp add: verified_claims_def)
  next
    case (Inr tokens)
    obtain v p2 s2 where v: "verify_id_token (ap_oidc_env ap) (ap_oidc_settings ap) (ap_check ap) (ap_payload ap) d tokens nonce (fst w, s1)
        = (v, (p2, s2))" by (metis surj_pair)
    moreover have "P (snd (snd (verify_id_token (ap_oidc_env ap) (ap_oidc_settings ap) (ap_check ap) (ap_payload ap) d tokens nonce (fst w, s1))))"
      using s1 discover_keeps [where P = P, OF assms(2), where w = "(fst w, s1)" and st = "ap_oidc_settings ap"]
      by (auto simp: verify_id_token_def Let_def split: option.split sum.split prod.split)
    ultimately show ?thesis using x Inr
      by (cases v) (auto simp: verified_claims_def split: prod.split sum.split)
  qed
qed

text \<open>Where a session cookie comes from.\<close>

lemma finish_login_Ok:
  assumes "finish_login ap d flow code w = (Ok outcome, w')"
  obtains c claims e w1 token where "code = Some c" "c \<noteq> []"
    "ap_unix_now ap (snd w) - fs_issued_at flow \<le> int FLOW_TTL"
    "verified_claims ap d c (Some (fs_pkce_verifier flow)) None (ExpectedNonce (fs_nonce flow)) Forbidden w =
       (Ok (claims, lo_raw_id_token outcome), w1)"
    "provision_in ap claims w1 = (Ok e, w')"
    "mint_login_token_at (ap_sign ap) (ap_jti ap (snd w')) (ap_jwt_key ap) (u_username (en_user e))
       (effective_session_ttl (ap_cfg ap)) (ap_unix_now ap (snd w')) = Ok token"
    "session_login (ap_b64 ap) (ap_session ap) token (ap_unix_now ap (snd w')) = Ok (lo_session_cookie outcome)"
    "lo_target outcome = resolve_next (ap_parse_url ap) (ap_join_url ap) (cf_post_login_redirect_url (ap_cfg ap)) (fs_next flow)"
  using assms
  by (auto simp: finish_login_def res_simps not_less split: if_splits option.splits prod.splits sum.splits)

lemma callback_session:
  assumes "RawSetCookie ck \<in> set (bw_cookies (fst (callback ap stored query w)))"
  obtains flow d outcome where "state_matches (stored_flow ap stored) (cq_state query)" "stored_flow ap stored = Some flow"
    "op_current (fst w) = Some d" "finish_login ap d flow (cq_code query) w = (Ok outcome, snd (callback ap stored query w))"
    "ck = lo_session_cookie outcome"
proof -
  obtain r w' where r: "callback_inner ap stored query w = (r, w')"
    by (metis surj_pair)
  show ?thesis
  proof (cases r)
    case (Inl failure)
    then show ?thesis using assms callback_Err [of ap stored query w failure w'] r by (simp split: if_splits)
  next
    case (Inr outcome)
    then have none: "cq_error query = None"
      using r by (auto simp: callback_inner_def Let_def split: option.splits)
    obtain d flow where f: "check_state (fst w) (stored_flow ap stored) (state_matches (stored_flow ap stored) (cq_state query)) = Ok (d, flow)"
        "finish_login ap d flow (cq_code query) w = (Ok outcome, w')"
      using r Inr none by (auto simp: callback_inner_def Let_def split: sum.splits prod.splits)
    have "ck = lo_session_cookie outcome"
      using assms callback_Ok(2) [of ap stored query w outcome w'] r Inr
      by (auto simp: with_session_cookie_def id_token_actions_jar split: if_splits)
    moreover have "snd (callback ap stored query w) = w'" using callback_Ok(1) r Inr by metis
    ultimately show ?thesis using f by (intro that [of flow d outcome]) (auto simp: check_state_Ok)
  qed
qed

text \<open>A flow older than its time to live redeems no code.\<close>

lemma finish_login_expired:
  "ap_unix_now ap (snd w) - fs_issued_at flow > int FLOW_TTL \<Longrightarrow>
     finish_login ap d flow code w = (Err (Invalid ''the login session expired, start again''), w)"
  by (simp add: finish_login_def)

text \<open>What a started login remembers is a checked target.\<close>

lemma login_next:
  assumes "login ap (Some v) w = Ok r" "v \<noteq> []"
  shows "safe_next (ap_parse_url ap) v (cf_allowed_redirect_hosts (ap_cfg ap)) = Ok v"
    and "\<exists>flow payload. fs_next flow = Some v \<and> ap_write_flow ap flow = Ok payload
      \<and> JarAdd (flow_cookie (ap_session ap) payload) \<in> set (bw_cookies r)"
proof -
  obtain d where d: "provider_ready (fst w) = Ok d" using assms by (auto simp: login_def res_simps)
  obtain target where safe: "safe_next (ap_parse_url ap) v (cf_allowed_redirect_hosts (ap_cfg ap)) = Ok target"
    using assms by (auto simp: login_def res_simps)
  have target: "target = v" by (rule safe_next_Ok(1) [OF safe])
  show "safe_next (ap_parse_url ap) v (cf_allowed_redirect_hosts (ap_cfg ap)) = Ok v" using safe target by simp
  let ?rq = "ap_authorize_url ap (di_client d) (snd w)"
  let ?flow = "\<lparr> fs_state = ar_state ?rq, fs_nonce = ar_nonce ?rq, fs_pkce_verifier = ar_pkce_verifier ?rq,
     fs_next = Some v, fs_issued_at = ap_unix_now ap (snd w) \<rparr>"
  obtain payload where "ap_write_flow ap ?flow = Ok payload"
      "r = with_cookies [JarAdd (flow_cookie (ap_session ap) payload)] (redirect_found ap (ar_url ?rq))"
    using assms d safe target by (auto simp: login_def res_simps Let_def)
  then show "\<exists>flow payload. fs_next flow = Some v \<and> ap_write_flow ap flow = Ok payload
      \<and> JarAdd (flow_cookie (ap_session ap) payload) \<in> set (bw_cookies r)"
    by (intro exI [of _ ?flow] exI [of _ payload]) simp
qed

text \<open>A target a header value cannot carry ends the login with a 500.\<close>

lemma callback_unprintable_target:
  assumes "callback_inner ap stored query w = (Ok outcome, w')" "\<not> ap_header_ok ap (lo_target outcome)"
  shows "bw_status (fst (callback ap stored query w)) = 500 \<and> bw_location (fst (callback ap stored query w)) = None"
  using assms
  by (auto simp: callback_def redirect_found_def with_session_cookie_def browser_error_def api_status_def with_cookies_def)

lemma relative_target:
  assumes "ap_parse_url ap v = None" "ap_parse_url ap (cf_post_login_redirect_url (ap_cfg ap)) = None"
  shows "resolve_next (ap_parse_url ap) (ap_join_url ap) (cf_post_login_redirect_url (ap_cfg ap)) (Some v) = v"
  using assms by (simp add: resolve_next_def)

lemma sts_refuses_redirect:
  assumes "\<not> redirect_uri_allowed (ap_parse_url ap) (cf_sts_allowed_redirect_uris (ap_cfg ap)) (sr_redirect_uri request)"
  shows "\<exists>e. sts_login ap request w = (Err e, w) \<and> status_code e \<in> {400, 503}"
  using assms
  by (cases "provider_ready (fst w)") (auto simp: sts_login_def api_of_oidc_status provider_ready_def ok_or_Err_iff)

lemma sts_login_Ok:
  assumes "sts_login ap request w = (Ok flat, w')"
  obtains d claims raw e w1 pkce where "op_current (fst w) = Some d"
    "redirect_uri_allowed (ap_parse_url ap) (cf_sts_allowed_redirect_uris (ap_cfg ap)) (sr_redirect_uri request)"
    "verified_claims ap d (sr_code request) pkce (Some (sr_redirect_uri request)) AnyNonce Unauthorized w = (Ok (claims, raw), w1)"
    "provision_in ap claims w1 = (Ok e, w')" "flat = flatten_claims (ap_compact ap) claims"
  using assms
  by (auto simp: sts_login_def Let_def provider_ready_def ok_or_Ok_iff split: if_splits prod.splits sum.splits)
end
