(* ===== verification/Examples.thy ===== *)
theory Examples
  imports Login_Flow Boot_Plan
begin

text \<open>
  Concrete systems on which the properties of \<open>Spec2Isabelle\<close> are instantiated: an environment of the
  service, a store built by its operations, a text encoding and a cipher with the documented behaviour, and
  an authentication server in front of the connected pair of \<open>Client_Server\<close>.
\<close>

section \<open>The authorization server\<close>

text \<open>A cipher that appends a tag of sixteen bytes.\<close>

definition demo_box :: secret_box where
  "demo_box = \<lparr> sb_encrypt = (\<lambda>_ p. Some (p @ replicate 16 7)),
     sb_decrypt = (\<lambda>_ c. if 16 \<le> length c \<and> drop (length c - 16) c = replicate 16 7 then Some (take (length c - 16) c) else None) \<rparr>"

lemma demo_box_ok: "aead_ok demo_box"
  by (simp add: aead_ok_def demo_box_def TAG_LEN_def)

definition demo_env :: env where
  "demo_env = \<lparr> env_now = 100, env_from_second = Some, env_parse_list = (\<lambda>_. Err []), env_statement_json = (\<lambda>_. None),
     env_secrets = demo_box, env_nonce = replicate 12 1, env_random = (\<lambda>_. 0), env_random_bytes = replicate 30 65,
     env_base64 = map (\<lambda>b. char_of (unat b)) \<rparr>"

text \<open>Two users, two groups, two policies and a credential.\<close>

definition demo_ops :: "mem_op list" where
  "demo_ops = [CreateUser (new_user_named 1 ''alice''),
     CreateUser ((new_user_named 2 ''bob'')\<lparr> nu_email := Some ''bob@x.io'', nu_external_id := Some ''sub-2'' \<rparr>),
     CreateGroup (new_group_named 3 ''Admins''), CreateGroup (new_group_named 4 ''Viewers''),
     CreatePolicy \<lparr> np_name = ''P1'', np_creation_date = 5, np_statement = [], np_acl = None \<rparr>,
     CreatePolicy \<lparr> np_name = ''P2'', np_creation_date = 6, np_statement = [], np_acl = None \<rparr>,
     AddMembership ''Admins'' ''bob'', AddMembership ''Viewers'' ''bob'', AttachToGroup ''Admins'' ''P1'',
     AttachToGroup ''Viewers'' ''P1'', AttachToUser ''bob'' ''P2'',
     CreateCredential \<lparr> nc_access_key_id = ''AK'', nc_username = ''bob'', nc_secret_ciphertext = [1], nc_creation_date = 7 \<rparr>,
     CreateExternalPrincipal ''bob'' ''arn:aws:iam'']"

definition demo_store :: inner where
  "demo_store = fold run_op demo_ops empty_inner"

lemma wf_demo_store: "wf_inner demo_store"
  unfolding demo_store_def by (intro wf_reachable reachable_fold reachable.init)

lemma demo_users: "in_users demo_store =
    [(''alice'', \<lparr> ur_username = ''alice'', ur_user_id = 1, ur_creation_date = 1, ur_friendly_name = None, ur_email = None,
        ur_source = None, ur_external_id = None, ur_encrypted_password = None \<rparr>),
     (''bob'', \<lparr> ur_username = ''bob'', ur_user_id = 2, ur_creation_date = 2, ur_friendly_name = None,
        ur_email = Some ''bob@x.io'', ur_source = None, ur_external_id = Some ''sub-2'', ur_encrypted_password = None \<rparr>)]"
  by code_simp

lemma demo_groups: "map fst (in_groups demo_store) = [''Admins'', ''Viewers'']"
  by code_simp

lemma demo_has_admins: "bt_get (in_groups demo_store) ''Admins'' \<noteq> None"
  by code_simp

lemma demo_members: "in_group_members demo_store = [(''Admins'', ''bob''), (''Viewers'', ''bob'')]"
  by code_simp

lemmas ascii_simps = trim_def trim_list_def utf8_cont_def byte_of_def is_whitespace_def

section \<open>The connected pair\<close>

abbreviation demo_api :: "inner directory_api" where
  "demo_api \<equiv> client_api (loopback_env (loopback_server demo_env)) loopback_client"

lemma entity_ids: "entity_id_ok ''alice''" "entity_id_ok ''bob''" "entity_id_ok ''carol''" "\<not> entity_id_ok ''/admins''"
  by (simp_all add: entity_id_ok_def has_control_def code_points_def utf8_cont_def byte_of_def is_control_def)

lemma demo_directory_valid: "directory_valid demo_store"
  using wf_demo_store entity_ids unfolding directory_valid_def names_ok_def demo_users
  by (auto simp: bt_get_def split: if_splits)

lemma demo_bob: "directory_user demo_store ''sub-2'' = Some (user_to_wire (the (bt_get (in_users demo_store) ''bob'')))"
  unfolding directory_user_def demo_users find_user_by_external_id_def
  by (simp add: non_blank_def ascii_simps Let_def bt_values_def bt_get_def)

lemma demo_unknown: "directory_user demo_store ''sub-9'' = None"
  unfolding directory_user_def demo_users find_user_by_external_id_def
  by (simp add: non_blank_def ascii_simps Let_def bt_values_def bt_get_def)

section \<open>The authentication server\<close>

text \<open>A text encoding of bytes: two hexadecimal digits each.\<close>

fun hex_decode :: "u8 list \<Rightarrow> u8 list option" where
  "hex_decode [] = Some []"
| "hex_decode (h # l # r) = (case (unhex (char_of (unat h)), unhex (char_of (unat l)), hex_decode r) of
     (Some a, Some b, Some bs) \<Rightarrow> Some (of_nat (16 * a + b) # bs)
   | _ \<Rightarrow> None)"
| "hex_decode [_] = None"

definition hex_encode :: "u8 list \<Rightarrow> string" where
  "hex_encode bs = concat (map (\<lambda>b. [hex_digit (unat b div 16), hex_digit (unat b mod 16)]) bs)"

definition hex64 :: base64_url where
  "hex64 = \<lparr> b64_encode = hex_encode, b64_decode = hex_decode \<rparr>"

lemma unat_u8_div: "unat (b :: u8) div 16 < 16" "unat (b :: u8) mod 16 < 16"
proof -
  have "unat b < 2 ^ LENGTH(8)" using unsigned_less [of b, where ?'a = nat] by simp
  then show "unat b div 16 < 16" by simp
qed simp

lemma unhex_of_char: "n < 16 \<Longrightarrow> unhex (char_of (unat (of_char (hex_digit n) :: u8))) = Some n"
  using unhex_hex_digit [of n] by (simp add: unat_of_char)

lemma hex_round_trip: "hex_decode (as_bytes (hex_encode bs)) = Some bs"
proof (induction bs)
  case (Cons b bs)
  have "unhex (char_of (unat (of_char (hex_digit (unat b div 16)) :: u8))) = Some (unat b div 16)"
    "unhex (char_of (unat (of_char (hex_digit (unat b mod 16)) :: u8))) = Some (unat b mod 16)"
    by (rule unhex_of_char, rule unat_u8_div)+
  moreover have "of_nat (16 * (unat b div 16) + unat b mod 16) = b" by simp
  ultimately show ?case using Cons by (simp add: hex_encode_def as_bytes_def)
qed (simp add: hex_encode_def as_bytes_def)

lemma hex_no_pipe: "CHR ''|'' \<notin> set (hex_encode bs)"
proof -
  have "hex_digit n \<noteq> CHR ''|''" if "n < 16" for n
  proof
    assume "hex_digit n = CHR ''|''"
    then have "unhex (CHR ''|'') = Some n" using unhex_hex_digit [OF that] by simp
    then show False by (simp add: unhex_def byte_of_def)
  qed
  then have "hex_digit (unat b div 16) \<noteq> CHR ''|'' \<and> hex_digit (unat b mod 16) \<noteq> CHR ''|''" for b :: u8
    using unat_u8_div [of b] by blast
  then have "CHR ''|'' \<noteq> hex_digit (unat b div 16) \<and> CHR ''|'' \<noteq> hex_digit (unat b mod 16)" for b :: u8
    by metis
  then show ?thesis by (simp add: hex_encode_def)
qed

lemma hex64_ok: "base64_ok hex64"
  by (simp add: base64_ok_def hex64_def hex_round_trip hex_no_pipe)

text \<open>
  The identity provider answers every code with the same token, whose nonce is \<open>n\<close>; the user directory is the
  connected authorization server.
\<close>

definition demo_config :: authn_config where
  "demo_config = \<lparr> cf_allowed_redirect_hosts = [''lakefs.io''], cf_validate_claims = [(''org'', ''acme'')],
     cf_rp_initiated_logout = False, cf_session_ttl = 3600, cf_post_login_redirect_url = ''/'',
     cf_post_logout_redirect_url = ''/login'', cf_sts_allowed_redirect_uris = [''http://localhost/cb''],
     cf_state_is_pkce_verifier = False,
     cf_public_url = \<lparr> url_scheme = ''https'', url_host = Some ''auth.io'', url_port = None, url_path = ''/'',
       url_query = None, url_text = ''https://auth.io/'' \<rparr> \<rparr>"

definition demo_claims :: claims where
  "demo_claims = [(''groups'', JArr [JStr ''Admins'', JStr ''Nobody'']), (''org'', JStr ''acme''), (''preferred_username'', JStr ''bob''),
     (''sub'', JStr ''sub-2'')]"

definition demo_settings :: provision_settings where
  "demo_settings = \<lparr> ps_username_claims = [''preferred_username''], ps_friendly_name_claim = ''name'',
     ps_persist_friendly_name = False, ps_initial_groups = [''Viewers''], ps_groups_claim = Some ''groups'',
     ps_group_map = [], ps_group_map_strict = False, ps_source = ''oidc'', ps_auto_provision = True \<rparr>"

definition demo_flow :: flow_state where
  "demo_flow = \<lparr> fs_state = ''st'', fs_nonce = ''n'', fs_pkce_verifier = ''v'', fs_next = Some ''/repos'', fs_issued_at = 50 \<rparr>"

definition demo_app :: "(inner, unit, unit, unit) app" where
  "demo_app = \<lparr> ap_cfg = demo_config,
     ap_oidc_env = \<lparr> oe_fetch_with_logout = (\<lambda>s. (Ok ((), None), s)), oe_fetch_core = (\<lambda>s. (Ok (), s)),
       oe_client = (\<lambda>_. ()), oe_now = (\<lambda>_. 0), oe_sleep = (\<lambda>_ s. s) \<rparr>,
     ap_oidc_settings = \<lparr> os_rp_initiated_logout = False, os_refresh_interval = 1000, os_min_refresh_interval = 100,
       os_failed_refresh_cooldown = 50 \<rparr>,
     ap_token_endpoint = (\<lambda>_. Some (\<lambda>code pkce uri s. (Ok \<lparr> tr_id_token = Some ''h.p.s'' \<rparr>, s))),
     ap_check = (\<lambda>_ accepts raw. if accepts (Some ''n'') then Ok () else Err (OtherVerification ''nonce'')),
     ap_payload = (\<lambda>_. Ok demo_claims), ap_compact = (\<lambda>_. []), ap_debug = (\<lambda>x. x), ap_directory = demo_api,
     ap_provision = demo_settings,
     ap_session = \<lparr> sc_codec = \<lparr> cc_mac = (\<lambda>m. [of_nat (length m)]), cc_max_length = 0, cc_max_age = 3600 \<rparr>,
       sc_options = \<lparr> so_secure = True, so_domain = None, so_ttl = 3600 \<rparr> \<rparr>,
     ap_b64 = hex64, ap_sign = (\<lambda>_ c. Ok (lc_sub c)), ap_jwt_key = (), ap_jti = (\<lambda>_. ''j''), ap_unix_now = (\<lambda>_. 60),
     ap_parse_url = (\<lambda>_. None), ap_join_url = (\<lambda>_ _. None),
     ap_authorize_url = (\<lambda>_ _. \<lparr> ar_url = ''https://idp'', ar_state = ''st'', ar_nonce = ''n'', ar_pkce_verifier = ''v'' \<rparr>),
     ap_write_flow = (\<lambda>f. Ok (fs_state f)), ap_read_flow = (\<lambda>t. if t = ''st'' then Some demo_flow else None),
     ap_header_ok = (\<lambda>_. True), ap_cookie_text = (\<lambda>_. []), ap_parses_as_id_token = (\<lambda>_. True),
     ap_logout_url = (\<lambda>e _ _. e) \<rparr>"

definition ready_provider :: "unit provider" where
  "ready_provider = \<lparr> op_current = Some \<lparr> di_client = (), di_end_session = None \<rparr>, op_last_key_refresh = None \<rparr>"

definition demo_query :: callback_query where
  "demo_query = \<lparr> cq_code = Some ''code'', cq_state = Some ''st'', cq_error = None, cq_error_description = None \<rparr>"

section \<open>Logins of the example\<close>

lemma demo_subject: "claim_text compact demo_claims ''sub'' = Some ''sub-2''"
  by (simp add: claim_text_def demo_claims_def bt_get_def flatten_value_def ascii_simps)

lemma demo_find: "da_find_external demo_api x demo_store = (Ok (directory_user demo_store x), demo_store)"
  by (rule loopback.directory.find_external [OF demo_directory_valid])

lemma demo_provision: "provision_user compact demo_api demo_settings demo_claims demo_store =
    (Ok \<lparr> en_user = user_to_wire (the (bt_get (in_users demo_store) ''bob'')), en_created = False \<rparr>, demo_store)"
  by (simp add: provision_user_unfold demo_subject demo_find demo_bob)
    (simp add: demo_settings_def split: option.split)

lemma demo_validate: "validate_claims compact demo_claims [(''org'', ''acme'')] = Ok ()"
  by (simp add: demo_claims_def bt_get_def flatten_value_def)

lemma demo_app_simps [simp]: "ap_cfg demo_app = demo_config" "ap_unix_now demo_app s = 60" "ap_directory demo_app = demo_api"
  "ap_provision demo_app = demo_settings" "ap_header_ok demo_app t" "ap_b64 demo_app = hex64"
  "ap_check demo_app c accepts raw = (if accepts (Some ''n'') then Ok () else Err (OtherVerification ''nonce''))"
  "ap_payload demo_app raw = Ok demo_claims" "ap_parse_url demo_app u = None"
  "ap_sign demo_app k cl = Ok (lc_sub cl)" "ap_read_flow demo_app ''st'' = Some demo_flow"
  "ap_token_endpoint demo_app c = Some (\<lambda>code pkce uri s. (Ok \<lparr> tr_id_token = Some ''h.p.s'' \<rparr>, s))"
  "cc_max_length (sc_codec (ap_session demo_app)) = 0" "so_domain (sc_options (ap_session demo_app)) = None"
  by (simp_all add: demo_app_def)

lemma demo_verified: "verified_claims demo_app d code pkce uri (ExpectedNonce ''n'') refused w = (Ok (demo_claims, ''h.p.s''), w)"
  by (simp add: verified_claims_def exchange_code_def verify_id_token_def demo_config_def demo_validate
      del: validate_claims.simps)

lemma demo_finish:
  "\<exists>outcome. finish_login demo_app d demo_flow (Some ''code'') (p, demo_store) = (Ok outcome, (p, demo_store))
    \<and> lo_target outcome = ''/repos''"
  by (simp add: finish_login_def demo_flow_def FLOW_TTL_def demo_verified provision_in_def demo_provision mint_login_token_at_def
      session_login_def encode_at_def Let_def resolve_next_def new_login_claims_def)

lemma demo_inner:
  obtains outcome where "callback_inner demo_app (Some ''st'') demo_query (ready_provider, demo_store) = (Ok outcome, (ready_provider, demo_store))"
    "lo_target outcome = ''/repos''"
proof -
  obtain outcome where "finish_login demo_app \<lparr> di_client = (), di_end_session = None \<rparr> demo_flow (Some ''code'') (ready_provider, demo_store)
      = (Ok outcome, (ready_provider, demo_store))" "lo_target outcome = ''/repos''"
    using demo_finish by blast
  then show ?thesis
    by (intro that [of outcome])
      (simp_all add: callback_inner_def stored_flow_def Let_def demo_query_def state_matches_def check_state_def provider_ready_def
        ready_provider_def demo_flow_def)
qed

lemma demo_callback:
  "\<exists>ck. RawSetCookie ck \<in> set (bw_cookies (fst (callback demo_app (Some ''st'') demo_query (ready_provider, demo_store))))"
proof -
  obtain outcome where "callback_inner demo_app (Some ''st'') demo_query (ready_provider, demo_store) = (Ok outcome, (ready_provider, demo_store))"
    by (rule demo_inner)
  then show ?thesis by (auto simp: callback_def with_session_cookie_def)
qed

text \<open>A login of an unknown identity, which asks for a group that exists and one that does not.\<close>

definition demo_spec :: ensure_user_spec where
  "demo_spec = \<lparr> eu_external_id = ''sub-9'', eu_username = ''carol'', eu_email = None, eu_friendly_name = None,
     eu_source = ''oidc'', eu_groups = [''Admins'', ''Nobody''] \<rparr>"

lemma demo_spec_groups: "list_all entity_id_ok (eu_groups demo_spec)"
  by (simp add: demo_spec_def entity_id_ok_def has_control_def code_points_def utf8_cont_def byte_of_def is_control_def)

lemma demo_svc_create: "\<exists>u s1. svc_create_user mem_impl demo_env (user_creation_of demo_spec) demo_store = (Ok u, s1)"
proof -
  have v: "new_user_validated ''carol'' (user_fields_of (user_creation_of demo_spec)) 100 = Ok
     \<lparr> nu_username = ''carol'', nu_creation_date = 100, nu_friendly_name = None, nu_email = None,
       nu_source = Some ''oidc'', nu_external_id = Some ''sub-9'', nu_encrypted_password = None \<rparr>"
    by (simp add: new_user_validated_Ok entity_ids user_fields_of_def user_creation_of_def demo_spec_def optional_text_def
        non_blank_def Let_def ascii_simps)
  show ?thesis using v by (simp add: svc_create_user_def demo_env_def)
      (simp add: user_creation_of_def demo_spec_def create_row_def create_user_def insert_user_def demo_users bt_simps
        bt_get_def bt_values_def Let_def create_or_existing_def)
qed

lemma demo_create: "\<exists>u s1. da_create demo_api (user_creation_of demo_spec) demo_store = (Ok u, s1)"
proof -
  have "sv_env (loopback_server demo_env) = demo_env" by (simp add: loopback_server_def)
  then show ?thesis using demo_svc_create by (auto simp: client_api_def loopback.client_create)
qed

lemma demo_new_user: "\<exists>e s'. ensure_user demo_api demo_spec demo_store = (Ok e, s') \<and> en_created e"
proof -
  obtain u s1 where c: "da_create demo_api (user_creation_of demo_spec) demo_store = (Ok u, s1)" using demo_create by blast
  have x: "uc_external_id (user_creation_of demo_spec) = Some ''sub-9''" "trim ''sub-9'' \<noteq> []"
    by (simp_all add: user_creation_of_def demo_spec_def ascii_simps)
  note made = loopback.directory.create_Ok [OF demo_directory_valid c x]
  obtain s2 where "join_groups demo_api (u_username u) (eu_groups demo_spec) s1 = (Ok (), s2)"
    using loopback.directory.join_groups_all [of s1 "''sub-9''" u, OF _ _ demo_spec_groups] made by blast
  then have "create_user_with_groups demo_api demo_spec demo_store = (Ok \<lparr> en_user = u, en_created = True \<rparr>, s2)"
    using c by (simp add: create_user_with_groups_def then_call_def create_or_recover_def pure_call_def)
  then show ?thesis
    using demo_find [of "''sub-9''"] demo_unknown by (auto simp: ensure_user_def then_call_def demo_spec_def)
qed

end
