(* ===== verification/Server_Examples.thy ===== *)
theory Server_Examples
  imports Startup Examples
begin

text \<open>
  Concrete servers over the PostgreSQL store, for the properties of \<open>Spec2Isabelle\<close>: a database that answers,
  tables filled by the operations of the example of \<open>Examples\<close>, a configuration with a bootstrap file, and a
  policy builder in front of a lakeFS that accepts what it is sent.
\<close>

section \<open>Tables\<close>

definition demo_pg :: pg_env where
  "demo_pg = \<lparr> pg_down = None, pg_report = hd, pg_display = (\<lambda>_. ''database error'') \<rparr>"

lemma demo_pg_up: "pg_up demo_pg" and demo_pg_works: "pg_works demo_pg"
  by (simp_all add: pg_up_def pg_works_def demo_pg_def report_ok_def)

lemma pg_reachable_fold: "pg_works env \<Longrightarrow> pg_reachable d \<Longrightarrow> pg_reachable (fold (pg_run_op env) ops d)"
  by (induction ops arbitrary: d) (simp_all add: pg_reachable.step)

definition demo_db :: db where
  "demo_db = fold (pg_run_op demo_pg) demo_ops empty_db"

lemma demo_db_reachable: "pg_reachable demo_db"
  unfolding demo_db_def by (intro pg_reachable_fold demo_pg_works pg_reachable.init)

section \<open>A start with a bootstrap file\<close>

definition demo_file :: bootstrap_file where
  "demo_file = \<lparr> bf_version = Some 1, bf_policies = [],
     bf_groups = [\<lparr> sg_id = ''Admins'', sg_description = None, sg_policies = [] \<rparr>],
     bf_users = [\<lparr> su_username = ''admin'', su_email = None, su_friendly_name = None, su_source = None,
        su_external_id = None, su_groups = [''Admins''], su_policies = [],
        su_credentials = [\<lparr> sc_access_key_id = ''AKIA'', sc_secret_access_key = None,
          sc_secret_access_key_env = Some ''ADMIN_SECRET'' \<rparr>] \<rparr>] \<rparr>"

definition demo_authz_config :: authz_config where
  "demo_authz_config = \<lparr> az_listen = ''0.0.0.0:8001'', az_base_path = ''/api/v1'', az_secret_key = Some ''shared'',
     az_api_token = None, az_encryption_key = None, az_disable_auth = False, az_database_url = ''postgres://db'',
     az_database_max_connections = 10, az_run_migrations = True, az_bootstrap_file = Some ''/etc/bootstrap.yaml'',
     az_request_timeout = 30, az_cors_allow_origins = [], az_token_cleanup_interval = 3600,
     az_metrics_listen = None, az_builder_listen = None, az_lakefs_endpoint = None, az_log_level = ''info'',
     az_log_format = ''text'' \<rparr>"

text \<open>A start draws its own nonces at its own time.\<close>

definition demo_start_at :: "int \<Rightarrow> u8 list \<Rightarrow> start_env" where
  "demo_start_at now nonce = \<lparr> st_pg = demo_pg, st_connect = (\<lambda>_ _. Ok ()), st_migrate = Ok (),
     st_hkdf = (\<lambda>_ ikm _ n. Some (take n (ikm @ replicate n 0))), st_aes256gcm = (\<lambda>_. demo_box),
     st_parse_list = (\<lambda>_. Err []), st_parse_yaml = (\<lambda>_. Ok demo_file),
     st_read_to_string = (\<lambda>path. if path = ''/etc/bootstrap.yaml'' then Some ''version: 1'' else None),
     st_variable = (\<lambda>name. if name = ''ADMIN_SECRET'' then Some ''s3cret'' else None),
     st_nonces = (\<lambda>_. nonce), st_now = now \<rparr>"

definition first_start :: start_env where "first_start = demo_start_at 10 (replicate 12 1)"
definition second_start :: start_env where "second_start = demo_start_at 20 (replicate 12 2)"

lemma start_works: "pg_works (st_pg first_start)" "pg_works (st_pg second_start)"
  by (simp_all add: first_start_def second_start_def demo_start_at_def demo_pg_works)

lemma demo_shared: "given_secret (az_secret_key demo_authz_config) = Some ''shared''" "given_secret None = None"
  by (simp_all add: given_secret_def non_blank_def demo_authz_config_def trim_graphic byte_of_def)

lemma demo_verifier: "is_ok (authz_verifier demo_authz_config)"
proof -
  have "az_api_token demo_authz_config = None" by (simp add: demo_authz_config_def)
  then show ?thesis
    by (simp add: authz_verifier_def new_verifier_def demo_shared non_blank_def trim_graphic byte_of_def Let_def)
qed

lemma demo_checks: "\<exists>v. start_checks (demo_start_at now nonce) demo_authz_config d = Ok (v, demo_box)"
proof -
  obtain v where "authz_verifier demo_authz_config = Ok v" using demo_verifier by (auto simp: is_ok_iff)
  moreover have "az_encryption_key demo_authz_config = None" by (simp add: demo_authz_config_def)
  ultimately show ?thesis using demo_shared
    by (simp add: start_checks_def authz_secret_box_def derive_box_def demo_start_at_def
        pg_ping_def fetch_all_def demo_pg_def opt_or_def)
qed

definition demo_boot_plan :: "int \<Rightarrow> u8 list \<Rightarrow> boot_error + bootstrap_plan" where
  "demo_boot_plan now nonce = plan_of_file (\<lambda>_. Err []) demo_box (\<lambda>_. nonce)
     (\<lambda>name. if name = ''ADMIN_SECRET'' then Some ''s3cret'' else None) now demo_file"

lemma demo_not_blank: "\<not> is_blank_document ''version: 1''"
  by code_simp

lemma demo_start_plan: "start_plan (demo_start_at now nonce) demo_box ''/etc/bootstrap.yaml'' = demo_boot_plan now nonce"
  using demo_not_blank
  by (simp add: start_plan_def load_plan_def parse_plan_with_env_def read_file_def demo_start_at_def demo_boot_plan_def)

lemma demo_boot_applies: "case demo_boot_plan 10 (replicate 12 1) of Inr p \<Rightarrow> is_ok (fst (pg_apply_boot_file demo_pg p empty_db)) | Inl e \<Rightarrow> False"
  by code_simp

lemma demo_boot_again: "is_ok (demo_boot_plan 20 (replicate 12 2))"
  by code_simp

lemma first_start_ok: "is_ok (fst (authz_start first_start demo_authz_config empty_db))"
proof -
  obtain v where "start_checks first_start demo_authz_config empty_db = Ok (v, demo_box)"
    unfolding first_start_def using demo_checks by blast
  moreover have "az_bootstrap_file demo_authz_config = Some ''/etc/bootstrap.yaml''" by (simp add: demo_authz_config_def)
  moreover have "st_pg first_start = demo_pg" by (simp add: first_start_def demo_start_at_def)
  moreover have "start_plan first_start demo_box ''/etc/bootstrap.yaml'' = demo_boot_plan 10 (replicate 12 1)"
    by (simp add: first_start_def demo_start_plan)
  ultimately show ?thesis using demo_boot_applies
    by (auto simp: authz_start_def is_ok_iff split: sum.splits prod.splits)
qed

section \<open>A policy builder\<close>

definition demo_lakefs :: "unit lakefs_env" where
  "demo_lakefs = \<lparr> le_send = (\<lambda>q s. (Ok \<lparr> lr_status = (if lq_method q = POST then 201 else 200), lr_user = Ok ''alice'',
       lr_named = Ok ''P'', lr_page = Ok ([''main''], []), lr_error = None \<rparr>, s)),
     le_percent_encode = (\<lambda>_ s. s), le_status_text = (\<lambda>_. ''status''), le_debug = (\<lambda>s. s), le_header_ok = (\<lambda>_. True) \<rparr>"

definition demo_builder_request :: builder_request where
  "demo_builder_request = \<lparr> bq_method = POST, bq_path = ''/api/policies'',
     bq_cookie = Some ''theme=dark; internal_auth_session=abc'', bq_sec_fetch_site = Some ''same-origin'', bq_origin = None,
     bq_host = None, bq_body = Ok (''P'', [\<lparr> st_effect = Allow, st_resource = ''*'', st_action = [''fs:ReadObject''], st_condition = None \<rparr>]) \<rparr>"

definition demo_builder_log :: "builder_request \<Rightarrow> lakefs_request list" where
  "demo_builder_log rq = fst (snd (serve_builder (\<lambda>_. Err []) Some (logging_env demo_lakefs)
     (Some \<lparr> lc_endpoint = ''http://lakefs:8000'' \<rparr>) rq ([], ())))"

lemma demo_cookie: "map (split_once CHR ''='') (split_on CHR '';'' ''theme=dark; internal_auth_session=abc'')
    = [Some (''theme'', ''dark''), Some ('' internal_auth_session'', ''abc'')]"
  by code_simp

lemma demo_cookie_names: "map trim [''theme'', '' internal_auth_session'', ''abc''] = [''theme'', ''internal_auth_session'', ''abc'']"
  by (simp add: trim_blank trim_graphic byte_of_def)

lemma demo_session: "session_from_cookie_header (\<lambda>_. True) ''theme=dark; internal_auth_session=abc'' = Some ''internal_auth_session=abc''"
  using demo_cookie demo_cookie_names
  by (auto simp: session_from_cookie_header_def SESSION_COOKIE_def map_eq_Cons_conv)

lemma demo_builder_session: "builder_session demo_lakefs demo_builder_request = Some ''internal_auth_session=abc''"
  by (simp add: builder_session_def demo_lakefs_def demo_builder_request_def demo_session)

lemma demo_policy_valid: "validate_policy (\<lambda>_. Err []) ''P'' [\<lparr> st_effect = Allow, st_resource = ''*'',
    st_action = [''fs:ReadObject''], st_condition = None \<rparr>] = Ok ()"
proof -
  have "is_ok (validate_policy (\<lambda>_. Err []) ''P'' [\<lparr> st_effect = Allow, st_resource = ''*'',
    st_action = [''fs:ReadObject''], st_condition = None \<rparr>])" by code_simp
  then show ?thesis by (simp add: is_ok_iff)
qed

lemma demo_same_origin: "same_origin demo_builder_request = Ok ()"
  "same_origin (demo_builder_request\<lparr> bq_sec_fetch_site := Some ''cross-site'' \<rparr>) = Err CrossOrigin"
  by code_simp+

text \<open>The path is that of the fourth route, and of no route before it.\<close>

lemma demo_builder_route:
  "find_map (\<lambda>(template, r). map_option (Pair r) (match_template template ''/api/policies'')) builder_router
     = Some ((POST, BuilderCreate), [])"
proof -
  have "match_template ''/'' ''/api/policies'' = None" "match_template ''/api/context'' ''/api/policies'' = None"
    "match_template ''/api/names'' ''/api/policies'' = None" "match_template ''/api/policies'' ''/api/policies'' = Some []"
    by code_simp+
  then show ?thesis by (simp add: builder_router_def)
qed

lemma demo_builder_handler: "builder_create_policy (\<lambda>_. Err []) (logging_env demo_lakefs) (Some \<lparr> lc_endpoint = ''http://lakefs:8000'' \<rparr>)
    demo_builder_request ([], ()) = (Ok (201, CreatedReply ''P''), ([\<lparr> lq_method = POST, lq_url = ''http://lakefs:8000/auth/policies'',
      lq_cookie = ''internal_auth_session=abc'', lq_policy = Some (''P'', [\<lparr> st_effect = Allow, st_resource = ''*'',
        st_action = [''fs:ReadObject''], st_condition = None \<rparr>]) \<rparr>], ()))"
proof -
  have "read_policy_request demo_builder_request = Ok (''P'', [\<lparr> st_effect = Allow, st_resource = ''*'',
        st_action = [''fs:ReadObject''], st_condition = None \<rparr>])"
    by (simp add: read_policy_request_def demo_builder_request_def)
  moreover have "live (logging_env demo_lakefs) (Some \<lparr> lc_endpoint = ''http://lakefs:8000'' \<rparr>) demo_builder_request
      = Ok (\<lparr> lc_endpoint = ''http://lakefs:8000'' \<rparr>, ''internal_auth_session=abc'')"
    by (simp add: live_def demo_builder_session)
  ultimately show ?thesis
    by (simp add: builder_create_policy_def demo_same_origin as_caller_def demo_policy_valid ask_def lakefs_create_policy_def)
      (simp add: logging_env_def demo_lakefs_def)
qed

lemma demo_builder_creates: "map (\<lambda>q. (lq_method q, lq_url q, lq_cookie q)) (demo_builder_log demo_builder_request)
    = [(POST, ''http://lakefs:8000/auth/policies'', ''internal_auth_session=abc'')]"
proof -
  have "bq_path demo_builder_request = ''/api/policies''" "bq_method demo_builder_request = POST"
    by (simp_all add: demo_builder_request_def)
  then show ?thesis
    by (simp add: demo_builder_log_def serve_builder_def demo_builder_route builder_handler_of_def demo_builder_handler)
qed

end
