(* ===== verification/Conformance.thy ===== *)
theory Conformance
  imports Store_Trait "HOL-Library.Monad_Syntax"
begin

text \<open>
  The conformance suite every store has to pass,
      \<open>lakefs-authz/src/store/testsuite.rs\<close>: each case is a run of
  operations on a store, with \<open>None\<close> for the panic of a failed assertion,
      an \<open>expect\<close> of an error or an
  \<open>expect_err\<close> of a success.  The clock is one reading for the run.
\<close>

section \<open>Expectations\<close>

type_synonym 's suite_case = "int \<Rightarrow> 's store_trait \<Rightarrow> 's \<Rightarrow> 's option"

definition ensure :: "bool \<Rightarrow> unit option" where
  "ensure b = (if b then Some () else None)"

definition expect :: "'e + 'a \<Rightarrow> 'a option" where
  "expect r = (case r of Inr x \<Rightarrow> Some x | Inl _ \<Rightarrow> None)"

definition expect_err :: "'e + 'a \<Rightarrow> 'e option" where
  "expect_err r = (case r of Inr _ \<Rightarrow> None | Inl e \<Rightarrow> Some e)"

text \<open>The same on an operation that hands on the state.\<close>

definition expects :: "('e + 'a) \<times> 's \<Rightarrow> ('a \<times> 's) option" where
  "expects r = map_option (\<lambda>x. (x, snd r)) (expect (fst r))"

definition expects_err :: "('e + 'a) \<times> 's \<Rightarrow> ('e \<times> 's) option" where
  "expects_err r = map_option (\<lambda>e. (e, snd r)) (expect_err (fst r))"

text \<open>A loop over literals.\<close>

fun for_each :: "'a list \<Rightarrow> ('a \<Rightarrow> 's \<Rightarrow> 's option) \<Rightarrow> 's \<Rightarrow>
    's option" where
  "for_each [] f s = Some s"
| "for_each (x # xs) f s = Option.bind (f x s) (for_each xs f)"

fun str_contains :: "string \<Rightarrow> string \<Rightarrow> bool" where
  "str_contains needle [] \<longleftrightarrow> needle = []"
| "str_contains needle (c # cs) \<longleftrightarrow> starts_with needle (c # cs) \<or> str_contains needle cs"

definition suite_statement :: statement where
  "suite_statement = \<lparr> st_effect = Allow, st_resource = ''*'', st_action = [''fs:*''],
      st_condition = None \<rparr>"

definition suite_policy :: "int \<Rightarrow> string \<Rightarrow> new_policy" where
  "suite_policy now name = \<lparr> np_name = name, np_creation_date = now, np_statement = [suite_statement],
      np_acl = None \<rparr>"

text \<open>The secret is the bytes of \<open>ciphertext\<close>.\<close>

definition CIPHERTEXT :: "u8 list" where "CIPHERTEXT = [99, 105, 112, 104, 101, 114, 116, 101, 120, 116]"

definition suite_credential :: "int \<Rightarrow> string \<Rightarrow> string \<Rightarrow> new_credential" where
  "suite_credential now access_key_id username = \<lparr> nc_access_key_id = access_key_id, nc_username = username,
     nc_secret_ciphertext = CIPHERTEXT, nc_creation_date = now \<rparr>"

definition page :: "string \<Rightarrow> string \<Rightarrow> int \<Rightarrow> page_query" where
  "page prefix after limit = \<lparr> q_prefix = prefix, q_after = after, q_limit = limit \<rparr>"

definition usernames :: "user_record page_of \<Rightarrow> string list" where
  "usernames p = map ur_username (po_items p)"
definition group_ids :: "group_record page_of \<Rightarrow> string list" where
  "group_ids p = map gr_id (po_items p)"
definition policy_names :: "policy_record page_of \<Rightarrow> string list" where
  "policy_names p = map pr_name (po_items p)"
definition access_key_ids :: "credential_record page_of \<Rightarrow> string list" where
  "access_key_ids p = map cr_access_key_id (po_items p)"

section \<open>The cases\<close>

text \<open>Create, read, update, delete, and the three lookups of a listing of users.\<close>

definition suite_user_round_trip :: "'s suite_case" where
  "suite_user_round_trip now st s = do {
     let user = (new_user_named now ''rt-alice'')\<lparr> nu_friendly_name := Some ''Alice'',
         nu_email := Some ''rt-alice@example.com'', nu_source := Some ''internal'',
             nu_external_id := Some ''rt-sub-1'', nu_encrypted_password := Some [112, 119] \<rparr>;
     (created, s) \<leftarrow> expects (so_create_user st user s);
     ensure (0 < ur_user_id created);
     ensure (ur_username created = ''rt-alice'');
     ensure (ur_encrypted_password created = Some [112, 119]);
     loaded \<leftarrow> expect (so_get_user st s ''rt-alice'');
     ensure (loaded = created);
     by_id \<leftarrow> expect (so_find_user_by_id st s (ur_user_id created));
     ensure (by_id = Some created);
     by_email \<leftarrow> expect (so_find_user_by_email st s ''rt-alice@example.com'');
     ensure (by_email = Some created);
     by_external \<leftarrow> expect (so_find_user_by_external_id st s ''rt-sub-1'');
     ensure (by_external = Some created);
     missed_id \<leftarrow> expect (so_find_user_by_id st s (- 1));
     ensure (missed_id = None);
     missed_email \<leftarrow> expect (so_find_user_by_email st s ''nobody'');
     ensure (missed_email = None);
     missed_external \<leftarrow> expect (so_find_user_by_external_id st s ''nobody'');
     ensure (missed_external = None);
     (_, s) \<leftarrow> expects (so_set_friendly_name st ''rt-alice'' ''Alice Renamed'' s);
     renamed \<leftarrow> expect (so_get_user st s ''rt-alice'');
     ensure (ur_friendly_name renamed = Some ''Alice Renamed'');
     (_, s) \<leftarrow> expects (so_delete_user st ''rt-alice'' s);
     error \<leftarrow> expect_err (so_get_user st s ''rt-alice'');
     ensure (is_not_found error);
     (again, s) \<leftarrow> expects_err (so_delete_user st ''rt-alice'' s);
     Some s
   }"

text \<open>Groups and policies, with the update of a policy.\<close>

definition suite_group_and_policy_round_trip :: "'s suite_case" where
  "suite_group_and_policy_round_trip now st s = do {
     let group = (new_group_named now ''gp-Data'')\<lparr> ng_description := Some ''data team'' \<rparr>;
     (created, s) \<leftarrow> expects (so_create_group st group s);
     ensure (gr_id created = ''gp-Data'');
     loaded \<leftarrow> expect (so_get_group st s ''gp-Data'');
     ensure (loaded = created);
     (policy, s) \<leftarrow> expects (so_create_policy st (suite_policy now ''gp-Policy'') s);
     ensure (pr_statement policy = [suite_statement]);
     let updated = (suite_policy now ''gp-Policy'')\<lparr> np_statement := [\<lparr> st_effect = Deny,
         st_resource = ''*'', st_action = [''auth:*''], st_condition = None \<rparr>], np_acl := Some ''read'' \<rparr>;
     (stored, s) \<leftarrow> expects (so_update_policy st updated s);
     ensure (map st_effect (take 1 (pr_statement stored)) = [Deny]);
     ensure (pr_acl stored = Some ''read'');
     reread \<leftarrow> expect (so_get_policy st s ''gp-Policy'');
     ensure (reread = stored);
     (missing, s) \<leftarrow> expects_err (so_update_policy st (suite_policy now ''gp-Unknown'') s);
     ensure (is_not_found missing);
     (_, s) \<leftarrow> expects (so_delete_group st ''gp-Data'' s);
     (_, s) \<leftarrow> expects (so_delete_policy st ''gp-Policy'' s);
     expect_err (so_get_group st s ''gp-Data'');
     expect_err (so_get_policy st s ''gp-Policy'');
     Some s
   }"

text \<open>Every unique key rejects a second insert.\<close>

definition suite_duplicates_are_rejected :: "'s suite_case" where
  "suite_duplicates_are_rejected now st s = do {
     let user = (new_user_named now ''dup-user'')\<lparr> nu_email := Some ''dup@example.com'',
         nu_external_id := Some ''dup-sub'' \<rparr>;
     (_, s) \<leftarrow> expects (so_create_user st user s);
     (same_name, s) \<leftarrow> expects_err (so_create_user st user s);
     ensure (is_already_exists same_name);
     (error, s) \<leftarrow> expects_err (so_create_user st ((new_user_named now ''dup-user-2'')\<lparr> nu_email :=
         Some ''dup@example.com'' \<rparr>) s);
     ensure (is_already_exists error);
     ensure (str_contains ''email'' (store_error_display error) \<and> str_contains ''dup@example.com''
         (store_error_display error));
     (error, s) \<leftarrow> expects_err (so_create_user st ((new_user_named now ''dup-user-3'')\<lparr>
         nu_external_id := Some ''dup-sub'' \<rparr>) s);
     ensure (is_already_exists error);
     ensure (str_contains ''external id'' (store_error_display error) \<and> str_contains ''dup-sub''
         (store_error_display error));
     (_, s) \<leftarrow> expects (so_create_group st (new_group_named now ''dup-group'') s);
     (error, s) \<leftarrow> expects_err (so_create_group st (new_group_named now ''dup-group'') s);
     ensure (is_already_exists error);
     (_, s) \<leftarrow> expects (so_create_policy st (suite_policy now ''dup-policy'') s);
     (error, s) \<leftarrow> expects_err (so_create_policy st (suite_policy now ''dup-policy'') s);
     ensure (is_already_exists error);
     Some s
   }"

text \<open>Deleting a user removes memberships, attachments, credentials and principals.\<close>

definition suite_deleting_a_user_cascades :: "'s suite_case" where
  "suite_deleting_a_user_cascades now st s = do {
     (_, s) \<leftarrow> expects (so_create_user st (new_user_named now ''cu-user'') s);
     (_, s) \<leftarrow> expects (so_create_group st (new_group_named now ''cu-group'') s);
     (_, s) \<leftarrow> expects (so_create_policy st (suite_policy now ''cu-policy'') s);
     (_, s) \<leftarrow> expects (so_add_membership st ''cu-group'' ''cu-user'' s);
     (_, s) \<leftarrow> expects (so_attach_policy_to_user st ''cu-user'' ''cu-policy'' s);
     (_, s) \<leftarrow> expects (so_create_credential st (suite_credential now ''cu-key'' ''cu-user'') s);
     (_, s) \<leftarrow> expects (so_create_external_principal st ''cu-user'' ''cu-principal'' s);
     (_, s) \<leftarrow> expects (so_delete_user st ''cu-user'' s);
     members \<leftarrow> expect (so_list_group_members st s ''cu-group'' (page ''cu-'' [] 10));
     ensure (po_items members = []);
     expect_err (so_get_credential st s ''cu-key'');
     expect_err (so_get_external_principal st s ''cu-principal'');
     expect (so_get_group st s ''cu-group'');
     expect (so_get_policy st s ''cu-policy'');
     Some s
   }"

text \<open>Deleting a group removes its memberships and attachments but keeps the users.\<close>

definition suite_deleting_a_group_cascades :: "'s suite_case" where
  "suite_deleting_a_group_cascades now st s = do {
     (_, s) \<leftarrow> expects (so_create_user st (new_user_named now ''cg-user'') s);
     (_, s) \<leftarrow> expects (so_create_group st (new_group_named now ''cg-group'') s);
     (_, s) \<leftarrow> expects (so_create_policy st (suite_policy now ''cg-policy'') s);
     (_, s) \<leftarrow> expects (so_add_membership st ''cg-group'' ''cg-user'' s);
     (_, s) \<leftarrow> expects (so_attach_policy_to_group st ''cg-group'' ''cg-policy'' s);
     (_, s) \<leftarrow> expects (so_delete_group st ''cg-group'' s);
     expect (so_get_user st s ''cg-user'');
     groups \<leftarrow> expect (so_list_user_groups st s ''cg-user'' (page ''cg-'' [] 10));
     ensure (po_items groups = []);
     effective \<leftarrow> expect (so_list_effective_user_policies st s ''cg-user'' (page ''cg-'' [] 10));
     ensure (po_items effective = []);
     Some s
   }"

text \<open>Deleting a policy removes both kinds of attachment.\<close>

definition suite_deleting_a_policy_cascades :: "'s suite_case" where
  "suite_deleting_a_policy_cascades now st s = do {
     (_, s) \<leftarrow> expects (so_create_user st (new_user_named now ''cp-user'') s);
     (_, s) \<leftarrow> expects (so_create_group st (new_group_named now ''cp-group'') s);
     (_, s) \<leftarrow> expects (so_create_policy st (suite_policy now ''cp-policy'') s);
     (_, s) \<leftarrow> expects (so_add_membership st ''cp-group'' ''cp-user'' s);
     (_, s) \<leftarrow> expects (so_attach_policy_to_user st ''cp-user'' ''cp-policy'' s);
     (_, s) \<leftarrow> expects (so_attach_policy_to_group st ''cp-group'' ''cp-policy'' s);
     (_, s) \<leftarrow> expects (so_delete_policy st ''cp-policy'' s);
     direct \<leftarrow> expect (so_list_user_policies st s ''cp-user'' (page ''cp-'' [] 10));
     ensure (po_items direct = []);
     group_policies \<leftarrow> expect (so_list_group_policies st s ''cp-group'' (page ''cp-'' [] 10));
     ensure (po_items group_policies = []);
     Some s
   }"

text \<open>Uppercase, underscore and lowercase sort by byte value.\<close>

definition suite_keys_sort_bytewise :: "'s suite_case" where
  "suite_keys_sort_bytewise now st s = do {
     s \<leftarrow> for_each [''bo-a'', ''bo-Z'', ''bo-_'', ''bo-A''] (\<lambda>name s. do {
       (_, s) \<leftarrow> expects (so_create_user st (new_user_named now name) s);
       (_, s) \<leftarrow> expects (so_create_group st (new_group_named now name) s);
       (_, s) \<leftarrow> expects (so_create_policy st (suite_policy now name) s);
       Some s
     }) s;
     users \<leftarrow> expect (so_list_users st s (page ''bo-'' [] 10));
     ensure (usernames users = [''bo-A'', ''bo-Z'', ''bo-_'', ''bo-a'']);
     groups \<leftarrow> expect (so_list_groups st s (page ''bo-'' [] 10));
     ensure (group_ids groups = [''bo-A'', ''bo-Z'', ''bo-_'', ''bo-a'']);
     policies \<leftarrow> expect (so_list_policies st s (page ''bo-'' [] 10));
     ensure (policy_names policies = [''bo-A'', ''bo-Z'', ''bo-_'', ''bo-a'']);
     Some s
   }"

text \<open>Underscore and percent in a prefix are literal on every list.\<close>

definition suite_prefixes_escape_like_wildcards :: "'s suite_case" where
  "suite_prefixes_escape_like_wildcards now st s = do {
     s \<leftarrow> for_each [''pe_a'', ''pe_b'', ''peXa'', ''pe%c'', ''peYc''] (\<lambda>name s. do {
       (_, s) \<leftarrow> expects (so_create_user st (new_user_named now name) s);
       (_, s) \<leftarrow> expects (so_create_group st (new_group_named now name) s);
       (_, s) \<leftarrow> expects (so_create_policy st (suite_policy now name) s);
       Some s
     }) s;
     underscore \<leftarrow> expect (so_list_users st s (page ''pe_'' [] 10));
     ensure (usernames underscore = [''pe_a'', ''pe_b'']);
     percent \<leftarrow> expect (so_list_users st s (page ''pe%'' [] 10));
     ensure (usernames percent = [''pe%c'']);
     underscore \<leftarrow> expect (so_list_groups st s (page ''pe_'' [] 10));
     ensure (group_ids underscore = [''pe_a'', ''pe_b'']);
     percent \<leftarrow> expect (so_list_groups st s (page ''pe%'' [] 10));
     ensure (group_ids percent = [''pe%c'']);
     underscore \<leftarrow> expect (so_list_policies st s (page ''pe_'' [] 10));
     ensure (policy_names underscore = [''pe_a'', ''pe_b'']);
     percent \<leftarrow> expect (so_list_policies st s (page ''pe%'' [] 10));
     ensure (policy_names percent = [''pe%c'']);
     Some s
   }"

text \<open>Groups and policies page with the same rules as users.\<close>

definition suite_groups_and_policies_page_like_users :: "'s suite_case" where
  "suite_groups_and_policies_page_like_users now st s = do {
     s \<leftarrow> for_each [''pq-1'', ''pq-2'', ''pq-3''] (\<lambda>name s. do {
       (_, s) \<leftarrow> expects (so_create_group st (new_group_named now name) s);
       (_, s) \<leftarrow> expects (so_create_policy st (suite_policy now name) s);
       Some s
     }) s;
     first_groups \<leftarrow> expect (so_list_groups st s (page ''pq-'' [] 2));
     ensure (group_ids first_groups = [''pq-1'', ''pq-2'']);
     ensure (po_next_offset first_groups = Some ''pq-2'');
     second_groups \<leftarrow> expect (so_list_groups st s (page ''pq-'' ''pq-2'' 2));
     ensure (group_ids second_groups = [''pq-3'']);
     ensure (po_next_offset second_groups = None);
     first_policies \<leftarrow> expect (so_list_policies st s (page ''pq-'' [] 2));
     ensure (policy_names first_policies = [''pq-1'', ''pq-2'']);
     ensure (po_next_offset first_policies = Some ''pq-2'');
     second_policies \<leftarrow> expect (so_list_policies st s (page ''pq-'' ''pq-2'' 2));
     ensure (policy_names second_policies = [''pq-3'']);
     ensure (po_next_offset second_policies = None);
     Some s
   }"

text \<open>The cursor skips the row with that key, and a full page may be the last.\<close>

definition suite_pagination_is_keyset_and_exclusive :: "'s suite_case" where
  "suite_pagination_is_keyset_and_exclusive now st s = do {
     s \<leftarrow> for_each [''pg-1'', ''pg-2'', ''pg-3'',
         ''pg-4''] (\<lambda>name s. map_option snd (expects (so_create_user st (new_user_named now name) s))) s;
     exact \<leftarrow> expect (so_list_users st s (page ''pg-'' [] 4));
     ensure (usernames exact = [''pg-1'', ''pg-2'', ''pg-3'', ''pg-4'']);
     ensure (po_next_offset exact = None);
     ensure (pg_next_offset (lr_pagination (into_response exact)) = []);
     first_page \<leftarrow> expect (so_list_users st s (page ''pg-'' [] 2));
     ensure (usernames first_page = [''pg-1'', ''pg-2'']);
     ensure (po_next_offset first_page = Some ''pg-2'');
     second_page \<leftarrow> expect (so_list_users st s (page ''pg-'' ''pg-2'' 2));
     ensure (usernames second_page = [''pg-3'', ''pg-4'']);
     ensure (po_next_offset second_page = None);
     past_end \<leftarrow> expect (so_list_users st s (page ''pg-'' ''pg-4'' 2));
     ensure (po_items past_end = []);
     ensure (po_next_offset past_end = None);
     Some s
   }"

text \<open>The walk lakeFS performs; a store whose cursor never ends is one on which the suite does not return.\<close>

partial_function (option) effective_walk :: "'s store_trait \<Rightarrow> 's \<Rightarrow> string list \<Rightarrow>
    string \<Rightarrow> string list option" where
  "effective_walk st s seen after = do {
     chunk \<leftarrow> expect (so_list_effective_user_policies st s ''ef-user'' (page ''ef-'' after 2));
     let next_offset = pg_next_offset (lr_pagination (into_response chunk));
     if next_offset = [] then Some (seen @ policy_names chunk)
     else effective_walk st s (seen @ policy_names chunk) next_offset
   }"

text \<open>The effective set is the union of direct and group policies, each once.\<close>

definition suite_effective_policies_are_a_union :: "'s suite_case" where
  "suite_effective_policies_are_a_union now st s = do {
     (_, s) \<leftarrow> expects (so_create_user st (new_user_named now ''ef-user'') s);
     s \<leftarrow> for_each [''ef-p1'', ''ef-p2'', ''ef-p3'',
         ''ef-p4''] (\<lambda>name s. map_option snd (expects (so_create_policy st (suite_policy now name) s))) s;
     s \<leftarrow> for_each [''ef-g1'', ''ef-g2''] (\<lambda>i s. do { (_,
         s) \<leftarrow> expects (so_create_group st (new_group_named now i) s); (_,
             s) \<leftarrow> expects (so_add_membership st i ''ef-user'' s); Some s }) s;
     (_, s) \<leftarrow> expects (so_attach_policy_to_user st ''ef-user'' ''ef-p1'' s);
     (_, s) \<leftarrow> expects (so_attach_policy_to_group st ''ef-g1'' ''ef-p1'' s);
     (_, s) \<leftarrow> expects (so_attach_policy_to_group st ''ef-g1'' ''ef-p2'' s);
     (_, s) \<leftarrow> expects (so_attach_policy_to_group st ''ef-g2'' ''ef-p2'' s);
     (_, s) \<leftarrow> expects (so_attach_policy_to_group st ''ef-g2'' ''ef-p3'' s);
     direct \<leftarrow> expect (so_list_user_policies st s ''ef-user'' (page ''ef-'' [] 100));
     ensure (policy_names direct = [''ef-p1'']);
     effective \<leftarrow> expect (so_list_effective_user_policies st s ''ef-user'' (page ''ef-'' [] 100));
     ensure (policy_names effective = [''ef-p1'', ''ef-p2'', ''ef-p3'']);
     ensure (po_next_offset effective = None);
     seen \<leftarrow> effective_walk st s [] [];
     ensure (seen = [''ef-p1'', ''ef-p2'', ''ef-p3'']);
     Some s
   }"

text \<open>Memberships and attachments may repeat and reject missing references.\<close>

definition suite_memberships_and_attachments :: "'s suite_case" where
  "suite_memberships_and_attachments now st s = do {
     (_, s) \<leftarrow> expects (so_create_user st (new_user_named now ''ma-user'') s);
     (_, s) \<leftarrow> expects (so_create_group st (new_group_named now ''ma-group'') s);
     (_, s) \<leftarrow> expects (so_create_policy st (suite_policy now ''ma-policy'') s);
     (_, s) \<leftarrow> expects (so_add_membership st ''ma-group'' ''ma-user'' s);
     (_, s) \<leftarrow> expects (so_add_membership st ''ma-group'' ''ma-user'' s);
     members \<leftarrow> expect (so_list_group_members st s ''ma-group'' (page ''ma-'' [] 10));
     ensure (usernames members = [''ma-user'']);
     groups \<leftarrow> expect (so_list_user_groups st s ''ma-user'' (page ''ma-'' [] 10));
     ensure (group_ids groups = [''ma-group'']);
     (_, s) \<leftarrow> expects (so_attach_policy_to_user st ''ma-user'' ''ma-policy'' s);
     (_, s) \<leftarrow> expects (so_attach_policy_to_user st ''ma-user'' ''ma-policy'' s);
     attached \<leftarrow> expect (so_list_user_policies st s ''ma-user'' (page ''ma-'' [] 10));
     ensure (policy_names attached = [''ma-policy'']);
     (missing_user, s) \<leftarrow> expects_err (so_add_membership st ''ma-group'' ''ma-nobody'' s);
     ensure (is_not_found missing_user);
     (missing_group, s) \<leftarrow> expects_err (so_add_membership st ''ma-nogroup'' ''ma-user'' s);
     ensure (is_not_found missing_group);
     (missing_policy, s) \<leftarrow> expects_err (so_attach_policy_to_user st ''ma-user'' ''ma-nopolicy'' s);
     ensure (is_not_found missing_policy);
     (_, s) \<leftarrow> expects (so_remove_membership st ''ma-group'' ''ma-user'' s);
     (error, s) \<leftarrow> expects_err (so_remove_membership st ''ma-group'' ''ma-user'' s);
     ensure (is_not_found error);
     (_, s) \<leftarrow> expects (so_detach_policy_from_user st ''ma-user'' ''ma-policy'' s);
     (error, s) \<leftarrow> expects_err (so_detach_policy_from_user st ''ma-user'' ''ma-policy'' s);
     ensure (is_not_found error);
     (_, s) \<leftarrow> expects (so_attach_policy_to_group st ''ma-group'' ''ma-policy'' s);
     (_, s) \<leftarrow> expects (so_attach_policy_to_group st ''ma-group'' ''ma-policy'' s);
     attached \<leftarrow> expect (so_list_group_policies st s ''ma-group'' (page ''ma-'' [] 10));
     ensure (policy_names attached = [''ma-policy'']);
     (_, s) \<leftarrow> expects (so_detach_policy_from_group st ''ma-group'' ''ma-policy'' s);
     (error, s) \<leftarrow> expects_err (so_detach_policy_from_group st ''ma-group'' ''ma-policy'' s);
     ensure (is_not_found error);
     attached \<leftarrow> expect (so_list_group_policies st s ''ma-group'' (page ''ma-'' [] 10));
     ensure (po_items attached = []);
     Some s
   }"

text \<open>A listing of a missing user or group is an error, not an empty page.\<close>

definition suite_sub_resources_require_the_parent :: "'s suite_case" where
  "suite_sub_resources_require_the_parent now st s = do {
     groups \<leftarrow> expect_err (so_list_user_groups st s ''sr-nobody'' (page [] [] 10));
     policies \<leftarrow> expect_err (so_list_user_policies st s ''sr-nobody'' (page [] [] 10));
     effective \<leftarrow> expect_err (so_list_effective_user_policies st s ''sr-nobody'' (page [] [] 10));
     credentials \<leftarrow> expect_err (so_list_user_credentials st s ''sr-nobody'' (page [] [] 10));
     members \<leftarrow> expect_err (so_list_group_members st s ''sr-nogroup'' (page [] [] 10));
     group_policies \<leftarrow> expect_err (so_list_group_policies st s ''sr-nogroup'' (page [] [] 10));
     ensure (list_all is_not_found [groups, policies, effective, credentials, members, group_policies]);
     Some s
   }"

text \<open>Credentials are listed per user and scoped to their owner.\<close>

definition suite_credentials_round_trip :: "'s suite_case" where
  "suite_credentials_round_trip now st s = do {
     (user, s) \<leftarrow> expects (so_create_user st (new_user_named now ''cr-user'') s);
     (_, s) \<leftarrow> expects (so_create_user st (new_user_named now ''cr-other'') s);
     (created, s) \<leftarrow> expects (so_create_credential st (suite_credential now ''cr-key-1'' ''cr-user'') s);
     ensure (cr_user_id created = ur_user_id user);
     ensure (cr_secret_ciphertext created = CIPHERTEXT);
     (_, s) \<leftarrow> expects (so_create_credential st (suite_credential now ''cr-key-2'' ''cr-user'') s);
     by_key \<leftarrow> expect (so_get_credential st s ''cr-key-1'');
     ensure (by_key = created);
     by_user \<leftarrow> expect (so_get_user_credential st s ''cr-user'' ''cr-key-1'');
     ensure (by_user = created);
     wrong_owner \<leftarrow> expect_err (so_get_user_credential st s ''cr-other'' ''cr-key-1'');
     ensure (is_not_found wrong_owner);
     listed \<leftarrow> expect (so_list_user_credentials st s ''cr-user'' (page ''cr-'' [] 10));
     ensure (access_key_ids listed = [''cr-key-1'', ''cr-key-2'']);
     (duplicate, s) \<leftarrow> expects_err (so_create_credential st (suite_credential now ''cr-key-1'' ''cr-user'')
         s);
     ensure (is_already_exists duplicate);
     (missing_user, s) \<leftarrow> expects_err (so_create_credential st (suite_credential now ''cr-key-3''
         ''cr-nobody'') s);
     ensure (is_not_found missing_user);
     (_, s) \<leftarrow> expects (so_delete_credential st ''cr-user'' ''cr-key-1'' s);
     expect_err (so_get_credential st s ''cr-key-1'');
     (error, s) \<leftarrow> expects_err (so_delete_credential st ''cr-user'' ''cr-key-1'' s);
     ensure (is_not_found error);
     Some s
   }"

text \<open>External principals belong to one user and are unique.\<close>

definition suite_external_principals_round_trip :: "'s suite_case" where
  "suite_external_principals_round_trip now st s = do {
     (_, s) \<leftarrow> expects (so_create_user st (new_user_named now ''ep-user'') s);
     (_, s) \<leftarrow> expects (so_create_user st (new_user_named now ''ep-other'') s);
     (_, s) \<leftarrow> expects (so_create_external_principal st ''ep-user'' ''ep-arn-1'' s);
     (_, s) \<leftarrow> expects (so_create_external_principal st ''ep-user'' ''ep-arn-2'' s);
     found \<leftarrow> expect (so_get_external_principal st s ''ep-arn-1'');
     ensure (er_username found = ''ep-user'');
     listed \<leftarrow> expect (so_list_user_external_principals st s ''ep-user'' (page ''ep-'' [] 10));
     ensure (length (po_items listed) = 2);
     (duplicate, s) \<leftarrow> expects_err (so_create_external_principal st ''ep-other'' ''ep-arn-1'' s);
     ensure (is_already_exists duplicate);
     (_, s) \<leftarrow> expects (so_delete_external_principal st ''ep-user'' ''ep-arn-1'' s);
     expect_err (so_get_external_principal st s ''ep-arn-1'');
     Some s
   }"

text \<open>A token id is claimed once; the cleanup removes expired rows only.\<close>

definition suite_token_ids_are_claimed_once :: "'s suite_case" where
  "suite_token_ids_are_claimed_once now st s = do {
     let live = now + 3600;
     let past = now - 3600;
     (_, s) \<leftarrow> expects (so_claim_token_id st ''ti-live'' live s);
     (again, s) \<leftarrow> expects_err (so_claim_token_id st ''ti-live'' live s);
     ensure (is_already_exists again);
     (_, s) \<leftarrow> expects (so_claim_token_id st ''ti-expired'' past s);
     (removed, s) \<leftarrow> expects (so_delete_expired_token_ids st now s);
     ensure (1 \<le> removed);
     (_, s) \<leftarrow> expects (so_claim_token_id st ''ti-expired'' live s);
     (still_claimed, s) \<leftarrow> expects_err (so_claim_token_id st ''ti-live'' live s);
     ensure (is_already_exists still_claimed);
     Some s
   }"

text \<open>The bootstrap creates what is missing, skips the rest, and rolls back.\<close>

definition suite_bootstrap_is_idempotent :: "'s suite_case" where
  "suite_bootstrap_is_idempotent now st s = do {
     let plan = \<lparr> bp_policies = [suite_policy now ''bs-policy''],
         bp_groups = [new_group_named now ''bs-group''], bp_users = [new_user_named now ''bs-user''],
             bp_memberships = [(''bs-group'', ''bs-user'')], bp_user_policies = [(''bs-user'', ''bs-policy'')],
                 bp_group_policies = [(''bs-group'', ''bs-policy'')],
                     bp_credentials = [suite_credential now ''bs-key'' ''bs-user''] \<rparr>;
     (first_run, s) \<leftarrow> expects (so_apply_bootstrap st plan s);
     let created = br_created first_run;
     ensure (bc_policies created = 1 \<and> bc_groups created = 1 \<and> bc_users created = 1);
     ensure (bc_memberships created = 1 \<and> bc_attachments created = 2 \<and> bc_credentials created = 1);
     ensure (br_skipped first_run = zero_counts);
     (second_run, s) \<leftarrow> expects (so_apply_bootstrap st plan s);
     ensure (br_created second_run = zero_counts);
     let skipped = br_skipped second_run;
     ensure (bc_policies skipped = 1 \<and> bc_groups skipped = 1 \<and> bc_users skipped = 1);
     ensure (bc_memberships skipped = 1 \<and> bc_attachments skipped = 2 \<and> bc_credentials skipped = 1);
     effective \<leftarrow> expect (so_list_effective_user_policies st s ''bs-user'' (page ''bs-'' [] 10));
     ensure (policy_names effective = [''bs-policy'']);
     let broken = empty_plan\<lparr> bp_groups := [new_group_named now ''bs-group-2''],
         bp_memberships := [(''bs-group-2'', ''bs-nobody'')] \<rparr>;
     (error, s) \<leftarrow> expects_err (so_apply_bootstrap st broken s);
     ensure (is_not_found error);
     expect_err (so_get_group st s ''bs-group-2'');
     Some s
   }"

text \<open>An entry decorates an existing user only when it is the same identity; otherwise the plan is
    refused.\<close>

definition suite_bootstrap_refuses_another_identity :: "'s suite_case" where
  "suite_bootstrap_refuses_another_identity now st s = do {
     (_, s) \<leftarrow> expects (so_create_user st ((new_user_named now ''bi-admin'')\<lparr> nu_external_id := Some
         ''bi-attacker-sub'' \<rparr>) s);
     let plan = \<lparr> bp_policies = [suite_policy now ''bi-policy''],
         bp_groups = [new_group_named now ''bi-Admins''], bp_users = [new_user_named now ''bi-admin''],
             bp_memberships = [(''bi-Admins'', ''bi-admin'')], bp_user_policies = [(''bi-admin'', ''bi-policy'')],
                 bp_group_policies = [], bp_credentials = [suite_credential now ''bi-key'' ''bi-admin''] \<rparr>;
     (error, s) \<leftarrow> expects_err (so_apply_bootstrap st plan s);
     ensure (str_contains ''bi-admin'' (store_error_display error) \<and> str_contains ''identity''
         (store_error_display error));
     expect_err (so_get_group st s ''bi-Admins'');
     expect_err (so_get_credential st s ''bi-key'');
     groups \<leftarrow> expect (so_list_user_groups st s ''bi-admin'' (page ''bi-'' [] 10));
     ensure (po_items groups = []);
     let matching = plan\<lparr> bp_users := map (\<lambda>u. u\<lparr> nu_external_id := Some ''bi-attacker-sub''
         \<rparr>) (bp_users plan) \<rparr>;
     (report, s) \<leftarrow> expects (so_apply_bootstrap st matching s);
     ensure (bc_users (br_skipped report) = 1);
     ensure (bc_memberships (br_created report) = 1);
     ensure (bc_credentials (br_created report) = 1);
     Some s
   }"

text \<open>A credential whose access key belongs to another user is refused.\<close>

definition suite_bootstrap_refuses_another_users_credential :: "'s suite_case" where
  "suite_bootstrap_refuses_another_users_credential now st s = do {
     (_, s) \<leftarrow> expects (so_create_user st (new_user_named now ''bc-alice'') s);
     (_, s) \<leftarrow> expects (so_create_user st (new_user_named now ''bc-bob'') s);
     (_, s) \<leftarrow> expects (so_create_credential st (suite_credential now ''bc-key'' ''bc-alice'') s);
     (error, s) \<leftarrow> expects_err (so_apply_bootstrap st (empty_plan\<lparr> bp_credentials :=
         [suite_credential now ''bc-key'' ''bc-bob''] \<rparr>) s);
     ensure (case error of SWrongIdentity _ _ \<Rightarrow> True | _ \<Rightarrow> False);
     credential \<leftarrow> expect (so_get_credential st s ''bc-key'');
     ensure (cr_username credential = ''bc-alice'');
     (report, s) \<leftarrow> expects (so_apply_bootstrap st (empty_plan\<lparr> bp_credentials := [suite_credential
         now ''bc-key'' ''bc-alice''] \<rparr>) s);
     ensure (bc_credentials (br_skipped report) = 1);
     ensure (bc_credentials (br_created report) = 0);
     Some s
   }"

text \<open>A user whose email belongs to another row is an error that names the field.\<close>

definition suite_bootstrap_reports_a_collision :: "'s suite_case" where
  "suite_bootstrap_reports_a_collision now st s = do {
     (_, s) \<leftarrow> expects (so_create_user st ((new_user_named now ''bu-alice'')\<lparr> nu_email := Some
         ''bu-ops@example.com'' \<rparr>) s);
     let clashing = (new_user_named now ''bu-svc-ci'')\<lparr> nu_email := Some ''bu-ops@example.com'' \<rparr>;
     (error, s) \<leftarrow> expects_err (so_apply_bootstrap st (empty_plan\<lparr> bp_users := [clashing] \<rparr>) s);
     ensure (str_contains ''email'' (store_error_display error));
     expect_err (so_get_user st s ''bu-svc-ci'');
     Some s
   }"

text \<open>What is not there is not found, on reads and on writes.\<close>

definition suite_missing_entities_are_not_found :: "'s suite_case" where
  "suite_missing_entities_are_not_found now st s = do {
     user \<leftarrow> expect_err (so_get_user st s ''nf-user'');
     group \<leftarrow> expect_err (so_get_group st s ''nf-group'');
     policy \<leftarrow> expect_err (so_get_policy st s ''nf-policy'');
     credential \<leftarrow> expect_err (so_get_credential st s ''nf-key'');
     principal \<leftarrow> expect_err (so_get_external_principal st s ''nf-principal'');
     (gone_user, s) \<leftarrow> expects_err (so_delete_user st ''nf-user'' s);
     (gone_group, s) \<leftarrow> expects_err (so_delete_group st ''nf-group'' s);
     (gone_policy, s) \<leftarrow> expects_err (so_delete_policy st ''nf-policy'' s);
     (rename, s) \<leftarrow> expects_err (so_set_friendly_name st ''nf-user'' ''x'' s);
     ensure (list_all is_not_found [user, group, policy, credential, principal, gone_user, gone_group, gone_policy,
         rename]);
     Some s
   }"

text \<open>Every case in order, on one store.\<close>

definition run_all :: "'s suite_case" where
  "run_all now st s = do {
     expect (so_ping st s);
     s \<leftarrow> suite_user_round_trip now st s;
     s \<leftarrow> suite_group_and_policy_round_trip now st s;
     s \<leftarrow> suite_duplicates_are_rejected now st s;
     s \<leftarrow> suite_deleting_a_user_cascades now st s;
     s \<leftarrow> suite_deleting_a_group_cascades now st s;
     s \<leftarrow> suite_deleting_a_policy_cascades now st s;
     s \<leftarrow> suite_keys_sort_bytewise now st s;
     s \<leftarrow> suite_prefixes_escape_like_wildcards now st s;
     s \<leftarrow> suite_groups_and_policies_page_like_users now st s;
     s \<leftarrow> suite_pagination_is_keyset_and_exclusive now st s;
     s \<leftarrow> suite_effective_policies_are_a_union now st s;
     s \<leftarrow> suite_memberships_and_attachments now st s;
     s \<leftarrow> suite_sub_resources_require_the_parent now st s;
     s \<leftarrow> suite_credentials_round_trip now st s;
     s \<leftarrow> suite_external_principals_round_trip now st s;
     s \<leftarrow> suite_token_ids_are_claimed_once now st s;
     s \<leftarrow> suite_bootstrap_is_idempotent now st s;
     s \<leftarrow> suite_bootstrap_refuses_another_identity now st s;
     s \<leftarrow> suite_bootstrap_refuses_another_users_credential now st s;
     s \<leftarrow> suite_bootstrap_reports_a_collision now st s;
     s \<leftarrow> suite_missing_entities_are_not_found now st s;
     Some s
   }"

lemmas suite_defs = suite_user_round_trip_def
  suite_group_and_policy_round_trip_def
  suite_duplicates_are_rejected_def
  suite_deleting_a_user_cascades_def
  suite_deleting_a_group_cascades_def
  suite_deleting_a_policy_cascades_def
  suite_keys_sort_bytewise_def
  suite_prefixes_escape_like_wildcards_def
  suite_groups_and_policies_page_like_users_def
  suite_pagination_is_keyset_and_exclusive_def
  suite_effective_policies_are_a_union_def
  suite_memberships_and_attachments_def
  suite_sub_resources_require_the_parent_def
  suite_credentials_round_trip_def
  suite_external_principals_round_trip_def
  suite_token_ids_are_claimed_once_def
  suite_bootstrap_is_idempotent_def
  suite_bootstrap_refuses_another_identity_def
  suite_bootstrap_refuses_another_users_credential_def
  suite_bootstrap_reports_a_collision_def
  suite_missing_entities_are_not_found_def

end
