(* ===== verification/Router_Relation.thy ===== *)
theory Router_Relation
  imports Handlers
begin

text \<open>
  Two servers with the same routes over different stores.  A relation between handlers that holds of
  every pair of handlers of the routers holds of the two servers, for every request: the matching of paths,
  methods and captures, the middleware and the end of a handler do not look at the store.
\<close>

definition endpoints_related ::
    "(('s, response) handler \<Rightarrow> ('t, response) handler \<Rightarrow> bool) \<Rightarrow> 's endpoint \<Rightarrow> 't endpoint \<Rightarrow> bool" where
  "endpoints_related R p m \<longleftrightarrow> (\<forall>caps rq. R (p caps rq) (m caps rq))"

definition methods_related :: "(('s, response) handler \<Rightarrow> ('t, response) handler \<Rightarrow> bool)
    \<Rightarrow> (http_method \<times> 's endpoint) list \<Rightarrow> (http_method \<times> 't endpoint) list \<Rightarrow> bool" where
  "methods_related R = list_all2 (\<lambda>(a, p) (b, m). a = b \<and> endpoints_related R p m)"

definition routes_related ::
    "(('s, response) handler \<Rightarrow> ('t, response) handler \<Rightarrow> bool) \<Rightarrow> 's routes \<Rightarrow> 't routes \<Rightarrow> bool" where
  "routes_related R = list_all2 (\<lambda>(t, ps) (u, ms). t = u \<and> methods_related R ps ms)"

lemma routes_related_simps:
  "routes_related R [] []"
  "routes_related R ((t, ps) # prs) ((u, ms) # mrs) \<longleftrightarrow> t = u \<and> methods_related R ps ms \<and> routes_related R prs mrs"
  "methods_related R [] []"
  "methods_related R ((a, p) # pms) ((b, m) # mms) \<longleftrightarrow> a = b \<and> endpoints_related R p m \<and> methods_related R pms mms"
  by (simp_all add: routes_related_def methods_related_def)

lemma find_route_related:
  assumes "routes_related R prs mrs"
  shows "find_route prs path = None \<and> find_route mrs path = None
    \<or> (\<exists>ps ms caps. find_route prs path = Some (ps, caps) \<and> find_route mrs path = Some (ms, caps) \<and> methods_related R ps ms)"
  using assms unfolding routes_related_def
proof (induction prs mrs rule: list_all2_induct)
  case (Cons p prs m mrs)
  then show ?case by (cases "match_template (fst p) path") (auto simp: find_route_def split: prod.splits)
qed (simp add: find_route_def)

lemma map_of_related: "methods_related R ps ms \<Longrightarrow> rel_option (endpoints_related R) (map_of ps a) (map_of ms a)"
  unfolding methods_related_def by (induction ps ms rule: list_all2_induct) auto

lemma find_method_related:
  "methods_related R ps ms \<Longrightarrow> rel_option (endpoints_related R) (find_method a ps) (find_method a ms)"
  using map_of_related [of R ps ms a] map_of_related [of R ps ms GET]
  by (auto simp: find_method_def split: option.split)

locale handler_relation =
  fixes R :: "('s \<Rightarrow> (api_error + response) \<times> 's) \<Rightarrow> ('t \<Rightarrow> (api_error + response) \<times> 't) \<Rightarrow> bool"
  assumes related_const: "R (\<lambda>s. (x, s)) (\<lambda>t. (x, t))"
begin

lemma path_related:
  "(\<And>rq. R (p0 rq) (m0 rq)) \<Longrightarrow> endpoints_related R (path0 p0) (path0 m0)"
  "(\<And>a rq. R (p1 a rq) (m1 a rq)) \<Longrightarrow> endpoints_related R (path1 p1) (path1 m1)"
  "(\<And>a b rq. R (p2 a b rq) (m2 a b rq)) \<Longrightarrow> endpoints_related R (path2 p2) (path2 m2)"
proof -
  show "endpoints_related R (path0 p0) (path0 m0)" if "\<And>rq. R (p0 rq) (m0 rq)"
    using that by (simp add: endpoints_related_def path0_def)
  show "endpoints_related R (path1 p1) (path1 m1)" if "\<And>a rq. R (p1 a rq) (m1 a rq)"
    unfolding endpoints_related_def
  proof (intro allI)
    fix caps rq
    show "R (path1 p1 caps rq) (path1 m1 caps rq)"
      using that related_const by (cases caps rule: remdups_adj.cases) (simp_all add: path1_def [abs_def])
  qed
  show "endpoints_related R (path2 p2) (path2 m2)" if "\<And>a b rq. R (p2 a b rq) (m2 a b rq)"
    unfolding endpoints_related_def
  proof (intro allI)
    fix caps rq
    show "R (path2 p2 caps rq) (path2 m2 caps rq)"
    proof (cases caps rule: remdups_adj.cases)
      case (3 a b rest)
      then show ?thesis using that related_const by (cases rest) (simp_all add: path2_def [abs_def])
    qed (simp_all add: path2_def [abs_def] related_const)
  qed
qed

lemma body_related: "(\<And>v. R (p v) (m v)) \<Longrightarrow> R (with_body b p) (with_body b m)"
  using related_const by (cases b) (simp_all add: with_body_def [abs_def])

lemma dispatch_related:
  assumes "routes_related R prs mrs"
  shows "R (dispatch decode fb prs path rq) (dispatch decode fb mrs path rq)"
  using find_route_related [OF assms, of path]
proof
  assume "\<exists>ps ms caps. find_route prs path = Some (ps, caps) \<and> find_route mrs path = Some (ms, caps) \<and> methods_related R ps ms"
  then obtain ps ms caps where r: "find_route prs path = Some (ps, caps)" "find_route mrs path = Some (ms, caps)"
    and m: "methods_related R ps ms" by blast
  show ?thesis using find_method_related [OF m, of "rq_method rq"] r
    by (cases "decode_all decode caps")
      (auto simp: dispatch_def [abs_def] related_const endpoints_related_def elim!: option.rel_cases)
qed (simp add: dispatch_def [abs_def] related_const)

lemma guarded_related: "R p m \<Longrightarrow> R (guarded sv rq p) (guarded sv rq m)"
  by (cases "require_auth (sv_jwt_ok sv) (sv_verifier sv) (rq_authorization rq) (Ok ())")
    (simp_all add: guarded_def [abs_def] related_const)

lemma serve_related:
  assumes "routes_related R (protected_router st (sv_env sv) (sv_version sv)) (protected_router st' (sv_env sv) (sv_version sv))"
    "routes_related R public_router public_router" "routes_related R (root_router st) (root_router st')"
  obtains h h' where "R h h'" "serve st sv rq = (\<lambda>s. finish (h s))" "serve st' sv rq = (\<lambda>s. finish (h' s))"
proof (cases "find_route (root_router st) (rq_path rq) = None")
  case False
  then show ?thesis
    by (intro that [OF dispatch_related [OF assms(3)]]) (simp_all add: serve_def [abs_def] root_route)
next
  case root: True
  show ?thesis
  proof (cases "strip_base (normalize_base_path (sv_base_path sv)) (rq_path rq)")
    case None
    then show ?thesis using root
      by (intro that [OF related_const [of "Ok (fb_not_found (sv_fallbacks sv))"]]) (simp_all add: serve_def [abs_def] root_route)
  next
    case (Some path)
    show ?thesis
    proof (cases "find_route (public_router :: 's routes) path = None")
      case True
      then show ?thesis using root Some
        by (intro that [OF guarded_related [OF dispatch_related [OF assms(1)]]])
          (simp_all add: serve_def [abs_def] root_route public_route)
    next
      case False
      then show ?thesis using root Some
        by (intro that [OF dispatch_related [OF assms(2)]]) (simp_all add: serve_def [abs_def] root_route public_route)
    qed
  qed
qed

end

end
