(* ===== verification/Pg_Server.thy ===== *)
theory Pg_Server
  imports Pg_Run Router_Relation
begin

text \<open>
  The server in production: the service, the handlers and the routers of \<open>Handlers\<close> over the PostgreSQL store.
  Every request is answered as the same server over the in-memory store would answer it on the same rows, and
  leaves the same rows; while the database is down, requests are refused and change nothing.
\<close>

section \<open>PgStore as a Store\<close>

definition pg_impl :: "pg_env \<Rightarrow> db store_trait" where
  "pg_impl env = \<lparr> so_create_user = pg_create_user env, so_get_user = (\<lambda>d x. pg_get_user env x d),
     so_find_user_by_id = (\<lambda>d x. pg_find_user_by_id env x d),
     so_find_user_by_email = (\<lambda>d x. pg_find_user_by_email env x d),
     so_find_user_by_external_id = (\<lambda>d x. pg_find_user_by_external_id env x d),
     so_delete_user = pg_delete_user env, so_list_users = (\<lambda>d x. pg_list_users env x d),
     so_set_friendly_name = pg_set_friendly_name env, so_create_group = pg_create_group env,
     so_get_group = (\<lambda>d x. pg_get_group env x d), so_delete_group = pg_delete_group env,
     so_list_groups = (\<lambda>d x. pg_list_groups env x d), so_create_policy = pg_create_policy env,
     so_get_policy = (\<lambda>d x. pg_get_policy env x d), so_update_policy = pg_update_policy env,
     so_delete_policy = pg_delete_policy env, so_list_policies = (\<lambda>d x. pg_list_policies env x d),
     so_add_membership = pg_add_membership env, so_remove_membership = pg_remove_membership env,
     so_list_group_members = (\<lambda>d x y. pg_list_group_members env x y d),
     so_list_user_groups = (\<lambda>d x y. pg_list_user_groups env x y d),
     so_attach_policy_to_user = pg_attach_policy_to_user env,
     so_detach_policy_from_user = pg_detach_policy_from_user env,
     so_list_user_policies = (\<lambda>d x y. pg_list_user_policies env x y d),
     so_list_effective_user_policies = (\<lambda>d x y. pg_list_effective_user_policies env x y d),
     so_attach_policy_to_group = pg_attach_policy_to_group env,
     so_detach_policy_from_group = pg_detach_policy_from_group env,
     so_list_group_policies = (\<lambda>d x y. pg_list_group_policies env x y d),
     so_create_credential = pg_create_credential env, so_get_credential = (\<lambda>d x. pg_get_credential env x d),
     so_get_user_credential = (\<lambda>d x y. pg_get_user_credential env x y d),
     so_delete_credential = pg_delete_credential env,
     so_list_user_credentials = (\<lambda>d x y. pg_list_user_credentials env x y d),
     so_create_external_principal = pg_create_external_principal env,
     so_delete_external_principal = pg_delete_external_principal env,
     so_get_external_principal = (\<lambda>d x. pg_get_external_principal env x d),
     so_list_user_external_principals = (\<lambda>d x y. pg_list_user_external_principals env x y d),
     so_claim_token_id = pg_claim_token_id env, so_delete_expired_token_ids = pg_delete_expired_token_ids env,
     so_ping = pg_ping env, so_apply_bootstrap = pg_apply_bootstrap env \<rparr>"

lemma pg_impl_sel [simp]:
  "so_create_user (pg_impl env) = pg_create_user env"
  "so_get_user (pg_impl env) d x1 = pg_get_user env x1 d"
  "so_find_user_by_id (pg_impl env) d x2 = pg_find_user_by_id env x2 d"
  "so_find_user_by_email (pg_impl env) d x3 = pg_find_user_by_email env x3 d"
  "so_find_user_by_external_id (pg_impl env) d x4 = pg_find_user_by_external_id env x4 d"
  "so_delete_user (pg_impl env) = pg_delete_user env"
  "so_list_users (pg_impl env) d x6 = pg_list_users env x6 d"
  "so_set_friendly_name (pg_impl env) = pg_set_friendly_name env"
  "so_create_group (pg_impl env) = pg_create_group env"
  "so_get_group (pg_impl env) d x9 = pg_get_group env x9 d"
  "so_delete_group (pg_impl env) = pg_delete_group env"
  "so_list_groups (pg_impl env) d x11 = pg_list_groups env x11 d"
  "so_create_policy (pg_impl env) = pg_create_policy env"
  "so_get_policy (pg_impl env) d x13 = pg_get_policy env x13 d"
  "so_update_policy (pg_impl env) = pg_update_policy env"
  "so_delete_policy (pg_impl env) = pg_delete_policy env"
  "so_list_policies (pg_impl env) d x16 = pg_list_policies env x16 d"
  "so_add_membership (pg_impl env) = pg_add_membership env"
  "so_remove_membership (pg_impl env) = pg_remove_membership env"
  "so_list_group_members (pg_impl env) d x19 y19 = pg_list_group_members env x19 y19 d"
  "so_list_user_groups (pg_impl env) d x20 y20 = pg_list_user_groups env x20 y20 d"
  "so_attach_policy_to_user (pg_impl env) = pg_attach_policy_to_user env"
  "so_detach_policy_from_user (pg_impl env) = pg_detach_policy_from_user env"
  "so_list_user_policies (pg_impl env) d x23 y23 = pg_list_user_policies env x23 y23 d"
  "so_list_effective_user_policies (pg_impl env) d x24 y24 = pg_list_effective_user_policies env x24 y24 d"
  "so_attach_policy_to_group (pg_impl env) = pg_attach_policy_to_group env"
  "so_detach_policy_from_group (pg_impl env) = pg_detach_policy_from_group env"
  "so_list_group_policies (pg_impl env) d x27 y27 = pg_list_group_policies env x27 y27 d"
  "so_create_credential (pg_impl env) = pg_create_credential env"
  "so_get_credential (pg_impl env) d x29 = pg_get_credential env x29 d"
  "so_get_user_credential (pg_impl env) d x30 y30 = pg_get_user_credential env x30 y30 d"
  "so_delete_credential (pg_impl env) = pg_delete_credential env"
  "so_list_user_credentials (pg_impl env) d x32 y32 = pg_list_user_credentials env x32 y32 d"
  "so_create_external_principal (pg_impl env) = pg_create_external_principal env"
  "so_delete_external_principal (pg_impl env) = pg_delete_external_principal env"
  "so_get_external_principal (pg_impl env) d x35 = pg_get_external_principal env x35 d"
  "so_list_user_external_principals (pg_impl env) d x36 y36 = pg_list_user_external_principals env x36 y36 d"
  "so_claim_token_id (pg_impl env) = pg_claim_token_id env"
  "so_delete_expired_token_ids (pg_impl env) = pg_delete_expired_token_ids env"
  "so_ping (pg_impl env) = pg_ping env"
  "so_apply_bootstrap (pg_impl env) = pg_apply_bootstrap env"
  by (simp_all add: pg_impl_def)

section \<open>Answers\<close>

text \<open>
  The same answer, or two errors with one status.  The one difference of \<open>Pg_Owned\<close> is a conflict that hides a
  missing user.
\<close>

definition same_outcome :: "api_error + 'a \<Rightarrow> api_error + 'a \<Rightarrow> bool" where
  "same_outcome p m \<longleftrightarrow> (case p of
     Inr x \<Rightarrow> m = Ok x
   | Inl e \<Rightarrow> (case m of Inr _ \<Rightarrow> False
       | Inl e' \<Rightarrow> status_code e = status_code e' \<or> status_code e = 409 \<and> status_code e' = 404))"

text \<open>A handler over the two stores, from any tables under the constraints of the schema.\<close>

definition agree :: "(db, 'a) handler \<Rightarrow> (inner, 'a) handler \<Rightarrow> bool" where
  "agree p m \<longleftrightarrow> (\<forall>d. pg_ok d \<longrightarrow> same_outcome (fst (p d)) (fst (m (store_of d))) \<and> follows (snd (p d)) (snd (m (store_of d))))"

lemma same_outcome_simps [simp]:
  "same_outcome (Ok x) m \<longleftrightarrow> m = Ok x"
  "same_outcome (Err e) (Err e') \<longleftrightarrow> status_code e = status_code e' \<or> status_code e = 409 \<and> status_code e' = 404"
  "\<not> same_outcome (Err e) (Ok x)"
  by (simp_all add: same_outcome_def)

lemma same_outcome_refl [simp]: "same_outcome x x"
  by (cases x) simp_all

lemma same_outcome_map: "same_outcome p m \<Longrightarrow> same_outcome (map_ok f p) (map_ok f m)"
  by (cases p; cases m) simp_all

lemma agreeI:
  "(\<And>d. pg_ok d \<Longrightarrow> same_outcome (fst (p d)) (fst (m (store_of d))) \<and> follows (snd (p d)) (snd (m (store_of d)))) \<Longrightarrow> agree p m"
  by (simp add: agree_def)

lemma agree_at: "agree p m \<Longrightarrow> pg_ok d \<Longrightarrow> same_outcome (fst (p d)) (fst (m (store_of d))) \<and> follows (snd (p d)) (snd (m (store_of d)))"
  by (simp add: agree_def)

lemma agree_const: "agree (\<lambda>d. (x, d)) (\<lambda>s. (x, s))"
  by (simp add: agree_def follows_same)

lemma agree_respond: "agree p m \<Longrightarrow> agree (\<lambda>d. respond f (p d)) (\<lambda>s. respond f (m s))"
  by (simp add: agree_def respond_def same_outcome_map)

lemma agree_read:
  "(\<And>d. pg_ok d \<Longrightarrow> p d = m (store_of d)) \<Longrightarrow> agree (\<lambda>d. store_read f (p d) d) (\<lambda>s. store_read f (m s) s)"
  by (simp add: agree_def store_read_def follows_same)

section \<open>The writes of the store\<close>

definition store_agrees :: "'a store_result \<times> db \<Rightarrow> 'a store_result \<times> inner \<Rightarrow> bool" where
  "store_agrees p m \<longleftrightarrow> same_outcome (map_err api_of_store (fst p)) (map_err api_of_store (fst m)) \<and> follows (snd p) (snd m)"

lemma simulates_agrees: "simulates p m \<Longrightarrow> wf_inner (snd m) \<Longrightarrow> store_agrees p m"
  using simulates_follows [of p m]
  by (cases "fst p"; cases "fst m") (auto simp: store_agrees_def simulates_def same_answer_def)

lemma conflict_agrees:
  assumes "conflict_hides_missing p m d" "pg_ok d"
  shows "store_agrees p m"
proof -
  obtain e e' where e: "fst p = Err e" "is_already_exists e" "fst m = Err e'" "is_not_found e'"
    using assms(1) by (auto simp: conflict_hides_missing_def)
  then have "status_code (api_of_store e) = 409" "status_code (api_of_store e') = 404"
    by (auto simp: status_of_store_error is_already_exists_def is_not_found_def split: store_error.splits)
  then show ?thesis using conflict_follows [OF assms] e by (simp add: store_agrees_def)
qed

lemma writes_agree:
  assumes up: "pg_up env" and ok: "pg_ok d"
  shows "store_agrees (pg_create_user env nu d) (create_user nu (store_of d))"
    and "store_agrees (pg_delete_user env n d) (delete_user n (store_of d))"
    and "store_agrees (pg_set_friendly_name env n f d) (set_friendly_name n f (store_of d))"
    and "store_agrees (pg_create_group env ng d) (create_group ng (store_of d))"
    and "store_agrees (pg_delete_group env n d) (delete_group n (store_of d))"
    and "store_agrees (pg_create_policy env np d) (create_policy np (store_of d))"
    and "store_agrees (pg_update_policy env np d) (update_policy np (store_of d))"
    and "store_agrees (pg_delete_policy env n d) (delete_policy n (store_of d))"
    and "store_agrees (pg_add_membership env g n d) (add_membership g n (store_of d))"
    and "store_agrees (pg_attach_policy_to_user env n p d) (attach_policy_to_user n p (store_of d))"
    and "store_agrees (pg_attach_policy_to_group env g p d) (attach_policy_to_group g p (store_of d))"
    and "store_agrees (pg_remove_membership env g n d) (remove_membership g n (store_of d))"
    and "store_agrees (pg_detach_policy_from_user env n p d) (detach_policy_from_user n p (store_of d))"
    and "store_agrees (pg_detach_policy_from_group env g p d) (detach_policy_from_group g p (store_of d))"
    and "store_agrees (pg_delete_credential env n k d) (delete_credential n k (store_of d))"
    and "store_agrees (pg_delete_external_principal env n i d) (delete_external_principal n i (store_of d))"
    and "store_agrees (pg_claim_token_id env t e d) (claim_token_id t e (store_of d))"
    and "store_agrees (pg_create_credential env nc d) (create_credential nc (store_of d))"
    and "store_agrees (pg_create_external_principal env n i d) (create_external_principal n i (store_of d))"
proof -
  have wf: "wf_inner (run_op op (store_of d))" for op by (rule wf_run_op [OF pg_okD(3) [OF ok]])
  note w = wf [of "CreateUser nu"] wf [of "DeleteUser n"] wf [of "SetFriendlyName n f"] wf [of "CreateGroup ng"]
    wf [of "DeleteGroup n"] wf [of "CreatePolicy np"] wf [of "UpdatePolicy np"] wf [of "DeletePolicy n"]
    wf [of "AddMembership g n"] wf [of "AttachToUser n p"] wf [of "AttachToGroup g p"] wf [of "RemoveMembership g n"]
    wf [of "DetachFromUser n p"] wf [of "DetachFromGroup g p"] wf [of "DeleteCredential n k"]
    wf [of "DeleteExternalPrincipal n i"] wf [of "ClaimTokenId t e"] wf [of "CreateCredential nc"] wf [of "CreateExternalPrincipal n i"]
  show "store_agrees (pg_create_user env nu d) (create_user nu (store_of d))"
    "store_agrees (pg_delete_user env n d) (delete_user n (store_of d))"
    "store_agrees (pg_set_friendly_name env n f d) (set_friendly_name n f (store_of d))"
    "store_agrees (pg_create_group env ng d) (create_group ng (store_of d))"
    "store_agrees (pg_delete_group env n d) (delete_group n (store_of d))"
    "store_agrees (pg_create_policy env np d) (create_policy np (store_of d))"
    "store_agrees (pg_update_policy env np d) (update_policy np (store_of d))"
    "store_agrees (pg_delete_policy env n d) (delete_policy n (store_of d))"
    "store_agrees (pg_add_membership env g n d) (add_membership g n (store_of d))"
    "store_agrees (pg_attach_policy_to_user env n p d) (attach_policy_to_user n p (store_of d))"
    "store_agrees (pg_attach_policy_to_group env g p d) (attach_policy_to_group g p (store_of d))"
    "store_agrees (pg_remove_membership env g n d) (remove_membership g n (store_of d))"
    "store_agrees (pg_detach_policy_from_user env n p d) (detach_policy_from_user n p (store_of d))"
    "store_agrees (pg_detach_policy_from_group env g p d) (detach_policy_from_group g p (store_of d))"
    "store_agrees (pg_delete_credential env n k d) (delete_credential n k (store_of d))"
    "store_agrees (pg_delete_external_principal env n i d) (delete_external_principal n i (store_of d))"
    "store_agrees (pg_claim_token_id env t e d) (claim_token_id t e (store_of d))"
    using w by (simp_all add: simulates_agrees sim_writes [OF up ok])
  show "store_agrees (pg_create_credential env nc d) (create_credential nc (store_of d))"
    using sim_create_credential [OF up ok, of nc] w(18) by (auto split: if_splits intro: simulates_agrees conflict_agrees ok)
  show "store_agrees (pg_create_external_principal env n i d) (create_external_principal n i (store_of d))"
    using sim_create_external_principal [OF up ok, of n i] w(19) by (auto split: if_splits intro: simulates_agrees conflict_agrees ok)
qed

lemma agree_update:
  "(\<And>d. pg_ok d \<Longrightarrow> store_agrees (p d) (m (store_of d))) \<Longrightarrow> agree (\<lambda>d. store_update c (p d)) (\<lambda>s. store_update c (m s))"
  by (simp add: agree_def store_agrees_def store_update_def same_outcome_map)

section \<open>The service\<close>

lemma unique_errors:
  assumes "\<And>c. is_already_exists (f c)" "fst (mapped (map_unique env f) g r) = Err e"
  shows "is_already_exists e \<or> (\<exists>m. e = SBackend m)"
  using assms by (cases "fst r") (auto simp: mapped_def map_unique_def backend_def split: option.splits violation.splits)

lemma create_errors:
  "fst (pg_create_user env nu d) = Err e \<Longrightarrow> is_already_exists e \<or> (\<exists>m. e = SBackend m)"
  "fst (pg_create_group env ng d) = Err e \<Longrightarrow> is_already_exists e \<or> (\<exists>m. e = SBackend m)"
  "fst (pg_create_policy env np d) = Err e \<Longrightarrow> is_already_exists e \<or> (\<exists>m. e = SBackend m)"
  "fst (pg_claim_token_id env t x d) = Err e \<Longrightarrow> is_already_exists e \<or> (\<exists>m. e = SBackend m)"
  unfolding pg_create_user_def pg_create_group_def pg_create_policy_def pg_claim_token_id_def
  by (erule unique_errors [rotated], simp add: user_conflict_def is_already_exists_def)+

lemma create_row_agrees:
  assumes sim: "\<And>d. pg_ok d \<Longrightarrow> simulates (pc d) (mc (store_of d))"
    and wf: "\<And>s. wf_inner s \<Longrightarrow> wf_inner (snd (mc s))"
    and errs: "\<And>d e. fst (pc d) = Err e \<Longrightarrow> is_already_exists e \<or> (\<exists>m. e = SBackend m)"
      "\<And>s e s'. mc s = (Err e, s') \<Longrightarrow> is_already_exists e"
    and reread: "\<And>d. pg_ok d \<Longrightarrow> pr d = mr (store_of d)" "\<And>s n. mr (s\<lparr> in_next_user_id := n \<rparr>) = mr s"
  shows "agree (create_row pc pr same) (create_row mc mr same)"
proof (rule agreeI)
  fix d assume ok: "pg_ok d"
  obtain p d' where p: "pc d = (p, d')" by force
  obtain m s' where m: "mc (store_of d) = (m, s')" by force
  have f: "follows d' s'" using simulates_follows [OF sim [OF ok]] wf [OF pg_okD(3) [OF ok]] p m by simp
  then have r: "pr d' = mr s'" using reread(1) [of d'] reread(2) [of "t_user_seq d'" s'] by (simp add: follows_def)
  have "same_outcome (create_or_existing p (pr d') same) (create_or_existing m (mr s') same)"
  proof (cases p)
    case (Inr row)
    then show ?thesis using sim [OF ok] p m by (simp add: simulates_def create_or_existing_def)
  next
    case (Inl e)
    then obtain e' where e': "m = Err e'" and st: "status_code (api_of_store e) = status_code (api_of_store e')"
      using sim [OF ok] p m by (cases m) (auto simp: simulates_def)
    have "is_already_exists e'" using errs(2) m e' by blast
    moreover have "is_already_exists e"
      using errs(1) [of d e] Inl p st \<open>is_already_exists e'\<close>
      by (auto simp: status_of_store_error is_already_exists_def split: store_error.splits)
    ultimately show ?thesis using st unfolding Inl e' r
      by (auto simp: create_or_existing_def split: sum.splits store_error.splits)
  qed
  then show "same_outcome (fst (create_row pc pr same d)) (fst (create_row mc mr same (store_of d)))
      \<and> follows (snd (create_row pc pr same d)) (snd (create_row mc mr same (store_of d)))"
    using f by (simp add: create_row_def p m)
qed

lemma agree_map: "agree p m \<Longrightarrow> agree (\<lambda>d. map_prod (map_ok f) id (p d)) (\<lambda>s. map_prod (map_ok f) id (m s))"
  by (simp add: agree_def same_outcome_map)

lemma point_next:
  "get_user (s\<lparr> in_next_user_id := n \<rparr>) u = get_user s u" "get_group (s\<lparr> in_next_user_id := n \<rparr>) g = get_group s g"
  "get_policy (s\<lparr> in_next_user_id := n \<rparr>) p = get_policy s p"
  by (simp_all add: get_user_def get_group_def get_policy_def)

lemma wf_creates:
  "wf_inner s \<Longrightarrow> wf_inner (snd (create_user u s))" "wf_inner s \<Longrightarrow> wf_inner (snd (create_group g s))"
  "wf_inner s \<Longrightarrow> wf_inner (snd (create_policy p s))"
  by (simp_all add: create_user_def create_group_def create_policy_def wf_preserved)

lemma svc_create_user_agrees:
  assumes "pg_up pe"
  shows "agree (svc_create_user (pg_impl pe) env body) (svc_create_user mem_impl env body)"
proof -
  have "agree (create_row (pg_create_user pe n) (\<lambda>d. pg_get_user pe (nu_username n) d) (same_user n))
      (create_row (create_user n) (\<lambda>s. get_user s (nu_username n)) (same_user n))" for n
    by (rule create_row_agrees)
      (auto simp: assms wf_creates point_reads point_next intro: sim_create_user dest: create_errors users.create_conflict)
  then show ?thesis unfolding svc_create_user_def [abs_def]
    by (cases "uc_invite body = Some True"; cases "new_user_validated (uc_username body) (user_fields_of body) (env_now env)")
      (simp_all add: agree_const agree_map)
qed

lemma svc_create_group_agrees:
  assumes "pg_up pe"
  shows "agree (svc_create_group (pg_impl pe) env body) (svc_create_group mem_impl env body)"
proof -
  have "agree (create_row (pg_create_group pe n) (\<lambda>d. pg_get_group pe (ng_id n) d) same)
      (create_row (create_group n) (\<lambda>s. get_group s (ng_id n)) same)" for n same
    by (rule create_row_agrees)
      (auto simp: assms wf_creates point_reads point_next intro: sim_create_group dest: create_errors groups.create_conflict)
  then show ?thesis unfolding svc_create_group_def [abs_def]
    by (cases "new_group_validated (gc_id body) (gc_description body) (env_now env)")
      (simp_all add: agree_const agree_map)
qed

lemma svc_create_policy_agrees:
  assumes "pg_up pe"
  shows "agree (svc_create_policy (pg_impl pe) env body) (svc_create_policy mem_impl env body)"
proof -
  have "agree (create_row (pg_create_policy pe n) (\<lambda>d. pg_get_policy pe name d) same)
      (create_row (create_policy n) (\<lambda>s. get_policy s name) same)" for n same name
    by (rule create_row_agrees)
      (auto simp: assms wf_creates point_reads point_next intro: sim_create_policy dest: create_errors policies.create_conflict)
  then show ?thesis unfolding svc_create_policy_def [abs_def]
    by (cases "validated_policy env (p_name body) body (env_now env) None")
      (simp_all add: agree_const agree_map)
qed

lemma svc_update_policy_agrees:
  assumes "pg_up pe"
  shows "agree (svc_update_policy (pg_impl pe) env name body) (svc_update_policy mem_impl env name body)"
proof (rule agreeI)
  fix d assume ok: "pg_ok d"
  let ?goal = "\<lambda>p m. same_outcome (fst p) (fst m) \<and> follows (snd p) (snd m)"
  show "?goal (svc_update_policy (pg_impl pe) env name body d) (svc_update_policy mem_impl env name body (store_of d))"
  proof (cases "get_policy (store_of d) name")
    case (Inr old)
    have "store_agrees (pg_update_policy pe n d) (update_policy n (store_of d))" for n by (rule writes_agree [OF assms ok])
    then show ?thesis using Inr ok
      by (cases "validate_entity_id ''policy'' name"; cases "validated_policy env name body (pr_creation_date old) (pr_acl old)")
        (auto simp: svc_update_policy_def point_reads assms follows_same store_agrees_def same_outcome_map case_prod_unfold)
  qed (use ok in \<open>cases "validate_entity_id ''policy'' name";
      simp add: svc_update_policy_def point_reads assms follows_same\<close>)
qed

lemma svc_create_credentials_agrees:
  assumes "pg_up pe"
  shows "agree (svc_create_credentials (pg_impl pe) env u a k) (svc_create_credentials mem_impl env u a k)"
proof (rule agreeI)
  fix d assume ok: "pg_ok d"
  obtain x y where xy: "(case zip_opt (Option.bind a non_blank) (Option.bind k non_blank) of
           Some (access, secret) \<Rightarrow> (access, secret)
         | None \<Rightarrow> (new_access_key_id (env_random env),
                   new_secret_access_key (env_base64 env) (env_random_bytes env))) = (x, y)"
    by force
  have "store_agrees (pg_create_credential pe n d) (create_credential n (store_of d))" for n by (rule writes_agree [OF assms ok])
  then show "same_outcome (fst (svc_create_credentials (pg_impl pe) env u a k d)) (fst (svc_create_credentials mem_impl env u a k (store_of d)))
      \<and> follows (snd (svc_create_credentials (pg_impl pe) env u a k d)) (snd (svc_create_credentials mem_impl env u a k (store_of d)))"
    unfolding svc_create_credentials_def xy Let_def prod.case
    by (auto simp: follows_same ok store_agrees_def same_outcome_map case_prod_unfold split: sum.split)
qed

lemma svc_credentials_with_secret_agrees:
  assumes "pg_up pe" "pg_ok d"
  shows "svc_credentials_with_secret (pg_impl pe) env d k = svc_credentials_with_secret mem_impl env (store_of d) k"
  by (simp add: svc_credentials_with_secret_def point_reads assms)

lemma svc_claim_token_id_agrees:
  assumes "pg_up pe"
  shows "agree (svc_claim_token_id (pg_impl pe) env body) (svc_claim_token_id mem_impl env body)"
proof (rule agreeI)
  fix d assume ok: "pg_ok d"
  have "same_outcome
        (fst (case pg_claim_token_id pe t x d of (Inr _, s') \<Rightarrow> (Ok (), s')
           | (Inl (SAlreadyExists _ _), s') \<Rightarrow> (Err (Invalid ''token id was already claimed''), s')
           | (Inl e, s') \<Rightarrow> (Err (api_of_store e), s')))
        (fst (case claim_token_id t x (store_of d) of (Inr _, s') \<Rightarrow> (Ok (), s')
           | (Inl (SAlreadyExists _ _), s') \<Rightarrow> (Err (Invalid ''token id was already claimed''), s')
           | (Inl e, s') \<Rightarrow> (Err (api_of_store e), s')))
      \<and> follows (snd (pg_claim_token_id pe t x d)) (snd (claim_token_id t x (store_of d)))" for t x
  proof -
    obtain p d' where p: "pg_claim_token_id pe t x d = (p, d')" by force
    obtain m s' where m: "claim_token_id t x (store_of d) = (m, s')" by force
    have sim: "simulates (p, d') (m, s')" using sim_claim_token_id [OF assms ok, of t x] p m by simp
    moreover have "follows d' s'"
      using simulates_follows [OF sim] wf_claim_token_id [OF pg_okD(3) [OF ok], of t x] m by simp
    moreover have "m = Err e' \<Longrightarrow> is_already_exists e'" for e'
      using m by (auto simp: claim_token_id_def is_already_exists_def Let_def split: if_splits option.splits)
    ultimately show ?thesis using create_errors(4) [of pe t x d] unfolding p m
      by (cases p; cases m) (auto simp: simulates_def status_of_store_error is_already_exists_def split: store_error.splits)
  qed
  note claim = this
  have snds: "snd (case r of (Inr _, s') \<Rightarrow> (Ok (), s')
           | (Inl (SAlreadyExists _ _), s') \<Rightarrow> (Err (Invalid ''token id was already claimed''), s')
           | (Inl e, s') \<Rightarrow> (Err (api_of_store e), s')) = snd r" for r :: "unit store_result \<times> 'z"
    by (simp add: claim_end)
  show "same_outcome (fst (svc_claim_token_id (pg_impl pe) env body d)) (fst (svc_claim_token_id mem_impl env body (store_of d)))
      \<and> follows (snd (svc_claim_token_id (pg_impl pe) env body d)) (snd (svc_claim_token_id mem_impl env body (store_of d)))"
    unfolding svc_claim_token_id_def pg_impl_sel mem_impl_sel
    using claim by (cases "from_unix env ''expires_at'' (ct_expires_at body)") (auto simp: follows_same ok snds)
qed

lemmas service_agrees = svc_create_user_agrees svc_create_group_agrees svc_create_policy_agrees svc_update_policy_agrees
  svc_create_credentials_agrees svc_claim_token_id_agrees

section \<open>The handlers\<close>

lemma list_users_agrees:
  assumes "pg_up pe"
  shows "agree (h_list_users (pg_impl pe) rq) (h_list_users mem_impl rq)"
  by (rule agreeI)
    (auto simp: h_list_users_def store_read_def user_lookups whole_lists assms follows_same split: option.split)

lemma ping_agrees: "pg_up pe \<Longrightarrow> agree (h_readyz (pg_impl pe)) (h_readyz mem_impl)"
  by (simp add: agree_def h_readyz_def pg_ping_def pg_up_runs follows_same)

lemmas reads_agree = point_reads user_credential_read user_lookups whole_lists membership_lists attachment_lists
  effective_list owned_row_lists svc_credentials_with_secret_agrees

lemma effective_or_direct_agrees:
  assumes "pg_up pe"
  shows "agree (h_list_user_policies (pg_impl pe) u rq) (h_list_user_policies mem_impl u rq)"
  by (rule agreeI) (simp add: h_list_user_policies_def store_read_def reads_agree assms follows_same)

lemma get_credentials_agrees:
  assumes "pg_up pe"
  shows "agree (h_get_credentials (pg_impl pe) env k) (h_get_credentials mem_impl env k)"
  by (rule agreeI) (simp add: h_get_credentials_def respond_def reads_agree assms follows_same)

interpretation production: handler_relation agree
  by unfold_locales (rule agree_const)

lemma routers_agree:
  assumes "pg_up pe"
  shows "routes_related agree (protected_router (pg_impl pe) env version) (protected_router mem_impl env version)"
    and "routes_related agree public_router public_router"
    and "routes_related agree (root_router (pg_impl pe)) (root_router mem_impl)"
proof -
  show "routes_related agree (protected_router (pg_impl pe) env version) (protected_router mem_impl env version)"
    unfolding protected_router_def
    by (simp add: routes_related_simps)
      (intro conjI production.path_related list_users_agrees effective_or_direct_agrees get_credentials_agrees assms;
        simp add: handler_defs endpoints_related_def h_update_password_def [abs_def] h_version_def [abs_def];
        (intro allI)?; (rule production.body_related)?;
        intro agree_const agree_respond service_agrees assms agree_update writes_agree agree_read reads_agree)
  show "routes_related agree public_router public_router"
    by (simp add: public_router_def routes_related_simps production.path_related agree_const)
  show "routes_related agree (root_router (pg_impl pe)) (root_router mem_impl)"
    by (simp add: root_router_def routes_related_simps production.path_related ping_agrees assms)
qed

section \<open>The server\<close>

text \<open>A reply of one server in the place of a reply of the other.\<close>

definition same_reply :: "response \<Rightarrow> response \<Rightarrow> bool" where
  "same_reply p m \<longleftrightarrow> p = m
     \<or> (\<exists>e e'. p = error_reply e \<and> m = error_reply e'
          \<and> (status_code e = status_code e' \<or> status_code e = 409 \<and> status_code e' = 404))"

lemma finish_agrees:
  assumes "agree p m" "pg_ok d"
  shows "same_reply (fst (finish (p d))) (fst (finish (m (store_of d)))) \<and> follows (snd (p d)) (snd (m (store_of d)))"
proof -
  obtain x d' where p: "p d = (x, d')" by force
  obtain y s' where m: "m (store_of d) = (y, s')" by force
  show ?thesis using agree_at [OF assms] unfolding p m
    by (cases x; cases y) (auto simp: same_reply_def finish_def)
qed

theorem serve_agrees:
  assumes "pg_up env" "pg_ok d"
  shows "same_reply (fst (serve (pg_impl env) sv rq d)) (fst (serve mem_impl sv rq (store_of d)))
    \<and> follows (snd (serve (pg_impl env) sv rq d)) (snd (serve mem_impl sv rq (store_of d)))"
proof -
  obtain h h' where "agree h h'" "serve (pg_impl env) sv rq = (\<lambda>d. finish (h d))" "serve mem_impl sv rq = (\<lambda>s. finish (h' s))"
    by (rule production.serve_related [OF routers_agree [OF assms(1)]])
  then show ?thesis using finish_agrees [OF _ assms(2)] by simp
qed

lemma serve_pg_ok: "pg_up env \<Longrightarrow> pg_ok d \<Longrightarrow> pg_ok (snd (serve (pg_impl env) sv rq d))"
  using serve_agrees [of env d sv rq] by (simp add: follows_def)

section \<open>Every request is at most one statement\<close>

definition one_statement :: "pg_env \<Rightarrow> (db \<Rightarrow> 'r \<times> db) \<Rightarrow> bool" where
  "one_statement env h \<longleftrightarrow> (\<forall>d. snd (h d) = d \<or> (\<exists>op. snd (h d) = pg_run_op env op d))"

named_theorems one_stmt \<open>handlers of one statement, and how they are built\<close>

lemma one_statementI: "(\<And>d. snd (h d) = d \<or> (\<exists>op. snd (h d) = pg_run_op env op d)) \<Longrightarrow> one_statement env h"
  by (simp add: one_statement_def)

lemma one_statement_reads [one_stmt]: "reads h \<Longrightarrow> one_statement env h"
  by (simp add: one_statement_def reads_def)

lemma one_statement_ops [one_stmt]:
  "one_statement env (pg_create_user env nu)" "one_statement env (pg_delete_user env n)"
  "one_statement env (pg_set_friendly_name env n m)" "one_statement env (pg_create_group env ng)"
  "one_statement env (pg_delete_group env n)" "one_statement env (pg_create_policy env np)"
  "one_statement env (pg_update_policy env np)" "one_statement env (pg_delete_policy env n)"
  "one_statement env (pg_add_membership env n m)" "one_statement env (pg_remove_membership env n m)"
  "one_statement env (pg_attach_policy_to_user env n m)" "one_statement env (pg_detach_policy_from_user env n m)"
  "one_statement env (pg_attach_policy_to_group env n m)" "one_statement env (pg_detach_policy_from_group env n m)"
  "one_statement env (pg_create_credential env nc)" "one_statement env (pg_delete_credential env n m)"
  "one_statement env (pg_create_external_principal env n m)" "one_statement env (pg_delete_external_principal env n m)"
  "one_statement env (pg_claim_token_id env n e)"
  by (rule one_statementI, rule disjI2, rule exI, rule pg_run_op.simps [symmetric])+

lemma one_statement_built [one_stmt]:
  "one_statement env u \<Longrightarrow> one_statement env (\<lambda>d. store_update c (u d))"
  "one_statement env h \<Longrightarrow> one_statement env (\<lambda>d. respond f (h d))"
  "(\<And>v. one_statement env (k v)) \<Longrightarrow> one_statement env (with_body b k)"
  "one_statement env w \<Longrightarrow> one_statement env (\<lambda>d. map_prod (map_ok g) id (create_row w reread same d))"
  by (cases b; simp add: one_statement_def store_update_def respond_def with_body_def create_row_store)+

lemma one_statement_path [one_stmt]:
  "(\<And>rq. one_statement env (f0 rq)) \<Longrightarrow> one_statement env (path0 f0 caps rq)"
  "(\<And>a rq. one_statement env (f1 a rq)) \<Longrightarrow> one_statement env (path1 f1 caps rq)"
  "(\<And>a b rq. one_statement env (f2 a b rq)) \<Longrightarrow> one_statement env (path2 f2 caps rq)"
  by (auto simp: path0_def path1_def path2_def one_statement_def split: list.split)

lemma svc_claim_token_id_step:
  "snd (svc_claim_token_id st env body s) = s
   \<or> (\<exists>e. snd (svc_claim_token_id st env body s) = snd (so_claim_token_id st (ct_token_id body) e s))"
proof (cases "from_unix env ''expires_at'' (ct_expires_at body)")
  case (Inr e)
  have "snd (svc_claim_token_id st env body s) = s
      \<or> snd (svc_claim_token_id st env body s) = snd (so_claim_token_id st (ct_token_id body) e s)"
    using Inr by (auto simp: svc_claim_token_id_def split: sum.split prod.split store_error.split)
  then show ?thesis by blast
qed (simp add: svc_claim_token_id_def)

lemma one_statement_services [one_stmt]:
  "one_statement pe (svc_create_user (pg_impl pe) env b1)" "one_statement pe (svc_create_group (pg_impl pe) env b2)"
  "one_statement pe (svc_create_policy (pg_impl pe) env b3)" "one_statement pe (svc_update_policy (pg_impl pe) env n b3)"
  "one_statement pe (svc_create_credentials (pg_impl pe) env n a k)" "one_statement pe (svc_claim_token_id (pg_impl pe) env b4)"
proof -
  show "one_statement pe (svc_create_user (pg_impl pe) env b1)"
    using one_stmt by (auto simp: one_statement_def svc_create_user_def create_row_store split: sum.split)
  show "one_statement pe (svc_create_group (pg_impl pe) env b2)"
    using one_statement_ops(4) by (auto simp: one_statement_def svc_create_group_def create_row_store split: sum.split)
  show "one_statement pe (svc_create_policy (pg_impl pe) env b3)"
    using one_statement_ops(6) by (auto simp: one_statement_def svc_create_policy_def create_row_store split: sum.split)
  show "one_statement pe (svc_update_policy (pg_impl pe) env n b3)"
    using one_statement_ops(7) by (auto simp: one_statement_def svc_update_policy_def case_prod_unfold split: sum.split)
  show "one_statement pe (svc_create_credentials (pg_impl pe) env n a k)"
    using one_statement_ops(15)
    by (auto simp: one_statement_def svc_create_credentials_def case_prod_unfold Let_def split: sum.split)
  show "one_statement pe (svc_claim_token_id (pg_impl pe) env b4)"
    unfolding one_statement_def using svc_claim_token_id_step [of "pg_impl pe" env b4] one_statement_ops(19)
    by (metis one_statement_def pg_impl_sel(38))
qed

lemma pg_readers:
  "reads (h_list_users (pg_impl env) rq)" "reads (h_list_user_policies (pg_impl env) u rq)"
  "reads (h_get_credentials (pg_impl env) e k)" "reads (h_readyz (pg_impl env))" "reads (\<lambda>d. store_read f (p d) d)"
  "reads (h_version v)" "reads h_update_password" "reads (\<lambda>d. (Ok h_healthcheck, d))"
  by (auto simp: reads_def h_list_users_def h_list_user_policies_def h_get_credentials_def h_readyz_def respond_def
      h_version_def h_update_password_def split: option.split sum.split)

lemma routes_one_statement:
  "routes_all (\<lambda>m e. \<forall>caps rq. one_statement pe (e caps rq)) (protected_router (pg_impl pe) env version)"
  "routes_all (\<lambda>m e. \<forall>caps rq. one_statement pe (e caps rq)) public_router"
  "routes_all (\<lambda>m e. \<forall>caps rq. one_statement pe (e caps rq)) (root_router (pg_impl pe))"
  by (simp_all add: routes_all_def protected_router_def public_router_def root_router_def one_statement_path
      one_statement_reads pg_readers, simp add: handler_defs one_stmt pg_readers)

lemma dispatch_one_statement:
  assumes "routes_all (\<lambda>m e. \<forall>caps rq. one_statement pe (e caps rq)) rs"
  shows "one_statement pe (dispatch decode fb rs path rq)"
proof (rule one_statementI)
  fix d
  show "snd (dispatch decode fb rs path rq d) = d \<or> (\<exists>op. snd (dispatch decode fb rs path rq d) = pg_run_op pe op d)"
  proof (cases rule: dispatch_cases [of decode fb rs path rq d])
    case (handled t ms m e caps args)
    then show ?thesis using routes_allD [OF assms handled(2,3)] by (simp add: one_statement_def)
  qed simp
qed

theorem serve_one_statement: "one_statement pe (serve (pg_impl pe) sv rq)"
proof (rule one_statementI)
  fix d
  have steps: "snd (dispatch dec fb rs path rq d) = d \<or> (\<exists>op. snd (dispatch dec fb rs path rq d) = pg_run_op pe op d)"
    if "routes_all (\<lambda>m e. \<forall>caps rq. one_statement pe (e caps rq)) rs" for dec fb rs path
    using dispatch_one_statement [OF that] by (simp add: one_statement_def)
  show "snd (serve (pg_impl pe) sv rq d) = d \<or> (\<exists>op. snd (serve (pg_impl pe) sv rq d) = pg_run_op pe op d)"
    using steps [OF routes_one_statement(1)] steps [OF routes_one_statement(2)] steps [OF routes_one_statement(3)]
    by (auto simp: serve_def guarded_def split: option.split sum.split)
qed

theorem serve_pg_reachable: "pg_works env \<Longrightarrow> pg_reachable d \<Longrightarrow> pg_reachable (snd (serve (pg_impl env) sv rq d))"
  using serve_one_statement [of env sv rq] unfolding one_statement_def by (metis pg_reachable.step)

section \<open>An outage\<close>

theorem serve_down: "pg_down env = Some m \<Longrightarrow> snd (serve (pg_impl env) sv rq d) = d"
  using serve_one_statement [of env sv rq] down_unchanged [of env m] unfolding one_statement_def by metis

text \<open>A handler that answers with an error whatever the tables hold.\<close>

definition refuses :: "(db \<Rightarrow> ('e + 'a) \<times> db) \<Rightarrow> bool" where
  "refuses h \<longleftrightarrow> (\<forall>d. \<exists>e. fst (h d) = Err e)"

named_theorems refusing \<open>handlers that fail, and how they are built\<close>

lemma refuses_ops:
  assumes "pg_down env = Some m"
  shows "refuses (pg_create_user env nu)" "refuses (pg_delete_user env n)" "refuses (pg_set_friendly_name env n k)"
    "refuses (pg_create_group env ng)" "refuses (pg_delete_group env n)" "refuses (pg_create_policy env np)"
    "refuses (pg_update_policy env np)" "refuses (pg_delete_policy env n)" "refuses (pg_add_membership env n k)"
    "refuses (pg_remove_membership env n k)" "refuses (pg_attach_policy_to_user env n k)"
    "refuses (pg_detach_policy_from_user env n k)" "refuses (pg_attach_policy_to_group env n k)"
    "refuses (pg_detach_policy_from_group env n k)" "refuses (pg_create_credential env nc)"
    "refuses (pg_delete_credential env n k)" "refuses (pg_create_external_principal env n k)"
    "refuses (pg_delete_external_principal env n k)" "refuses (pg_claim_token_id env n x)"
  by (simp_all add: refuses_def pg_create_user_def pg_delete_user_def pg_set_friendly_name_def pg_create_group_def
      pg_delete_group_def pg_create_policy_def pg_update_policy_def pg_delete_policy_def pg_add_membership_def
      pg_insert_membership_def pg_remove_membership_def pg_attach_policy_to_user_def pg_insert_user_policy_def
      pg_detach_policy_from_user_def pg_attach_policy_to_group_def pg_insert_group_policy_def
      pg_detach_policy_from_group_def pg_create_credential_def pg_delete_credential_def
      pg_create_external_principal_def pg_delete_external_principal_def pg_claim_token_id_def
      mapped_def execute_one_def down_execute [OF assms])

lemma error_kept: "\<exists>e. r = Err e \<Longrightarrow> \<exists>e. map_ok f r = Err e" "\<exists>e. r = Err e \<Longrightarrow> \<exists>e. map_err g r = Err e"
  by auto

lemma refuses_built [refusing]:
  "refuses u \<Longrightarrow> refuses (\<lambda>d. store_update c (u d))"
  "refuses h \<Longrightarrow> refuses (\<lambda>d. respond f (h d))"
  "(\<And>v. refuses (k v)) \<Longrightarrow> refuses (with_body b k)"
proof -
  show "refuses u \<Longrightarrow> refuses (\<lambda>d. store_update c (u d))" "refuses h \<Longrightarrow> refuses (\<lambda>d. respond f (h d))"
    by (simp_all add: refuses_def store_update_def respond_def error_kept)
  show "refuses (with_body b k)" if "\<And>v. refuses (k v)"
    using that by (cases b) (simp_all add: refuses_def with_body_def)
qed

lemma refuses_path [refusing]:
  "(\<And>rq. refuses (f0 rq)) \<Longrightarrow> refuses (path0 f0 caps rq)"
  "(\<And>a rq. refuses (f1 a rq)) \<Longrightarrow> refuses (path1 f1 caps rq)"
  "(\<And>a b rq. refuses (f2 a b rq)) \<Longrightarrow> refuses (path2 f2 caps rq)"
  by (auto simp: path0_def path1_def path2_def refuses_def split: list.split)

lemma down_not_found: "pg_down env = Some m \<Longrightarrow> pg_get_policy env n d = Err (backend env (DriverError m))"
  by (simp add: pg_get_policy_def fetch_one_def fetch_optional_def fetch_all_def)

lemma down_create_error:
  assumes "pg_down env = Some m"
  shows "fst (pg_create_user env nu d) = Err (backend env (DriverError m))"
    "fst (pg_create_group env ng d) = Err (backend env (DriverError m))"
    "fst (pg_create_policy env np d) = Err (backend env (DriverError m))"
  by (simp_all add: pg_create_user_def pg_create_group_def pg_create_policy_def mapped_def down_execute [OF assms]
      map_unique_def violation_of_def)

lemma create_row_backend: "fst (f s) = Err (SBackend e) \<Longrightarrow> fst (create_row f reread same s) = Err (api_of_store (SBackend e))"
  by (cases "f s") (simp add: create_row_def create_or_existing_def is_already_exists_def)

lemma refuses_services:
  assumes "pg_down pe = Some m"
  shows "refuses (svc_create_user (pg_impl pe) env b1)" "refuses (svc_create_group (pg_impl pe) env b2)"
    "refuses (svc_create_policy (pg_impl pe) env b3)" "refuses (svc_update_policy (pg_impl pe) env n b3)"
    "refuses (svc_create_credentials (pg_impl pe) env n a k)" "refuses (svc_claim_token_id (pg_impl pe) env b4)"
proof -
  note row = create_row_backend [OF down_create_error(1) [OF assms, unfolded backend_def]]
    create_row_backend [OF down_create_error(2) [OF assms, unfolded backend_def]]
    create_row_backend [OF down_create_error(3) [OF assms, unfolded backend_def]]
  note ops = refuses_ops [OF assms, unfolded refuses_def]
  show "refuses (svc_create_user (pg_impl pe) env b1)" "refuses (svc_create_group (pg_impl pe) env b2)"
    "refuses (svc_create_policy (pg_impl pe) env b3)"
    by (auto simp: refuses_def svc_create_user_def svc_create_group_def svc_create_policy_def row split: sum.split)
  show "refuses (svc_update_policy (pg_impl pe) env n b3)"
    by (auto simp: refuses_def svc_update_policy_def down_not_found [OF assms] split: sum.split)
  show "refuses (svc_create_credentials (pg_impl pe) env n a k)"
    unfolding refuses_def svc_create_credentials_def Let_def pg_impl_sel case_prod_unfold
    using ops(15) by (auto simp: error_kept split: sum.split)
  show "refuses (svc_claim_token_id (pg_impl pe) env b4)"
    unfolding refuses_def
  proof
    fix d
    show "\<exists>e. fst (svc_claim_token_id (pg_impl pe) env b4 d) = Err e"
    proof (cases "from_unix env ''expires_at'' (ct_expires_at b4)")
      case (Inr x)
      obtain e d' where "pg_claim_token_id pe (ct_token_id b4) x d = (Err e, d')"
        using ops(19) [of "ct_token_id b4" x] by (metis prod.collapse)
      then show ?thesis using Inr by (cases e) (simp_all add: svc_claim_token_id_def)
    qed (simp add: svc_claim_token_id_def)
  qed
qed

lemma routes_refuse:
  assumes "pg_down pe = Some m"
  shows "routes_all (\<lambda>a e. a \<notin> {GET, HEAD} \<longrightarrow> (\<forall>caps rq. refuses (e caps rq))) (protected_router (pg_impl pe) env version)"
    and "routes_all (\<lambda>a e. a \<notin> {GET, HEAD} \<longrightarrow> (\<forall>caps rq. refuses (e caps rq))) public_router"
    and "routes_all (\<lambda>a e. a \<notin> {GET, HEAD} \<longrightarrow> (\<forall>caps rq. refuses (e caps rq))) (root_router (pg_impl pe))"
proof -
  have "refuses h_update_password" by (simp add: refuses_def h_update_password_def)
  then show "routes_all (\<lambda>a e. a \<notin> {GET, HEAD} \<longrightarrow> (\<forall>caps rq. refuses (e caps rq))) (protected_router (pg_impl pe) env version)"
    by (simp add: routes_all_def protected_router_def refuses_path) 
      (simp add: handler_defs refusing refuses_services [OF assms] refuses_ops [OF assms])
qed (simp_all add: routes_all_def public_router_def root_router_def)

theorem serve_down_refuses:
  assumes "pg_down pe = Some m" "rq_method rq \<notin> {GET, HEAD}"
  shows "fst (serve (pg_impl pe) sv rq d) \<in> {fb_not_found (sv_fallbacks sv), fb_method_not_allowed (sv_fallbacks sv), fb_bad_path (sv_fallbacks sv)}
    \<or> (\<exists>e. fst (serve (pg_impl pe) sv rq d) = error_reply e)"
proof -
  let ?fb = "{fb_not_found (sv_fallbacks sv), fb_method_not_allowed (sv_fallbacks sv), fb_bad_path (sv_fallbacks sv)}"
  have answer: "fst (finish (dispatch dec (sv_fallbacks sv) rs path rq d)) \<in> ?fb
      \<or> (\<exists>e. fst (finish (dispatch dec (sv_fallbacks sv) rs path rq d)) = error_reply e)"
    if rs: "routes_all (\<lambda>a e. a \<notin> {GET, HEAD} \<longrightarrow> (\<forall>caps rq. refuses (e caps rq))) rs" for dec rs path
  proof (cases "find_route rs path")
    case (Some mc)
    then obtain ms caps where r: "find_route rs path = Some (ms, caps)" by (cases mc) auto
    then obtain t where t: "(t, ms) \<in> set rs" by (auto dest: find_route_in)
    show ?thesis
    proof (cases "find_method (rq_method rq) ms")
      case (Some h)
      then have "(rq_method rq, h) \<in> set ms" using find_method_in [OF Some] assms(2) by auto
      then have "refuses (h args rq)" for args using routes_allD [OF rs t] assms(2) by blast
      then have "\<exists>e. fst (h args rq d) = Err e" for args by (simp add: refuses_def)
      then show ?thesis using r Some
        by (cases "decode_all dec caps") (simp_all add: dispatch_def finish_def, metis sum.case(1))
    qed (simp add: dispatch_def finish_def r)
  qed (simp add: dispatch_def finish_def)
  show ?thesis
    using answer [OF routes_refuse(1) [OF assms(1)]] answer [OF routes_refuse(2) [OF assms(1)]]
      answer [OF routes_refuse(3) [OF assms(1)]]
    by (auto simp: serve_def guarded_def split: option.split sum.split)
qed

theorem readyz_down:
  assumes "pg_down pe = Some m" "rq_path rq = READYZ_PATH" "rq_method rq = GET"
  shows "rs_status (fst (serve (pg_impl pe) sv rq d)) = 503"
  using assms
  by (simp add: serve_def root_route dispatch_def)
    (simp add: root_router_def find_route_def match_template_def match_literal READYZ_PATH_def is_capture_def starts_with_def
      find_method_def path0_def h_readyz_def pg_ping_def fetch_all_def error_reply_def error_response_def api_status_def reply_def)

end
