(* ===== verification/Conformance_Runs.thy ===== *)
theory Conformance_Runs
  imports Conformance Pg_Server
begin

text \<open>
  Both stores pass the whole suite, evaluated by the simplifier: the in-memory store at any time of day, PostgreSQL with
  the first violated constraint reported.
\<close>

declare effective_walk.simps [code]

lemma mem_conforms: "run_all now mem_impl empty_inner \<noteq> None"
  by (code_simp | simp add: equal del: not_None_eq)+

definition fresh_database :: "(sqlx_error \<Rightarrow> string) \<Rightarrow> pg_env" where
  "fresh_database display = \<lparr> pg_down = None, pg_report = hd, pg_display = display \<rparr>"

lemma pg_conforms: "run_all 0 (pg_impl (fresh_database display)) empty_db \<noteq> None"
  by code_simp

lemma fresh_database_up: "pg_up (fresh_database display)"
  by (simp add: pg_up_def fresh_database_def report_ok_def)

end
