(* ===== verification/Interleaving.thy ===== *)
theory Interleaving
  imports Router_Relation
begin

text \<open>
  Requests at the same time.  The calls of one request to the store are not one transaction: what it reads first and
  what it writes then may be different states, with other requests in between.
\<close>

section \<open>A store that others write to\<close>

text \<open>
  The first state is the one the request reads, the second the one its write meets.  After its own write, the request
  sees what it wrote.
\<close>

definition busy_write :: "('s \<Rightarrow> 'r store_result \<times> 's) \<Rightarrow> 's \<times> 's \<Rightarrow> 'r store_result \<times> ('s \<times> 's)" where
  "busy_write u c = (case u (snd c) of (r, s') \<Rightarrow> (r, (s', s')))"

definition busy_store :: "'s store_trait \<Rightarrow> ('s \<times> 's) store_trait" where
  "busy_store st = \<lparr> so_create_user = (\<lambda>x. busy_write (so_create_user st x)),
     so_get_user = (\<lambda>c x. so_get_user st (fst c) x),
     so_find_user_by_id = (\<lambda>c x. so_find_user_by_id st (fst c) x),
     so_find_user_by_email = (\<lambda>c x. so_find_user_by_email st (fst c) x),
     so_find_user_by_external_id = (\<lambda>c x. so_find_user_by_external_id st (fst c) x),
     so_delete_user = (\<lambda>x. busy_write (so_delete_user st x)),
     so_list_users = (\<lambda>c x. so_list_users st (fst c) x),
     so_set_friendly_name = (\<lambda>x y. busy_write (so_set_friendly_name st x y)),
     so_create_group = (\<lambda>x. busy_write (so_create_group st x)),
     so_get_group = (\<lambda>c x. so_get_group st (fst c) x),
     so_delete_group = (\<lambda>x. busy_write (so_delete_group st x)),
     so_list_groups = (\<lambda>c x. so_list_groups st (fst c) x),
     so_create_policy = (\<lambda>x. busy_write (so_create_policy st x)),
     so_get_policy = (\<lambda>c x. so_get_policy st (fst c) x),
     so_update_policy = (\<lambda>x. busy_write (so_update_policy st x)),
     so_delete_policy = (\<lambda>x. busy_write (so_delete_policy st x)),
     so_list_policies = (\<lambda>c x. so_list_policies st (fst c) x),
     so_add_membership = (\<lambda>x y. busy_write (so_add_membership st x y)),
     so_remove_membership = (\<lambda>x y. busy_write (so_remove_membership st x y)),
     so_list_group_members = (\<lambda>c x y. so_list_group_members st (fst c) x y),
     so_list_user_groups = (\<lambda>c x y. so_list_user_groups st (fst c) x y),
     so_attach_policy_to_user = (\<lambda>x y. busy_write (so_attach_policy_to_user st x y)),
     so_detach_policy_from_user = (\<lambda>x y. busy_write (so_detach_policy_from_user st x y)),
     so_list_user_policies = (\<lambda>c x y. so_list_user_policies st (fst c) x y),
     so_list_effective_user_policies = (\<lambda>c x y. so_list_effective_user_policies st (fst c) x y),
     so_attach_policy_to_group = (\<lambda>x y. busy_write (so_attach_policy_to_group st x y)),
     so_detach_policy_from_group = (\<lambda>x y. busy_write (so_detach_policy_from_group st x y)),
     so_list_group_policies = (\<lambda>c x y. so_list_group_policies st (fst c) x y),
     so_create_credential = (\<lambda>x. busy_write (so_create_credential st x)),
     so_get_credential = (\<lambda>c x. so_get_credential st (fst c) x),
     so_get_user_credential = (\<lambda>c x y. so_get_user_credential st (fst c) x y),
     so_delete_credential = (\<lambda>x y. busy_write (so_delete_credential st x y)),
     so_list_user_credentials = (\<lambda>c x y. so_list_user_credentials st (fst c) x y),
     so_create_external_principal = (\<lambda>x y. busy_write (so_create_external_principal st x y)),
     so_delete_external_principal = (\<lambda>x y. busy_write (so_delete_external_principal st x y)),
     so_get_external_principal = (\<lambda>c x. so_get_external_principal st (fst c) x),
     so_list_user_external_principals = (\<lambda>c x y. so_list_user_external_principals st (fst c) x y),
     so_claim_token_id = (\<lambda>x y. busy_write (so_claim_token_id st x y)),
     so_delete_expired_token_ids = (\<lambda>x. busy_write (so_delete_expired_token_ids st x)),
     so_ping = (\<lambda>c. so_ping st (fst c)),
     so_apply_bootstrap = (\<lambda>x. busy_write (so_apply_bootstrap st x)) \<rparr>"

lemma busy_store_sel [simp]:
  "so_create_user (busy_store st) x0 = busy_write (so_create_user st x0)"
  "so_get_user (busy_store st) c x1 = so_get_user st (fst c) x1"
  "so_find_user_by_id (busy_store st) c x2 = so_find_user_by_id st (fst c) x2"
  "so_find_user_by_email (busy_store st) c x3 = so_find_user_by_email st (fst c) x3"
  "so_find_user_by_external_id (busy_store st) c x4 = so_find_user_by_external_id st (fst c) x4"
  "so_delete_user (busy_store st) x5 = busy_write (so_delete_user st x5)"
  "so_list_users (busy_store st) c x6 = so_list_users st (fst c) x6"
  "so_set_friendly_name (busy_store st) x7 y7 = busy_write (so_set_friendly_name st x7 y7)"
  "so_create_group (busy_store st) x8 = busy_write (so_create_group st x8)"
  "so_get_group (busy_store st) c x9 = so_get_group st (fst c) x9"
  "so_delete_group (busy_store st) x10 = busy_write (so_delete_group st x10)"
  "so_list_groups (busy_store st) c x11 = so_list_groups st (fst c) x11"
  "so_create_policy (busy_store st) x12 = busy_write (so_create_policy st x12)"
  "so_get_policy (busy_store st) c x13 = so_get_policy st (fst c) x13"
  "so_update_policy (busy_store st) x14 = busy_write (so_update_policy st x14)"
  "so_delete_policy (busy_store st) x15 = busy_write (so_delete_policy st x15)"
  "so_list_policies (busy_store st) c x16 = so_list_policies st (fst c) x16"
  "so_add_membership (busy_store st) x17 y17 = busy_write (so_add_membership st x17 y17)"
  "so_remove_membership (busy_store st) x18 y18 = busy_write (so_remove_membership st x18 y18)"
  "so_list_group_members (busy_store st) c x19 y19 = so_list_group_members st (fst c) x19 y19"
  "so_list_user_groups (busy_store st) c x20 y20 = so_list_user_groups st (fst c) x20 y20"
  "so_attach_policy_to_user (busy_store st) x21 y21 = busy_write (so_attach_policy_to_user st x21 y21)"
  "so_detach_policy_from_user (busy_store st) x22 y22 = busy_write (so_detach_policy_from_user st x22 y22)"
  "so_list_user_policies (busy_store st) c x23 y23 = so_list_user_policies st (fst c) x23 y23"
  "so_list_effective_user_policies (busy_store st) c x24 y24 = so_list_effective_user_policies st (fst c) x24 y24"
  "so_attach_policy_to_group (busy_store st) x25 y25 = busy_write (so_attach_policy_to_group st x25 y25)"
  "so_detach_policy_from_group (busy_store st) x26 y26 = busy_write (so_detach_policy_from_group st x26 y26)"
  "so_list_group_policies (busy_store st) c x27 y27 = so_list_group_policies st (fst c) x27 y27"
  "so_create_credential (busy_store st) x28 = busy_write (so_create_credential st x28)"
  "so_get_credential (busy_store st) c x29 = so_get_credential st (fst c) x29"
  "so_get_user_credential (busy_store st) c x30 y30 = so_get_user_credential st (fst c) x30 y30"
  "so_delete_credential (busy_store st) x31 y31 = busy_write (so_delete_credential st x31 y31)"
  "so_list_user_credentials (busy_store st) c x32 y32 = so_list_user_credentials st (fst c) x32 y32"
  "so_create_external_principal (busy_store st) x33 y33 = busy_write (so_create_external_principal st x33 y33)"
  "so_delete_external_principal (busy_store st) x34 y34 = busy_write (so_delete_external_principal st x34 y34)"
  "so_get_external_principal (busy_store st) c x35 = so_get_external_principal st (fst c) x35"
  "so_list_user_external_principals (busy_store st) c x36 y36 = so_list_user_external_principals st (fst c) x36 y36"
  "so_claim_token_id (busy_store st) x37 y37 = busy_write (so_claim_token_id st x37 y37)"
  "so_delete_expired_token_ids (busy_store st) x38 = busy_write (so_delete_expired_token_ids st x38)"
  "so_ping (busy_store st) c = so_ping st (fst c)"
  "so_apply_bootstrap (busy_store st) x40 = busy_write (so_apply_bootstrap st x40)"
  by (simp_all add: busy_store_def)


definition serve_busy :: "'s store_trait \<Rightarrow> server \<Rightarrow> http_request \<Rightarrow> 's \<Rightarrow> 's \<Rightarrow> response \<times> 's" where
  "serve_busy st sv rq seen s = map_prod id snd (serve (busy_store st) sv rq (seen, s))"

section \<open>The moment a request takes effect\<close>

text \<open>
  A handler that is answered and has its effect as if it ran alone when it wrote; one that only reads, and is answered
  as if it ran alone when it read.
\<close>

definition late :: "('s \<times> 's \<Rightarrow> 'r \<times> ('s \<times> 's)) \<Rightarrow> ('s \<Rightarrow> 'r \<times> 's) \<Rightarrow> bool" where
  "late p m \<longleftrightarrow> (\<forall>seen s. fst (p (seen, s)) = fst (m s) \<and> snd (snd (p (seen, s))) = snd (m s))"

definition early :: "('s \<times> 's \<Rightarrow> 'r \<times> ('s \<times> 's)) \<Rightarrow> ('s \<Rightarrow> 'r \<times> 's) \<Rightarrow> bool" where
  "early p m \<longleftrightarrow> (\<forall>seen s. fst (p (seen, s)) = fst (m seen) \<and> snd (snd (p (seen, s))) = s \<and> snd (m seen) = seen)"

lemma busy_write_simp [simp]: "busy_write u (seen, s) = (fst (u s), (snd (u s), snd (u s)))"
  by (simp add: busy_write_def case_prod_unfold)

lemma early_const: "early (\<lambda>c. (x, c)) (\<lambda>s. (x, s))"
  by (simp add: early_def)

lemma late_built:
  "late (busy_write u) u"
  "late p m \<Longrightarrow> late (\<lambda>c. store_update code (p c)) (\<lambda>s. store_update code (m s))"
  "late h k \<Longrightarrow> late (\<lambda>c. respond f (h c)) (\<lambda>s. respond f (k s))"
  by (simp_all add: late_def store_update_def respond_def)

lemma late_services:
  "late (svc_create_user (busy_store st) env b1) (svc_create_user st env b1)"
  "late (svc_create_group (busy_store st) env b2) (svc_create_group st env b2)"
  "late (svc_create_policy (busy_store st) env b3) (svc_create_policy st env b3)"
  "late (svc_create_credentials (busy_store st) env n a k) (svc_create_credentials st env n a k)"
  "late (svc_claim_token_id (busy_store st) env b4) (svc_claim_token_id st env b4)"
proof -
  show "late (svc_create_user (busy_store st) env b1) (svc_create_user st env b1)"
    by (auto simp: late_def svc_create_user_def create_row_def case_prod_unfold split: sum.split)
  show "late (svc_create_group (busy_store st) env b2) (svc_create_group st env b2)"
    by (auto simp: late_def svc_create_group_def create_row_def case_prod_unfold split: sum.split)
  show "late (svc_create_policy (busy_store st) env b3) (svc_create_policy st env b3)"
    by (auto simp: late_def svc_create_policy_def create_row_def case_prod_unfold split: sum.split)
  show "late (svc_create_credentials (busy_store st) env n a k) (svc_create_credentials st env n a k)"
    by (auto simp: late_def svc_create_credentials_def case_prod_unfold Let_def split: sum.split)
  show "late (svc_claim_token_id (busy_store st) env b4) (svc_claim_token_id st env b4)"
    unfolding late_def
  proof (intro allI)
    fix seen s
    show "fst (svc_claim_token_id (busy_store st) env b4 (seen, s)) = fst (svc_claim_token_id st env b4 s)
        \<and> snd (snd (svc_claim_token_id (busy_store st) env b4 (seen, s))) = snd (svc_claim_token_id st env b4 s)"
      by (cases "from_unix env ''expires_at'' (ct_expires_at b4)") (simp_all add: svc_claim_token_id_def claim_end)
  qed
qed

lemma early_read: "(\<And>seen s. p (seen, s) = m seen) \<Longrightarrow> early (\<lambda>c. store_read f (p c) c) (\<lambda>s. store_read f (m s) s)"
  by (simp add: early_def store_read_def)

lemma early_branching:
  "early (h_list_users (busy_store st) rq) (h_list_users st rq)"
  "early (h_list_user_policies (busy_store st) u rq) (h_list_user_policies st u rq)"
  "early (h_get_credentials (busy_store st) env k) (h_get_credentials st env k)"
  "early (h_readyz (busy_store st)) (h_readyz st)"
  by (auto simp: early_def h_list_users_def h_list_user_policies_def h_get_credentials_def h_readyz_def respond_def
      store_read_def svc_credentials_with_secret_def split: option.split sum.split)

text \<open>The one handler that reads and then writes what it has read is the update of a policy.\<close>

definition linearizable :: "'s store_trait \<Rightarrow> ('s \<times> 's \<Rightarrow> (api_error + response) \<times> ('s \<times> 's))
    \<Rightarrow> ('s \<Rightarrow> (api_error + response) \<times> 's) \<Rightarrow> bool" where
  "linearizable st p m \<longleftrightarrow> late p m \<or> early p m
     \<or> (\<exists>env n rq. p = h_update_policy (busy_store st) env n rq \<and> m = h_update_policy st env n rq)"

lemma linearizableI:
  "late p m \<Longrightarrow> linearizable st p m" "early p m \<Longrightarrow> linearizable st p m"
  "linearizable st (h_update_policy (busy_store st) env n rq) (h_update_policy st env n rq)"
  by (auto simp: linearizable_def)

interpretation linear: handler_relation "linearizable st" for st
  by unfold_locales (rule linearizableI(2) [OF early_const])

lemma routers_linearizable:
  "routes_related (linearizable st) (protected_router (busy_store st) env version) (protected_router st env version)"
  "routes_related (linearizable st) public_router public_router"
  "routes_related (linearizable st) (root_router (busy_store st)) (root_router st)"
proof -
  show "routes_related (linearizable st) (protected_router (busy_store st) env version) (protected_router st env version)"
    unfolding protected_router_def
    by (simp add: routes_related_simps)
      (intro conjI linear.path_related linearizableI(2) [OF early_branching(1)] linearizableI(2) [OF early_branching(2)]
          linearizableI(2) [OF early_branching(3)] linearizableI(3);
        simp add: handler_defs endpoints_related_def h_update_password_def [abs_def] h_version_def [abs_def];
        (intro allI)?; (rule linear.body_related)?;
        ((rule linearizableI(1), intro late_built late_services) | (rule linearizableI(2), intro early_const early_read; simp))?)
  show "routes_related (linearizable st) public_router public_router"
    by (simp add: public_router_def routes_related_simps linear.path_related linearizableI early_const)
  show "routes_related (linearizable st) (root_router (busy_store st)) (root_router st)"
    by (simp add: root_router_def routes_related_simps linear.path_related linearizableI early_branching)
qed

text \<open>
  Every request other than the update of a policy is served as if it were alone: at the state it writes to, or, when it
  writes nothing, at the state it reads.
\<close>

theorem serve_busy_linearizable:
  obtains (writes) "serve_busy st sv rq seen s = serve st sv rq s"
  | (reads) "serve_busy st sv rq seen s = (fst (serve st sv rq seen), s)" "snd (serve st sv rq seen) = seen"
  | (updates) env n rq' where "serve st sv rq = (\<lambda>s. finish (h_update_policy st env n rq' s))"
      "serve_busy st sv rq seen s = map_prod id snd (finish (h_update_policy (busy_store st) env n rq' (seen, s)))"
proof -
  obtain h h' where h: "linearizable st h h'" "serve (busy_store st) sv rq = (\<lambda>c. finish (h c))" "serve st sv rq = (\<lambda>s. finish (h' s))"
    by (rule linear.serve_related [OF routers_linearizable])
  from h(1) consider "late h h'" | "early h h'"
    | env n rq' where "h = h_update_policy (busy_store st) env n rq'" "h' = h_update_policy st env n rq'"
    unfolding linearizable_def by blast
  then show thesis
  proof cases
    case 1
    then show thesis using h by (intro writes) (simp add: late_def serve_busy_def finish_def map_prod_def case_prod_unfold)
  next
    case 2
    then show thesis using h by (intro reads) (simp_all add: early_def serve_busy_def finish_def map_prod_def case_prod_unfold)
  next
    case 3
    then show thesis using h by (intro updates [of env n rq']) (simp_all add: serve_busy_def)
  qed
qed

text \<open>A request between whose calls nothing happens is served as by \<open>serve\<close>.\<close>

lemma update_policy_alone:
  "fst (h_update_policy (busy_store st) env n rq (s, s)) = fst (h_update_policy st env n rq s)
   \<and> snd (snd (h_update_policy (busy_store st) env n rq (s, s))) = snd (h_update_policy st env n rq s)"
  by (cases "rq_body rq")
    (auto simp: h_update_policy_def with_body_def respond_def svc_update_policy_def case_prod_unfold split: sum.split)

theorem serve_busy_alone: "serve_busy st sv rq s s = serve st sv rq s"
proof (cases rule: serve_busy_linearizable [of st sv rq s s])
  case reads
  then show ?thesis by (metis prod.collapse)
next
  case (updates env n rq')
  then show ?thesis using update_policy_alone [of st env n rq' s] by (simp add: finish_def map_prod_def case_prod_unfold)
qed

section \<open>A request among others\<close>

definition one_write :: "(inner \<times> inner \<Rightarrow> 'r \<times> (inner \<times> inner)) \<Rightarrow> (inner \<Rightarrow> 'q \<times> inner) \<Rightarrow> bool" where
  "one_write p m \<longleftrightarrow> (\<forall>c. snd (snd (p c)) = snd c \<or> (\<exists>op. request_op op \<and> snd (snd (p c)) = run_op op (snd c)))"

lemma one_write_const: "one_write (\<lambda>c. (x, c)) m"
  by (simp add: one_write_def)

interpretation crowded: handler_relation one_write
  by unfold_locales (rule one_write_const)

lemma one_write_store: "store_step u \<Longrightarrow> one_write (busy_write u) m"
  by (auto simp: one_write_def store_step_def)

lemma one_write_built:
  "one_write p m \<Longrightarrow> one_write (\<lambda>c. store_update code (p c)) m"
  "one_write h m \<Longrightarrow> one_write (\<lambda>c. respond f (h c)) m"
  "one_write (\<lambda>c. store_read f' (q c) c) m2"
  by (simp_all add: one_write_def store_update_def respond_def)

lemma one_write_row: "store_step u \<Longrightarrow> \<exists>op. request_op op \<and> snd (snd (create_row (busy_write u) g same (seen, s))) = run_op op s"
  by (auto simp: create_row_store store_step_def)

lemma one_write_services:
  "one_write (svc_create_user (busy_store mem_impl) env b1) m"
  "one_write (svc_create_group (busy_store mem_impl) env b2) m"
  "one_write (svc_create_policy (busy_store mem_impl) env b3) m"
  "one_write (svc_update_policy (busy_store mem_impl) env n b3) m"
  "one_write (svc_create_credentials (busy_store mem_impl) env n a k) m"
  "one_write (svc_claim_token_id (busy_store mem_impl) env b4) m"
proof -
  show "one_write (svc_create_user (busy_store mem_impl) env b1) m"
    using one_write_row store_steps(1) by (fastforce simp: one_write_def svc_create_user_def create_row_store split: sum.split)
  show "one_write (svc_create_group (busy_store mem_impl) env b2) m"
    using one_write_row store_steps(4) by (fastforce simp: one_write_def svc_create_group_def create_row_store split: sum.split)
  show "one_write (svc_create_policy (busy_store mem_impl) env b3) m"
    using one_write_row store_steps(6) by (fastforce simp: one_write_def svc_create_policy_def create_row_store split: sum.split)
  show "one_write (svc_update_policy (busy_store mem_impl) env n b3) m"
    using store_steps(7) by (fastforce simp: one_write_def store_step_def svc_update_policy_def case_prod_unfold split: sum.split)
  show "one_write (svc_create_credentials (busy_store mem_impl) env n a k) m"
    using store_steps(15) by (fastforce simp: one_write_def store_step_def svc_create_credentials_def case_prod_unfold Let_def split: sum.split)
  show "one_write (svc_claim_token_id (busy_store mem_impl) env b4) m"
    unfolding one_write_def
  proof (intro allI)
    fix c :: "inner \<times> inner"
    show "snd (snd (svc_claim_token_id (busy_store mem_impl) env b4 c)) = snd c
        \<or> (\<exists>op. request_op op \<and> snd (snd (svc_claim_token_id (busy_store mem_impl) env b4 c)) = run_op op (snd c))"
      using store_steps(19) [of "ct_token_id b4"]
      by (cases c; cases "from_unix env ''expires_at'' (ct_expires_at b4)")
        (auto simp: svc_claim_token_id_def claim_end store_step_def)
  qed
qed

lemma one_write_reads: "reads p \<Longrightarrow> one_write p m"
  by (simp only: one_write_def reads_def) simp

lemma routers_one_write:
  "routes_related one_write (protected_router (busy_store mem_impl) env version) (protected_router mem_impl env version)"
  "routes_related one_write public_router public_router"
  "routes_related one_write (root_router (busy_store mem_impl)) (root_router mem_impl)"
proof -
  have branching: "one_write (h_list_users (busy_store mem_impl) rq) m" "one_write (h_list_user_policies (busy_store mem_impl) u rq) m"
    "one_write (h_get_credentials (busy_store mem_impl) env' k) m" "one_write (h_readyz (busy_store mem_impl)) m"
    for rq u env' k and m :: "inner \<Rightarrow> (api_error + response) \<times> inner"
    by (rule one_write_reads; rule reading_handlers)+
  show "routes_related one_write (protected_router (busy_store mem_impl) env version) (protected_router mem_impl env version)"
    unfolding protected_router_def
    by (simp add: routes_related_simps)
      (intro conjI crowded.path_related branching;
        simp add: handler_defs endpoints_related_def h_update_password_def [abs_def] h_version_def [abs_def];
        (intro allI)?; (rule crowded.body_related)?;
        intro one_write_const one_write_built one_write_services one_write_store store_steps)
  show "routes_related one_write public_router public_router"
    by (simp add: public_router_def routes_related_simps crowded.path_related one_write_const)
  show "routes_related one_write (root_router (busy_store mem_impl)) (root_router mem_impl)"
    by (simp add: root_router_def routes_related_simps crowded.path_related branching)
qed

theorem serve_busy_is_step:
  "snd (serve_busy mem_impl sv rq seen s) = s \<or> (\<exists>op. request_op op \<and> snd (serve_busy mem_impl sv rq seen s) = run_op op s)"
proof -
  obtain h h' where "one_write h h'" "serve (busy_store mem_impl) sv rq = (\<lambda>c. finish (h c))"
      "serve mem_impl sv rq = (\<lambda>s. finish (h' s))"
    by (rule crowded.serve_related [OF routers_one_write])
  then show ?thesis by (auto simp: one_write_def serve_busy_def)
qed

section \<open>Histories\<close>

text \<open>
  The states of the store while requests are served at the same time, the latest first.  A request may have read any of
  the earlier ones by the time it writes.
\<close>

inductive history :: "inner \<Rightarrow> inner list \<Rightarrow> bool" for s0 where
  start: "history s0 [s0]"
| request: "history s0 (s # h) \<Longrightarrow> seen \<in> set (s # h) \<Longrightarrow> history s0 (snd (serve_busy mem_impl sv rq seen s) # s # h)"
| cleanup: "history s0 (s # h) \<Longrightarrow> history s0 (snd (delete_expired_token_ids now s) # s # h)"

inductive_simps history_single [simp]: "history s0 [s]"

lemma history_invariant:
  assumes "history s0 h" "I s0" "\<And>op s. I s \<Longrightarrow> I (run_op op s)"
  shows "\<forall>s \<in> set h. I s"
  using assms(1)
proof (induction rule: history.induct)
  case (request s h seen sv rq)
  then show ?case using serve_busy_is_step [of sv rq seen s] assms(3) by auto
next
  case (cleanup s h now)
  then show ?case using assms(3) [of s "DeleteExpiredTokenIds now"] by simp
qed (use assms(2) in simp)

theorem history_well_formed: "history s0 h \<Longrightarrow> wf_inner s0 \<Longrightarrow> s \<in> set h \<Longrightarrow> wf_inner s"
  using history_invariant [of s0 h wf_inner] wf_run_op by blast

text \<open>
  What an update of a policy leaves out gets the value the policy had when the request read it, not the one it has
  when the request writes: an update in between is undone.
\<close>

lemma update_policy_writes_what_it_read:
  assumes "wf_inner s" "bt_get (in_policies seen) name = Some old"
    and "svc_update_policy (busy_store mem_impl) env name body (seen, s) = (Ok p, c)"
  obtains new where "bt_get (in_policies (snd c)) name = Some new" "pr_acl new = opt_or (p_acl body) (pr_acl old)"
    "p_creation_date body = None \<Longrightarrow> pr_creation_date new = pr_creation_date old"
proof -
  obtain rec where rec: "validated_policy env name body (pr_creation_date old) (pr_acl old) = Ok rec"
    using assms(2,3) by (auto simp: svc_update_policy_def get_policy_def split: sum.splits)
  have name: "np_name rec = name" using validated_policy_Ok [OF rec] by simp
  obtain current where cur: "bt_get (in_policies s) name = Some current"
    using assms(2,3) rec name
    by (cases "bt_get (in_policies s) name") (auto simp: svc_update_policy_def get_policy_def update_policy_def split: sum.splits)
  let ?new = "current\<lparr> pr_creation_date := np_creation_date rec, pr_statement := np_statement rec, pr_acl := np_acl rec \<rparr>"
  have c: "snd c = s\<lparr> in_policies := bt_modify name (\<lambda>_. ?new) (in_policies s) \<rparr>"
    using assms(2,3) rec name cur
    by (auto simp: svc_update_policy_def get_policy_def update_policy_def Let_def split: sum.splits)
  show thesis
    using validated_policy_Ok [OF rec] cur wf_shape_of(3) [OF assms(1)]
    by (intro that [of ?new]) (simp_all add: c bt_simps)
qed

end
