(* ===== verification/Pg_Busy.thy ===== *)
theory Pg_Busy
  imports Pg_Server Interleaving
begin

text \<open>
  Requests at the same time over the PostgreSQL store: whichever tables a request reads and whichever its statement
  meets, it is answered as over the in-memory store with the same rows read and the same rows met.
\<close>

definition agree_busy :: "(db \<times> db \<Rightarrow> (api_error + 'a) \<times> (db \<times> db)) \<Rightarrow> (inner \<times> inner \<Rightarrow> (api_error + 'a) \<times> (inner \<times> inner)) \<Rightarrow> bool" where
  "agree_busy p m \<longleftrightarrow> (\<forall>seen d. pg_ok seen \<longrightarrow> pg_ok d \<longrightarrow>
     same_outcome (fst (p (seen, d))) (fst (m (store_of seen, store_of d)))
     \<and> follows (snd (snd (p (seen, d)))) (snd (snd (m (store_of seen, store_of d)))))"

lemma agree_busy_const: "agree_busy (\<lambda>c. (x, c)) (\<lambda>c. (x, c))"
  by (simp add: agree_busy_def follows_same)

interpretation busy: handler_relation agree_busy
  by unfold_locales (rule agree_busy_const)

lemma agree_busy_late: "late p p0 \<Longrightarrow> late m m0 \<Longrightarrow> agree p0 m0 \<Longrightarrow> agree_busy p m"
  by (simp add: agree_busy_def late_def agree_def)

lemma agree_busy_early: "early p p0 \<Longrightarrow> early m m0 \<Longrightarrow> agree p0 m0 \<Longrightarrow> agree_busy p m"
  by (simp add: agree_busy_def early_def agree_def follows_same)

lemma agree_busy_respond: "agree_busy p m \<Longrightarrow> agree_busy (\<lambda>c. respond f (p c)) (\<lambda>c. respond f (m c))"
  by (simp add: agree_busy_def respond_def same_outcome_map)

lemma agree_busy_read:
  "(\<And>seen d. pg_ok seen \<Longrightarrow> p (seen, d) = m (store_of seen, store_of d)) \<Longrightarrow> agree_busy (\<lambda>c. store_read f (p c) c) (\<lambda>c. store_read f (m c) c)"
  by (simp add: agree_busy_def store_read_def follows_same)

lemma agree_busy_update:
  "(\<And>d. pg_ok d \<Longrightarrow> store_agrees (p d) (m (store_of d))) \<Longrightarrow>
     agree_busy (\<lambda>c. store_update code (busy_write p c)) (\<lambda>c. store_update code (busy_write m c))"
  by (rule agree_busy_late [OF late_built(2) [OF late_built(1)] late_built(2) [OF late_built(1)] agree_update])

lemma svc_update_policy_busy:
  assumes "pg_up pe"
  shows "agree_busy (svc_update_policy (busy_store (pg_impl pe)) env name body) (svc_update_policy (busy_store mem_impl) env name body)"
  unfolding agree_busy_def
proof (intro allI impI)
  fix seen d assume ok: "pg_ok seen" "pg_ok d"
  let ?p = "svc_update_policy (busy_store (pg_impl pe)) env name body (seen, d)"
  let ?m = "svc_update_policy (busy_store mem_impl) env name body (store_of seen, store_of d)"
  show "same_outcome (fst ?p) (fst ?m) \<and> follows (snd (snd ?p)) (snd (snd ?m))"
  proof (cases "get_policy (store_of seen) name")
    case (Inr old)
    have "store_agrees (pg_update_policy pe n d) (update_policy n (store_of d))" for n by (rule writes_agree [OF assms ok(2)])
    then show ?thesis using Inr ok
      by (cases "validate_entity_id ''policy'' name"; cases "validated_policy env name body (pr_creation_date old) (pr_acl old)")
        (auto simp: svc_update_policy_def point_reads assms follows_same store_agrees_def same_outcome_map case_prod_unfold)
  qed (use ok in \<open>cases "validate_entity_id ''policy'' name";
      simp add: svc_update_policy_def point_reads assms follows_same\<close>)
qed

lemma services_busy:
  assumes "pg_up pe"
  shows "agree_busy (svc_create_user (busy_store (pg_impl pe)) env b1) (svc_create_user (busy_store mem_impl) env b1)"
    "agree_busy (svc_create_group (busy_store (pg_impl pe)) env b2) (svc_create_group (busy_store mem_impl) env b2)"
    "agree_busy (svc_create_policy (busy_store (pg_impl pe)) env b3) (svc_create_policy (busy_store mem_impl) env b3)"
    "agree_busy (svc_create_credentials (busy_store (pg_impl pe)) env n a k) (svc_create_credentials (busy_store mem_impl) env n a k)"
    "agree_busy (svc_claim_token_id (busy_store (pg_impl pe)) env b4) (svc_claim_token_id (busy_store mem_impl) env b4)"
  by (rule agree_busy_late [OF late_services(1) late_services(1) svc_create_user_agrees [OF assms]]
      agree_busy_late [OF late_services(2) late_services(2) svc_create_group_agrees [OF assms]]
      agree_busy_late [OF late_services(3) late_services(3) svc_create_policy_agrees [OF assms]]
      agree_busy_late [OF late_services(4) late_services(4) svc_create_credentials_agrees [OF assms]]
      agree_busy_late [OF late_services(5) late_services(5) svc_claim_token_id_agrees [OF assms]])+

lemma branching_busy:
  assumes "pg_up pe"
  shows "agree_busy (h_list_users (busy_store (pg_impl pe)) rq) (h_list_users (busy_store mem_impl) rq)"
    "agree_busy (h_list_user_policies (busy_store (pg_impl pe)) u rq) (h_list_user_policies (busy_store mem_impl) u rq)"
    "agree_busy (h_get_credentials (busy_store (pg_impl pe)) env k) (h_get_credentials (busy_store mem_impl) env k)"
    "agree_busy (h_readyz (busy_store (pg_impl pe))) (h_readyz (busy_store mem_impl))"
  by (rule agree_busy_early [OF early_branching(1) early_branching(1) list_users_agrees [OF assms]]
      agree_busy_early [OF early_branching(2) early_branching(2) effective_or_direct_agrees [OF assms]]
      agree_busy_early [OF early_branching(3) early_branching(3) get_credentials_agrees [OF assms]]
      agree_busy_early [OF early_branching(4) early_branching(4) ping_agrees [OF assms]])+

lemma routers_busy:
  assumes "pg_up pe"
  shows "routes_related agree_busy (protected_router (busy_store (pg_impl pe)) env version) (protected_router (busy_store mem_impl) env version)"
    and "routes_related agree_busy public_router public_router"
    and "routes_related agree_busy (root_router (busy_store (pg_impl pe))) (root_router (busy_store mem_impl))"
proof -
  show "routes_related agree_busy (protected_router (busy_store (pg_impl pe)) env version) (protected_router (busy_store mem_impl) env version)"
    unfolding protected_router_def
    by (simp add: routes_related_simps)
      (intro conjI busy.path_related branching_busy assms;
        simp add: handler_defs endpoints_related_def h_update_password_def [abs_def] h_version_def [abs_def];
        (intro allI)?; (rule busy.body_related)?;
        (intro agree_busy_const agree_busy_respond services_busy svc_update_policy_busy assms
          | rule agree_busy_update, rule writes_agree [OF assms], assumption
          | rule agree_busy_read, simp add: reads_agree assms)?)
  show "routes_related agree_busy public_router public_router"
    by (simp add: public_router_def routes_related_simps busy.path_related agree_busy_const)
  show "routes_related agree_busy (root_router (busy_store (pg_impl pe))) (root_router (busy_store mem_impl))"
    by (simp add: root_router_def routes_related_simps busy.path_related branching_busy assms)
qed

theorem serve_busy_agrees:
  assumes "pg_up env" "pg_ok seen" "pg_ok d"
  shows "same_reply (fst (serve_busy (pg_impl env) sv rq seen d)) (fst (serve_busy mem_impl sv rq (store_of seen) (store_of d)))
    \<and> follows (snd (serve_busy (pg_impl env) sv rq seen d)) (snd (serve_busy mem_impl sv rq (store_of seen) (store_of d)))"
proof -
  obtain h h' where h: "agree_busy h h'" "serve (busy_store (pg_impl env)) sv rq = (\<lambda>c. finish (h c))"
      "serve (busy_store mem_impl) sv rq = (\<lambda>c. finish (h' c))"
    by (rule busy.serve_related [OF routers_busy [OF assms(1)]])
  obtain x c where p: "h (seen, d) = (x, c)" by (cases "h (seen, d)") blast
  obtain y c' where m: "h' (store_of seen, store_of d) = (y, c')" by (cases "h' (store_of seen, store_of d)") blast
  have "same_outcome x y \<and> follows (snd c) (snd c')"
    using h(1) assms(2,3) p m unfolding agree_busy_def by (metis fst_conv snd_conv)
  then show ?thesis
    by (cases x; cases y) (auto simp: serve_busy_def h p m finish_def same_reply_def)
qed

section \<open>The statement of a request\<close>

text \<open>Whatever a request has read, the tables it leaves are those it met, after at most one statement.\<close>

lemma update_policy_busy_step:
  "snd (snd (h_update_policy (busy_store st) env n rq (seen, d))) = d
   \<or> (\<exists>np. snd (snd (h_update_policy (busy_store st) env n rq (seen, d))) = snd (so_update_policy st np d))"
  by (cases "rq_body rq")
    (auto simp: h_update_policy_def with_body_def respond_def svc_update_policy_def case_prod_unfold split: sum.split)

theorem serve_busy_reachable:
  assumes "pg_works env" "pg_reachable d"
  shows "pg_reachable (snd (serve_busy (pg_impl env) sv rq seen d))"
proof (cases rule: serve_busy_linearizable [of "pg_impl env" sv rq seen d])
  case writes
  then show ?thesis using serve_pg_reachable [OF assms] by simp
next
  case reads
  then show ?thesis using assms(2) by simp
next
  case (updates e n rq')
  have "snd (serve_busy (pg_impl env) sv rq seen d) = snd (snd (h_update_policy (busy_store (pg_impl env)) e n rq' (seen, d)))"
    unfolding updates(2) by simp
  then show ?thesis
    using update_policy_busy_step [of "pg_impl env" e n rq' seen d] assms(2) pg_reachable.step [OF assms(2,1), of "UpdatePolicy _"]
    by auto
qed

end
