(* ===== verification/Timeouts.thy ===== *)
theory Timeouts
  imports Router_Relation Provision
begin

text \<open>
  Requests that are dropped.  Both servers put a \<open>TimeoutLayer\<close> around their routes: a request that is not
  answered in time is answered with 408, and its future is dropped at the \<open>await\<close> it waits at; a client that goes
  away drops it as well.  What it had written by then stays written.
\<close>

section \<open>A store whose caller is dropped\<close>

text \<open>
  The state counts the writes the request still gets to.  A write beyond them does not happen, and as
  the caller is gone, its answer is never looked at.
\<close>

definition cut_write :: "('s \<Rightarrow> 'r store_result \<times> 's) \<Rightarrow> 's \<times> nat \<Rightarrow> 'r store_result \<times> ('s \<times> nat)" where
  "cut_write u c = (case snd c of
     0 \<Rightarrow> (Err (SBackend ''dropped''), c)
   | Suc n \<Rightarrow> map_prod id (\<lambda>s'. (s', n)) (u (fst c)))"

definition cut_store :: "'s store_trait \<Rightarrow> ('s \<times> nat) store_trait" where
  "cut_store st = \<lparr> so_create_user = (\<lambda>x. cut_write (so_create_user st x)),
     so_get_user = (\<lambda>c x. so_get_user st (fst c) x),
     so_find_user_by_id = (\<lambda>c x. so_find_user_by_id st (fst c) x),
     so_find_user_by_email = (\<lambda>c x. so_find_user_by_email st (fst c) x),
     so_find_user_by_external_id = (\<lambda>c x. so_find_user_by_external_id st (fst c) x),
     so_delete_user = (\<lambda>x. cut_write (so_delete_user st x)),
     so_list_users = (\<lambda>c x. so_list_users st (fst c) x),
     so_set_friendly_name = (\<lambda>x y. cut_write (so_set_friendly_name st x y)),
     so_create_group = (\<lambda>x. cut_write (so_create_group st x)),
     so_get_group = (\<lambda>c x. so_get_group st (fst c) x),
     so_delete_group = (\<lambda>x. cut_write (so_delete_group st x)),
     so_list_groups = (\<lambda>c x. so_list_groups st (fst c) x),
     so_create_policy = (\<lambda>x. cut_write (so_create_policy st x)),
     so_get_policy = (\<lambda>c x. so_get_policy st (fst c) x),
     so_update_policy = (\<lambda>x. cut_write (so_update_policy st x)),
     so_delete_policy = (\<lambda>x. cut_write (so_delete_policy st x)),
     so_list_policies = (\<lambda>c x. so_list_policies st (fst c) x),
     so_add_membership = (\<lambda>x y. cut_write (so_add_membership st x y)),
     so_remove_membership = (\<lambda>x y. cut_write (so_remove_membership st x y)),
     so_list_group_members = (\<lambda>c x y. so_list_group_members st (fst c) x y),
     so_list_user_groups = (\<lambda>c x y. so_list_user_groups st (fst c) x y),
     so_attach_policy_to_user = (\<lambda>x y. cut_write (so_attach_policy_to_user st x y)),
     so_detach_policy_from_user = (\<lambda>x y. cut_write (so_detach_policy_from_user st x y)),
     so_list_user_policies = (\<lambda>c x y. so_list_user_policies st (fst c) x y),
     so_list_effective_user_policies = (\<lambda>c x y. so_list_effective_user_policies st (fst c) x y),
     so_attach_policy_to_group = (\<lambda>x y. cut_write (so_attach_policy_to_group st x y)),
     so_detach_policy_from_group = (\<lambda>x y. cut_write (so_detach_policy_from_group st x y)),
     so_list_group_policies = (\<lambda>c x y. so_list_group_policies st (fst c) x y),
     so_create_credential = (\<lambda>x. cut_write (so_create_credential st x)),
     so_get_credential = (\<lambda>c x. so_get_credential st (fst c) x),
     so_get_user_credential = (\<lambda>c x y. so_get_user_credential st (fst c) x y),
     so_delete_credential = (\<lambda>x y. cut_write (so_delete_credential st x y)),
     so_list_user_credentials = (\<lambda>c x y. so_list_user_credentials st (fst c) x y),
     so_create_external_principal = (\<lambda>x y. cut_write (so_create_external_principal st x y)),
     so_delete_external_principal = (\<lambda>x y. cut_write (so_delete_external_principal st x y)),
     so_get_external_principal = (\<lambda>c x. so_get_external_principal st (fst c) x),
     so_list_user_external_principals = (\<lambda>c x y. so_list_user_external_principals st (fst c) x y),
     so_claim_token_id = (\<lambda>x y. cut_write (so_claim_token_id st x y)),
     so_delete_expired_token_ids = (\<lambda>x. cut_write (so_delete_expired_token_ids st x)),
     so_ping = (\<lambda>c. so_ping st (fst c)),
     so_apply_bootstrap = (\<lambda>x. cut_write (so_apply_bootstrap st x)) \<rparr>"

lemma cut_store_sel [simp]:
  "so_create_user (cut_store st) x0 = cut_write (so_create_user st x0)"
  "so_get_user (cut_store st) c x1 = so_get_user st (fst c) x1"
  "so_find_user_by_id (cut_store st) c x2 = so_find_user_by_id st (fst c) x2"
  "so_find_user_by_email (cut_store st) c x3 = so_find_user_by_email st (fst c) x3"
  "so_find_user_by_external_id (cut_store st) c x4 = so_find_user_by_external_id st (fst c) x4"
  "so_delete_user (cut_store st) x5 = cut_write (so_delete_user st x5)"
  "so_list_users (cut_store st) c x6 = so_list_users st (fst c) x6"
  "so_set_friendly_name (cut_store st) x7 y7 = cut_write (so_set_friendly_name st x7 y7)"
  "so_create_group (cut_store st) x8 = cut_write (so_create_group st x8)"
  "so_get_group (cut_store st) c x9 = so_get_group st (fst c) x9"
  "so_delete_group (cut_store st) x10 = cut_write (so_delete_group st x10)"
  "so_list_groups (cut_store st) c x11 = so_list_groups st (fst c) x11"
  "so_create_policy (cut_store st) x12 = cut_write (so_create_policy st x12)"
  "so_get_policy (cut_store st) c x13 = so_get_policy st (fst c) x13"
  "so_update_policy (cut_store st) x14 = cut_write (so_update_policy st x14)"
  "so_delete_policy (cut_store st) x15 = cut_write (so_delete_policy st x15)"
  "so_list_policies (cut_store st) c x16 = so_list_policies st (fst c) x16"
  "so_add_membership (cut_store st) x17 y17 = cut_write (so_add_membership st x17 y17)"
  "so_remove_membership (cut_store st) x18 y18 = cut_write (so_remove_membership st x18 y18)"
  "so_list_group_members (cut_store st) c x19 y19 = so_list_group_members st (fst c) x19 y19"
  "so_list_user_groups (cut_store st) c x20 y20 = so_list_user_groups st (fst c) x20 y20"
  "so_attach_policy_to_user (cut_store st) x21 y21 = cut_write (so_attach_policy_to_user st x21 y21)"
  "so_detach_policy_from_user (cut_store st) x22 y22 = cut_write (so_detach_policy_from_user st x22 y22)"
  "so_list_user_policies (cut_store st) c x23 y23 = so_list_user_policies st (fst c) x23 y23"
  "so_list_effective_user_policies (cut_store st) c x24 y24 = so_list_effective_user_policies st (fst c) x24 y24"
  "so_attach_policy_to_group (cut_store st) x25 y25 = cut_write (so_attach_policy_to_group st x25 y25)"
  "so_detach_policy_from_group (cut_store st) x26 y26 = cut_write (so_detach_policy_from_group st x26 y26)"
  "so_list_group_policies (cut_store st) c x27 y27 = so_list_group_policies st (fst c) x27 y27"
  "so_create_credential (cut_store st) x28 = cut_write (so_create_credential st x28)"
  "so_get_credential (cut_store st) c x29 = so_get_credential st (fst c) x29"
  "so_get_user_credential (cut_store st) c x30 y30 = so_get_user_credential st (fst c) x30 y30"
  "so_delete_credential (cut_store st) x31 y31 = cut_write (so_delete_credential st x31 y31)"
  "so_list_user_credentials (cut_store st) c x32 y32 = so_list_user_credentials st (fst c) x32 y32"
  "so_create_external_principal (cut_store st) x33 y33 = cut_write (so_create_external_principal st x33 y33)"
  "so_delete_external_principal (cut_store st) x34 y34 = cut_write (so_delete_external_principal st x34 y34)"
  "so_get_external_principal (cut_store st) c x35 = so_get_external_principal st (fst c) x35"
  "so_list_user_external_principals (cut_store st) c x36 y36 = so_list_user_external_principals st (fst c) x36 y36"
  "so_claim_token_id (cut_store st) x37 y37 = cut_write (so_claim_token_id st x37 y37)"
  "so_delete_expired_token_ids (cut_store st) x38 = cut_write (so_delete_expired_token_ids st x38)"
  "so_ping (cut_store st) c = so_ping st (fst c)"
  "so_apply_bootstrap (cut_store st) x40 = cut_write (so_apply_bootstrap st x40)"
  by (simp_all add: cut_store_def)

section \<open>The TimeoutLayer of the authorization server\<close>

text \<open>
  A request that finishes in time, or one that is dropped after a number of its writes.
\<close>

datatype fate = InTime | DroppedAfter nat

definition serve_timed :: "'s store_trait \<Rightarrow> server \<Rightarrow> fate \<Rightarrow> http_request \<Rightarrow> 's \<Rightarrow> response \<times> 's" where
  "serve_timed st sv fate rq s = (case fate of
     InTime \<Rightarrow> serve st sv rq s
   | DroppedAfter writes \<Rightarrow> (reply 408 EmptyBody, fst (snd (serve (cut_store st) sv rq (s, writes)))))"

section \<open>A handler writes once\<close>

definition writes_once :: "('s \<times> nat \<Rightarrow> 'r \<times> ('s \<times> nat)) \<Rightarrow> ('s \<Rightarrow> 'q \<times> 's) \<Rightarrow> bool" where
  "writes_once p m \<longleftrightarrow> (\<forall>s n. fst (snd (p (s, n))) = (if n = 0 then s else snd (m s)))"

lemma writes_onceI: "(\<And>s. fst (snd (p (s, 0))) = s) \<Longrightarrow> (\<And>s n. fst (snd (p (s, Suc n))) = snd (m s)) \<Longrightarrow> writes_once p m"
  unfolding writes_once_def by (metis old.nat.exhaust nat.distinct(1))

lemma cut_write_simps [simp]:
  "cut_write u (s, 0) = (Err (SBackend ''dropped''), (s, 0))"
  "cut_write u (s, Suc n) = (fst (u s), (snd (u s), n))"
  by (simp_all add: cut_write_def map_prod_def case_prod_unfold)

lemma writes_once_write: "writes_once (cut_write u) u"
  by (rule writes_onceI) simp_all

lemma writes_once_const: "writes_once (\<lambda>c. (x, c)) (\<lambda>s. (y, s))"
  by (simp add: writes_once_def)

interpretation dropped: handler_relation writes_once
  by unfold_locales (rule writes_once_const)

lemma writes_once_reads: "reads p \<Longrightarrow> reads m \<Longrightarrow> writes_once p m"
  by (simp add: writes_once_def reads_def)

lemma writes_once_built:
  "writes_once p m \<Longrightarrow> writes_once (\<lambda>c. store_update code (p c)) (\<lambda>s. store_update code (m s))"
  "writes_once h k \<Longrightarrow> writes_once (\<lambda>c. respond f (h c)) (\<lambda>s. respond f (k s))"
  by (simp_all add: writes_once_def store_update_def respond_def)

lemma writes_once_row:
  "writes_once (\<lambda>c. map_prod f id (create_row (cut_write u) reread' same c)) (\<lambda>s. map_prod f id (create_row u reread same s))"
  using writes_once_write [of u] by (simp add: writes_once_def create_row_store)

lemma writes_once_services:
  "writes_once (svc_create_user (cut_store st) env b1) (svc_create_user st env b1)"
  "writes_once (svc_create_group (cut_store st) env b2) (svc_create_group st env b2)"
  "writes_once (svc_create_policy (cut_store st) env b3) (svc_create_policy st env b3)"
  "writes_once (svc_update_policy (cut_store st) env n b3) (svc_update_policy st env n b3)"
  "writes_once (svc_create_credentials (cut_store st) env n a k) (svc_create_credentials st env n a k)"
  "writes_once (svc_claim_token_id (cut_store st) env b4) (svc_claim_token_id st env b4)"
proof -
  show "writes_once (svc_create_user (cut_store st) env b1) (svc_create_user st env b1)"
    by (rule writes_onceI) (auto simp: svc_create_user_def create_row_store split: sum.split)
  show "writes_once (svc_create_group (cut_store st) env b2) (svc_create_group st env b2)"
    by (rule writes_onceI) (auto simp: svc_create_group_def create_row_store split: sum.split)
  show "writes_once (svc_create_policy (cut_store st) env b3) (svc_create_policy st env b3)"
    by (rule writes_onceI) (auto simp: svc_create_policy_def create_row_store split: sum.split)
  show "writes_once (svc_update_policy (cut_store st) env n b3) (svc_update_policy st env n b3)"
    by (rule writes_onceI) (auto simp: svc_update_policy_def case_prod_unfold split: sum.split)
  show "writes_once (svc_create_credentials (cut_store st) env n a k) (svc_create_credentials st env n a k)"
    by (rule writes_onceI) (auto simp: svc_create_credentials_def case_prod_unfold Let_def split: sum.split)
  show "writes_once (svc_claim_token_id (cut_store st) env b4) (svc_claim_token_id st env b4)"
    unfolding writes_once_def
  proof (intro allI)
    fix s n
    show "fst (snd (svc_claim_token_id (cut_store st) env b4 (s, n))) = (if n = 0 then s else snd (svc_claim_token_id st env b4 s))"
    proof (cases "from_unix env ''expires_at'' (ct_expires_at b4)")
      case (Inr e)
      then show ?thesis by (cases n) (simp_all add: svc_claim_token_id_def claim_end)
    qed (simp add: svc_claim_token_id_def)
  qed
qed

lemma writes_once_read: "writes_once (\<lambda>c. store_read f (p c) c) (\<lambda>s. store_read g (m s) s)"
  by (simp add: writes_once_def store_read_def)

lemma writes_once_branching:
  "writes_once (h_list_users (cut_store st) rq) (h_list_users st rq)"
  "writes_once (h_list_user_policies (cut_store st) u rq) (h_list_user_policies st u rq)"
  "writes_once (h_get_credentials (cut_store st) env k) (h_get_credentials st env k)"
  "writes_once (h_readyz (cut_store st)) (h_readyz st)"
  by (rule writes_once_reads; rule reading_handlers)+

lemma routers_write_once:
  "routes_related writes_once (protected_router (cut_store st) env version) (protected_router st env version)"
  "routes_related writes_once public_router public_router"
  "routes_related writes_once (root_router (cut_store st)) (root_router st)"
proof -
  show "routes_related writes_once (protected_router (cut_store st) env version) (protected_router st env version)"
    unfolding protected_router_def
    by (simp add: routes_related_simps)
      (intro conjI dropped.path_related writes_once_branching;
        simp add: handler_defs endpoints_related_def h_update_password_def [abs_def] h_version_def [abs_def];
        (intro allI)?; (rule dropped.body_related)?;
        intro writes_once_const writes_once_built writes_once_services writes_once_write writes_once_read)
  show "routes_related writes_once public_router public_router"
    by (simp add: public_router_def routes_related_simps dropped.path_related writes_once_const)
  show "routes_related writes_once (root_router (cut_store st)) (root_router st)"
    by (simp add: root_router_def routes_related_simps dropped.path_related writes_once_branching)
qed

text \<open>A dropped request has done nothing, or all that it would have done.\<close>

theorem serve_dropped:
  "fst (snd (serve (cut_store st) sv rq (s, n))) = (if n = 0 then s else snd (serve st sv rq s))"
proof -
  obtain h h' where "writes_once h h'" "serve (cut_store st) sv rq = (\<lambda>c. finish (h c))" "serve st sv rq = (\<lambda>s. finish (h' s))"
    by (rule dropped.serve_related [OF routers_write_once])
  then show ?thesis by (simp add: writes_once_def)
qed

lemma serve_timed_state: "snd (serve_timed st sv fate rq s) = (if fate = DroppedAfter 0 then s else snd (serve st sv rq s))"
  by (cases fate) (simp_all add: serve_timed_def serve_dropped)

lemma serve_timed_status: "fate \<noteq> InTime \<Longrightarrow> rs_status (fst (serve_timed st sv fate rq s)) = 408"
  by (cases fate) (simp_all add: serve_timed_def reply_def)

section \<open>A login that is dropped\<close>

text \<open>
  The calls of the authorization API that a login still gets to.  The last of them may have been carried out although its
  answer is never looked at.
\<close>

definition cut_call :: "('s, 'a) call \<Rightarrow> ('s \<times> nat, 'a) call" where
  "cut_call k c = (case snd c of
     0 \<Rightarrow> (Err (CConfig ''dropped''), c)
   | Suc n \<Rightarrow> map_prod id (\<lambda>s'. (s', n)) (k (fst c)))"

definition cut_directory :: "'s directory_api \<Rightarrow> ('s \<times> nat) directory_api" where
  "cut_directory api = \<lparr> da_find_external = (\<lambda>x. cut_call (da_find_external api x)),
     da_find_email = (\<lambda>x. cut_call (da_find_email api x)), da_create = (\<lambda>x. cut_call (da_create api x)),
     da_delete = (\<lambda>x. cut_call (da_delete api x)), da_rename = (\<lambda>x y. cut_call (da_rename api x y)),
     da_add_member = (\<lambda>x y. cut_call (da_add_member api x y)) \<rparr>"

text \<open>
  A task, once spawned, runs to its end whatever becomes of the request: it is one call, over the directory itself.  A
  request that is already dropped spawns none.
\<close>

definition spawned :: "('s, 'a) call \<Rightarrow> ('s \<times> nat, 'a) call" where
  "spawned task = cut_call task"

definition dropped_login :: "(json \<Rightarrow> string) \<Rightarrow> 's directory_api \<Rightarrow> provision_settings \<Rightarrow> claims \<Rightarrow> nat \<Rightarrow> 's \<Rightarrow> 's" where
  "dropped_login compact api st claims calls s =
     fst (snd (provision_user_with (\<lambda>spec. spawned (create_user_with_groups api spec)) compact (cut_directory api) st claims
       (s, calls)))"

lemma cut_call_simps [simp]:
  "cut_call k (s, 0) = (Err (CConfig ''dropped''), (s, 0))"
  "cut_call k (s, Suc n) = (fst (k s), (snd (k s), n))"
  by (simp_all add: cut_call_def map_prod_def case_prod_unfold)

lemma cut_directory_simps [simp]:
  "da_find_external (cut_directory api) x = cut_call (da_find_external api x)"
  "da_rename (cut_directory api) x y = cut_call (da_rename api x y)"
  "da_create (cut_directory api) c = cut_call (da_create api c)"
  "da_delete (cut_directory api) x = cut_call (da_delete api x)"
  "da_add_member (cut_directory api) x y = cut_call (da_add_member api x y)"
  by (simp_all add: cut_directory_def)

lemma provision_result_state: "snd (provision_result r) = snd r"
  by (auto simp: provision_result_def split: prod.splits sum.splits client_error.splits)

lemma dropped_at_once: "dropped_login compact api st claims 0 s = s"
  by (simp add: dropped_login_def provision_user_with_def split: option.split)

text \<open>The lookup, of a directory that it leaves as it was, and one more call: the name or the task.\<close>

lemma dropped_later:
  assumes "da_find_external api x s = (r, s)" "claim_text compact claims ''sub'' = Some x"
  shows "dropped_login compact api st claims (Suc n) s = (if n = 0 then s else snd (provision_user compact api st claims s))"
proof (cases r)
  case (Inr found)
  show ?thesis
  proof (cases found)
    case None
    then show ?thesis using assms Inr
      by (cases n) (simp_all add: dropped_login_def provision_user_unfold spawned_def provision_result_state Let_def split: sum.split)
  next
    case (Some u)
    then show ?thesis using assms Inr
      by (cases n) (simp_all add: dropped_login_def provision_user_unfold Let_def split: option.split)
  qed
qed (use assms in \<open>simp add: dropped_login_def provision_user_unfold Let_def\<close>)

lemma dropped_login_state:
  assumes "\<And>x. snd (da_find_external api x s) = s"
  shows "dropped_login compact api st claims calls s \<in> {s, snd (provision_user compact api st claims s)}"
proof (cases "claim_text compact claims ''sub''")
  case None
  then show ?thesis by (simp add: dropped_login_def provision_user_with_def)
next
  case (Some x)
  then show ?thesis
    using dropped_at_once [of compact api st claims s] dropped_later [of api x s _ compact claims st, OF prod_eqI Some] assms [of x]
    by (cases calls) auto
qed

text \<open>Were the create no task of its own, a login dropped after it would leave the user without any group.\<close>

lemma create_in_the_request:
  assumes "da_create api (user_creation_of spec) s = (Ok u, s1)"
  shows "fst (snd (create_user_with_groups (cut_directory api) spec (s, 1))) = s1"
proof -
  have "fst (snd (join_groups (cut_directory api) n gs (s1, 0))) = s1" for n gs
    by (cases gs) (simp_all add: roll_back_create_def)
  then show ?thesis
    using assms by (simp add: create_user_with_groups_def then_call_def create_or_recover_def pure_call_def case_prod_unfold split: sum.split)
qed

end
