(* ===== verification/Pg_Process.thy ===== *)
theory Pg_Process
  imports Pg_Busy Timeouts
begin

text \<open>
  The authorization server in production as a process: requests that are answered, requests that are dropped, requests
  that meet a database that is down, and the sweeps of \<open>cleanup.rs\<close>, in any order and at the same time, each with its
  own settings, clock and randomness.  Its runs are the runs of a server that keeps one in-memory state and does each
  request at once or not at all.
\<close>

section \<open>Runs\<close>

inductive run :: "('s \<Rightarrow> 'e \<Rightarrow> 's \<Rightarrow> bool) \<Rightarrow> 's \<Rightarrow> 'e list \<Rightarrow> 's \<Rightarrow> bool" for step where
  none: "run step s [] s"
| more: "step s e s' \<Longrightarrow> run step s' es s'' \<Longrightarrow> run step s (e # es) s''"

inductive_cases run_cases: "run step s (e # es) s''"
inductive_simps run_none [simp]: "run step s [] s'"

lemma run_append: "run step s es s' \<Longrightarrow> run step s' fs s'' \<Longrightarrow> run step s (es @ fs) s''"
  by (induction rule: run.induct) (auto intro: run.more)

text \<open>A forward simulation by a function, under an invariant of the concrete side.\<close>

locale simulated_by =
  fixes concrete :: "'c \<Rightarrow> 'e \<Rightarrow> 'c \<Rightarrow> bool"
    and abstract_step :: "'a \<Rightarrow> 'e \<Rightarrow> 'a \<Rightarrow> bool"
    and view :: "'c \<Rightarrow> 'a"
    and inv :: "'c \<Rightarrow> bool"
  assumes step_simulated: "inv c \<Longrightarrow> concrete c e c' \<Longrightarrow> abstract_step (view c) e (view c')"
    and step_inv: "inv c \<Longrightarrow> concrete c e c' \<Longrightarrow> inv c'"
begin

lemma run_simulated: "run concrete c es c' \<Longrightarrow> inv c \<Longrightarrow> run abstract_step (view c) es (view c') \<and> inv c'"
  by (induction rule: run.induct) (auto intro: run.intros step_simulated step_inv)

end

section \<open>What happens to the server\<close>

text \<open>
  The state is the history of the tables, the present ones first: by the time its statement runs, a request may have
  read any of them.
\<close>

datatype event = Answered server http_request response | Dropped server http_request
  | Unreachable server http_request response | Swept int

inductive pg_step :: "db list \<Rightarrow> event \<Rightarrow> db list \<Rightarrow> bool" where
  answered: "pg_up env \<Longrightarrow> seen \<in> set (d # h) \<Longrightarrow> serve_busy (pg_impl env) sv rq seen d = (r, d') \<Longrightarrow>
     pg_step (d # h) (Answered sv rq r) (d' # d # h)"
| dropped: "pg_works env \<Longrightarrow> seen \<in> set (d # h) \<Longrightarrow>
     serve_timed (busy_store (pg_impl env)) sv (DroppedAfter writes) rq (seen, d) = (r, c) \<Longrightarrow>
     pg_step (d # h) (Dropped sv rq) (snd c # d # h)"
| unreachable: "pg_down env = Some m \<Longrightarrow> serve (pg_impl env) sv rq d = (r, d') \<Longrightarrow>
     pg_step (d # h) (Unreachable sv rq r) (d' # d # h)"
| swept: "pg_works env \<Longrightarrow> pg_delete_expired_token_ids env now d = (r, d') \<Longrightarrow> pg_step (d # h) (Swept now) (d' # d # h)"

text \<open>
  The abstract server, with one in-memory state and its history.  A sequence is not transactional, so ids may be
  skipped.  Without its database the server answers with an error, or what does not need the database.
\<close>

definition skip_ids :: "inner \<Rightarrow> inner \<Rightarrow> bool" where
  "skip_ids s s' \<longleftrightarrow> (\<exists>n. in_next_user_id s \<le> n \<and> s' = s\<lparr> in_next_user_id := n \<rparr>)"

definition truthful :: "response \<Rightarrow> response \<Rightarrow> bool" where
  "truthful r m \<longleftrightarrow> (\<exists>e. r = error_reply e) \<or> same_reply r m"

inductive server_step :: "inner list \<Rightarrow> event \<Rightarrow> inner list \<Rightarrow> bool" where
  answered: "seen \<in> set (s # h) \<Longrightarrow> serve_busy mem_impl sv rq seen s = (m, s1) \<Longrightarrow> same_reply r m \<Longrightarrow> skip_ids s1 s' \<Longrightarrow>
     server_step (s # h) (Answered sv rq r) (s' # s # h)"
| dropped: "seen \<in> set (s # h) \<Longrightarrow> s1 = s \<or> s1 = snd (serve_busy mem_impl sv rq seen s) \<Longrightarrow> skip_ids s1 s' \<Longrightarrow>
     server_step (s # h) (Dropped sv rq) (s' # s # h)"
| unreachable: "truthful r (fst (serve mem_impl sv rq s)) \<Longrightarrow> server_step (s # h) (Unreachable sv rq r) (s # s # h)"
| swept: "s' = s \<or> s' = snd (delete_expired_token_ids now s) \<Longrightarrow> server_step (s # h) (Swept now) (s' # s # h)"

lemma follows_skip: "follows d s \<Longrightarrow> skip_ids s (store_of d)"
  by (auto simp: follows_def skip_ids_def)

section \<open>Without the database\<close>

definition truthful_handler :: "(db, response) handler \<Rightarrow> (inner, response) handler \<Rightarrow> bool" where
  "truthful_handler p m \<longleftrightarrow> (\<forall>d. pg_ok d \<longrightarrow> (\<exists>e. fst (p d) = Err e) \<or> same_outcome (fst (p d)) (fst (m (store_of d))))"

interpretation outage: handler_relation truthful_handler
  by unfold_locales (simp add: truthful_handler_def)

lemma truthful_const: "truthful_handler (\<lambda>d. (x, d)) (\<lambda>s. (x, s))"
  by (simp add: truthful_handler_def)

lemma truthful_refused: "refuses p \<Longrightarrow> truthful_handler p m"
  by (simp add: truthful_handler_def refuses_def)

lemma refused_read: "(\<And>d. \<exists>e. p d = Err e) \<Longrightarrow> refuses (\<lambda>d. store_read f (p d) d)"
  by (simp add: refuses_def store_read_def error_kept)

lemma down_reads:
  assumes "pg_down env = Some m"
  shows "\<exists>e. pg_get_user env x1 d = Err e" "\<exists>e. pg_find_user_by_id env x2 d = Err e"
    "\<exists>e. pg_find_user_by_email env x3 d = Err e" "\<exists>e. pg_find_user_by_external_id env x4 d = Err e"
    "\<exists>e. pg_list_users env q d = Err e" "\<exists>e. pg_get_group env x5 d = Err e" "\<exists>e. pg_list_groups env q d = Err e"
    "\<exists>e. pg_get_policy env x6 d = Err e" "\<exists>e. pg_list_policies env q d = Err e"
    "\<exists>e. pg_list_group_members env x7 q d = Err e" "\<exists>e. pg_list_user_groups env x8 q d = Err e"
    "\<exists>e. pg_list_user_policies env x9 q d = Err e" "\<exists>e. pg_list_effective_user_policies env y1 q d = Err e"
    "\<exists>e. pg_list_group_policies env y2 q d = Err e" "\<exists>e. pg_get_credential env y3 d = Err e"
    "\<exists>e. pg_get_user_credential env y4 y5 d = Err e" "\<exists>e. pg_list_user_credentials env y6 q d = Err e"
    "\<exists>e. pg_get_external_principal env y7 d = Err e" "\<exists>e. pg_list_user_external_principals env y8 q d = Err e"
    "\<exists>e. pg_ping env d = Err e"
  using assms
  by (simp_all add: pg_get_user_def pg_find_user_by_id_def pg_find_user_by_email_def pg_find_user_by_external_id_def
      pg_list_users_def pg_get_group_def pg_list_groups_def pg_get_policy_def pg_list_policies_def pg_list_group_members_def
      pg_list_user_groups_def pg_list_user_policies_def pg_list_effective_user_policies_def pg_list_group_policies_def
      pg_get_credential_def pg_get_user_credential_def pg_list_user_credentials_def pg_get_external_principal_def
      pg_list_user_external_principals_def pg_ping_def fetch_one_def fetch_optional_def fetch_page_def fetch_owned_page_def
      fetch_all_def)

lemma truthful_list_users:
  "pg_down pe = Some m \<Longrightarrow> truthful_handler (h_list_users (pg_impl pe) rq) (h_list_users mem_impl rq)"
  by (auto simp: truthful_handler_def h_list_users_def store_read_def error_kept down_reads split: option.split)

lemma refused_branching:
  assumes "pg_down pe = Some m"
  shows "refuses (h_list_user_policies (pg_impl pe) u rq)" "refuses (h_get_credentials (pg_impl pe) env k)"
    "refuses (h_readyz (pg_impl pe))"
proof -
  show "refuses (h_list_user_policies (pg_impl pe) u rq)"
    by (simp add: refuses_def h_list_user_policies_def store_read_def error_kept down_reads [OF assms])
  have "\<exists>e. svc_credentials_with_secret (pg_impl pe) env d k = Err e" for d
    using down_reads(15) [OF assms, of k d] by (auto simp: svc_credentials_with_secret_def)
  then show "refuses (h_get_credentials (pg_impl pe) env k)"
    by (simp add: refuses_def h_get_credentials_def respond_def error_kept)
  show "refuses (h_readyz (pg_impl pe))"
    unfolding refuses_def
  proof
    fix d
    obtain e where "pg_ping pe d = Err e" using down_reads(20) [OF assms] by blast
    then show "\<exists>e. fst (h_readyz (pg_impl pe) d) = Err e" by (simp add: h_readyz_def)
  qed
qed

lemma routers_truthful:
  assumes "pg_down pe = Some m"
  shows "routes_related truthful_handler (protected_router (pg_impl pe) env version) (protected_router mem_impl env version)"
    and "routes_related truthful_handler public_router public_router"
    and "routes_related truthful_handler (root_router (pg_impl pe)) (root_router mem_impl)"
proof -
  show "routes_related truthful_handler (protected_router (pg_impl pe) env version) (protected_router mem_impl env version)"
    unfolding protected_router_def
    by (simp add: routes_related_simps)
      (intro conjI outage.path_related truthful_list_users [OF assms] truthful_refused [OF refused_branching(1) [OF assms]]
          truthful_refused [OF refused_branching(2) [OF assms]];
        simp add: handler_defs endpoints_related_def h_update_password_def [abs_def] h_version_def [abs_def];
        (intro allI)?; (rule outage.body_related)?;
        (rule truthful_const | rule truthful_refused;
          intro refuses_built refuses_services [OF assms] refuses_ops [OF assms] refused_read;
          rule down_reads [OF assms]))
  show "routes_related truthful_handler public_router public_router"
    by (simp add: public_router_def routes_related_simps outage.path_related truthful_const)
  show "routes_related truthful_handler (root_router (pg_impl pe)) (root_router mem_impl)"
    by (simp add: root_router_def routes_related_simps outage.path_related truthful_refused refused_branching [OF assms])
qed

lemma serve_truthful:
  assumes "pg_down env = Some m" "pg_ok d"
  shows "truthful (fst (serve (pg_impl env) sv rq d)) (fst (serve mem_impl sv rq (store_of d)))"
proof -
  obtain h h' where h: "truthful_handler h h'" "serve (pg_impl env) sv rq = (\<lambda>d. finish (h d))" "serve mem_impl sv rq = (\<lambda>s. finish (h' s))"
    by (rule outage.serve_related [OF routers_truthful [OF assms(1)]])
  obtain x d' where p: "h d = (x, d')" by force
  obtain y s' where m: "h' (store_of d) = (y, s')" by force
  have "(\<exists>e. x = Err e) \<or> same_outcome x y"
    using h(1) assms(2) p m unfolding truthful_handler_def by (metis fst_conv)
  then show ?thesis
    by (cases x; cases y) (auto simp: truthful_def same_reply_def h p m finish_def)
qed

section \<open>The process refines the abstract server\<close>

lemma up_works: "pg_up env \<Longrightarrow> pg_works env"
  by (simp add: pg_works_def pg_up_def)

definition all_reachable :: "db list \<Rightarrow> bool" where
  "all_reachable g \<longleftrightarrow> (\<forall>d \<in> set g. pg_reachable d)"

lemma pg_step_reachable: "pg_step g e g' \<Longrightarrow> all_reachable g \<Longrightarrow> all_reachable g'"
proof (induction rule: pg_step.induct)
  case (answered env seen d h sv rq r d')
  then show ?case using serve_busy_reachable [OF up_works, of env d sv rq seen] by (simp add: all_reachable_def)
next
  case (dropped env seen d h sv writes rq r c)
  have "snd c = d \<or> snd c = snd (serve_busy (pg_impl env) sv rq seen d)"
    using dropped(3) serve_timed_state [of "busy_store (pg_impl env)" sv "DroppedAfter writes" rq "(seen, d)"]
    by (auto simp: serve_busy_def split: if_splits)
  then show ?case using dropped serve_busy_reachable [of env d sv rq seen] by (auto simp: all_reachable_def)
next
  case (unreachable env m sv rq d r d' h)
  then show ?case using serve_down [of env m sv rq d] by (simp add: all_reachable_def)
next
  case (swept env now d r d' h)
  then show ?case using pg_reachable.step [of d env "DeleteExpiredTokenIds now"] by (simp add: all_reachable_def)
qed

lemma skip_ids_refl: "skip_ids s s"
  by (auto simp: skip_ids_def intro: exI [of _ "in_next_user_id s"])

lemma serve_busy_down:
  assumes "pg_down env = Some m"
  shows "snd (serve_busy (pg_impl env) sv rq seen d) = d"
proof (cases rule: serve_busy_linearizable [of "pg_impl env" sv rq seen d])
  case writes
  then show ?thesis using serve_down [OF assms] by simp
next
  case (updates e n rq')
  have "snd (pg_update_policy env np d) = d" for np using down_unchanged [OF assms, of "UpdatePolicy np" d] by simp
  then have "snd (snd (h_update_policy (busy_store (pg_impl env)) e n rq' (seen, d))) = d"
    using update_policy_busy_step [of "pg_impl env" e n rq' seen d] by auto
  then show ?thesis unfolding updates(2) by simp
qed simp

lemma sweep_keeps_sequence:
  "t_user_seq (snd (pg_delete_expired_token_ids env now d)) = t_user_seq d"
  "(snd (delete_expired_token_ids now s))\<lparr> in_next_user_id := in_next_user_id s \<rparr> = snd (delete_expired_token_ids now s)"
  by (simp_all add: pg_delete_expired_token_ids_def mapped_def execute_def DELETE_EXPIRED_TOKEN_IDS_def
      delete_expired_token_ids_def Let_def split: option.split)

lemma pg_step_simulated:
  assumes "all_reachable g" "pg_step g e g'"
  shows "server_step (map store_of g) e (map store_of g')"
  using assms(2,1)
proof cases
  case (answered env seen d h sv rq r d')
  have ok: "pg_ok seen" "pg_ok d" using answered(1,5) assms(1) by (auto simp: all_reachable_def pg_reachable_ok)
  obtain m s1 where m: "serve_busy mem_impl sv rq (store_of seen) (store_of d) = (m, s1)" by force
  have "same_reply r m" "skip_ids s1 (store_of d')"
    using serve_busy_agrees [OF answered(4) ok, of sv rq] answered(6) m follows_skip by auto
  moreover have "store_of seen \<in> set (store_of d # map store_of h)" using answered(5) by auto
  ultimately show ?thesis using answered(1,2) server_step.answered [OF _ m] by (simp add: answered)
next
  case (dropped env seen d h sv writes rq r c)
  have ok: "pg_ok seen" "pg_ok d" using dropped(1,5) assms(1) by (auto simp: all_reachable_def pg_reachable_ok)
  have seen: "store_of seen \<in> set (store_of d # map store_of h)" using dropped(5) by auto
  have c: "snd c = d \<or> snd c = snd (serve_busy (pg_impl env) sv rq seen d)"
    using dropped(6) serve_timed_state [of "busy_store (pg_impl env)" sv "DroppedAfter writes" rq "(seen, d)"]
    by (auto simp: serve_busy_def split: if_splits)
  have "\<exists>s1. (s1 = store_of d \<or> s1 = snd (serve_busy mem_impl sv rq (store_of seen) (store_of d))) \<and> skip_ids s1 (store_of (snd c))"
  proof (cases "snd c = d")
    case True
    then show ?thesis using skip_ids_refl by auto
  next
    case False
    then have "pg_down env = None" using c serve_busy_down [of env _ sv rq seen d] by (cases "pg_down env") auto
    then have "pg_up env" using dropped(4) by (simp add: pg_works_def pg_up_def)
    then show ?thesis using serve_busy_agrees [OF _ ok, of env sv rq] c False follows_skip by auto
  qed
  then show ?thesis using server_step.dropped [OF seen] by (auto simp: dropped)
next
  case (unreachable env m sv rq d r d' h)
  then have "d' = d" "pg_ok d"
    using serve_down [OF unreachable(4), of sv rq d] assms(1) by (auto simp: all_reachable_def pg_reachable_ok)
  then show ?thesis
    using unreachable serve_truthful [OF unreachable(4), of d sv rq] server_step.unreachable [of r sv rq "store_of d" "map store_of h"]
    by simp
next
  case (swept env now d r d' h)
  have ok: "pg_ok d" using swept(1) assms(1) by (auto simp: all_reachable_def pg_reachable_ok)
  have "store_of d' = store_of d \<or> store_of d' = snd (delete_expired_token_ids now (store_of d))"
  proof (cases "pg_down env")
    case None
    then have up: "pg_up env" using swept(4) by (simp add: pg_works_def pg_up_def)
    have "store_of d' = snd (delete_expired_token_ids now (store_of d))"
      using sim_delete_expired [OF up ok, of now] swept(5) sweep_keeps_sequence(1) [of env now d]
        sweep_keeps_sequence(2) [of "store_of d" now]
      by (simp add: simulates_def store_sel)
    then show ?thesis ..
  next
    case (Some m)
    then show ?thesis using down_unchanged [OF Some, of "DeleteExpiredTokenIds now" d] swept(5) by simp
  qed
  then show ?thesis using server_step.swept [of "store_of d'" "store_of d" now "map store_of h"] by (simp add: swept)
qed

interpretation process: simulated_by pg_step server_step "map store_of" all_reachable
  by unfold_locales (rule pg_step_simulated, auto intro: pg_step_reachable)

section \<open>What a step does to the state\<close>

lemma run_states:
  assumes "run step s es s'" "\<And>s e s'. e \<in> set es \<Longrightarrow> I s \<Longrightarrow> step s e s' \<Longrightarrow> I s'" "I s"
  shows "I s'"
  using assms by (induction rule: run.induct) auto

text \<open>At most one operation, and the cleanup of token ids only as a sweep.\<close>

lemma server_step_effect:
  assumes "server_step g e g'"
  obtains s1 where "skip_ids s1 (hd g')" "s1 = hd g \<or> (\<exists>op. s1 = run_op op (hd g) \<and> (request_op op \<or> (\<exists>now. e = Swept now \<and> op = DeleteExpiredTokenIds now)))"
  using assms
proof cases
  case (answered seen s h sv rq m s1 r s')
  then show ?thesis using serve_busy_is_step [of sv rq seen s] by (intro that [of s1]) auto
next
  case (dropped seen s h s1 sv rq s')
  then show ?thesis using serve_busy_is_step [of sv rq seen s] by (intro that [of s1]) auto
next
  case (unreachable r sv rq s h)
  then show ?thesis using skip_ids_refl by (intro that [of s]) auto
next
  case (swept s' s now h)
  then have "s' = hd g \<or> s' = run_op (DeleteExpiredTokenIds now) (hd g)" by simp
  moreover have "skip_ids s' (hd g')" using swept skip_ids_refl by simp
  ultimately show ?thesis using swept(2) that by blast
qed

section \<open>A token id is claimed once in production\<close>

definition claim_held :: "string \<Rightarrow> int \<Rightarrow> inner \<Rightarrow> bool" where
  "claim_held t x s \<longleftrightarrow> wf_inner s \<and> bt_get (in_claimed_token_ids s) t = Some x"

lemma skip_ids_claims: "claim_held t x s1 \<Longrightarrow> skip_ids s1 s' \<Longrightarrow> claim_held t x s'"
  by (auto simp: claim_held_def skip_ids_def wf_raise_next)

lemma request_op_keeps: "request_op op \<Longrightarrow> keeps_claim x op"
  by (cases op) (simp_all add: request_op_def keeps_claim_def)

lemma server_step_holds_claim:
  assumes "claim_held t x (hd g)" "server_step g e g'" "\<And>now. e = Swept now \<Longrightarrow> now < x"
  shows "claim_held t x (hd g')"
proof -
  obtain s1 where s1: "skip_ids s1 (hd g')" "s1 = hd g
      \<or> (\<exists>op. s1 = run_op op (hd g) \<and> (request_op op \<or> (\<exists>now. e = Swept now \<and> op = DeleteExpiredTokenIds now)))"
    by (rule server_step_effect [OF assms(2)])
  have "claim_held t x (run_op op (hd g))" if "request_op op \<or> (\<exists>now. e = Swept now \<and> op = DeleteExpiredTokenIds now)" for op
  proof -
    have "keeps_claim x op" using that request_op_keeps assms(3) by (auto simp: keeps_claim_def)
    then show ?thesis using assms(1) by (simp add: claim_held_def wf_run_op run_op_keeps_claim)
  qed
  then have "claim_held t x s1" using s1(2) assms(1) by blast
  then show ?thesis by (rule skip_ids_claims [OF _ s1(1)])
qed

lemma svc_claim_token_id_Ok:
  assumes "svc_claim_token_id mem_impl env body s = (Ok u, s')" "env_from_second env (ct_expires_at body) = Some x" "wf_inner s"
  shows "claim_held (ct_token_id body) x s'"
proof -
  have "claim_token_id (ct_token_id body) x s = (Ok (), s')"
    using assms(1,2)
    by (auto simp: svc_claim_token_id_def from_unix_def Let_def split: if_splits sum.splits prod.splits store_error.splits)
  from claim_token_id_effect [OF assms(3) this] show ?thesis by (simp add: claim_held_def)
qed

lemma svc_claim_token_id_again:
  assumes "claim_held (ct_token_id body) x s"
  shows "\<exists>m. fst (svc_claim_token_id mem_impl env body s) = Err (Invalid m)"
proof (cases "from_unix env ''expires_at'' (ct_expires_at body)")
  case (Inl err)
  then obtain m where "err = Invalid m" by (auto simp: from_unix_def Let_def res_simps split: if_splits)
  then show ?thesis using Inl by (simp add: svc_claim_token_id_def)
next
  case (Inr e)
  have "claim_token_id (ct_token_id body) e s = (Err (SAlreadyExists ''token id'' (ct_token_id body)), s)"
    using assms by (simp add: claim_token_id_def claim_held_def bt_contains_key_def)
  then show ?thesis using Inr by (simp add: svc_claim_token_id_def)
qed

theorem claimed_once:
  assumes "pg_up pe" "all_reachable (d # h)" "svc_claim_token_id (pg_impl pe) env body d = (Ok u, d1)"
    "env_from_second env (ct_expires_at body) = Some x"
    "run pg_step (d1 # d # h) es (d2 # h2)" "\<And>now. Swept now \<in> set es \<Longrightarrow> now < x"
    "pg_up pe2" "ct_token_id again = ct_token_id body"
  shows "\<exists>e. fst (svc_claim_token_id (pg_impl pe2) env2 again d2) = Err e \<and> status_code e = 400"
proof -
  let ?t = "ct_token_id body"
  have d: "pg_reachable d" using assms(2) by (simp add: all_reachable_def)
  note ok = pg_reachable_ok [OF d]
  obtain s1 where mem: "svc_claim_token_id mem_impl env body (store_of d) = (Ok u, s1)" and f: "follows d1 s1"
    using agree_at [OF svc_claim_token_id_agrees [OF assms(1)] ok, of env body] assms(3)
    by (metis fst_conv prod.collapse same_outcome_simps(1) snd_conv)
  have "claim_held ?t x s1" by (rule svc_claim_token_id_Ok [OF mem assms(4) pg_okD(3) [OF ok]])
  then have held: "claim_held ?t x (hd (map store_of (d1 # d # h)))" using skip_ids_claims [OF _ follows_skip [OF f]] by simp
  have "pg_reachable d1"
    using one_statement_services(6) [of pe env body] d assms(3) up_works [OF assms(1)] unfolding one_statement_def
    by (metis pg_reachable.step snd_conv)
  then have g: "all_reachable (d1 # d # h)" using assms(2) by (simp add: all_reachable_def)
  have run: "run server_step (map store_of (d1 # d # h)) es (map store_of (d2 # h2))" and g2: "all_reachable (d2 # h2)"
    using process.run_simulated [OF assms(5) g] by simp_all
  have "claim_held ?t x (hd (map store_of (d2 # h2)))"
    by (rule run_states [where I = "\<lambda>g. claim_held ?t x (hd g)", OF run _ held]) (use assms(6) server_step_holds_claim in blast)
  then obtain m where "fst (svc_claim_token_id mem_impl env2 again (store_of d2)) = Err (Invalid m)"
    using svc_claim_token_id_again [of again x _ env2] assms(8) by auto
  moreover have "pg_ok d2" using g2 by (simp add: all_reachable_def pg_reachable_ok)
  ultimately show ?thesis
    using agree_at [OF svc_claim_token_id_agrees [OF assms(7)], of d2 env2 again]
    by (cases "fst (svc_claim_token_id (pg_impl pe2) env2 again d2)") auto
qed

section \<open>User ids are never reused in production\<close>

lemma server_step_next: "server_step g e g' \<Longrightarrow> in_next_user_id (hd g) \<le> in_next_user_id (hd g')"
proof -
  assume "server_step g e g'"
  then obtain s1 where "skip_ids s1 (hd g')" "s1 = hd g \<or> (\<exists>op. s1 = run_op op (hd g))"
    by (rule server_step_effect) blast
  then have "in_next_user_id (hd g) \<le> in_next_user_id s1" "in_next_user_id s1 \<le> in_next_user_id (hd g')"
    using run_op_next_user_id by (auto simp: skip_ids_def)
  then show "in_next_user_id (hd g) \<le> in_next_user_id (hd g')" by simp
qed

lemma pg_create_user_id:
  assumes "pg_up pe" "pg_ok d" "pg_create_user pe nu d = (Ok r, d')"
  shows "t_user_seq d < ur_user_id r" "ur_user_id r \<le> t_user_seq d'"
proof -
  obtain s' where m: "create_user nu (store_of d) = (Ok r, s')" "in_next_user_id s' \<le> t_user_seq d'"
    using sim_create_user [OF assms(1,2), of nu] assms(3) by (cases "create_user nu (store_of d)") (simp add: simulates_def)
  from create_user_id [OF m(1)] m(2) show "t_user_seq d < ur_user_id r" "ur_user_id r \<le> t_user_seq d'"
    by (simp_all add: store_sel)
qed

theorem ids_increase:
  assumes "pg_up pe" "all_reachable (d # h)" "pg_create_user pe nu d = (Ok r, d1)" "run pg_step (d1 # d # h) es (d2 # h2)"
    and "pg_up pe2" "pg_create_user pe2 nu2 d2 = (Ok r2, d3)"
  shows "ur_user_id r < ur_user_id r2"
proof -
  have d: "pg_reachable d" using assms(2) by (simp add: all_reachable_def)
  have "pg_reachable d1"
    using pg_reachable.step [OF d up_works [OF assms(1)], of "CreateUser nu"] assms(3) by simp
  then have g: "all_reachable (d1 # d # h)" using assms(2) by (simp add: all_reachable_def)
  have run: "run server_step (map store_of (d1 # d # h)) es (map store_of (d2 # h2))" and g2: "all_reachable (d2 # h2)"
    using process.run_simulated [OF assms(4) g] by simp_all
  have "in_next_user_id (hd (map store_of (d1 # d # h))) \<le> in_next_user_id (hd (map store_of (d2 # h2)))"
    by (rule run_states [where I = "\<lambda>g. in_next_user_id (hd (map store_of (d1 # d # h))) \<le> in_next_user_id (hd g)", OF run])
      (use server_step_next order_trans in blast)+
  moreover have "pg_ok d2" using g2 by (simp add: all_reachable_def pg_reachable_ok)
  ultimately show ?thesis
    using pg_create_user_id [OF assms(1) pg_reachable_ok [OF d] assms(3)] pg_create_user_id [OF assms(5) _ assms(6)]
    by (simp add: store_sel)
qed

end
