(* ===== verification/Authn_Config.thy ===== *)
theory Authn_Config
  imports Login_Flow
begin

text \<open>
  The configuration of the authentication server: \<open>lakefs-authn/src/config.rs\<close> (the value parsers, the flags
  with their defaults, what is derived from them), \<open>state.rs\<close> (the components built from it),
  \<open>util/cookie_key.rs\<close> and the route table of \<open>routes/mod.rs\<close>.  The command line is a lookup from a flag to
  the text given for it; the parsers of clap, \<open>humantime\<close> and \<open>url\<close> are parameters.
\<close>

definition CALLBACK_PATH :: string where "CALLBACK_PATH = ''/oidc/callback''"

section \<open>Key and value lists\<close>

datatype kv_error = EmptyKey string | EmptyValue string | NotAPair string | DuplicateKey string

type_synonym kv_state = "(string, string) btree \<times> (string \<times> string) option"

definition insert_once :: "(string, string) btree \<Rightarrow> string \<Rightarrow> string \<Rightarrow> kv_error + (string, string) btree" where
  "insert_once m key val = (if bt_contains_key m key then Err (DuplicateKey key) else Ok (bt_insert key val m))"

definition kv_flush :: "kv_state \<Rightarrow> kv_error + (string, string) btree" where
  "kv_flush st = (case st of (m, None) \<Rightarrow> Ok m | (m, Some (key, val)) \<Rightarrow> insert_once m key val)"

text \<open>One item: a pair closes the pair before it; an item without \<open>=\<close> continues its value.\<close>

definition kv_item :: "kv_state \<Rightarrow> string \<Rightarrow> kv_error + kv_state" where
  "kv_item st item = (case split_once CHR ''='' item of
     Some (key, val) \<Rightarrow> and_then (kv_flush st) (\<lambda>m.
       let key = trim key; val = trim val in
       if key = [] then Err (EmptyKey item)
       else if val = [] then Err (EmptyValue item)
       else Ok (m, Some (key, val)))
   | None \<Rightarrow> (case st of
       (m, Some (key, val)) \<Rightarrow> Ok (m, Some (key, val @ '','' @ item))
     | (_, None) \<Rightarrow> Err (NotAPair item)))"

definition parse_key_values :: "string \<Rightarrow> kv_error + (string, string) btree" where
  "parse_key_values v = and_then (try_fold kv_item ([], None) (comma_list v)) kv_flush"

section \<open>The other value parsers\<close>

definition parse_required_secret :: "string \<Rightarrow> string + string" where
  "parse_required_secret v = ok_or ''the secret key must not be empty'' (non_blank v)"

definition parse_positive_duration :: "(string \<Rightarrow> string + nat) \<Rightarrow> (string \<Rightarrow> string) \<Rightarrow> string \<Rightarrow> string + nat" where
  "parse_positive_duration parse_duration debug v = and_then (parse_duration v) (\<lambda>duration.
     if duration = 0 then Err (debug v @ '' must be greater than zero'') else Ok duration)"

definition parse_issuer :: "(string \<Rightarrow> string + url) \<Rightarrow> (string \<Rightarrow> string) \<Rightarrow> string \<Rightarrow> string + string" where
  "parse_issuer parse debug v = (let trimmed = trim v in
     and_then (map_err (\<lambda>err. ''invalid issuer URL '' @ debug v @ '': '' @ err) (parse trimmed)) (\<lambda>_. Ok trimmed))"

datatype log_format = TextLog | JsonLog

definition parse_log_format :: "(string \<Rightarrow> string) \<Rightarrow> string \<Rightarrow> string + log_format" where
  "parse_log_format debug v = (let other = to_ascii_lowercase v in
     if other = ''text'' then Ok TextLog
     else if other = ''json'' then Ok JsonLog
     else Err (''unknown log format '' @ debug other @ '', expected text or json''))"

section \<open>The flags\<close>

record config =
  cg_listen :: string
  cg_secret_key :: string
  cg_public_url :: url
  cg_api_base_path :: string
  cg_request_timeout :: nat
  cg_oidc_issuer :: string
  cg_oidc_client_id :: string
  cg_oidc_client_secret :: "string option"
  cg_oidc_client_secret_file :: "string option"
  cg_oidc_scopes :: "string list"
  cg_oidc_validate_claims :: "(string, string) btree"
  cg_username_claim :: "string list"
  cg_friendly_name_claim :: string
  cg_persist_friendly_name :: bool
  cg_auto_provision :: bool
  cg_initial_groups :: "string list"
  cg_groups_claim :: "string option"
  cg_group_map :: "(string, string) btree"
  cg_group_map_strict :: bool
  cg_authz_url :: url
  cg_authz_token :: "string option"
  cg_auth_source :: string
  cg_post_login_redirect_url :: string
  cg_post_logout_redirect_url :: string
  cg_session_ttl :: nat
  cg_cookie_secure :: "bool option"
  cg_cookie_domain :: "string option"
  cg_state_is_pkce_verifier :: bool
  cg_sts_allowed_redirect_uris :: "string list"
  cg_allowed_redirect_hosts :: "string list"
  cg_rp_initiated_logout :: bool
  cg_discovery_refresh_interval :: nat
  cg_discovery_min_refresh_interval :: nat
  cg_discovery_timeout :: nat
  cg_discovery_failed_refresh_cooldown :: nat
  cg_metrics_listen :: "string option"
  cg_log_level :: string
  cg_log_format :: log_format

datatype arg_error = MissingFlag string | BadFlag string string

text \<open>The parsers of the libraries, durations in milliseconds, and the text of a value in \<open>{:?}\<close> form.\<close>

record value_parsers =
  vp_duration :: "string \<Rightarrow> string + nat"
  vp_boolish :: "string \<Rightarrow> string + bool"
  vp_url :: "string \<Rightarrow> string + url"
  vp_debug :: "string \<Rightarrow> string"
  vp_kv_display :: "kv_error \<Rightarrow> string"

type_synonym args = "string \<Rightarrow> string option"

definition required_arg :: "args \<Rightarrow> string \<Rightarrow> (string \<Rightarrow> string + 'a) \<Rightarrow> arg_error + 'a" where
  "required_arg given flag parse = and_then (ok_or (MissingFlag flag) (given flag)) (\<lambda>v. map_err (BadFlag flag) (parse v))"

definition default_arg :: "args \<Rightarrow> string \<Rightarrow> string \<Rightarrow> (string \<Rightarrow> string + 'a) \<Rightarrow> arg_error + 'a" where
  "default_arg given flag fallback parse = map_err (BadFlag flag) (parse (unwrap_or fallback (given flag)))"

definition optional_arg :: "args \<Rightarrow> string \<Rightarrow> (string \<Rightarrow> string + 'a) \<Rightarrow> arg_error + 'a option" where
  "optional_arg given flag parse = (case given flag of None \<Rightarrow> Ok None
     | Some v \<Rightarrow> map_ok Some (map_err (BadFlag flag) (parse v)))"

text \<open>
  The flags one after the other.  Which of several wrong flags clap names first is not part of the model:
  the statements below are about whether a command line is accepted and what it gives.
\<close>

definition config_of_args :: "value_parsers \<Rightarrow> args \<Rightarrow> arg_error + config" where
  "config_of_args vp given =
    (let str = Inr; list = (\<lambda>v. Ok (comma_list v)); duration = vp_duration vp; boolish = vp_boolish vp;
         positive = parse_positive_duration (vp_duration vp) (vp_debug vp);
         pairs = (\<lambda>v. map_err (vp_kv_display vp) (parse_key_values v)) in
     and_then (default_arg given ''listen'' ''0.0.0.0:8001'' str) (\<lambda>listen.
     and_then (required_arg given ''secret-key'' parse_required_secret) (\<lambda>secret_key.
     and_then (required_arg given ''public-url'' (vp_url vp)) (\<lambda>public_url.
     and_then (default_arg given ''api-base-path'' ''/api/v1'' str) (\<lambda>api_base_path.
     and_then (default_arg given ''request-timeout'' ''30s'' positive) (\<lambda>request_timeout.
     and_then (required_arg given ''oidc-issuer'' (parse_issuer (vp_url vp) (vp_debug vp))) (\<lambda>oidc_issuer.
     and_then (required_arg given ''oidc-client-id'' str) (\<lambda>oidc_client_id.
     and_then (optional_arg given ''oidc-client-secret'' str) (\<lambda>oidc_client_secret.
     and_then (optional_arg given ''oidc-client-secret-file'' str) (\<lambda>oidc_client_secret_file.
     and_then (default_arg given ''oidc-scopes'' ''openid,profile,email'' list) (\<lambda>oidc_scopes.
     and_then (default_arg given ''oidc-validate-claims'' [] pairs) (\<lambda>oidc_validate_claims.
     and_then (default_arg given ''username-claim'' ''preferred_username,email,sub'' list) (\<lambda>username_claim.
     and_then (default_arg given ''friendly-name-claim'' ''name'' str) (\<lambda>friendly_name_claim.
     and_then (default_arg given ''persist-friendly-name'' ''true'' boolish) (\<lambda>persist_friendly_name.
     and_then (default_arg given ''auto-provision'' ''true'' boolish) (\<lambda>auto_provision.
     and_then (default_arg given ''initial-groups'' ''Developers'' list) (\<lambda>initial_groups.
     and_then (optional_arg given ''groups-claim'' str) (\<lambda>groups_claim.
     and_then (default_arg given ''group-map'' [] pairs) (\<lambda>group_map.
     and_then (default_arg given ''group-map-strict'' ''true'' boolish) (\<lambda>group_map_strict.
     and_then (required_arg given ''authz-url'' (vp_url vp)) (\<lambda>authz_url.
     and_then (optional_arg given ''authz-token'' str) (\<lambda>authz_token.
     and_then (default_arg given ''auth-source'' ''oidc'' str) (\<lambda>auth_source.
     and_then (default_arg given ''post-login-redirect-url'' ''/'' str) (\<lambda>post_login_redirect_url.
     and_then (default_arg given ''post-logout-redirect-url'' ''/auth/login'' str) (\<lambda>post_logout_redirect_url.
     and_then (default_arg given ''session-ttl'' ''168h'' duration) (\<lambda>session_ttl.
     and_then (optional_arg given ''cookie-secure'' boolish) (\<lambda>cookie_secure.
     and_then (optional_arg given ''cookie-domain'' str) (\<lambda>cookie_domain.
     and_then (default_arg given ''state-is-pkce-verifier'' ''true'' boolish) (\<lambda>state_is_pkce_verifier.
     and_then (default_arg given ''sts-allowed-redirect-uris'' [] list) (\<lambda>sts_allowed_redirect_uris.
     and_then (default_arg given ''allowed-redirect-hosts'' [] list) (\<lambda>allowed_redirect_hosts.
     and_then (default_arg given ''rp-initiated-logout'' ''false'' boolish) (\<lambda>rp_initiated_logout.
     and_then (default_arg given ''discovery-refresh-interval'' ''1h'' positive) (\<lambda>discovery_refresh_interval.
     and_then (default_arg given ''discovery-min-refresh-interval'' ''60s'' duration) (\<lambda>discovery_min_refresh_interval.
     and_then (default_arg given ''discovery-timeout'' ''10s'' positive) (\<lambda>discovery_timeout.
     and_then (default_arg given ''discovery-failed-refresh-cooldown'' ''5s'' duration) (\<lambda>failed_refresh_cooldown.
     and_then (optional_arg given ''metrics-listen'' str) (\<lambda>metrics_listen.
     and_then (default_arg given ''log-level'' ''info'' str) (\<lambda>log_level.
     and_then (default_arg given ''log-format'' ''text'' (parse_log_format (vp_debug vp))) (\<lambda>log_format.
       Ok \<lparr> cg_listen = listen, cg_secret_key = secret_key, cg_public_url = public_url,
         cg_api_base_path = api_base_path, cg_request_timeout = request_timeout, cg_oidc_issuer = oidc_issuer,
         cg_oidc_client_id = oidc_client_id, cg_oidc_client_secret = oidc_client_secret,
         cg_oidc_client_secret_file = oidc_client_secret_file, cg_oidc_scopes = oidc_scopes,
         cg_oidc_validate_claims = oidc_validate_claims, cg_username_claim = username_claim,
         cg_friendly_name_claim = friendly_name_claim, cg_persist_friendly_name = persist_friendly_name,
         cg_auto_provision = auto_provision, cg_initial_groups = initial_groups, cg_groups_claim = groups_claim,
         cg_group_map = group_map, cg_group_map_strict = group_map_strict, cg_authz_url = authz_url,
         cg_authz_token = authz_token, cg_auth_source = auth_source,
         cg_post_login_redirect_url = post_login_redirect_url, cg_post_logout_redirect_url = post_logout_redirect_url,
         cg_session_ttl = session_ttl, cg_cookie_secure = cookie_secure, cg_cookie_domain = cookie_domain,
         cg_state_is_pkce_verifier = state_is_pkce_verifier,
         cg_sts_allowed_redirect_uris = sts_allowed_redirect_uris, cg_allowed_redirect_hosts = allowed_redirect_hosts,
         cg_rp_initiated_logout = rp_initiated_logout, cg_discovery_refresh_interval = discovery_refresh_interval,
         cg_discovery_min_refresh_interval = discovery_min_refresh_interval, cg_discovery_timeout = discovery_timeout,
         cg_discovery_failed_refresh_cooldown = failed_refresh_cooldown, cg_metrics_listen = metrics_listen,
         cg_log_level = log_level, cg_log_format = log_format \<rparr>)))))))))))))))))))))))))))))))))))))))"

section \<open>What is derived from the flags\<close>

definition authn_base_path :: "config \<Rightarrow> string" where
  "authn_base_path c = normalize_base_path (cg_api_base_path c)"

text \<open>The writes of the \<open>url\<close> crate.\<close>

record url_ops =
  uo_set_path :: "string \<Rightarrow> url \<Rightarrow> url"
  uo_no_query :: "url \<Rightarrow> url"
  uo_no_fragment :: "url \<Rightarrow> url"

definition redirect_uri :: "url_ops \<Rightarrow> config \<Rightarrow> url" where
  "redirect_uri uo c = (let path = trim_end_matches CHR ''/'' (url_path (cg_public_url c)) in
     uo_no_fragment uo (uo_no_query uo (uo_set_path uo (path @ CALLBACK_PATH) (cg_public_url c))))"

text \<open>The client secret: the flag when it is not blank, else the file; \<open>read\<close> gives the text of a file.\<close>

definition client_secret :: "(string \<Rightarrow> string + string) \<Rightarrow> config \<Rightarrow> string + string option" where
  "client_secret read c = (case Option.bind (cg_oidc_client_secret c) non_blank of
     Some secret \<Rightarrow> Ok (Some secret)
   | None \<Rightarrow> (case cg_oidc_client_secret_file c of
       None \<Rightarrow> Ok None
     | Some path \<Rightarrow>
         and_then (map_err (\<lambda>e. ''cannot read --oidc-client-secret-file '' @ path @ '': '' @ e) (read path)) (\<lambda>v.
           let v = trim v in
           if v = [] then Err (''--oidc-client-secret-file '' @ path @ '' is empty'') else Ok (Some v))))"

definition cookie_secure :: "config \<Rightarrow> bool" where
  "cookie_secure c = unwrap_or (url_scheme (cg_public_url c) = ''https'') (cg_cookie_secure c)"

text \<open>The part of the configuration the routes read; the session's lifetime is whole seconds there.\<close>

definition routes_config :: "config \<Rightarrow> authn_config" where
  "routes_config c = \<lparr> cf_allowed_redirect_hosts = cg_allowed_redirect_hosts c,
     cf_validate_claims = cg_oidc_validate_claims c, cf_rp_initiated_logout = cg_rp_initiated_logout c,
     cf_session_ttl = cg_session_ttl c div 1000, cf_post_login_redirect_url = cg_post_login_redirect_url c,
     cf_post_logout_redirect_url = cg_post_logout_redirect_url c,
     cf_sts_allowed_redirect_uris = cg_sts_allowed_redirect_uris c,
     cf_state_is_pkce_verifier = cg_state_is_pkce_verifier c, cf_public_url = cg_public_url c \<rparr>"

section \<open>cookie_key.rs and state.rs\<close>

definition COOKIE_KEY_CONTEXT :: string where "COOKIE_KEY_CONTEXT = ''lakefs-authn/private-cookie/v1''"

definition derive_cookie_key :: "(u8 list \<Rightarrow> u8 list) \<Rightarrow> u8 list \<Rightarrow> u8 list" where
  "derive_cookie_key sha512 secret = sha512 (as_bytes COOKIE_KEY_CONTEXT @ secret)"

record oidc_setup = oidc_settings +
  ou_issuer :: string
  ou_client_id :: string
  ou_client_secret :: "string option"
  ou_redirect_uri :: url
  ou_scopes :: "string list"
  ou_timeout :: nat

record 'k authn_setup =
  se_client :: "'k authz_client"
  se_provision :: provision_settings
  se_oidc :: oidc_setup
  se_session :: session_cookies
  se_cookie_key :: "u8 list"
  se_jwt_key :: 'k
  se_cfg :: authn_config

text \<open>Key derivations, the HTTP client builders, and the issuer check of the \<open>openidconnect\<close> crate.\<close>

record 'k setup_env =
  sn_encoding_key :: "u8 list \<Rightarrow> 'k"
  sn_hmac :: "u8 list \<Rightarrow> u8 list \<Rightarrow> u8 list"
  sn_sha512 :: "u8 list \<Rightarrow> u8 list"
  sn_client_builds :: "string + unit"
  sn_issuer_url :: "string \<Rightarrow> string + unit"
  sn_read_file :: "string \<Rightarrow> string + string"
  sn_url_ops :: url_ops

definition client_auth_of :: "(u8 list \<Rightarrow> 'k) \<Rightarrow> config \<Rightarrow> 'k client_auth" where
  "client_auth_of encoding_key c = (case Option.bind (cg_authz_token c) non_blank of
     Some token \<Rightarrow> StaticToken token
   | None \<Rightarrow> InternalJwt (encoding_key (as_bytes (cg_secret_key c))))"

definition provision_settings_of :: "config \<Rightarrow> provision_settings" where
  "provision_settings_of c = \<lparr> ps_username_claims = cg_username_claim c,
     ps_friendly_name_claim = cg_friendly_name_claim c, ps_persist_friendly_name = cg_persist_friendly_name c,
     ps_initial_groups = cg_initial_groups c, ps_groups_claim = cg_groups_claim c, ps_group_map = cg_group_map c,
     ps_group_map_strict = cg_group_map_strict c, ps_source = cg_auth_source c,
     ps_auto_provision = cg_auto_provision c \<rparr>"

definition DEFAULT_MAX_RETRIES :: nat where "DEFAULT_MAX_RETRIES = 2"

definition from_config :: "'k setup_env \<Rightarrow> config \<Rightarrow> string + 'k authn_setup" where
  "from_config sn c = (let secret = as_bytes (cg_secret_key c) in
     and_then (sn_client_builds sn) (\<lambda>_.
     and_then (map_err (\<lambda>err. ''--oidc-issuer is not a valid URL: '' @ err) (sn_issuer_url sn (cg_oidc_issuer c))) (\<lambda>_.
     and_then (client_secret (sn_read_file sn) c) (\<lambda>oidc_secret.
       Ok \<lparr> se_client = new_client (url_path (cg_authz_url c)) (client_auth_of (sn_encoding_key sn) c) DEFAULT_MAX_RETRIES,
         se_provision = provision_settings_of c,
         se_oidc = \<lparr> os_rp_initiated_logout = cg_rp_initiated_logout c,
           os_refresh_interval = cg_discovery_refresh_interval c,
           os_min_refresh_interval = cg_discovery_min_refresh_interval c,
           os_failed_refresh_cooldown = cg_discovery_failed_refresh_cooldown c,
           ou_issuer = cg_oidc_issuer c, ou_client_id = cg_oidc_client_id c, ou_client_secret = oidc_secret,
           ou_redirect_uri = redirect_uri (sn_url_ops sn) c,
           ou_scopes = filter (\<lambda>scope. scope \<noteq> ''openid'') (cg_oidc_scopes c),
           ou_timeout = cg_discovery_timeout c \<rparr>,
         se_session = \<lparr> sc_codec = new_codec (sn_hmac sn) secret,
           sc_options = \<lparr> so_secure = cookie_secure c, so_domain = cg_cookie_domain c,
             so_ttl = effective_session_ttl (routes_config c) \<rparr> \<rparr>,
         se_cookie_key = derive_cookie_key (sn_sha512 sn) secret,
         se_jwt_key = sn_encoding_key sn secret,
         se_cfg = routes_config c \<rparr>))))"

section \<open>The route table\<close>

definition MAX_STS_BODY :: nat where "MAX_STS_BODY = 64 * 1024"

datatype authn_endpoint = Healthz | Readyz | OidcLogin | OidcCallback | OidcLogout | Healthcheck | StsLogin
  | LdapLogin | ExternalLogin

definition authn_api_routes :: "(string \<times> http_method \<times> authn_endpoint) list" where
  "authn_api_routes = [(''/healthcheck'', GET, Healthcheck), (''/sts/login'', POST, StsLogin),
     (''/ldap/login'', POST, LdapLogin), (''/auth/external/principal/login'', POST, ExternalLogin)]"

definition authn_root_routes :: "(string \<times> http_method \<times> authn_endpoint) list" where
  "authn_root_routes = [(''/healthz'', GET, Healthz), (''/readyz'', GET, Readyz), (''/oidc/login'', GET, OidcLogin),
     (''/oidc/callback'', GET, OidcCallback), (''/oidc/logout'', GET, OidcLogout)]"

definition authn_routes :: "config \<Rightarrow> (string \<times> http_method \<times> authn_endpoint) list" where
  "authn_routes c = (let base = authn_base_path c in
     if base = [] then authn_root_routes @ authn_api_routes
     else authn_root_routes @ map (\<lambda>(path, r). (base @ path, r)) (authn_api_routes @ [(''/oidc/callback'', GET, OidcCallback)]))"

text \<open>
  The endpoint of a request: a path of the table with its method; a \<open>GET\<close> route also answers \<open>HEAD\<close>.  The
  limit on the announced length of a body lies around the STS route, its refusal of other methods included.
\<close>

definition authn_dispatch :: "config \<Rightarrow> http_method \<Rightarrow> string \<Rightarrow> nat \<Rightarrow> int + authn_endpoint" where
  "authn_dispatch c m path body_length = (case List.find (\<lambda>(p, _). p = path) (authn_routes c) of
     None \<Rightarrow> Err 404
   | Some (_, m', e) \<Rightarrow>
       (if e = StsLogin \<and> body_length > MAX_STS_BODY then Err 413
        else if m \<noteq> m' \<and> \<not> (m = HEAD \<and> m' = GET) then Err 405
        else Ok e))"

section \<open>Properties of the value parsers\<close>

text \<open>The written form of a map, and the pairs that survive being written.\<close>

definition render_pair :: "string \<times> string \<Rightarrow> string" where
  "render_pair p = fst p @ ''='' @ snd p"

definition render_key_values :: "(string, string) btree \<Rightarrow> string" where
  "render_key_values m = join '','' (map render_pair m)"

definition item_ok :: "string \<Rightarrow> bool" where
  "item_ok t \<longleftrightarrow> t \<noteq> [] \<and> trim t = t"

definition pair_ok :: "string \<times> string \<Rightarrow> bool" where
  "pair_ok p \<longleftrightarrow> item_ok (fst p) \<and> CHR '','' \<notin> set (fst p) \<and> CHR ''='' \<notin> set (fst p)
     \<and> item_ok (fst p @ ''='' @ hd (split_on CHR '','' (snd p)))
     \<and> list_all item_ok (split_on CHR '','' (snd p))
     \<and> list_all (\<lambda>t. CHR ''='' \<notin> set t) (tl (split_on CHR '','' (snd p)))"

definition pair_items :: "string \<times> string \<Rightarrow> string list" where
  "pair_items p = (fst p @ ''='' @ hd (split_on CHR '','' (snd p))) # tl (split_on CHR '','' (snd p))"

lemma render_pair_items: "render_pair p = join '','' (pair_items p)"
proof -
  obtain a as where "split_on CHR '','' (snd p) = a # as" by (cases "split_on CHR '','' (snd p)") simp_all
  then show ?thesis
    using join_split_on [of "CHR '',''" "snd p"] by (cases as) (simp_all add: render_pair_def pair_items_def)
qed

lemma pair_items_ok: "pair_ok p \<Longrightarrow> list_all item_ok (pair_items p)"
  by (cases "split_on CHR '','' (snd p)") (simp_all add: pair_items_def pair_ok_def)

lemma comma_list_join:
  assumes "list_all item_ok items" "\<forall>t \<in> set items. CHR '','' \<notin> set t"
  shows "comma_list (join '','' items) = items"
  using assms
proof (induction items)
  case Nil
  have "non_blank [] = None" by (simp add: non_blank_None_iff)
  then show ?case by (simp add: comma_list_def List.map_filter_simps)
next
  case (Cons t ts)
  then have t: "non_blank t = Some t" by (simp add: non_blank_Some_iff item_ok_def)
  show ?case
  proof (cases ts)
    case Nil
    with Cons.prems t show ?thesis by (simp add: comma_list_def split_on_plain List.map_filter_simps)
  next
    case (Cons t' ts')
    with Cons.prems Cons.IH t show ?thesis by (simp add: comma_list_def split_on_append List.map_filter_simps)
  qed
qed

lemma join_concat:
  "\<forall>xs \<in> set xss. xs \<noteq> [] \<Longrightarrow> join '','' (map (join '','') xss) = join '','' (concat xss)"
proof (induction xss)
  case (Cons xs xss)
  have app: "join '','' (as @ bs) = join '','' as @ '','' @ join '','' bs" if "as \<noteq> []" "bs \<noteq> []" for as bs :: "string list"
    using that by (induction "'','' :: string" as rule: join.induct) (auto simp: neq_Nil_conv)
  from Cons show ?case
  proof (cases xss)
    case (Cons ys yss)
    then have "concat xss \<noteq> []" using Cons.prems by simp
    then show ?thesis using Cons Cons.prems Cons.IH app [of xs "concat xss"] by simp
  qed simp
qed simp

lemma kv_continue:
  assumes "list_all (\<lambda>t. CHR ''='' \<notin> set t) ts"
  shows "try_fold kv_item (m, Some (k, v)) ts = Ok (m, Some (k, join '','' (v # ts)))"
  using assms
proof (induction ts arbitrary: v)
  case (Cons t ts)
  then have "split_once CHR ''='' t = None" by (simp add: split_once_None_iff)
  then have "kv_item (m, Some (k, v)) t = Ok (m, Some (k, v @ '','' @ t))" by (simp add: kv_item_def)
  moreover have "join '','' ((v @ '','' @ t) # ts) = join '','' (v # t # ts)" by (cases ts) simp_all
  ultimately show ?case using Cons.IH [of "v @ '','' @ t"] Cons.prems by simp
qed simp

lemma kv_pair:
  assumes "pair_ok p" "kv_flush st = Ok m"
  shows "try_fold kv_item st (pair_items p) = Ok (m, Some p)"
proof -
  obtain k v where p: "p = (k, v)" by force
  obtain a as where s: "split_on CHR '','' v = a # as" by (cases "split_on CHR '','' v") simp_all
  have "kv_item st (k @ ''='' @ a) = Ok (m, Some (k, a))"
    using assms by (simp add: kv_item_def split_once_append p s pair_ok_def item_ok_def Let_def)
  then show ?thesis
    using assms(1) kv_continue [of as m k a] join_split_on [of "CHR '',''" v]
    by (simp add: p s pair_items_def pair_ok_def)
qed

lemma kv_pairs:
  assumes "list_all pair_ok ps" "kv_flush st = Ok m" "distinct (map fst ps)" "\<forall>k \<in> fst ` set ps. bt_get m k = None" "bt_ok m"
  shows "and_then (try_fold kv_item st (concat (map pair_items ps))) kv_flush = Ok (fold (\<lambda>(k, v). bt_insert k v) ps m)"
  using assms
proof (induction ps arbitrary: st m)
  case (Cons p ps)
  obtain k v where p: "p = (k, v)" by force
  have "try_fold kv_item st (pair_items p) = Ok (m, Some p)" using Cons.prems by (intro kv_pair) simp_all
  moreover have "kv_flush (m, Some p) = Ok (bt_insert k v m)"
    using Cons.prems by (simp add: p kv_flush_def insert_once_def bt_contains_key_def)
  moreover have "bt_get (bt_insert k v m) k' = None" if "k' \<in> fst ` set ps" for k'
    using Cons.prems that by (auto simp: p bt_get_insert)
  ultimately show ?case
    using Cons.IH [of "(m, Some p)" "bt_insert k v m"] Cons.prems
    by (simp add: try_fold_append p bt_ok_insert)
qed simp

lemma bt_insert_last: "bt_ok (m @ [(k, v)]) \<Longrightarrow> bt_insert k v m = m @ [(k, v)]"
  by (induction k v m rule: bt_insert.induct) auto

lemma fold_bt_insert: "bt_ok (m @ ps) \<Longrightarrow> fold (\<lambda>(k, v). bt_insert k v) ps m = m @ ps"
proof (induction ps arbitrary: m)
  case (Cons p ps)
  obtain k v where p: "p = (k, v)" by force
  have "bt_ok (m @ [(k, v)])" using Cons.prems by (auto simp: bt_ok_def p sorted_wrt_append)
  with Cons.IH [of "m @ [(k, v)]"] Cons.prems show ?case by (simp add: bt_insert_last p)
qed simp

lemma parse_render_key_values:
  assumes "bt_ok m" "list_all pair_ok m"
  shows "parse_key_values (render_key_values m) = Ok m"
proof -
  have items: "list_all item_ok (concat (map pair_items m))"
    using assms(2) pair_items_ok by (auto simp: list_all_iff)
  have commas: "CHR '','' \<notin> set t" if "t \<in> set (concat (map pair_items m))" for t
  proof -
    from that obtain p where p: "p \<in> set m" "t \<in> set (pair_items p)" unfolding set_concat set_map by blast
    have "CHR '','' \<notin> set u" if "u \<in> set (split_on CHR '','' (snd p))" for u using that by (rule split_on_no_sep)
    moreover have "CHR '','' \<notin> set (fst p)" using p assms(2) by (auto simp: list_all_iff pair_ok_def)
    ultimately show ?thesis using p(2)
      by (cases "split_on CHR '','' (snd p)") (auto simp: pair_items_def)
  qed
  have "render_key_values m = join '','' (concat (map pair_items m))"
  proof -
    have "\<forall>xs \<in> set (map pair_items m). xs \<noteq> []" by (simp add: pair_items_def)
    moreover have "map render_pair m = map (join '','') (map pair_items m)" by (simp add: render_pair_items)
    ultimately show ?thesis unfolding render_key_values_def using join_concat by metis
  qed
  then have "comma_list (render_key_values m) = concat (map pair_items m)"
    using comma_list_join [OF items] commas by simp
  moreover have "and_then (try_fold kv_item ([], None) (concat (map pair_items m))) kv_flush
      = Ok (fold (\<lambda>(k, v). bt_insert k v) m [])"
    using assms by (intro kv_pairs) (auto simp: kv_flush_def bt_ok_distinct)
  ultimately show ?thesis
    using fold_bt_insert [of "[]" m] assms(1) by (simp add: parse_key_values_def)
qed

text \<open>Whatever is accepted is an ordered map with trimmed keys and values that are not empty.\<close>

definition kv_inv :: "kv_state \<Rightarrow> bool" where
  "kv_inv st \<longleftrightarrow> bt_ok (fst st) \<and> (\<forall>p \<in> set (fst st) \<union> set_option (snd st). item_ok (fst p) \<and> snd p \<noteq> [])"

lemma set_bt_insert: "set (bt_insert k v m) \<subseteq> insert (k, v) (set m)"
  by (induction k v m rule: bt_insert.induct) auto

lemma kv_flush_inv: "kv_inv st \<Longrightarrow> kv_flush st = Ok m \<Longrightarrow> kv_inv (m, None)"
  using set_bt_insert [of "fst (the (snd st))" "snd (the (snd st))" "fst st"]
  by (cases st; cases "snd st") (auto simp: kv_inv_def kv_flush_def insert_once_def bt_ok_insert split: if_splits prod.splits)

lemma kv_item_inv:
  assumes "kv_inv st" "kv_item st item = Ok st'"
  shows "kv_inv st'"
proof (cases "split_once CHR ''='' item")
  case (Some p)
  obtain k v where p: "p = (k, v)" by force
  obtain m where m: "kv_flush st = Ok m" using assms(2) Some p by (auto simp: kv_item_def res_simps)
  have "trim k \<noteq> []" "trim v \<noteq> []" "st' = (m, Some (trim k, trim v))"
    using assms(2) Some p m by (auto simp: kv_item_def Let_def split: if_splits)
  then show ?thesis using kv_flush_inv [OF assms(1) m] by (auto simp: kv_inv_def item_ok_def)
next
  case None
  then show ?thesis using assms by (auto simp: kv_item_def kv_inv_def split: option.splits prod.splits)
qed

lemma kv_items_inv: "kv_inv st \<Longrightarrow> try_fold kv_item st items = Ok st' \<Longrightarrow> kv_inv st'"
  by (induction items arbitrary: st) (auto simp: and_then_Ok_iff dest: kv_item_inv)

lemma parse_key_values_ok:
  assumes "parse_key_values v = Ok m"
  shows "bt_ok m \<and> (\<forall>p \<in> set m. item_ok (fst p) \<and> snd p \<noteq> [])"
proof -
  obtain st where st: "try_fold kv_item ([], None) (comma_list v) = Ok st" and m: "kv_flush st = Ok m"
    using assms by (auto simp: parse_key_values_def res_simps)
  have "kv_inv st" by (rule kv_items_inv [OF _ st]) (simp add: kv_inv_def)
  from kv_flush_inv [OF this m] show ?thesis by (auto simp: kv_inv_def)
qed

lemma duplicate_keys_refused:
  "kv_flush (m, Some (k, v)) = Ok m' \<Longrightarrow> kv_flush (m', Some (k, v')) = Err (DuplicateKey k)"
proof -
  assume "kv_flush (m, Some (k, v)) = Ok m'"
  then have "m' = bt_insert k v m" by (auto simp: kv_flush_def insert_once_def split: if_splits)
  then have "k \<in> fst ` set m'" by (simp add: keys_bt_insert)
  then have "bt_contains_key m' k" by (simp add: bt_contains_key_def bt_get_def map_of_eq_None_iff)
  then show ?thesis by (simp add: kv_flush_def insert_once_def)
qed

section \<open>Properties of the configuration\<close>

lemma parse_positive: "parse_positive_duration parse debug v = Ok d \<Longrightarrow> 0 < d"
  by (auto simp: parse_positive_duration_def res_simps split: if_splits)

lemma required_arg_Ok: "required_arg given flag parse = Ok x \<longleftrightarrow> (\<exists>v. given flag = Some v \<and> parse v = Ok x)"
  by (auto simp: required_arg_def res_simps)

lemma default_arg_Ok: "default_arg given flag fallback parse = Ok x \<longleftrightarrow> parse (unwrap_or fallback (given flag)) = Ok x"
  by (auto simp: default_arg_def res_simps)

lemma optional_text_arg: "optional_arg given flag Inr = Ok (given flag)"
  by (simp add: optional_arg_def split: option.splits)

lemma kv_pairs_parsed: "map_err f (parse_key_values v) = Ok m \<Longrightarrow> bt_ok m"
  using parse_key_values_ok by (auto simp: map_err_Ok_iff)

lemma and_then_OkE:
  assumes "and_then r f = Ok y"
  obtains x where "r = Ok x" "f x = Ok y"
  using assms by (auto simp: and_then_Ok_iff)

lemma config_of_args_Ok:
  assumes "config_of_args vp given = Ok c"
  shows "\<exists>t. given ''secret-key'' = Some t \<and> non_blank t = Some (cg_secret_key c)"
    and "0 < cg_request_timeout c" "0 < cg_discovery_refresh_interval c" "0 < cg_discovery_timeout c"
    and "\<exists>t. given ''oidc-issuer'' = Some t \<and> cg_oidc_issuer c = trim t"
    and "bt_ok (cg_group_map c)" "bt_ok (cg_oidc_validate_claims c)"
    and "cg_authz_token c = given ''authz-token''"
proof -
  show "\<exists>t. given ''secret-key'' = Some t \<and> non_blank t = Some (cg_secret_key c)"
    using assms unfolding config_of_args_def Let_def
    by (elim and_then_OkE) (auto simp: required_arg_Ok parse_required_secret_def ok_or_Ok_iff)
  show "0 < cg_request_timeout c" "0 < cg_discovery_refresh_interval c" "0 < cg_discovery_timeout c"
    using assms unfolding config_of_args_def Let_def
    by (elim and_then_OkE, simp add: default_arg_Ok, auto dest: parse_positive)+
  show "\<exists>t. given ''oidc-issuer'' = Some t \<and> cg_oidc_issuer c = trim t"
    using assms unfolding config_of_args_def Let_def
    by (elim and_then_OkE) (auto simp: required_arg_Ok parse_issuer_def Let_def and_then_Ok_iff)
  show "bt_ok (cg_group_map c)" "bt_ok (cg_oidc_validate_claims c)"
    using assms unfolding config_of_args_def Let_def
    by (elim and_then_OkE, simp add: default_arg_Ok, auto dest: kv_pairs_parsed)+
  show "cg_authz_token c = given ''authz-token''"
    using assms unfolding config_of_args_def Let_def
    by (elim and_then_OkE) (auto simp: optional_text_arg)
qed

text \<open>The redirect URI ends in the callback path, and the session never outlives what lakeFS accepts.\<close>

lemma session_ttl_bounded: "effective_session_ttl (routes_config c) \<le> 30 * 24 * 3600"
  by (simp add: effective_session_ttl_def MAX_SESSION_TTL_def)

lemma from_config_Ok:
  assumes "from_config sn c = Ok st"
  shows "ac_auth (se_client st) = client_auth_of (sn_encoding_key sn) c"
    and "se_cfg st = routes_config c" and "so_ttl (sc_options (se_session st)) \<le> 30 * 24 * 3600"
    and "''openid'' \<notin> set (ou_scopes (se_oidc st))"
  using assms session_ttl_bounded [of c]
  by (auto simp: from_config_def Let_def and_then_Ok_iff new_client_def)

lemma authn_paths:
  "map fst (authn_routes c) = map fst authn_root_routes @
     (if authn_base_path c = [] then map fst authn_api_routes
      else map (\<lambda>(p, _). authn_base_path c @ p) (authn_api_routes @ [(''/oidc/callback'', GET, OidcCallback)]))"
  by (auto simp: authn_routes_def Let_def)

text \<open>No two routes have one path, whatever the base path: the router is built without a conflict.\<close>

lemma authn_routes_distinct: "distinct (map fst (authn_routes c))"
proof (cases "authn_base_path c = []")
  case True
  then show ?thesis by (simp add: authn_paths authn_root_routes_def authn_api_routes_def)
next
  case False
  then show ?thesis
    by (auto simp: authn_paths authn_root_routes_def authn_api_routes_def dest!: arg_cong [where f = rev])
qed

text \<open>The browser callback answers at the root and, with a base path, below it too.\<close>

lemma authn_dispatch_Ok:
  "authn_dispatch c m path n = Ok e \<longleftrightarrow>
     (\<exists>m'. (path, m', e) \<in> set (authn_routes c) \<and> (m = m' \<or> m = HEAD \<and> m' = GET)) \<and> (e = StsLogin \<longrightarrow> n \<le> MAX_STS_BODY)"
proof -
  have *: "List.find (\<lambda>(p, _). p = path) (authn_routes c) = Some (path, m', e') \<longleftrightarrow> (path, m', e') \<in> set (authn_routes c)" for m' e'
    by (subst find_Some_iff_unique) (auto dest: eq_key_imp_eq_value [OF authn_routes_distinct])
  show ?thesis
  proof (cases "List.find (\<lambda>(p, _). p = path) (authn_routes c)")
    case None
    then have "\<And>m' e'. (path, m', e') \<notin> set (authn_routes c)" by (auto simp: find_None_iff)
    then show ?thesis by (simp add: authn_dispatch_def None)
  next
    case (Some r)
    then obtain m' e' where r: "r = (path, m', e')" by (auto simp: find_Some_iff)
    with Some have "(path, m'', e'') \<in> set (authn_routes c) \<longleftrightarrow> m'' = m' \<and> e'' = e'" for m'' e''
      using * [of m'' e''] by auto
    then show ?thesis by (auto simp: authn_dispatch_def Some r)
  qed
qed

end
