(* ===== verification/Runtime.thy ===== *)
theory Runtime
  imports Mem_Spec
begin

text \<open>
  What runs beside the handlers: the supervisor of background tasks (\<open>lakefs-auth-core/src/tasks.rs\<close>), the
  cleanup of expired token ids (\<open>lakefs-authz/src/cleanup.rs\<close>) and the HTTP metrics
  (\<open>lakefs-auth-core/src/metrics.rs\<close>).  The scheduler and the clock are the sequences of what they made happen;
  durations are milliseconds.
\<close>

section \<open>tasks.rs\<close>

definition INITIAL_RESTART_DELAY :: nat where "INITIAL_RESTART_DELAY = 1000"
definition MAX_RESTART_DELAY :: nat where "MAX_RESTART_DELAY = 30000"

text \<open>How a run of the task ended, with the time it took.\<close>

datatype task_end = TaskReturned | TaskPanicked string | TaskCancelled

text \<open>The waits before the restarts; a cancelled run ends the supervisor.\<close>

fun supervise_from :: "nat \<Rightarrow> (task_end \<times> nat) list \<Rightarrow> nat list" where
  "supervise_from delay [] = []"
| "supervise_from delay ((outcome, elapsed) # runs) =
     (if outcome = TaskCancelled then []
      else let delay = (if elapsed > MAX_RESTART_DELAY then INITIAL_RESTART_DELAY else delay)
           in delay # supervise_from (min (delay * 2) MAX_RESTART_DELAY) runs)"

definition supervise :: "(task_end \<times> nat) list \<Rightarrow> nat list" where
  "supervise runs = supervise_from INITIAL_RESTART_DELAY runs"

lemma waits_bounded_from:
  assumes "INITIAL_RESTART_DELAY \<le> delay" "delay \<le> MAX_RESTART_DELAY" "w \<in> set (supervise_from delay runs)"
  shows "INITIAL_RESTART_DELAY \<le> w \<and> w \<le> MAX_RESTART_DELAY"
  using assms
proof (induction delay runs rule: supervise_from.induct)
  case (2 delay outcome elapsed runs)
  then show ?case
    by (cases "elapsed > MAX_RESTART_DELAY")
      (auto simp: Let_def INITIAL_RESTART_DELAY_def MAX_RESTART_DELAY_def split: if_splits)
qed simp

lemma waits_bounded: "w \<in> set (supervise runs) \<Longrightarrow> INITIAL_RESTART_DELAY \<le> w \<and> w \<le> MAX_RESTART_DELAY"
  unfolding supervise_def
  by (rule waits_bounded_from) (auto simp: INITIAL_RESTART_DELAY_def MAX_RESTART_DELAY_def)

text \<open>A task that is never cancelled is restarted after every run, however each run ends.\<close>

lemma restarted_every_time: "(\<forall>(outcome, _) \<in> set runs. outcome \<noteq> TaskCancelled) \<Longrightarrow> length (supervise runs) = length runs"
proof -
  have "(\<forall>(outcome, _) \<in> set runs. outcome \<noteq> TaskCancelled) \<Longrightarrow> length (supervise_from delay runs) = length runs" for delay
    by (induction runs arbitrary: delay) (auto simp: Let_def)
  then show "(\<forall>(outcome, _) \<in> set runs. outcome \<noteq> TaskCancelled) \<Longrightarrow> length (supervise runs) = length runs"
    by (simp add: supervise_def)
qed

text \<open>Short runs double the wait up to the maximum.\<close>

lemma le_mult_power2: "(m::nat) \<le> m * 2 ^ k"
  by (induction k) auto

lemma min_double: "min (min (d * 2) m * 2 ^ k) m = min (d * 2 ^ Suc k) (m::nat)"
proof (cases "d * 2 \<le> m")
  case False
  have "m \<le> m * 2 ^ k" by (rule le_mult_power2)
  moreover have "m \<le> d * 2 ^ Suc k"
  proof -
    have "m \<le> d * 2" using False by simp
    also have "\<dots> \<le> d * 2 * 2 ^ k" by (rule le_mult_power2)
    finally show ?thesis by (simp add: mult.assoc)
  qed
  ultimately show ?thesis using False by (simp add: min_absorb1 min_absorb2)
qed (simp add: min_absorb1 mult.assoc)

lemma short_runs_double:
  assumes "\<forall>(outcome, elapsed) \<in> set runs. outcome \<noteq> TaskCancelled \<and> elapsed \<le> MAX_RESTART_DELAY" "n < length runs"
  shows "supervise runs ! n = min (1000 * 2 ^ n) MAX_RESTART_DELAY"
proof -
  have "supervise_from delay runs ! n = min (delay * 2 ^ n) MAX_RESTART_DELAY" if "delay \<le> MAX_RESTART_DELAY" for delay
    using assms that
  proof (induction runs arbitrary: delay n)
    case (Cons run runs)
    obtain outcome elapsed where run: "run = (outcome, elapsed)" by force
    show ?case
    proof (cases n)
      case 0
      then show ?thesis using Cons.prems run by (simp add: Let_def)
    next
      case (Suc k)
      have "supervise_from delay (run # runs) ! n = supervise_from (min (delay * 2) MAX_RESTART_DELAY) runs ! k"
        using Cons.prems run Suc by (simp add: Let_def not_less)
      also have "\<dots> = min (min (delay * 2) MAX_RESTART_DELAY * 2 ^ k) MAX_RESTART_DELAY"
        using Cons.prems Suc by (intro Cons.IH) auto
      also have "\<dots> = min (delay * 2 ^ n) MAX_RESTART_DELAY" unfolding Suc by (rule min_double)
      finally show ?thesis .
    qed
  qed simp
  then show ?thesis by (simp add: supervise_def INITIAL_RESTART_DELAY_def MAX_RESTART_DELAY_def)
qed

section \<open>cleanup.rs\<close>

text \<open>The ticks after the first one, each at its time; a zero interval never ticks.\<close>

definition cleanup_token_ids :: "nat \<Rightarrow> int list \<Rightarrow> inner \<Rightarrow> inner" where
  "cleanup_token_ids interval ticks s =
     (if interval = 0 then s else fold (\<lambda>now s. snd (delete_expired_token_ids now s)) ticks s)"

lemma delete_expired_get:
  "wf_inner s \<Longrightarrow> bt_get (in_claimed_token_ids (snd (delete_expired_token_ids now s))) t
     = opt_filter (\<lambda>expires. expires > now) (bt_get (in_claimed_token_ids s) t)"
  by (simp add: delete_expired_token_ids_def Let_def bt_get_retain wf_shape_of(9))

text \<open>What the cleanup keeps: exactly the claims that had not expired at any tick, and nothing else changes.\<close>

lemma cleanup_keeps:
  assumes "wf_inner s" "interval \<noteq> 0"
  shows "bt_get (in_claimed_token_ids (cleanup_token_ids interval ticks s)) t
     = opt_filter (\<lambda>expires. \<forall>now \<in> set ticks. now < expires) (bt_get (in_claimed_token_ids s) t)"
    and "cleanup_token_ids interval ticks s
     = s\<lparr> in_claimed_token_ids := in_claimed_token_ids (cleanup_token_ids interval ticks s) \<rparr>"
proof -
  let ?run = "\<lambda>ticks s. fold (\<lambda>now s. snd (delete_expired_token_ids now s)) ticks s"
  have "bt_get (in_claimed_token_ids (?run ticks s)) t
      = opt_filter (\<lambda>expires. \<forall>now \<in> set ticks. now < expires) (bt_get (in_claimed_token_ids s) t)" using assms(1)
  proof (induction ticks arbitrary: s)
    case (Cons now ticks)
    have "wf_inner (snd (delete_expired_token_ids now s))" using wf_run_op [OF Cons.prems, of "DeleteExpiredTokenIds now"] by simp
    then show ?case using Cons.IH delete_expired_get [OF Cons.prems] by (auto simp: opt_filter_def split: option.split)
  qed (simp add: opt_filter_def split: option.split)
  moreover have "\<exists>claims. ?run ticks s = s\<lparr> in_claimed_token_ids := claims \<rparr>"
  proof (induction ticks arbitrary: s)
    case Nil
    show ?case by (rule exI [of _ "in_claimed_token_ids s"]) simp
  next
    case (Cons now ticks)
    obtain c where "snd (delete_expired_token_ids now s) = s\<lparr> in_claimed_token_ids := c \<rparr>"
      by (simp add: delete_expired_token_ids_def Let_def)
    moreover obtain c' where "?run ticks (s\<lparr> in_claimed_token_ids := c \<rparr>) = s\<lparr> in_claimed_token_ids := c, in_claimed_token_ids := c' \<rparr>"
      using Cons.IH by blast
    ultimately show ?case by auto
  qed
  ultimately show "bt_get (in_claimed_token_ids (cleanup_token_ids interval ticks s)) t
     = opt_filter (\<lambda>expires. \<forall>now \<in> set ticks. now < expires) (bt_get (in_claimed_token_ids s) t)"
    "cleanup_token_ids interval ticks s
     = s\<lparr> in_claimed_token_ids := in_claimed_token_ids (cleanup_token_ids interval ticks s) \<rparr>"
    using assms(2) by (auto simp: cleanup_token_ids_def)
qed

section \<open>metrics.rs\<close>

definition UNMATCHED :: string where "UNMATCHED = ''<unmatched>''"
definition OTHER_METHOD :: string where "OTHER_METHOD = ''<other>''"
definition CANCELLED :: string where "CANCELLED = ''cancelled''"

definition method_label :: "string \<Rightarrow> string" where
  "method_label m = (if m \<in> {''GET'', ''HEAD'', ''POST'', ''PUT'', ''DELETE'', ''OPTIONS'', ''PATCH'', ''TRACE'', ''CONNECT''}
     then m else OTHER_METHOD)"

text \<open>The registry: a counter and the number of observations for each combination of labels, and a gauge.\<close>

record registry =
  mt_requests :: "string \<times> string \<times> string \<Rightarrow> nat"
  mt_durations :: "string \<times> string \<Rightarrow> nat"
  mt_in_flight :: int

record in_flight =
  if_method :: string
  if_route :: "string option"
  if_finished :: bool

definition empty_registry :: registry where
  "empty_registry = \<lparr> mt_requests = (\<lambda>_. 0), mt_durations = (\<lambda>_. 0), mt_in_flight = 0 \<rparr>"

definition flight_start :: "string \<Rightarrow> string option \<Rightarrow> registry \<Rightarrow> in_flight \<times> registry" where
  "flight_start m route r = (\<lparr> if_method = m, if_route = route, if_finished = False \<rparr>,
     r\<lparr> mt_in_flight := mt_in_flight r + 1 \<rparr>)"

definition flight_record :: "in_flight \<Rightarrow> string \<Rightarrow> registry \<Rightarrow> registry" where
  "flight_record f status r = (let route = unwrap_or UNMATCHED (if_route f) in
     r\<lparr> mt_requests := (mt_requests r)((if_method f, route, status) := mt_requests r (if_method f, route, status) + 1),
        mt_durations := (mt_durations r)((if_method f, route) := mt_durations r (if_method f, route) + 1) \<rparr>)"

definition flight_drop :: "in_flight \<Rightarrow> registry \<Rightarrow> registry" where
  "flight_drop f r = (let r = r\<lparr> mt_in_flight := mt_in_flight r - 1 \<rparr> in
     if if_finished f then r else flight_record f CANCELLED r)"

text \<open>\<open>finish\<close> takes the flight, so it is dropped at its end.\<close>

definition flight_finish :: "in_flight \<Rightarrow> string \<Rightarrow> registry \<Rightarrow> registry" where
  "flight_finish f status r = (let f = f\<lparr> if_finished := True \<rparr> in flight_drop f (flight_record f status r))"

text \<open>
  The middleware as the scheduler runs it: requests start, and each ends with a response or is dropped.  The
  state is the registry with the flights under way.
\<close>

inductive http_step :: "registry \<times> in_flight list \<Rightarrow> registry \<times> in_flight list \<Rightarrow> bool" where
  starts: "flight_start (method_label m) route r = (f, r') \<Longrightarrow> http_step (r, fs) (r', f # fs)"
| responds: "http_step (r, fs @ f # gs) (flight_finish f status r, fs @ gs)"
| dropped: "http_step (r, fs @ f # gs) (flight_drop f r, fs @ gs)"

inductive_cases http_stepE: "http_step x y"

text \<open>The gauge is the number of requests under way, whatever became of the others.\<close>

definition gauge_exact :: "registry \<times> in_flight list \<Rightarrow> bool" where
  "gauge_exact st \<longleftrightarrow> mt_in_flight (fst st) = int (length (snd st)) \<and> (\<forall>f \<in> set (snd st). \<not> if_finished f)"

lemma gauge_step: "http_step st st' \<Longrightarrow> gauge_exact st \<Longrightarrow> gauge_exact st'"
  by (induction rule: http_step.induct)
    (auto simp: gauge_exact_def flight_start_def flight_finish_def flight_drop_def flight_record_def Let_def)

lemma gauge_reachable: "http_step\<^sup>*\<^sup>* (empty_registry, []) st \<Longrightarrow> gauge_exact st"
proof (induction rule: rtranclp_induct)
  case base
  then show ?case by (simp add: gauge_exact_def empty_registry_def)
next
  case (step st st')
  show ?case by (rule gauge_step [OF step.hyps(2) step.IH])
qed

lemma method_label_bounded: "method_label m \<in> {''GET'', ''HEAD'', ''POST'', ''PUT'', ''DELETE'', ''OPTIONS'', ''PATCH'',
    ''TRACE'', ''CONNECT'', OTHER_METHOD}"
  by (auto simp: method_label_def)

text \<open>\<open>record_pool\<close> of the authorization server's metrics: the connections in use are never negative.\<close>

definition record_pool :: "nat \<Rightarrow> nat \<Rightarrow> int \<times> int" where
  "record_pool pool idle = (let free = (if idle < 2 ^ 63 then int idle else 2 ^ 63 - 1); in_use = int pool - free in
     (max in_use 0, free))"

lemma record_pool_range: "fst (record_pool pool idle) \<ge> 0" "idle \<le> pool \<Longrightarrow> idle < 2 ^ 63 \<Longrightarrow> record_pool pool idle = (int (pool - idle), int idle)"
  by (simp_all add: record_pool_def Let_def of_nat_diff)

end
