(* ===== verification/Processes.thy ===== *)
theory Processes
  imports Startup Authn_Config Runtime
begin

text \<open>
  The two processes from their \<open>main\<close> on: the tasks that are started beside the API, the auxiliary listeners of
  \<open>listener.rs\<close>, and what is left running when the API listener ends; and the counters of
  \<open>lakefs-authn/src/metrics.rs\<close>.  Binding an address, asking for its local address, and serving until the shutdown
  signal or an I/O error are parameters.
\<close>

section \<open>listener.rs\<close>

record 'l net =
  nt_bind :: "string \<Rightarrow> string + 'l"
  nt_local_addr :: "'l \<Rightarrow> string + string"
  nt_serve :: "'l \<Rightarrow> string + unit"

text \<open>An auxiliary listener ends in a line of the log, never in an error.\<close>

datatype aux_end = AuxNotBound string | AuxStopped string | AuxShutDown

definition serve_aux :: "'l net \<Rightarrow> string \<Rightarrow> aux_end" where
  "serve_aux n address = (case nt_bind n address of
     Inl e \<Rightarrow> AuxNotBound e
   | Inr listener \<Rightarrow> (case nt_serve n listener of Inl e \<Rightarrow> AuxStopped e | Inr _ \<Rightarrow> AuxShutDown))"

section \<open>The authorization server\<close>

datatype task = TokenCleanup nat | PoolSampler | MetricsServer string | BuilderServer string | Discovery

definition authz_tasks :: "authz_config \<Rightarrow> task list" where
  "authz_tasks c = TokenCleanup (az_token_cleanup_interval c) #
     (case az_metrics_listen c of None \<Rightarrow> [] | Some address \<Rightarrow> [PoolSampler, MetricsServer address]) @
     (case az_builder_listen c of None \<Rightarrow> [] | Some address \<Rightarrow> [BuilderServer address])"

definition abort_tasks :: "task list \<Rightarrow> task list \<Rightarrow> task list" where
  "abort_tasks handles running = filter (\<lambda>t. t \<notin> set handles) running"

datatype main_error = MainStart start_error | MainConfig string | MainBind string | MainAddress string | MainServe string

text \<open>\<open>main\<close>: its result, and the tasks that are running when it returns.\<close>

definition authz_main :: "start_env \<Rightarrow> 'l net \<Rightarrow> authz_config \<Rightarrow> db \<Rightarrow> (main_error + unit) \<times> task list \<times> db" where
  "authz_main se n c d = (case authz_start se c d of
     (Inl e, d') \<Rightarrow> (Err (MainStart e), [], d')
   | (Inr st, d') \<Rightarrow> (let running = authz_tasks c in
       case nt_bind n (az_listen c) of
         Inl e \<Rightarrow> (Err (MainBind (''bind '' @ az_listen c @ '': '' @ e)), running, d')
       | Inr listener \<Rightarrow> (case nt_local_addr n listener of
           Inl e \<Rightarrow> (Err (MainAddress e), running, d')
         | Inr _ \<Rightarrow> (map_err MainServe (nt_serve n listener), abort_tasks (authz_tasks c) running, d'))))"

lemma authz_main_start: "snd (snd (authz_main se n c d)) = snd (authz_start se c d)"
  by (auto simp: authz_main_def Let_def split: prod.split sum.split)

text \<open>The API does not depend on the auxiliary listeners, and no task outlives its server.\<close>

lemma aux_listeners_do_not_matter:
  assumes "nt_bind n (az_listen c) = nt_bind n' (az_listen c)" "nt_local_addr n = nt_local_addr n'" "nt_serve n = nt_serve n'"
  shows "authz_main se n c d = authz_main se n' c d"
  unfolding authz_main_def assms ..

lemma authz_main_served:
  assumes "fst (authz_main se n c d) = Ok ()"
  shows "fst (snd (authz_main se n c d)) = []" "\<exists>st. fst (authz_start se c d) = Ok st"
  using assms by (auto simp: authz_main_def abort_tasks_def Let_def split: prod.splits sum.splits)

lemma authz_main_serve_error:
  assumes "fst (authz_main se n c d) = Err (MainServe e)"
  shows "fst (snd (authz_main se n c d)) = []"
  using assms by (auto simp: authz_main_def abort_tasks_def Let_def split: prod.splits sum.splits)

text \<open>Nothing is listened on, and no task runs, before the checks and the bootstrap file have passed.\<close>

lemma authz_main_refused:
  assumes "fst (authz_start se c d) = Err e"
  shows "fst (authz_main se n c d) = Err (MainStart e) \<and> fst (snd (authz_main se n c d)) = []"
  using assms by (auto simp: authz_main_def split: prod.split)

section \<open>The authentication server\<close>

definition authn_tasks :: "config \<Rightarrow> task list" where
  "authn_tasks c = Discovery # (case cg_metrics_listen c of None \<Rightarrow> [] | Some address \<Rightarrow> [MetricsServer address])"

definition authn_metrics_handles :: "config \<Rightarrow> task list" where
  "authn_metrics_handles c = (case cg_metrics_listen c of None \<Rightarrow> [] | Some address \<Rightarrow> [MetricsServer address])"

text \<open>The handle of the discovery loop is dropped at once, which leaves the loop running until the process ends.\<close>

definition authn_main :: "'k setup_env \<Rightarrow> 'l net \<Rightarrow> config \<Rightarrow> (main_error + unit) \<times> task list" where
  "authn_main sn n c = (case from_config sn c of
     Inl e \<Rightarrow> (Err (MainConfig e), [])
   | Inr st \<Rightarrow> (let running = authn_tasks c in
       case nt_bind n (cg_listen c) of
         Inl e \<Rightarrow> (Err (MainBind e), running)
       | Inr listener \<Rightarrow> (case nt_local_addr n listener of
           Inl e \<Rightarrow> (Err (MainAddress e), running)
         | Inr _ \<Rightarrow> (case nt_serve n listener of
             Inl e \<Rightarrow> (Err (MainServe e), running)
           | Inr _ \<Rightarrow> (Ok (), abort_tasks (authn_metrics_handles c) running)))))"

lemma authn_main_served: "fst (authn_main sn n c) = Ok () \<Longrightarrow> snd (authn_main sn n c) = [Discovery]"
  by (auto simp: authn_main_def authn_tasks_def authn_metrics_handles_def abort_tasks_def Let_def
      split: sum.splits option.splits)

text \<open>The loop that picks up a rotated provider key runs whenever the API is served.\<close>

lemma discovery_runs: "from_config sn c = Ok st \<Longrightarrow> Discovery \<in> set (snd (authn_main sn n c))"
  by (auto simp: authn_main_def authn_tasks_def authn_metrics_handles_def abort_tasks_def Let_def
      split: sum.splits option.splits)

section \<open>The counters of the authentication server\<close>

type_synonym series = "string \<times> string \<Rightarrow> nat option"

definition BROWSER_LOGINS :: string where "BROWSER_LOGINS = ''lakefs_authn_browser_logins_total''"
definition OIDC_DISCOVERY :: string where "OIDC_DISCOVERY = ''lakefs_authn_oidc_discovery_total''"

definition outcome_label :: "bool \<Rightarrow> string" where
  "outcome_label succeeded = (if succeeded then ''success'' else ''failure'')"

text \<open>\<open>with_label_values\<close> creates the child at zero when it does not exist yet.\<close>

definition with_label_values :: "string \<times> string \<Rightarrow> series \<Rightarrow> series" where
  "with_label_values k m = (case m k of Some _ \<Rightarrow> m | None \<Rightarrow> m(k \<mapsto> 0))"

definition counter_inc :: "string \<times> string \<Rightarrow> series \<Rightarrow> series" where
  "counter_inc k m = (let m = with_label_values k m in m(k := map_option Suc (m k)))"

definition authn_metrics_init :: "series \<Rightarrow> series" where
  "authn_metrics_init m = fold (\<lambda>outcome m. with_label_values (OIDC_DISCOVERY, outcome) (with_label_values (BROWSER_LOGINS, outcome) m))
     [''success'', ''failure''] m"

definition record_browser_login :: "bool \<Rightarrow> series \<Rightarrow> series" where
  "record_browser_login succeeded = counter_inc (BROWSER_LOGINS, outcome_label succeeded)"

definition record_discovery :: "bool \<Rightarrow> series \<Rightarrow> series" where
  "record_discovery succeeded = counter_inc (OIDC_DISCOVERY, outcome_label succeeded)"

lemma with_label_values_get: "with_label_values k m j = (if j = k \<and> m k = None then Some 0 else m j)"
  by (auto simp: with_label_values_def split: option.split)

lemma counter_inc_get: "counter_inc k m j = (if j = k then Some (Suc (case m k of Some n \<Rightarrow> n | None \<Rightarrow> 0)) else m j)"
  by (auto simp: counter_inc_def Let_def with_label_values_get split: option.split)

text \<open>Every series is listed before anything happened, and a second \<open>init\<close> keeps what was counted.\<close>

lemma init_lists_every_series:
  "authn_metrics_init m (name, outcome_label b) \<noteq> None" if "name \<in> {BROWSER_LOGINS, OIDC_DISCOVERY}"
  using that by (auto simp: authn_metrics_init_def with_label_values_get outcome_label_def)

lemma with_label_values_keeps: "m k = Some n \<Longrightarrow> with_label_values j m k = Some n"
  by (auto simp: with_label_values_get)

lemma init_keeps: "m k = Some n \<Longrightarrow> authn_metrics_init m k = Some n"
  by (simp add: authn_metrics_init_def with_label_values_keeps)

text \<open>After \<open>init\<close>, the two counters of browser logins add up to the callbacks that were answered.\<close>

lemma logins_counted:
  "fold record_browser_login outcomes (authn_metrics_init (\<lambda>_. None)) (BROWSER_LOGINS, outcome_label b)
    = Some (length (filter (\<lambda>x. x = b) outcomes))"
proof -
  have "m (BROWSER_LOGINS, outcome_label b) = Some n \<Longrightarrow>
      fold record_browser_login outcomes m (BROWSER_LOGINS, outcome_label b) = Some (n + length (filter (\<lambda>x. x = b) outcomes))" for m n
  proof (induction outcomes arbitrary: m n)
    case (Cons x xs)
    have "record_browser_login x m (BROWSER_LOGINS, outcome_label b) = Some (if x = b then Suc n else n)"
      using Cons.prems by (auto simp: record_browser_login_def counter_inc_get outcome_label_def)
    from Cons.IH [where m = "record_browser_login x m", OF this] show ?case by simp
  qed simp
  from this [where m = "authn_metrics_init (\<lambda>_. None)" and n = 0] show ?thesis
    by (simp add: authn_metrics_init_def with_label_values_get outcome_label_def)
qed

end
