(* ===== verification/Spec2Isabelle.thy ===== *)
theory Spec2Isabelle
  imports Server_Examples Conformance_Runs Pg_Process Processes
begin

text \<open>  The authentication and authorization servers for lakeFS of this repository, and what makes them correct.

  THE PROGRAM.  lakeFS asks two servers of this workspace.  \<open>crates/lakefs-authz\<close> is the authorization server:
  an HTTP API over users, groups, policies, credentials and external principals, kept in PostgreSQL, or in
  memory in its tests; a bootstrap file seeds the database at the start, and an optional policy builder page acts
  on lakeFS with the session of the visitor.  \<open>crates/lakefs-authn\<close> is the authentication server: it sends a
  browser to an OpenID Connect provider, checks the ID token of the callback, finds or creates the user at the
  authorization server, and answers with the session cookie lakeFS reads; SDK clients log in at a second
  endpoint.  \<open>crates/lakefs-authz-client\<close> is the client the second server uses to reach the first, and
  \<open>crates/lakefs-auth-core\<close> what they share.

  THEORIES, in the order of their imports, with the files they model.
    \<^item> \<open>Prelude\<close>: results as sums with the combinators of \<open>Result\<close> and \<open>Option\<close>; \<open>Btree\<close>: the ordered maps and sets
      of the standard library as ordered lists, with their laws as a locale and its interpretation.
    \<^item> \<open>Rust_Str\<close> (text.rs, config.rs of the shared crate, and the \<open>str\<close> functions used), \<open>Model\<close> (model/), \<open>Api_Error\<close>
      (error.rs, store/error.rs), \<open>Validate\<close> (validate.rs), \<open>Catalog\<close> (catalog.rs), \<open>Pagination\<close> (pagination.rs),
      \<open>Token\<close> (auth/), \<open>Crypto\<close> (crypto), \<open>Store_Types\<close> (store/types.rs).
    \<^item> \<open>Mem_Store\<close> is the in-memory store, one function from the state to a result and a state for each operation of the
      storage traits; \<open>Mem_Inv\<close> its invariant \<open>wf_inner\<close> and reachable stores; \<open>Mem_Spec\<close> what the operations do.
    \<^item> \<open>Boot_Plan\<close> (store/bootstrap.rs): the run of a plan over any \<open>BootstrapWriter\<close>, a locale with the contract of one
      entry and its interpretation on the in-memory writer; \<open>Boot_File\<close> (bootstrap.rs): from the file to the plan.
    \<^item> \<open>Pg_Sql\<close> (store/pg/sql.rs and the migration): tables as lists of rows, each SQL statement as what it selects or
      does; \<open>Pg_Store\<close> (store/pg/): the operations over them and the mapping of errors; \<open>Pg_Refine\<close>: the abstraction
      \<open>store_of\<close> to the in-memory store and the reads; \<open>Pg_Writes\<close>, \<open>Pg_Owned\<close>: the simulation of every write;
      \<open>Pg_Run\<close>: reachable tables, and the bootstrap transaction as a second interpretation of the writer's contract.
    \<^item> \<open>Store_Trait\<close> (store/traits.rs): the storage traits as a record of operations, and the in-memory store as one.
      \<open>Service\<close> (service.rs) and \<open>Handlers\<close> (handlers/, routes.rs, app.rs), over any such record: every route of the
      API from the request to the answer, with \<open>serve\<close> the server as one function from a request and a store to a
      response and a store.  \<open>Router_Relation\<close>: a relation between handlers that holds of every pair of handlers of
      two servers holds of the servers; a locale with six interpretations.  \<open>Pg_Server\<close>: the same server over the
      PostgreSQL store.  \<open>Timeouts\<close>: requests and logins that are dropped, by the \<open>TimeoutLayer\<close> of both servers or a client
      that goes away, as the same program over a store, or a directory, that stops taking calls.  \<open>Interleaving\<close>:
      requests served at the same time, as the same program over a store whose reads and writes see different
      states; \<open>Pg_Busy\<close>: such requests over PostgreSQL.  \<open>Pg_Process\<close>: the server in production as a transition
      system, and its refinement.
      \<open>Conformance\<close> (store/testsuite.rs): the suite both stores have to pass; \<open>Conformance_Runs\<close>: its runs.
    \<^item> \<open>Authz_Client\<close> (the client crate) over any transport; \<open>Client_Server\<close>: the client connected to \<open>serve\<close>, as an
      interpretation of what a login needs of a directory of users.
    \<^item> \<open>Gob\<close>, \<open>Cookies\<close> (lakefs/): the session cookie; \<open>Redirect\<close>, \<open>Provision\<close>, \<open>Oidc_Provider\<close>, \<open>Login_Flow\<close>
      (routes/, provision, oidc/): a login from the redirect to the cookie; \<open>Authn_Config\<close> (config.rs, state.rs):
      the flags, what is derived from them, and the mounted routes.
    \<^item> \<open>Authz_Config\<close> (config.rs, cors), \<open>Policy_Builder\<close> (policy_builder.rs, lakefs.rs), \<open>Startup\<close> (main.rs of the
      authorization server up to the seeded database), \<open>Runtime\<close> (tasks.rs, cleanup.rs, metrics.rs), \<open>Processes\<close> (both
      main.rs, listener.rs, the counters of metrics.rs).
    \<^item> \<open>Examples\<close>, \<open>Server_Examples\<close>: concrete systems for the instances of the properties.

  HOW THE PARTS ARE MODELLED.  A struct is a record and an enum a datatype, with the names of the source and a
  prefix on the fields; a fallible function answers with a sum, \<open>Err\<close> for every early return and \<open>?\<close>; a handler is a
  function on the whole state.  The lock of the in-memory store and the single statement of each PostgreSQL
  operation make every operation atomic.  \<open>serve\<close> is a request that is alone; a request among others reads one state and
  writes to a later one (\<open>serve_busy\<close>), and writes once.  Texts are their
  UTF-8 bytes.  Loops whose end depends on another server have a measure: a cursor walk counts its pages, a
  request its attempts.  No fuel is used; the one loop
  without a bound, the walk of the conformance suite, is a partial function whose \<open>None\<close> fails the suite.

  WHAT THE THEOREMS SHOW.  The server as a whole: the invariant of the store over any requests, also at the same
  time; refused requests and reads change nothing, a request that is dropped does all or nothing, and one among others is
  served as if alone, but for the update of a policy; the bearer
  guards every route, the routes are the declared contract, deletes cascade, pages and cursor walks return the
  listing.  The PostgreSQL store: every read equals, and every write simulates, the in-memory store on the same
  rows.  So every run of the server in production, with concurrent and dropped requests, outages and cleanups, is a run of the
  server over one in-memory state, and what holds of such runs holds in production: identifiers are never
  reused, a token id is claimed once.  An outage changes nothing; both stores pass the repository's conformance
  suite; the bootstrap transaction is all or nothing, and a restart changes nothing.  Logins: which user a
  session is for, what a first login creates, and what a failed, dropped or stale one leaves behind; redirects,
  SDK clients and groups.  Cookies: round trips and authenticity.  The provider and the client: bounds on fetches
  and requests.  The policy builder: it acts as the caller only.  Validation: the exact form of accepted
  policies, and that the catalog agrees with it.

  PARAMETERS.  The crates that are not part of the repository are arguments: the HTTP stacks, the SQL driver,
  \<open>jsonwebtoken\<close>, \<open>openidconnect\<close>, AES-GCM, HKDF and HMAC, \<open>serde\<close>, the YAML parser, \<open>url\<close>, \<open>clap\<close> and the clock.
  Where a theorem relies on one, its documented behaviour is a hypothesis of the theorem (\<open>aead_ok\<close> for the
  cipher, \<open>report_ok\<close> for the constraint PostgreSQL names), and the instances discharge it.

  NOT MODELLED.  Logging, spans and the exposition of metrics; sockets and signals; the HTML page
  of the builder; the tests other than the suite of the stores.  Counters of 32 and 64 bits that only count up
  (created and skipped entries, user ids) are natural numbers or integers; timestamps are whole seconds; the body of a JSON request and a
  YAML document are the values the parsers read of them.  PostgreSQL refuses texts with a NUL byte and index
  rows above its page size, which the model stores.  The three walks of the
  builder's \<open>names\<close> are concurrent in the source and follow one another here.  In \<open>Pg_Process\<close> the database answers
  all statements of a request or none, and all reads before the statement that writes see one state.  A call of
  the client that is dropped between two attempts counts as one call, and the task of a create that the end of the
  process cuts off is not considered.\<close>

section \<open>The authorization server as a whole\<close>

lemma wf_serve: "wf_inner s \<Longrightarrow> wf_inner (snd (serve mem_impl sv rq s))"
  using serve_is_step [of sv rq s] by (auto intro: wf_run_op)

lemma wf_serve_all: "wf_inner s \<Longrightarrow> wf_inner (serve_all mem_impl sv rqs s)"
  unfolding serve_all_def by (induction rqs arbitrary: s) (auto intro: wf_serve)

definition delete_bob :: http_request where
  "delete_bob = \<lparr> rq_method = DELETE, rq_path = ''/api/v1/auth/users/bob'', rq_query = [], rq_body = NoBody,
     rq_authorization = None \<rparr>"

text \<open>C1. Whatever plan the server is started with and whatever requests it then serves, at the
  same time and with any bodies, its store is always well formed: every map and set is ordered and
  keyed by its rows; every membership, attachment, credential and principal points at stored rows, and a
  credential carries the id of its user; user ids are positive, never above the counter, and user ids,
  emails and external ids are unique.  A request may have read any earlier state by the time it writes.\<close>

theorem server_store_well_formed:
  assumes "history (snd (apply_bootstrap plan empty_inner)) h" "s \<in> set h"
  shows "wf_inner s"
  using history_well_formed [OF assms(1) wf_apply_bootstrap [OF wf_empty] assms(2)] .

lemma server_store_well_formed_witness:
  "let s0 = snd (apply_bootstrap empty_plan empty_inner); served = (\<lambda>seen s. snd (serve_busy mem_impl (loopback_server demo_env) delete_bob seen s))
   in wf_inner (served s0 (served s0 s0))"
proof -
  let ?s0 = "snd (apply_bootstrap empty_plan empty_inner)"
  let ?served = "\<lambda>seen s. snd (serve_busy mem_impl (loopback_server demo_env) delete_bob seen s)"
  have "history ?s0 [?served ?s0 (?served ?s0 ?s0), ?served ?s0 ?s0, ?s0]" by (intro history.intros) simp_all
  from server_store_well_formed [OF this] show ?thesis by (simp add: Let_def)
qed

text \<open>C2. A request that is not answered with 200, 201 or 204 leaves the store
  as it was, whichever handler, middleware or router refused it.\<close>

theorem refused_request_changes_nothing:
  assumes "rs_status (fst (serve mem_impl sv rq s)) \<notin> {200, 201, 204}"
  shows "snd (serve mem_impl sv rq s) = s"
  using assms by (rule serve_failure)

lemma loopback_base: "normalize_base_path (sv_base_path (loopback_server env)) = ''/api/v1''"
  by (simp add: normalize_base_path_def loopback_server_def trim_matches_def ascii_simps)

lemma delete_bob_path:
  "strip_base (normalize_base_path (sv_base_path (loopback_server demo_env))) (rq_path delete_bob) = Some ''/auth/users/bob''"
  "rq_path delete_bob \<noteq> READYZ_PATH" "''/auth/users/bob'' \<noteq> HEALTHCHECK_PATH"
  unfolding loopback_base by (simp_all add: strip_base_def delete_bob_def starts_with_def READYZ_PATH_def HEALTHCHECK_PATH_def)

lemma delete_bob_refused: "rs_status (fst (serve mem_impl (loopback_server demo_env) delete_bob demo_store)) = 401"
proof -
  have "require_auth (sv_jwt_ok (loopback_server demo_env)) (sv_verifier (loopback_server demo_env)) (rq_authorization delete_bob)
      (Ok ()) = Err (Unauthorized ''missing bearer token'')"
    by (simp add: require_auth_def delete_bob_def loopback_server_def)
  then show ?thesis using delete_bob_path
    by (simp add: serve_def root_route public_route guarded_def error_reply_def error_response_def api_status_def reply_def)
qed

lemma refused_request_changes_nothing_witness:
  "snd (serve mem_impl (loopback_server demo_env) delete_bob demo_store) = demo_store"
  by (rule refused_request_changes_nothing) (simp add: delete_bob_refused)

text \<open>C3. A request that the server gives up on, or whose client went away, is answered with
  408 and has then done nothing, or all that it would have done: over any store, wherever it was dropped.\<close>

theorem timed_out_request_all_or_nothing:
  "fst (serve_timed st sv (DroppedAfter writes) rq s) = reply 408 EmptyBody
   \<and> snd (serve_timed st sv (DroppedAfter writes) rq s) = (if writes = 0 then s else snd (serve st sv rq s))"
  using serve_timed_state [of st sv "DroppedAfter writes" rq s] by (simp add: serve_timed_def)




text \<open>C6. The routes the server answers are exactly the declared operations, each
  declared once, and no path matches the templates of two of them.\<close>

theorem routes_are_the_contract:
  "set (operations_of (protected_router (st :: 's store_trait) env version) @ operations_of (public_router :: 's routes)) = set ROUTE_TABLE
   \<and> distinct ROUTE_TABLE
   \<and> (\<forall>(m, t) \<in> set ROUTE_TABLE. \<forall>(m', u) \<in> set ROUTE_TABLE.
        match_template t path \<noteq> None \<and> match_template u path \<noteq> None \<longrightarrow> t = u)"
  using route_table_served [of st env version] by (auto dest: route_unique)

lemma routes_are_the_contract_witness:
  "filter (\<lambda>(_, u). match_template u ''/auth/users/bob'' \<noteq> None \<and> u \<noteq> ''/auth/users/{userId}'') ROUTE_TABLE = []"
proof -
  have "match_template ''/auth/users/{userId}'' ''/auth/users/bob'' \<noteq> None" "(GET, ''/auth/users/{userId}'') \<in> set ROUTE_TABLE"
    by (simp_all add: match_template_def is_capture_def starts_with_def ROUTE_TABLE_def)
  then show ?thesis
    using routes_are_the_contract [of mem_impl demo_env "''v''" "''/auth/users/bob''"] by (fastforce simp: filter_empty_conv)
qed

section \<open>The store\<close>

text \<open>C7. Deleting a user removes the row and exactly what refers to it: its
  memberships, its policy attachments, its credentials and its external principals; groups, policies,
  claimed token ids and the id counter stay.\<close>

theorem delete_user_cascades:
  assumes "wf_inner s" "delete_user u s = (Ok r, s')"
  shows "bt_get (in_users s') = (bt_get (in_users s))(u := None)
    \<and> set (in_group_members s') = {(g, m) \<in> set (in_group_members s). m \<noteq> u}
    \<and> set (in_user_policies s') = {(m, p) \<in> set (in_user_policies s). m \<noteq> u}
    \<and> bt_get (in_credentials s') k = opt_filter (\<lambda>c. cr_username c \<noteq> u) (bt_get (in_credentials s) k)
    \<and> bt_get (in_external_principals s') k = opt_filter (\<lambda>e. er_username e \<noteq> u) (bt_get (in_external_principals s) k)
    \<and> in_groups s' = in_groups s \<and> in_policies s' = in_policies s \<and> in_group_policies s' = in_group_policies s
    \<and> in_claimed_token_ids s' = in_claimed_token_ids s \<and> in_next_user_id s' = in_next_user_id s"
  by (intro conjI) (fact delete_user_effect [OF assms])+

lemma delete_user_cascades_witness:
  "set (in_group_members (snd (delete_user ''bob'' demo_store))) = {} \<and> bt_get (in_credentials demo_store) ''AK'' \<noteq> None
   \<and> bt_get (in_credentials (snd (delete_user ''bob'' demo_store))) ''AK'' = None"
proof -
  have d: "delete_user ''bob'' demo_store = (Ok (), snd (delete_user ''bob'' demo_store))" by code_simp
  have c: "map_option cr_username (bt_get (in_credentials demo_store) ''AK'') = Some ''bob''" by code_simp
  note after = delete_user_cascades [OF wf_demo_store d, of "''AK''"]
  have "set (in_group_members (snd (delete_user ''bob'' demo_store))) = {}"
    using conjunct1 [OF conjunct2 [OF after]] by (auto simp: demo_members)
  moreover have "bt_get (in_credentials (snd (delete_user ''bob'' demo_store))) ''AK'' = None"
    using conjunct1 [OF conjunct2 [OF conjunct2 [OF conjunct2 [OF after]]]] c by auto
  ultimately show ?thesis using c by auto
qed

text \<open>C8. The effective policies of a user are listed page by page from one ordered list
  without repetitions: the policies attached to the user together with those attached to a group the user is a
  member of, each with its stored row.\<close>

theorem effective_policies:
  assumes "wf_inner s" "bt_get (in_users s) u \<noteq> None"
  shows "\<exists>names. sorted_wrt (<) names
    \<and> set names = {p. (u, p) \<in> set (in_user_policies s)}
        \<union> {p. \<exists>g. (g, u) \<in> set (in_group_members s) \<and> (g, p) \<in> set (in_group_policies s)}
    \<and> list_effective_user_policies s u q
        = Ok (page_sorted (map (\<lambda>n. (n, the (bt_get (in_policies s) n))) names) q)"
  using list_effective_spec [OF assms, of q] set_effective_names [of s u] bs_ok_effective_names [of s u]
  unfolding bs_ok_def by blast

lemma effective_policies_witness:
  "\<exists>names. set names = {''P1'', ''P2''} \<and> list_effective_user_policies demo_store ''bob'' (normalize \<lparr> pp_prefix = None, pp_after = None, pp_amount = Some 1 \<rparr>)
     = Ok (page_sorted (map (\<lambda>n. (n, the (bt_get (in_policies demo_store) n))) names)
         (normalize \<lparr> pp_prefix = None, pp_after = None, pp_amount = Some 1 \<rparr>))"
proof -
  have p: "in_user_policies demo_store = [(''bob'', ''P2'')]" "in_group_policies demo_store = [(''Admins'', ''P1''), (''Viewers'', ''P1'')]"
    by code_simp+
  have "bt_get (in_users demo_store) ''bob'' \<noteq> None" by (simp add: demo_users bt_get_def)
  from effective_policies [OF wf_demo_store this] show ?thesis by (fastforce simp: p demo_members)
qed

text \<open>C9. A page of an ordered listing holds the first rows after the cursor that carry the prefix, at
  most as many as asked for; it announces a further page exactly when more such rows exist, and the next
  cursor is then the key of its last row.\<close>

theorem page_contents:
  fixes rows :: "(string \<times> 'a) list"
  assumes "1 \<le> q_limit q"
  defines "rest \<equiv> filter (\<lambda>(key, _). starts_with (q_prefix q) key \<and> q_after q < key) rows"
  shows "po_items (page_sorted rows q) = map snd (take (nat (q_limit q)) rest)
    \<and> pg_has_more (lr_pagination (into_response (page_sorted rows q))) = (nat (q_limit q) < length rest)
    \<and> po_next_offset (page_sorted rows q) = (if nat (q_limit q) < length rest then Some (fst (rest ! (nat (q_limit q) - 1))) else None)"
  using page_sorted_spec [OF assms(1), of rows] page_sorted_has_more_iff [OF assms(1), of rows]
  unfolding rest_def page_rows_def by blast

lemma page_contents_witness:
  "po_items (page_sorted [(''a'', 1), (''b'', 2), (''c'', 3 :: nat)] \<lparr> q_prefix = [], q_after = ''a'', q_limit = 1 \<rparr>) = [2]
   \<and> po_next_offset (page_sorted [(''a'', 1), (''b'', 2), (''c'', 3 :: nat)] \<lparr> q_prefix = [], q_after = ''a'', q_limit = 1 \<rparr>) = Some ''b''"
proof -
  have "filter (\<lambda>(key, _). starts_with [] key \<and> ''a'' < key) [(''a'', 1), (''b'', 2), (''c'', 3 :: nat)] = [(''b'', 2), (''c'', 3)]"
    by code_simp
  then show ?thesis
    using page_contents [of "\<lparr> q_prefix = [], q_after = ''a'', q_limit = 1 \<rparr>" "[(''a'', 1), (''b'', 2), (''c'', 3 :: nat)]"] by simp
qed

text \<open>C10. A client that walks a listing of the server page by page collects every row, in order
  and once, when the listing fits the pages it is willing to fetch, and is told so otherwise; it never
  returns a part of the listing as if it were all of it.\<close>

theorem walk_collects_listing:
  assumes "rows_ok rows"
  shows "fst (walk_pages (sorted_listing 1000) cerr rows (new_walk max_pages) [])
    = (if length rows \<le> 1000 * max 1 max_pages then Ok (map snd rows) else Err (cerr (TooManyPages max_pages)))"
  using listing.walk_all [OF assms, of max_pages cerr] listing.walk_too_long [OF assms, of max_pages cerr] by simp

lemma walk_collects_listing_witness:
  "fst (walk_pages (sorted_listing 1000) Some [(''a'', 1), (''b'', 2 :: nat)] (new_walk 20) []) = Ok [1, 2]"
proof -
  have "rows_ok [(''a'', 1), (''b'', 2 :: nat)]" by (simp add: rows_ok_def)
  from walk_collects_listing [OF this, of Some 20] show ?thesis by simp
qed

text \<open>C11. Whatever a server answers, also one that lies about its cursors, a walk ends after at most
  the maximal number of pages (one, for a maximum of zero).\<close>

theorem walk_is_bounded:
  "fst (snd (walk_pages (counted fetch) cerr (0, s) (new_walk max_pages) [])) \<le> max 1 max_pages"
  using walk_pages_requests [of fetch cerr 0 s "new_walk max_pages" "[]"] by (simp add: new_walk_def)

section \<open>The service\<close>

text \<open>C12. The secret a credential is created with, given or generated, is the secret a later
  lookup of its access key returns, through sealing, storing and opening.\<close>

theorem credentials_round_trip:
  assumes "wf_inner s" "aead_ok (env_secrets env)" "length (env_nonce env) = NONCE_LEN"
    and "svc_create_credentials mem_impl env username access_key secret_key s = (Ok c, s')"
    and "str_ok (cs_secret_access_key c)"
  shows "svc_credentials_with_secret mem_impl env s' (cs_access_key_id c) = Ok c"
  using assms by (rule svc_credentials_round_trip)

lemma credentials_round_trip_witness:
  "\<exists>c s'. svc_create_credentials mem_impl demo_env ''bob'' (Some ''KEY'') (Some ''hush'') demo_store = (Ok c, s')
     \<and> cs_secret_access_key c = ''hush'' \<and> svc_credentials_with_secret mem_impl demo_env s' ''KEY'' = Ok c"
proof -
  have k: "non_blank ''KEY'' = Some ''KEY''" "non_blank ''hush'' = Some ''hush''"
    by (simp_all add: non_blank_def ascii_simps Let_def)
  have n: "new_credential_sealed demo_box (replicate 12 1) ''bob'' ''KEY'' ''hush'' 100
      = Ok \<lparr> nc_access_key_id = ''KEY'', nc_username = ''bob'',
          nc_secret_ciphertext = VERSION # replicate 12 1 @ as_bytes ''hush'' @ replicate 16 7, nc_creation_date = 100 \<rparr>"
    by (simp add: new_credential_sealed_def seal_str_def seal_def demo_box_def res_simps)
  have none: "bt_get (in_credentials demo_store) ''KEY'' = None" by code_simp
  have c: "\<exists>c s'. svc_create_credentials mem_impl demo_env ''bob'' (Some ''KEY'') (Some ''hush'') demo_store = (Ok c, s')
      \<and> cs_access_key_id c = ''KEY'' \<and> cs_secret_access_key c = ''hush''"
    using none by (simp add: svc_create_credentials_def demo_env_def k zip_opt_def n create_credential_def insert_credential_def
        demo_users bt_get_def with_secret_def Let_def)
  then obtain c s' where c: "svc_create_credentials mem_impl demo_env ''bob'' (Some ''KEY'') (Some ''hush'') demo_store = (Ok c, s')"
      "cs_access_key_id c = ''KEY''" "cs_secret_access_key c = ''hush''" by blast
  have "str_ok ''hush''" by (simp add: str_ok_def byte_of_def)
  then show ?thesis
    using credentials_round_trip [OF wf_demo_store _ _ c(1)] c demo_box_ok by (auto simp: demo_env_def NONCE_LEN_def)
qed

text \<open>C13. Repeating the create of a user, which a client does when an answer was lost, answers with
  the same user and changes nothing further, at whatever time it is repeated.\<close>

theorem create_user_is_repeatable:
  assumes "wf_inner s" "svc_create_user mem_impl env body s = (Ok u, s')"
  shows "svc_create_user mem_impl env' body s' = (Ok u, s')"
  using assms by (rule svc_create_user_repeat)

lemma create_user_is_repeatable_witness:
  "\<exists>u s'. svc_create_user mem_impl demo_env (user_creation_of demo_spec) demo_store = (Ok u, s')
     \<and> svc_create_user mem_impl (demo_env\<lparr> env_now := 101 \<rparr>) (user_creation_of demo_spec) s' = (Ok u, s')"
  using demo_svc_create create_user_is_repeatable [OF wf_demo_store] by blast

section \<open>The bootstrap\<close>

text \<open>C14. Applying a bootstrap plan a second time creates nothing, counts every entry as skipped and
  leaves the store as it was.\<close>

theorem bootstrap_is_idempotent:
  assumes "wf_inner s" "apply_bootstrap plan s = (Ok r, s')"
  shows "apply_bootstrap plan s' = (Ok (skipped_report plan), s')"
  using assms by (rule apply_bootstrap_idempotent)

definition demo_plan :: bootstrap_plan where
  "demo_plan = empty_plan\<lparr> bp_groups := [new_group_named 1 ''Admins''], bp_users := [new_user_named 1 ''admin''],
     bp_memberships := [(''Admins'', ''admin'')] \<rparr>"

lemma demo_plan_applied: "\<exists>r. apply_bootstrap demo_plan empty_inner = (Ok r, snd (apply_bootstrap demo_plan empty_inner))"
proof -
  have "is_ok (fst (apply_bootstrap demo_plan empty_inner))" by code_simp
  then show ?thesis by (cases "apply_bootstrap demo_plan empty_inner") (auto simp: is_ok_iff)
qed

lemma bootstrap_is_idempotent_witness:
  "apply_bootstrap demo_plan (snd (apply_bootstrap demo_plan empty_inner))
    = (Ok (skipped_report demo_plan), snd (apply_bootstrap demo_plan empty_inner))"
  using demo_plan_applied bootstrap_is_idempotent [OF wf_empty] by blast

section \<open>The PostgreSQL store\<close>

text \<open>C15. Every lookup and every page of the PostgreSQL store, on any tables a server can meet, is what the
  in-memory store answers on the same rows: the same rows in the same order, the same cursor, and the same
  error for an owner that is missing.\<close>

theorem pg_reads_agree:
  assumes "pg_up env" "pg_reachable d"
  shows "pg_get_user env name d = get_user (store_of d) name \<and> pg_get_group env g d = get_group (store_of d) g
    \<and> pg_get_policy env p d = get_policy (store_of d) p \<and> pg_get_credential env key d = get_credential (store_of d) key
    \<and> pg_get_user_credential env name key d = get_user_credential (store_of d) name key
    \<and> pg_get_external_principal env arn d = get_external_principal (store_of d) arn
    \<and> pg_find_user_by_id env uid d = find_user_by_id (store_of d) uid
    \<and> pg_find_user_by_email env email d = find_user_by_email (store_of d) email
    \<and> pg_find_user_by_external_id env x d = find_user_by_external_id (store_of d) x
    \<and> pg_list_users env q d = list_users (store_of d) q \<and> pg_list_groups env q d = list_groups (store_of d) q
    \<and> pg_list_policies env q d = list_policies (store_of d) q
    \<and> pg_list_group_members env g q d = list_group_members (store_of d) g q
    \<and> pg_list_user_groups env name q d = list_user_groups (store_of d) name q
    \<and> pg_list_user_policies env name q d = list_user_policies (store_of d) name q
    \<and> pg_list_group_policies env g q d = list_group_policies (store_of d) g q
    \<and> pg_list_effective_user_policies env name q d = list_effective_user_policies (store_of d) name q
    \<and> pg_list_user_credentials env name q d = list_user_credentials (store_of d) name q
    \<and> pg_list_user_external_principals env name q d = list_user_external_principals (store_of d) name q"
  using assms(1) pg_reachable_ok [OF assms(2)]
  by (intro conjI point_reads user_credential_read user_lookups whole_lists membership_lists attachment_lists
      effective_list owned_row_lists)

lemma pg_reads_agree_witness:
  "\<forall>q. pg_list_effective_user_policies demo_pg ''bob'' q demo_db = list_effective_user_policies (store_of demo_db) ''bob'' q"
  using pg_reads_agree [OF demo_pg_up demo_db_reachable] by blast

text \<open>C16. Every write of the PostgreSQL store, on any tables a server can meet, is the write of the
  in-memory store on the same rows: the same answer, or an error with the same status, and the same rows
  afterwards, under the keys of the schema; only the sequence of user ids may have moved further.  The one
  difference: for a user that is missing and a key that is taken PostgreSQL answers with the conflict, the
  in-memory store with the missing user, and neither changes a row.\<close>

theorem pg_writes_agree:
  assumes "pg_up env" "pg_reachable d"
  shows "simulates (pg_create_user env u d) (create_user u (store_of d))
    \<and> simulates (pg_delete_user env name d) (delete_user name (store_of d))
    \<and> simulates (pg_set_friendly_name env name n d) (set_friendly_name name n (store_of d))
    \<and> simulates (pg_create_group env ng d) (create_group ng (store_of d))
    \<and> simulates (pg_delete_group env g d) (delete_group g (store_of d))
    \<and> simulates (pg_create_policy env np d) (create_policy np (store_of d))
    \<and> simulates (pg_update_policy env np d) (update_policy np (store_of d))
    \<and> simulates (pg_delete_policy env p d) (delete_policy p (store_of d))
    \<and> simulates (pg_add_membership env g name d) (add_membership g name (store_of d))
    \<and> simulates (pg_remove_membership env g name d) (remove_membership g name (store_of d))
    \<and> simulates (pg_attach_policy_to_user env name p d) (attach_policy_to_user name p (store_of d))
    \<and> simulates (pg_detach_policy_from_user env name p d) (detach_policy_from_user name p (store_of d))
    \<and> simulates (pg_attach_policy_to_group env g p d) (attach_policy_to_group g p (store_of d))
    \<and> simulates (pg_detach_policy_from_group env g p d) (detach_policy_from_group g p (store_of d))
    \<and> simulates (pg_delete_credential env name key d) (delete_credential name key (store_of d))
    \<and> simulates (pg_delete_external_principal env name arn d) (delete_external_principal name arn (store_of d))
    \<and> simulates (pg_claim_token_id env t e d) (claim_token_id t e (store_of d))
    \<and> simulates (pg_delete_expired_token_ids env now d) (delete_expired_token_ids now (store_of d))
    \<and> (if \<not> has_user d (nc_username c) \<and> has_key d (nc_access_key_id c)
        then conflict_hides_missing (pg_create_credential env c d) (create_credential c (store_of d)) d
        else simulates (pg_create_credential env c d) (create_credential c (store_of d)))
    \<and> (if \<not> has_user d name \<and> list_ex (\<lambda>r. er_id r = arn) (t_external_principals d)
        then conflict_hides_missing (pg_create_external_principal env name arn d) (create_external_principal name arn (store_of d)) d
        else simulates (pg_create_external_principal env name arn d) (create_external_principal name arn (store_of d)))"
  using assms(1) pg_reachable_ok [OF assms(2)]
  by (intro conjI sim_writes sim_create_credential sim_create_external_principal)

lemma pg_writes_agree_witness: "simulates (pg_delete_user demo_pg ''bob'' demo_db) (delete_user ''bob'' (store_of demo_db))"
  using pg_writes_agree [OF demo_pg_up demo_db_reachable] by blast

text \<open>C17. A bootstrap of the database is one transaction: one that fails, at whichever entry, leaves
  every row as it was and moves at most the sequence of user ids; one that succeeds only adds, so that every
  row, membership and attachment that was there is there unchanged.\<close>

theorem pg_bootstrap_all_or_nothing:
  assumes "pg_works env" "pg_reachable d"
  shows "case pg_apply_bootstrap env plan d of
      (Inl e, d') \<Rightarrow> d' = d\<lparr> t_user_seq := t_user_seq d' \<rparr>
    | (Inr r, d') \<Rightarrow> mem_grow (store_of d) (store_of d')"
proof (cases "pg_apply_bootstrap env plan d")
  case (Pair result d')
  show ?thesis
  proof (cases result)
    case (Inl e)
    then show ?thesis using Pair pg_apply_bootstrap_Err [of env plan d e d'] by (simp add: pg_idle_def)
  next
    case (Inr r)
    then have "pg_up env" using Pair assms(1) by (auto simp: pg_works_def pg_up_def pg_apply_bootstrap_def split: option.splits)
    then show ?thesis using Pair Inr pg_bootstrap_idempotent(3) [OF _ pg_reachable_ok [OF assms(2)]]
      by (simp add: pg_grow_def)
  qed
qed

lemma pg_bootstrap_all_or_nothing_witness:
  "case pg_apply_bootstrap demo_pg demo_plan demo_db of
      (Inl e, d') \<Rightarrow> d' = demo_db\<lparr> t_user_seq := t_user_seq d' \<rparr>
    | (Inr r, d') \<Rightarrow> mem_grow (store_of demo_db) (store_of d')"
  by (rule pg_bootstrap_all_or_nothing [OF demo_pg_works demo_db_reachable])

text \<open>A run of the example: a request, one that is dropped, one without the database, and a sweep.\<close>

lemma demo_run: "\<exists>r r' d' h'. run pg_step (d # h)
    [Answered (loopback_server demo_env) delete_bob r, Dropped (loopback_server demo_env) delete_bob,
     Unreachable (loopback_server demo_env) delete_bob r', Swept 400] (d' # h')"
proof -
  let ?sv = "loopback_server demo_env" and ?down = "demo_pg\<lparr> pg_down := Some ''timeout'' \<rparr>"
  have down: "pg_down ?down = Some ''timeout''" by simp
  have seen: "d \<in> set (d # h)" "d \<in> set (d1 # d # h)" for d1 by simp_all
  obtain r d1 where s1: "serve_busy (pg_impl demo_pg) ?sv delete_bob d d = (r, d1)" by force
  obtain r2 d2 where s2: "serve_timed (busy_store (pg_impl demo_pg)) ?sv (DroppedAfter 1) delete_bob (d, d1) = (r2, d2)"
    by (cases "serve_timed (busy_store (pg_impl demo_pg)) ?sv (DroppedAfter 1) delete_bob (d, d1)") blast
  obtain r3 d3 where s3: "serve (pg_impl ?down) ?sv delete_bob (snd d2) = (r3, d3)" by force
  obtain r4 d4 where s4: "pg_delete_expired_token_ids demo_pg 400 d3 = (r4, d4)" by force
  have "run pg_step (d # h) [Answered ?sv delete_bob r, Dropped ?sv delete_bob, Unreachable ?sv delete_bob r3, Swept 400]
      (d4 # d3 # snd d2 # d1 # d # h)"
    by (rule run.more [where step = pg_step, OF pg_step.answered [OF demo_pg_up seen(1) s1]]
        run.more [where step = pg_step, OF pg_step.dropped [OF demo_pg_works seen(2) s2]]
        run.more [where step = pg_step, OF pg_step.unreachable [OF down s3]]
        run.more [where step = pg_step, OF pg_step.swept [OF demo_pg_works s4]] run.none [where step = pg_step])+
  then show ?thesis by blast
qed

lemma demo_all_reachable: "all_reachable [demo_db]"
  by (simp add: all_reachable_def demo_db_reachable)



text \<open>C19. In production, a user created later has a larger id, whatever happens in between: deletes,
  requests at the same time, requests that time out, outages and cleanups.\<close>

theorem user_ids_never_reused:
  assumes "pg_up env" "all_reachable (d # h)" "pg_create_user env first d = (Ok r, d1)" "run pg_step (d1 # d # h) es (d2 # h2)"
    and "pg_up env2" "pg_create_user env2 second d2 = (Ok r2, d3)"
  shows "ur_user_id r < ur_user_id r2"
  using assms by (rule ids_increase)

lemma user_ids_never_reused_witness:
  "\<exists>r r2 d1 d2 d3. pg_create_user demo_pg (new_user_named 8 ''carol'') demo_db = (Ok r, d1)
     \<and> run pg_step [d1, demo_db] [Swept 400] [d2, d1, demo_db]
     \<and> pg_create_user demo_pg (new_user_named 9 ''dave'') d2 = (Ok r2, d3) \<and> ur_user_id r < ur_user_id r2"
proof -
  let ?d1 = "snd (pg_create_user demo_pg (new_user_named 8 ''carol'') demo_db)"
  let ?d2 = "snd (pg_delete_expired_token_ids demo_pg 400 ?d1)"
  have "is_ok (fst (pg_create_user demo_pg (new_user_named 8 ''carol'') demo_db))"
    "is_ok (fst (pg_create_user demo_pg (new_user_named 9 ''dave'') ?d2))" by code_simp+
  then obtain r r2 where r: "pg_create_user demo_pg (new_user_named 8 ''carol'') demo_db = (Ok r, ?d1)"
    "pg_create_user demo_pg (new_user_named 9 ''dave'') ?d2 = (Ok r2, snd (pg_create_user demo_pg (new_user_named 9 ''dave'') ?d2))"
    unfolding is_ok_iff by (metis prod.collapse)
  have run: "run pg_step [?d1, demo_db] [Swept 400] [?d2, ?d1, demo_db]"
    by (rule run.more [where step = pg_step, OF pg_step.swept [OF demo_pg_works prod.collapse [symmetric]]]) simp
  from user_ids_never_reused [OF demo_pg_up demo_all_reachable r(1) run demo_pg_up r(2)] r run show ?thesis by blast
qed

text \<open>C20. In production, once a token id is claimed, every later claim of it, whatever its expiry and
  whatever happens to the server in between, is refused with a 400, until the id has expired and is cleaned up.\<close>

theorem token_id_claimed_once:
  assumes "pg_up pe" "all_reachable (d # h)" "svc_claim_token_id (pg_impl pe) env body d = (Ok u, d1)"
    "env_from_second env (ct_expires_at body) = Some x"
    and "run pg_step (d1 # d # h) es (d2 # h2)" "\<And>now. Swept now \<in> set es \<Longrightarrow> now < x"
    and "pg_up pe2" "ct_token_id again = ct_token_id body"
  shows "\<exists>e. fst (svc_claim_token_id (pg_impl pe2) env2 again d2) = Err e \<and> status_code e = 400"
  using assms by (rule claimed_once)

lemma token_id_claimed_once_witness:
  "\<exists>d1 d2 h2 e. svc_claim_token_id (pg_impl demo_pg) demo_env \<lparr> ct_token_id = ''t'', ct_expires_at = 500 \<rparr> demo_db = (Ok (), d1)
     \<and> (\<exists>es. run pg_step [d1, demo_db] es (d2 # h2) \<and> Swept 400 \<in> set es)
     \<and> fst (svc_claim_token_id (pg_impl demo_pg) demo_env \<lparr> ct_token_id = ''t'', ct_expires_at = 900 \<rparr> d2) = Err e
     \<and> status_code e = 400"
proof -
  have "pg_claim_token_id demo_pg ''t'' 500 demo_db = (Ok (), snd (pg_claim_token_id demo_pg ''t'' 500 demo_db))" by code_simp
  then have c: "svc_claim_token_id (pg_impl demo_pg) demo_env \<lparr> ct_token_id = ''t'', ct_expires_at = 500 \<rparr> demo_db
      = (Ok (), snd (pg_claim_token_id demo_pg ''t'' 500 demo_db))"
    by (auto simp: svc_claim_token_id_def from_unix_def demo_env_def MIN_UNIX_SECONDS_def Let_def split: prod.splits)
  obtain r r' d2 h2 where run: "run pg_step [snd (pg_claim_token_id demo_pg ''t'' 500 demo_db), demo_db]
    [Answered (loopback_server demo_env) delete_bob r, Dropped (loopback_server demo_env) delete_bob,
     Unreachable (loopback_server demo_env) delete_bob r', Swept 400] (d2 # h2)" using demo_run by blast
  have x: "env_from_second demo_env (ct_expires_at \<lparr> ct_token_id = ''t'', ct_expires_at = 500 \<rparr>) = Some 500"
    by (simp add: demo_env_def)
  have "\<exists>e. fst (svc_claim_token_id (pg_impl demo_pg) demo_env \<lparr> ct_token_id = ''t'', ct_expires_at = 900 \<rparr> d2) = Err e \<and> status_code e = 400"
    by (rule token_id_claimed_once [OF demo_pg_up demo_all_reachable c x run _ demo_pg_up]) simp_all
  with c run show ?thesis by (metis list.set_intros)
qed

text \<open>C21. While the database does not answer, no request changes a row, no request other than GET and
  HEAD is acknowledged (each gets an error or the answer for an unknown route), and the readiness probe
  answers 503.\<close>

theorem outage_changes_nothing:
  assumes "pg_down env = Some reason"
  shows "snd (serve (pg_impl env) sv rq d) = d
    \<and> (rq_method rq \<notin> {GET, HEAD} \<longrightarrow>
        fst (serve (pg_impl env) sv rq d) \<in> {fb_not_found (sv_fallbacks sv), fb_method_not_allowed (sv_fallbacks sv), fb_bad_path (sv_fallbacks sv)}
        \<or> (\<exists>e. fst (serve (pg_impl env) sv rq d) = error_reply e))
    \<and> (rq_path rq = READYZ_PATH \<and> rq_method rq = GET \<longrightarrow> rs_status (fst (serve (pg_impl env) sv rq d)) = 503)"
  using serve_down [OF assms] serve_down_refuses [OF assms] readyz_down [OF assms] by blast

lemma outage_changes_nothing_witness:
  "rs_status (fst (serve (pg_impl (demo_pg\<lparr> pg_down := Some ''timeout'' \<rparr>)) (loopback_server demo_env)
      (delete_bob\<lparr> rq_method := GET, rq_path := ''/readyz'' \<rparr>) demo_db)) = 503"
  using outage_changes_nothing [of "demo_pg\<lparr> pg_down := Some ''timeout'' \<rparr>" "''timeout''" "loopback_server demo_env"
      "delete_bob\<lparr> rq_method := GET, rq_path := ''/readyz'' \<rparr>" demo_db]
  by (simp add: READYZ_PATH_def)


text \<open>C23. After a start with a bootstrap file, every entry of the file is in the database, and a restart
  with the same file, later, with other nonces and against a database that answers, skips every entry and
  changes no row.\<close>

theorem restart_changes_nothing:
  assumes "pg_reachable d" "pg_works (st_pg se)" "pg_works (st_pg se')" "az_bootstrap_file c = Some path"
    and "st_read_to_string se' path = st_read_to_string se path" "st_parse_yaml se' = st_parse_yaml se"
    and "authz_start se c d = (Ok st, d')"
    and "start_checks se' c d' = Ok (v, secrets)" "start_plan se' secrets path = Ok plan'"
  shows "(\<exists>yaml bf. st_read_to_string se path = Some yaml \<and> read_file (st_parse_yaml se) yaml = Ok bf \<and> file_seeded bf d')
    \<and> (\<exists>d''. authz_start se' c d'
          = (Ok \<lparr> sd_verifier = v, sd_secrets = secrets, sd_report = Some (skipped_report plan') \<rparr>, d'')
        \<and> d'' = d'\<lparr> t_user_seq := t_user_seq d'' \<rparr>)"
  using restart [OF pg_reachable_ok [OF assms(1)] assms(2-9)] unfolding pg_idle_def by blast

lemma restart_changes_nothing_witness:
  "\<exists>st d' st' d''. authz_start first_start demo_authz_config empty_db = (Ok st, d') \<and> file_seeded demo_file d'
     \<and> authz_start second_start demo_authz_config d' = (Ok st', d'') \<and> d'' = d'\<lparr> t_user_seq := t_user_seq d'' \<rparr>"
proof -
  obtain st d' where start: "authz_start first_start demo_authz_config empty_db = (Ok st, d')"
    using first_start_ok by (cases "authz_start first_start demo_authz_config empty_db") (auto simp: is_ok_iff)
  obtain v where checks: "start_checks second_start demo_authz_config d' = Ok (v, demo_box)"
    unfolding second_start_def using demo_checks by blast
  obtain plan where plan: "start_plan second_start demo_box ''/etc/bootstrap.yaml'' = Ok plan"
    unfolding second_start_def demo_start_plan using demo_boot_again by (auto simp: is_ok_iff)
  have same: "az_bootstrap_file demo_authz_config = Some ''/etc/bootstrap.yaml''"
    "st_read_to_string second_start ''/etc/bootstrap.yaml'' = st_read_to_string first_start ''/etc/bootstrap.yaml''"
    "st_parse_yaml second_start = st_parse_yaml first_start"
    by (simp_all add: demo_authz_config_def first_start_def second_start_def demo_start_at_def)
  have file_is: "bf = demo_file" if "st_read_to_string first_start ''/etc/bootstrap.yaml'' = Some yaml"
    "read_file (st_parse_yaml first_start) yaml = Ok bf" for yaml bf
    using that demo_not_blank by (auto simp: first_start_def demo_start_at_def read_file_def)
  show ?thesis
    using restart_changes_nothing [OF pg_reachable.init start_works same start checks plan] start file_is by blast
qed

section \<open>Logins\<close>

text \<open>
  The identity provider and the authorization server are different machines: redeeming a code or
  fetching keys keeps the directory valid.
\<close>

definition provider_keeps_directory :: "(inner, 'm, 'c, 'k) app \<Rightarrow> bool" where
  "provider_keeps_directory ap \<longleftrightarrow>
     (\<forall>d code pkce uri s. directory_valid s \<longrightarrow> directory_valid (snd (exchange_code (ap_token_endpoint ap) d code pkce uri s)))
     \<and> (\<forall>b s. directory_valid s \<longrightarrow> directory_valid (snd (discover_once (ap_oidc_env ap) b s)))"

lemma verified_claims_keeps_directory:
  assumes "provider_keeps_directory ap" "directory_valid (snd w)"
  shows "directory_valid (snd (snd (verified_claims ap d code pkce uri nonce refused w)))"
proof (rule verified_claims_keeps)
  show "directory_valid (snd w)" by (rule assms(2))
qed (use assms(1) in \<open>simp_all add: provider_keeps_directory_def\<close>)

text \<open>C24. A session cookie is only set by a callback that answers the browser's own login: the
  state is the stored one, the ID token passed the check under the stored nonce, its claims satisfy the
  configured requirements, and the cookie carries a login token for the user that the authorization
  server holds under the subject of that ID token when the callback returns.\<close>

theorem session_cookie_identifies_user:
  assumes "client_server ce ac sv" "ap_directory ap = client_api ce ac" "provider_keeps_directory ap" "directory_valid (snd w)"
    and "RawSetCookie ck \<in> set (bw_cookies (fst (callback ap stored query w)))"
  shows "\<exists>flow raw claims subject u token. stored_flow ap stored = Some flow \<and> cq_state query = Some (fs_state flow)
    \<and> (\<exists>client. ap_check ap client (nonce_accepts (ExpectedNonce (fs_nonce flow))) raw = Ok ())
    \<and> ap_payload ap raw = Ok claims \<and> validate_claims (ap_compact ap) claims (cf_validate_claims (ap_cfg ap)) = Ok ()
    \<and> claim_text (ap_compact ap) claims ''sub'' = Some subject
    \<and> directory_user (snd (snd (callback ap stored query w))) subject = Some u
    \<and> (\<exists>now. mint_login_token_at (ap_sign ap) (ap_jti ap (snd (snd (callback ap stored query w)))) (ap_jwt_key ap) (u_username u)
          (effective_session_ttl (ap_cfg ap)) now = Ok token
        \<and> session_login (ap_b64 ap) (ap_session ap) token now = Ok ck)"
proof -
  note dir = client_server.client_directory [OF assms(1)]
  obtain flow d outcome where cb: "state_matches (stored_flow ap stored) (cq_state query)" "stored_flow ap stored = Some flow"
      "finish_login ap d flow (cq_code query) w = (Ok outcome, snd (callback ap stored query w))" "ck = lo_session_cookie outcome"
    by (rule callback_session [OF assms(5)])
  obtain c claims e w1 token where f:
    "verified_claims ap d c (Some (fs_pkce_verifier flow)) None (ExpectedNonce (fs_nonce flow)) Forbidden w =
       (Ok (claims, lo_raw_id_token outcome), w1)"
    "provision_in ap claims w1 = (Ok e, snd (callback ap stored query w))"
    "mint_login_token_at (ap_sign ap) (ap_jti ap (snd (snd (callback ap stored query w)))) (ap_jwt_key ap) (u_username (en_user e))
       (effective_session_ttl (ap_cfg ap)) (ap_unix_now ap (snd (snd (callback ap stored query w)))) = Ok token"
    "session_login (ap_b64 ap) (ap_session ap) token (ap_unix_now ap (snd (snd (callback ap stored query w)))) = Ok (lo_session_cookie outcome)"
    by (rule finish_login_Ok [OF cb(3)])
  have v: "directory_valid (snd w1)"
    using verified_claims_keeps_directory [OF assms(3,4), of d c "Some (fs_pkce_verifier flow)" None "ExpectedNonce (fs_nonce flow)" Forbidden]
      f(1) by simp
  have p: "provision_user (ap_compact ap) (client_api ce ac) (ap_provision ap) claims (snd w1)
      = (Ok e, snd (snd (callback ap stored query w)))"
    using f(2) assms(2)
    by (cases "snd (callback ap stored query w)") (auto simp: provision_in_def map_err_Ok_iff split: prod.splits)
  then obtain subject where subject: "claim_text (ap_compact ap) claims ''sub'' = Some subject"
    by (cases "claim_text (ap_compact ap) claims ''sub''") (simp_all add: provision_user_unfold)
  obtain u where "directory_user (snd (snd (callback ap stored query w))) subject = Some u" "u_username u = u_username (en_user e)"
    using user_directory.provision_outcome [OF dir v subject p] by auto
  with subject cb f(3,4) verified_claims_Ok(1,2) [OF f(1)] show ?thesis
    by (fastforce simp: state_matches_def split: option.splits)
qed

lemma session_cookie_identifies_user_witness:
  "\<exists>ck flow raw claims subject u token now. RawSetCookie ck \<in> set (bw_cookies (fst (callback demo_app (Some ''st'') demo_query (ready_provider, demo_store))))
    \<and> stored_flow demo_app (Some ''st'') = Some flow \<and> ap_payload demo_app raw = Ok claims
    \<and> claim_text (ap_compact demo_app) claims ''sub'' = Some subject
    \<and> directory_user (snd (snd (callback demo_app (Some ''st'') demo_query (ready_provider, demo_store)))) subject = Some u
    \<and> session_login (ap_b64 demo_app) (ap_session demo_app) token now = Ok ck"
proof -
  obtain ck where ck: "RawSetCookie ck \<in> set (bw_cookies (fst (callback demo_app (Some ''st'') demo_query (ready_provider, demo_store))))"
    using demo_callback by blast
  have k: "provider_keeps_directory demo_app"
    by (simp add: provider_keeps_directory_def exchange_code_def) (simp add: demo_app_def discover_once_def)
  have v: "directory_valid (snd (ready_provider, demo_store))" by (simp add: demo_directory_valid)
  from session_cookie_identifies_user [OF loopback.client_server_axioms demo_app_simps(3) k v ck] ck show ?thesis
    by blast
qed

text \<open>C25. Over the connected servers, a login after a login of the same subject creates no second
  user: it ends with the user the first one found or created.\<close>

theorem second_login_same_user:
  assumes "client_server ce ac sv" "directory_valid s" "claim_text compact claims ''sub'' = Some subject"
    and "provision_user compact (client_api ce ac) st claims s = (Ok e, s')"
  shows "\<exists>e2 s2. provision_user compact (client_api ce ac) st claims s' = (Ok e2, s2) \<and> \<not> en_created e2
    \<and> u_username (en_user e2) = u_username (en_user e)"
  by (rule user_directory.provision_again [OF client_server.client_directory [OF assms(1)] assms(2-4)])

lemma second_login_same_user_witness:
  "\<exists>e2 s2. provision_user (\<lambda>_. []) demo_api demo_settings demo_claims demo_store = (Ok e2, s2) \<and> \<not> en_created e2
    \<and> u_username (en_user e2) = ''bob''"
  using second_login_same_user [OF loopback.client_server_axioms demo_directory_valid demo_subject demo_provision]
  by (simp add: demo_users bt_get_def user_to_wire_def)

text \<open>C26. A login that creates a user adds exactly the requested groups that exist to its
  memberships, and nobody else's change.\<close>

theorem new_user_joins_existing_groups:
  assumes "client_server ce ac sv" "directory_valid s" "trim (eu_external_id spec) \<noteq> []"
    and "ensure_user (client_api ce ac) spec s = (Ok e, s')" "en_created e"
  shows "set (in_group_members s') = set (in_group_members s)
    \<union> {(g, u_username (en_user e)) | g. g \<in> set (eu_groups spec) \<and> bt_get (in_groups s) g \<noteq> None}"
  using user_directory.ensure_user_joins [OF client_server.client_directory [OF assms(1)] assms(2-5)]
  by (simp add: directory_members_def directory_has_group_def)

lemma new_user_joins_existing_groups_witness:
  "\<exists>e s'. ensure_user demo_api demo_spec demo_store = (Ok e, s') \<and> (''Admins'', u_username (en_user e)) \<in> set (in_group_members s')"
proof -
  obtain e s' where e: "ensure_user demo_api demo_spec demo_store = (Ok e, s')" "en_created e" using demo_new_user by blast
  have "trim (eu_external_id demo_spec) \<noteq> []" by (simp add: demo_spec_def ascii_simps)
  from new_user_joins_existing_groups [OF loopback.client_server_axioms demo_directory_valid this e]
  have "(''Admins'', u_username (en_user e)) \<in> set (in_group_members s')"
    using demo_has_admins by (simp add: demo_spec_def)
  with e show ?thesis by blast
qed



text \<open>C28. A login that is dropped, by the timeout or a browser that went away, at whichever call
  to the authorization server, leaves the directory as it was or as the completed login leaves it: never a user
  without its groups.  The task that creates the user outlives the request.\<close>

theorem dropped_login_never_half_done:
  assumes "client_server ce ac sv" "directory_valid s"
  shows "dropped_login compact (client_api ce ac) st claims calls s
    \<in> {s, snd (provision_user compact (client_api ce ac) st claims s)}"
  by (rule dropped_login_state)
    (simp add: user_directory.find_external [OF client_server.client_directory [OF assms(1)] assms(2)])

lemma dropped_login_never_half_done_witness:
  "dropped_login (\<lambda>_. []) demo_api demo_settings [(''sub'', JStr ''sub-9'')] 2 demo_store
    \<in> {demo_store, snd (provision_user (\<lambda>_. []) demo_api demo_settings [(''sub'', JStr ''sub-9'')] demo_store)}"
  by (rule dropped_login_never_half_done [OF loopback.client_server_axioms demo_directory_valid])

text \<open>C29. A first login whose groups contain a name the API cannot address, a path such as
  \<open>/admins\<close>, fails and leaves no user, although a group that does not exist is skipped.\<close>

theorem unaddressable_group_refuses_login:
  assumes "client_server ce ac sv" "directory_valid s" "claim_text compact claims ''sub'' = Some subject"
    and "directory_user s subject = None" "g \<in> set (resolve_groups st claims)" "\<not> entity_id_ok g"
  shows "\<exists>e s'. provision_user compact (client_api ce ac) st claims s = (Err e, s') \<and> directory_user s' subject = None"
  by (rule user_directory.provision_unaddressable_group [OF client_server.client_directory [OF assms(1)] assms(2-6)])

lemma unaddressable_group_refuses_login_witness:
  "\<exists>e s'. provision_user (\<lambda>_. []) demo_api (demo_settings\<lparr> ps_groups_claim := None, ps_initial_groups := [''/admins''] \<rparr>)
      [(''sub'', JStr ''sub-9'')] demo_store = (Err e, s') \<and> directory_user s' ''sub-9'' = None"
proof (rule unaddressable_group_refuses_login [OF loopback.client_server_axioms demo_directory_valid, where g = "''/admins''"])
  show "claim_text (\<lambda>_. []) [(''sub'', JStr ''sub-9'')] ''sub'' = Some ''sub-9''"
    by (simp add: claim_text_def bt_get_def flatten_value_def ascii_simps)
qed (simp_all add: demo_unknown resolve_groups_def entity_ids)





text \<open>C32. The login of an SDK client whose redirect URI is not on the allow list is refused before any
  code is redeemed, and changes nothing; a redirect URI that passes without being listed literally is a
  loopback address that differs from a listed one in its port only.\<close>

theorem sts_serves_listed_clients_only:
  "(\<not> redirect_uri_allowed (ap_parse_url ap) (cf_sts_allowed_redirect_uris (ap_cfg ap)) (sr_redirect_uri request)
      \<longrightarrow> (\<exists>e. sts_login ap request w = (Err e, w) \<and> status_code e \<in> {400, 503}))
   \<and> (redirect_uri_allowed parse allowed candidate \<and> candidate \<notin> set allowed
      \<longrightarrow> (\<exists>entry \<in> set allowed. \<exists>e c. parse entry = Some e \<and> parse candidate = Some c \<and> url_host c \<in> Some ` set loopback_hosts
            \<and> url_host c = url_host e \<and> url_port e = None \<and> url_scheme c = url_scheme e \<and> url_path c = url_path e
            \<and> url_query c = url_query e))"
  by (intro conjI impI sts_refuses_redirect redirect_uri_allowed_cases) blast+

lemma sts_serves_listed_clients_only_witness:
  "\<exists>e. sts_login demo_app \<lparr> sr_code = ''c'', sr_state = [], sr_redirect_uri = ''http://evil'' \<rparr> (ready_provider, demo_store)
     = (Err e, (ready_provider, demo_store))"
proof -
  have "\<not> redirect_uri_allowed (ap_parse_url demo_app) (cf_sts_allowed_redirect_uris (ap_cfg demo_app)) ''http://evil''"
    by (simp add: redirect_uri_allowed_def loopback_matches_def demo_config_def)
  then show ?thesis
    using conjunct1 [OF sts_serves_listed_clients_only, of demo_app "\<lparr> sr_code = ''c'', sr_state = [], sr_redirect_uri = ''http://evil'' \<rparr>"]
    by auto
qed

text \<open>C33. Under the strict group map every group of a login is the image of a group the ID token
  claims, listed once and in order; what the token says outside the map grants nothing.\<close>

theorem strict_groups_come_from_the_map:
  assumes "ps_groups_claim st = Some name" "bt_get claims name = Some raw" "read_groups_claim raw = Some parsed"
    and "ps_group_map_strict st"
  shows "set (resolve_groups st claims) = {g'. \<exists>g \<in> set (groups_claim_values parsed). bt_get (ps_group_map st) g = Some g'}
    \<and> sorted (resolve_groups st claims) \<and> distinct (resolve_groups st claims)"
proof -
  have "map_group st g = Some g' \<longleftrightarrow> bt_get (ps_group_map st) g = Some g'" for g g'
    using assms(4) by (auto simp: map_group_def split: option.splits)
  then show ?thesis using resolve_groups_claim [OF assms(1-3)] assms(4) by auto
qed

lemma strict_groups_come_from_the_map_witness:
  "set (resolve_groups (demo_settings\<lparr> ps_group_map := [(''Admins'', ''Viewers'')], ps_group_map_strict := True \<rparr>) demo_claims) = {''Viewers''}"
proof -
  let ?st = "demo_settings\<lparr> ps_group_map := [(''Admins'', ''Viewers'')], ps_group_map_strict := True \<rparr>"
  have v: "groups_claim_values (GroupList [''Admins'', ''Nobody'']) = [''Admins'', ''Nobody'']"
    by (simp add: non_blank_def ascii_simps Let_def List.map_filter_simps)
  have "ps_groups_claim ?st = Some ''groups''" "bt_get demo_claims ''groups'' = Some (JArr [JStr ''Admins'', JStr ''Nobody''])"
    "read_groups_claim (JArr [JStr ''Admins'', JStr ''Nobody'']) = Some (GroupList [''Admins'', ''Nobody''])" "ps_group_map_strict ?st"
    by (simp_all add: demo_settings_def demo_claims_def bt_get_def read_groups_claim_def is_string_def as_str_def List.map_filter_simps)
  from strict_groups_come_from_the_map [OF this] show ?thesis
    unfolding v by (auto simp: demo_settings_def bt_get_def)
qed

section \<open>Tokens and cookies\<close>

text \<open>C34. A session cookie is read back as the token it was issued for, at any later time within the
  codec's maximal age.\<close>

theorem session_cookie_round_trip:
  assumes "base64_ok b64" "session_login b64 sc token now = Ok cookie"
    and "str_ok token" "length token < 2 ^ 62" "i64_min \<le> now" "now \<le> i64_max"
    and "cc_max_age (sc_codec sc) = 0 \<or> later - cc_max_age (sc_codec sc) \<le> now"
  shows "session_read b64 sc (ck_value cookie) later = Ok token"
  using assms by (rule session_login_read)

lemma session_cookie_round_trip_witness:
  "\<exists>cookie. session_login hex64 (ap_session demo_app) ''tok'' 60 = Ok cookie
     \<and> session_read hex64 (ap_session demo_app) (ck_value cookie) 3000 = Ok ''tok''"
proof -
  obtain cookie where c: "session_login hex64 (ap_session demo_app) ''tok'' 60 = Ok cookie"
    by (simp add: session_login_def encode_at_def Let_def)
  have "session_read hex64 (ap_session demo_app) (ck_value cookie) 3000 = Ok ''tok''"
    by (rule session_cookie_round_trip [OF hex64_ok c])
      (simp_all add: str_ok_def byte_of_def i64_min_def i64_max_def, simp add: demo_app_def)
  with c show ?thesis by blast
qed

text \<open>C35. A cookie is accepted only when it carries the MAC of its name, timestamp and value under the
  server's key, within its age: what cannot compute the MAC cannot produce a cookie, and a cookie issued
  under one name is not accepted under another.\<close>

theorem cookies_are_authentic:
  assumes "decode_at b64 c name cookie now = Ok plain"
  shows "\<exists>ts enc issued.
    b64_decode b64 (as_bytes cookie) = Some (ts @ pipe # enc @ pipe # cc_mac c (as_bytes name @ [pipe] @ ts @ [pipe] @ enc))
    \<and> Option.bind (from_utf8 ts) parse_i64 = Some issued \<and> (cc_max_age c = 0 \<or> now - cc_max_age c \<le> issued)
    \<and> b64_decode b64 enc = Some plain"
  using decode_at_authentic [OF assms] by metis

lemma cookies_are_authentic_witness:
  "\<exists>cookie ts enc issued. b64_decode hex64 (as_bytes cookie)
      = Some (ts @ pipe # enc @ pipe # cc_mac (sc_codec (ap_session demo_app)) (as_bytes ''n'' @ [pipe] @ ts @ [pipe] @ enc))
     \<and> Option.bind (from_utf8 ts) parse_i64 = Some issued \<and> b64_decode hex64 enc = Some [1, 2]"
proof -
  obtain cookie where c: "encode_at hex64 (sc_codec (ap_session demo_app)) ''n'' [1, 2] 60 = Ok cookie"
    by (simp add: encode_at_def Let_def)
  have "decode_at hex64 (sc_codec (ap_session demo_app)) ''n'' cookie 70 = Ok [1, 2]"
    by (rule decode_encode_at [OF hex64_ok c]) (simp_all add: i64_min_def i64_max_def, simp add: demo_app_def)
  from cookies_are_authentic [OF this] show ?thesis by blast
qed

section \<open>The identity provider and the client\<close>





text \<open>C38. A call of the client sends its request, unchanged but for the bearer, at most once more than the
  configured number of retries; a POST is sent at most once unless the connection itself failed.\<close>

theorem requests_are_bounded:
  assumes "send_with_retry (recorded ce) ac rq 0 (s, []) = (r, (s', log))"
  shows "length log \<le> Suc (ac_max_retries ac) \<and> (\<forall>x \<in> set log. \<exists>t. x = with_bearer t rq)
    \<and> (rq_method rq = POST \<and> (\<forall>rq s e. fst (ce_send ce rq s) = Err e \<longrightarrow> \<not> te_is_connect e) \<longrightarrow> length log \<le> 1)"
  using send_with_retry_bound [OF assms] send_with_retry_post [OF _ _ assms] by auto

lemma requests_are_bounded_witness:
  "length (snd (snd (send_with_retry (recorded (loopback_env (loopback_server demo_env))) loopback_client
      (delete_bob\<lparr> rq_method := POST \<rparr>) 0 (demo_store, [])))) \<le> 1"
proof -
  let ?c = "send_with_retry (recorded (loopback_env (loopback_server demo_env))) loopback_client (delete_bob\<lparr> rq_method := POST \<rparr>) 0 (demo_store, [])"
  have "?c = (fst ?c, (fst (snd ?c), snd (snd ?c)))" by simp
  from requests_are_bounded [OF this] show ?thesis by (simp add: loopback_env_def)
qed

section \<open>The policy builder\<close>



section \<open>Validation\<close>

text \<open>C40. A policy passes validation exactly when its name is a usable identifier and it has statements, each
  with actions of a known service and a resource that is \<open>*\<close>, an ARN, or a JSON list of those; an ARN names a
  service and a resource after any region and account. Every refusal is a 400.\<close>

theorem accepted_policies:
  "(validate_policy parse_list name ss = Ok () \<longleftrightarrow> entity_id_ok name \<and> ss \<noteq> [] \<and> (\<forall>s \<in> set ss. st_action s \<noteq> []
      \<and> (\<forall>a \<in> set (st_action s). \<exists>service verb. a = service @ CHR '':'' # verb \<and> service \<in> set SERVICES \<and> verb \<noteq> [] \<and> CHR '':'' \<notin> set verb)
      \<and> (st_resource s = ''*'' \<or> (if starts_with ''['' (st_resource s) \<and> ends_with '']'' (st_resource s)
          then \<exists>items. parse_list (st_resource s) = Ok items \<and> items \<noteq> [] \<and> (\<forall>i \<in> set items. i = ''*'' \<or> arn_ok i)
          else arn_ok (st_resource s)))))
   \<and> (arn_ok arn \<longleftrightarrow> (\<exists>service region account resource.
        arn = ''arn:lakefs:'' @ service @ '':'' @ region @ '':'' @ account @ '':'' @ resource
        \<and> CHR '':'' \<notin> set (service @ region @ account) \<and> service \<noteq> [] \<and> resource \<noteq> []))
   \<and> (\<forall>e. validate_policy parse_list name ss = Err e \<longrightarrow> status_code e = 400)"
  using validate_policy_status [of parse_list name ss] arn_ok_iff [of arn]
  by (auto simp: validate_policy_iff statement_ok_def is_ok_iff validate_action_iff validate_resource_iff)

lemma accepted_policies_witness:
  "\<exists>e. validate_policy (\<lambda>_. Err []) ''p'' [] = Err e \<and> status_code e = 400"
proof -
  have "validate_policy (\<lambda>_. Err []) ''p'' [] \<noteq> Ok ()" by (simp add: validate_policy_iff)
  then obtain e where e: "validate_policy (\<lambda>_. Err []) ''p'' [] = Err e" by (cases "validate_policy (\<lambda>_. Err []) ''p'' []") auto
  with accepted_policies [of "\<lambda>_. Err []" "''p''" "[]" "[]"] show ?thesis by blast
qed

text \<open>What the catalog offers the validator accepts: every action of the catalog is valid, with a
  known service and at least one kind of resource; and whatever is filled into the template of a kind, the
  result is a valid resource.\<close>

lemma catalog_agrees_with_validation:
  "list_all (\<lambda>a. is_ok (validate_action (as_name a)) \<and> action_service a \<in> set SERVICES \<and> as_resources a \<noteq> []) ACTIONS
   \<and> distinct (map as_name ACTIONS) \<and> set (map action_service ACTIONS) = set SERVICES
   \<and> validate_resource parse_list (fill_template f (kind_template k)) = Ok ()"
  using actions_ok action_names_distinct services_covered filled_template_accepted
  by (auto simp: list_all_iff action_spec_ok_def)

end
